(* ===== verification/TG_Prelude.thy ===== *)
theory TG_Prelude
  imports Complex_Main "HOL-Library.Word" "HOL-Library.Char_ord" "HOL-Library.List_Lexorder"
    "HOL-Library.Sublist"
begin

text \<open>
  Shared vocabulary of the development: Go's byte strings, 64-bit integers and their big-endian
  bytes, the three ways a Go call can end (a value, a returned error, a panic), and the generic
  lemmas on them that the component theories use through the collections declared here.

  A Go \<open>string\<close> and a Go \<open>[]byte\<close> are both sequences of bytes; \<^typ>\<open>char\<close> is HOL's
  8-bit character, so both are \<^typ>\<open>string\<close> and the conversions \<open>[]byte(s)\<close> and
  \<open>string(b)\<close> are the identity. Byte order on them (the order a badger iterator follows) is
  the lexicographic order of HOL-Library.
\<close>

type_synonym bytes = string
type_synonym u64 = "64 word"
type_synonym u32 = "32 word"
type_synonym goerr = string

named_theorems res_simps
named_theorems inv_intros


section \<open>Results of Go calls\<close>

text \<open>\<open>Ok\<close> is a normal return, \<open>Err\<close> a returned non-nil error, \<open>Panic\<close> a panic.\<close>

datatype 'a res = Ok 'a | Err goerr | Panic string

primrec rbind :: "'a res \<Rightarrow> ('a \<Rightarrow> 'b res) \<Rightarrow> 'b res" where
  "rbind (Ok x) f = f x"
| "rbind (Err e) f = Err e"
| "rbind (Panic e) f = Panic e"

text \<open>The idiom \<open>if err != nil { panic(err) }\<close> after a call.\<close>

primrec must :: "'a res \<Rightarrow> 'a res" where
  "must (Ok x) = Ok x"
| "must (Err e) = Panic e"
| "must (Panic e) = Panic e"

definition of_option :: "'a res \<Rightarrow> 'a option \<Rightarrow> 'a res" where
  "of_option d x = (case x of None \<Rightarrow> d | Some y \<Rightarrow> Ok y)"

primrec is_Panic :: "'a res \<Rightarrow> bool" where
  "is_Panic (Ok x) = False"
| "is_Panic (Err e) = False"
| "is_Panic (Panic e) = True"

text \<open>A Go \<open>for range\<close> loop whose body threads a state and can fail.\<close>

fun rfold :: "('s \<Rightarrow> 'a \<Rightarrow> 's res) \<Rightarrow> 's \<Rightarrow> 'a list \<Rightarrow> 's res" where
  "rfold f s [] = Ok s"
| "rfold f s (x # xs) = rbind (f s x) (\<lambda>t. rfold f t xs)"

fun rmap :: "('a \<Rightarrow> 'b res) \<Rightarrow> 'a list \<Rightarrow> 'b list res" where
  "rmap f [] = Ok []"
| "rmap f (x # xs) = rbind (f x) (\<lambda>y. rbind (rmap f xs) (\<lambda>ys. Ok (y # ys)))"


section \<open>Big-endian integers\<close>

text \<open>\<open>binary.BigEndian.PutUint64\<close> and \<open>Uint64\<close>, for any number of bytes.\<close>

fun be_bytes :: "nat \<Rightarrow> nat \<Rightarrow> bytes" where
  "be_bytes 0 n = []"
| "be_bytes (Suc k) n = char_of (n div 256 ^ k) # be_bytes k n"

fun be_nat :: "bytes \<Rightarrow> nat" where
  "be_nat [] = 0"
| "be_nat (c # cs) = of_char c * 256 ^ length cs + be_nat cs"

definition putUint64 :: "u64 \<Rightarrow> bytes" where
  "putUint64 n = be_bytes 8 (unat n)"

text \<open>\<open>BigEndian.Uint64\<close> reads the first eight bytes and panics on a shorter slice.\<close>

definition getUint64 :: "bytes \<Rightarrow> u64 res" where
  "getUint64 b = (if length b < 8 then Panic ''index out of range''
                  else Ok (word_of_nat (be_nat (take 8 b))))"

text \<open>\<open>strings.Contains\<close> and \<open>strings.HasPrefix\<close>.\<close>

fun str_contains :: "string \<Rightarrow> string \<Rightarrow> bool" where
  "str_contains [] p = (p = [])"
| "str_contains (c # cs) p = (take (length p) (c # cs) = p \<or> str_contains cs p)"

definition has_prefix :: "string \<Rightarrow> string \<Rightarrow> bool" where
  "has_prefix p s \<longleftrightarrow> take (length p) s = p"


section \<open>Lemmas on results\<close>

lemma rbind_Ok_iff [simp]: "rbind m f = Ok y \<longleftrightarrow> (\<exists>x. m = Ok x \<and> f x = Ok y)"
  by (cases m) auto

lemma rbind_Err_iff [res_simps]:
  "rbind m f = Err e \<longleftrightarrow> m = Err e \<or> (\<exists>x. m = Ok x \<and> f x = Err e)"
  by (cases m) auto

lemma rbind_Panic_iff [res_simps]:
  "rbind m f = Panic e \<longleftrightarrow> m = Panic e \<or> (\<exists>x. m = Ok x \<and> f x = Panic e)"
  by (cases m) auto

lemma must_Ok_iff [simp]: "must m = Ok x \<longleftrightarrow> m = Ok x"
  by (cases m) auto

lemma rbind_Ok_right [simp]: "rbind m Ok = m"
  by (cases m) auto

lemma rbind_assoc: "rbind (rbind m f) g = rbind m (\<lambda>x. rbind (f x) g)"
  by (cases m) auto

lemma rbind_cong [fundef_cong]:
  "m = m' \<Longrightarrow> (\<And>x. m' = Ok x \<Longrightarrow> f x = g x) \<Longrightarrow> rbind m f = rbind m' g"
  by (cases m') auto

lemma of_option_Ok_iff [simp]:
  "of_option (Err e) x = Ok y \<longleftrightarrow> x = Some y" "of_option (Panic e) x = Ok y \<longleftrightarrow> x = Some y"
  by (auto simp: of_option_def split: option.splits)

lemma of_option_Some [simp]: "of_option d (Some x) = Ok x"
  by (simp add: of_option_def)

lemma rfold_append [simp]: "rfold f s (xs @ ys) = rbind (rfold f s xs) (\<lambda>t. rfold f t ys)"
  by (induction xs arbitrary: s) (auto simp: rbind_assoc)

text \<open>An invariant kept by every iteration is kept by the loop.\<close>

lemma rfold_invariant:
  assumes "\<And>s x t. x \<in> set xs \<Longrightarrow> P s \<Longrightarrow> f s x = Ok t \<Longrightarrow> P t" and "P s" and "rfold f s xs = Ok t"
  shows "P t"
  using assms by (induction xs arbitrary: s) auto

lemma rmap_Ok_length: "rmap f xs = Ok ys \<Longrightarrow> length ys = length xs"
  by (induction xs arbitrary: ys) auto

lemma rmap_Ok_nth: "rmap f xs = Ok ys \<Longrightarrow> i < length xs \<Longrightarrow> f (xs ! i) = Ok (ys ! i)"
proof (induction xs arbitrary: ys i)
  case (Cons x xs)
  then show ?case by (cases i) auto
qed simp


section \<open>Lemmas on bytes and byte order\<close>

lemma length_be_bytes [simp]: "length (be_bytes k n) = k"
  by (induction k) auto

lemma be_bytes_mod [simp]: "be_bytes k (n mod 256 ^ k) = be_bytes k n"
proof -
  have "be_bytes j (n mod 256 ^ k) = be_bytes j n" if "j \<le> k" for j
    using that
  proof (induction j)
    case (Suc j)
    have split: "(256::nat) ^ k = 256 ^ j * 256 ^ (k - j)"
      using Suc.prems by (simp flip: power_add)
    have "n mod 256 ^ k div 256 ^ j = n div 256 ^ j mod 256 ^ (k - j)"
      by (simp add: split mod_mult2_eq)
    moreover have "256 dvd (256::nat) ^ (k - j)"
      using Suc.prems by (simp add: dvd_power)
    ultimately have "(n mod 256 ^ k div 256 ^ j) mod 256 = n div 256 ^ j mod 256"
      by (simp add: mod_mod_cancel)
    then have "char_of (n mod 256 ^ k div 256 ^ j) = (char_of (n div 256 ^ j) :: char)"
      by (metis char_of_mod_256)
    then show ?case using Suc by simp
  qed simp
  then show ?thesis by simp
qed

lemma be_nat_be_bytes: "be_nat (be_bytes k n) = n mod 256 ^ k"
proof (induction k)
  case (Suc k)
  have "n mod 256 ^ Suc k = 256 ^ k * (n div 256 ^ k mod 256) + n mod 256 ^ k"
    by (metis mod_mult2_eq mult.commute power_Suc2)
  then show ?case using Suc by (simp add: mult.commute)
qed simp

lemma be_bytes_inj: "n < 256 ^ k \<Longrightarrow> m < 256 ^ k \<Longrightarrow> be_bytes k n = be_bytes k m \<longleftrightarrow> n = m"
  by (metis be_nat_be_bytes mod_less)

lemma less_iff_div_mod:
  "(n::nat) < m \<longleftrightarrow> n div p < m div p \<or> n div p = m div p \<and> n mod p < m mod p"
proof -
  have n: "n = n div p * p + n mod p" and m: "m = m div p * p + m mod p"
    by simp_all
  show ?thesis
  proof (cases "n div p" "m div p" rule: linorder_cases)
    case less
    then have "n < m" by (metis div_le_mono leD leI)
    with less show ?thesis by simp
  next
    case equal
    with n m show ?thesis by (metis nat_add_left_cancel_less nat_less_le)
  next
    case greater
    then have "\<not> n < m" by (metis div_le_mono leD less_imp_le)
    with greater show ?thesis by simp
  qed
qed

text \<open>Byte order on fixed-width big-endian bytes is numeric order.\<close>

lemma be_bytes_less: "n < 256 ^ k \<Longrightarrow> m < 256 ^ k \<Longrightarrow> be_bytes k n < be_bytes k m \<longleftrightarrow> n < m"
proof (induction k arbitrary: n m)
  case (Suc k)
  let ?p = "(256::nat) ^ k"
  have q: "n div ?p < 256" "m div ?p < 256"
    using Suc.prems by (auto simp: less_mult_imp_div_less)
  have hd_less: "(char_of (n div ?p) :: char) < char_of (m div ?p) \<longleftrightarrow> n div ?p < m div ?p"
    using q by (simp add: less_char_def)
  have hd_eq: "(char_of (n div ?p) :: char) = char_of (m div ?p) \<longleftrightarrow> n div ?p = m div ?p"
    using q by (metis of_char_of mod_less)
  have tl: "be_bytes k n < be_bytes k m \<longleftrightarrow> n mod ?p < m mod ?p"
    using Suc.IH [of "n mod ?p" "m mod ?p"] by simp
  show ?case
    by (simp only: be_bytes.simps Cons_less_Cons hd_less hd_eq tl less_iff_div_mod [of n m ?p])
qed simp

lemma length_putUint64 [simp]: "length (putUint64 n) = 8"
  by (simp add: putUint64_def)

lemma unat_u64_less: "unat (n :: u64) < 256 ^ 8"
proof -
  have "unat n < 2 ^ LENGTH(64)" by (rule unsigned_less)
  then show ?thesis by simp
qed

lemma putUint64_inj [simp]: "putUint64 n = putUint64 m \<longleftrightarrow> n = m"
  unfolding putUint64_def using be_bytes_inj [OF unat_u64_less unat_u64_less]
  by (metis word_unat_eq_iff)

lemma putUint64_less [simp]: "putUint64 n < putUint64 m \<longleftrightarrow> n < m"
  unfolding putUint64_def by (simp add: be_bytes_less [OF unat_u64_less unat_u64_less] word_less_nat_alt)

lemma getUint64_putUint64 [simp]: "getUint64 (putUint64 n @ r) = Ok n"
proof -
  have "be_nat (putUint64 n) = unat n"
    unfolding putUint64_def using unat_u64_less by (simp add: be_nat_be_bytes del: be_bytes.simps)
  then show ?thesis by (simp add: getUint64_def)
qed

lemma getUint64_putUint64' [simp]: "getUint64 (putUint64 n) = Ok n"
  using getUint64_putUint64 [of n "[]"] by simp

lemma has_prefix_iff: "has_prefix p s \<longleftrightarrow> (\<exists>r. s = p @ r)"
  unfolding has_prefix_def by (metis append_eq_conv_conj append_take_drop_id)

lemma has_prefix_append [simp]: "has_prefix p (p @ r)"
  by (simp add: has_prefix_def)

lemma append_same_less [simp]: "(xs @ ys < xs @ zs) = (ys < (zs :: 'a :: linorder list))"
  by (induction xs) auto

lemma append_same_le [simp]: "(xs @ ys \<le> xs @ zs) = (ys \<le> (zs :: 'a :: linorder list))"
  by (induction xs) auto

lemma prefix_le: "(xs :: 'a :: linorder list) \<le> xs @ ys"
  by (induction xs) auto

lemma sorted_wrt_single:
  assumes "sorted_wrt (<) (ns :: 'a :: linorder list)" and "set ns = {x}"
  shows "ns = [x]"
proof (cases ns)
  case (Cons y ys)
  have "z \<notin> set ys" for z using assms by (auto simp: Cons)
  then have "ys = []" by (cases ys) auto
  with assms(2) Cons show ?thesis by simp
qed (use assms(2) in simp)

end
