(* ===== verification/Badger.thy ===== *)
theory Badger
  imports TG_Prelude
begin

text \<open>
  The key-value database under every store of the program (mvm/store, mvm/quorum, mvm/eos,
  the bridge). The database's contents are a list of entries in ascending byte order of their
  keys, as a badger iterator visits them; \<open>io\<close> answers for each call whether the database
  fails it (any error but \<open>ErrKeyNotFound\<close>), so the error returns of the stores are branches
  of the model. A transaction is a function from the contents to a result: when it returns an
  error or panics, the caller keeps the old contents, which is badger's discarded transaction.

  The queues of the program are runs of keys that share a prefix and end in a big-endian
  nonce. The locale \<open>nonce_queue\<close> states what a queue's client relies on, given that no queue
  name is a prefix of another's keys; the stores interpret it on their own key functions.
\<close>

section \<open>The database\<close>

datatype ioop = IoGet bytes | IoValue bytes | IoSet bytes | IoDelete bytes | IoCommit

record 'v badger =
  kvs :: "(bytes \<times> 'v) list"
  io :: "ioop \<Rightarrow> goerr option"

definition io_check :: "'v badger \<Rightarrow> ioop \<Rightarrow> unit res" where
  "io_check s x = (case io s x of None \<Rightarrow> Ok () | Some e \<Rightarrow> Err e)"

fun kv_set :: "bytes \<Rightarrow> 'v \<Rightarrow> (bytes \<times> 'v) list \<Rightarrow> (bytes \<times> 'v) list" where
  "kv_set k v [] = [(k, v)]"
| "kv_set k v ((k', v') # xs) =
     (if k < k' then (k, v) # (k', v') # xs
      else if k = k' then (k, v) # xs
      else (k', v') # kv_set k v xs)"

definition kv_del :: "bytes \<Rightarrow> (bytes \<times> 'v) list \<Rightarrow> (bytes \<times> 'v) list" where
  "kv_del k xs = filter (\<lambda>x. fst x \<noteq> k) xs"

definition db_lookup :: "'v badger \<Rightarrow> bytes \<Rightarrow> 'v option" where
  "db_lookup s k = map_of (kvs s) k"

text \<open>\<open>txn.Get\<close>: \<open>None\<close> is \<open>ErrKeyNotFound\<close>; \<open>item.ValueCopy\<close> can fail on its own.\<close>

definition txn_get :: "'v badger \<Rightarrow> bytes \<Rightarrow> 'v option res" where
  "txn_get s k = rbind (io_check s (IoGet k)) (\<lambda>_. Ok (db_lookup s k))"

definition txn_value :: "'v badger \<Rightarrow> bytes \<Rightarrow> 'v \<Rightarrow> 'v res" where
  "txn_value s k v = rbind (io_check s (IoValue k)) (\<lambda>_. Ok v)"

definition txn_set :: "'v badger \<Rightarrow> bytes \<Rightarrow> 'v \<Rightarrow> 'v badger res" where
  "txn_set s k v = rbind (io_check s (IoSet k)) (\<lambda>_. Ok (s\<lparr>kvs := kv_set k v (kvs s)\<rparr>))"

definition txn_delete :: "'v badger \<Rightarrow> bytes \<Rightarrow> 'v badger res" where
  "txn_delete s k = rbind (io_check s (IoDelete k)) (\<lambda>_. Ok (s\<lparr>kvs := kv_del k (kvs s)\<rparr>))"

text \<open>\<open>DB.Update\<close>: run the transaction, then commit it.\<close>

definition db_update :: "'v badger \<Rightarrow> ('v badger \<Rightarrow> 'v badger res) \<Rightarrow> 'v badger res" where
  "db_update s f = rbind (f s) (\<lambda>t. rbind (io_check t IoCommit) (\<lambda>_. Ok t))"

text \<open>\<open>it.Seek(start)\<close> under \<open>opts.Prefix\<close>, then \<open>it.Next()\<close> while \<open>it.Valid()\<close>;
  and the same with \<open>opts.Reverse\<close>.\<close>

definition iter_from :: "'v badger \<Rightarrow> bytes \<Rightarrow> bytes \<Rightarrow> (bytes \<times> 'v) list" where
  "iter_from s p st = takeWhile (\<lambda>x. has_prefix p (fst x)) (dropWhile (\<lambda>x. fst x < st) (kvs s))"

definition iter_rev_from :: "'v badger \<Rightarrow> bytes \<Rightarrow> bytes \<Rightarrow> (bytes \<times> 'v) list" where
  "iter_rev_from s p st =
     takeWhile (\<lambda>x. has_prefix p (fst x)) (dropWhile (\<lambda>x. st < fst x) (rev (kvs s)))"

text \<open>
  A listing loop: copy each value, decode it, append it, and stop once \<open>limit\<close> items are
  collected. \<open>dec\<close> is the decoder of the loop's body, with its error or panic.
\<close>

fun list_items :: "'v badger \<Rightarrow> ('v \<Rightarrow> 'a res) \<Rightarrow> (bytes \<times> 'v) list \<Rightarrow> 'a list res" where
  "list_items s dec [] = Ok []"
| "list_items s dec ((k, v) # xs) =
     rbind (txn_value s k v) (\<lambda>w. rbind (dec w) (\<lambda>a.
     rbind (list_items s dec xs) (\<lambda>as. Ok (a # as))))"

text \<open>The same loop with its early exit: after each append the length is tested by \<open>stop\<close>.\<close>

fun list_loop ::
  "'v badger \<Rightarrow> ('v \<Rightarrow> 'a res) \<Rightarrow> (nat \<Rightarrow> bool) \<Rightarrow> 'a list \<Rightarrow> (bytes \<times> 'v) list \<Rightarrow> 'a list res"
where
  "list_loop s dec stop acc [] = Ok acc"
| "list_loop s dec stop acc ((k, v) # xs) =
     rbind (txn_value s k v) (\<lambda>w. rbind (dec w) (\<lambda>a.
     if stop (length acc + 1) then Ok (acc @ [a])
     else list_loop s dec stop (acc @ [a]) xs))"

text \<open>The well-formedness of the contents: keys strictly ascending.\<close>

definition db_ok :: "'v badger \<Rightarrow> bool" where
  "db_ok s \<longleftrightarrow> sorted_wrt (<) (map fst (kvs s))"

definition no_fault :: "'v badger \<Rightarrow> bool" where
  "no_fault s \<longleftrightarrow> io s = (\<lambda>_. None)"

text \<open>
  Every key of the database that starts with the name of a queue is a key of some queue of the
  family \<open>key\<close>: nothing else is written under the family's prefix.
\<close>

definition only_queue_keys ::
  "('a \<Rightarrow> bytes) \<Rightarrow> ('a \<Rightarrow> u64 \<Rightarrow> bytes) \<Rightarrow> ('a \<Rightarrow> bool) \<Rightarrow> 'v badger \<Rightarrow> bool" where
  "only_queue_keys base key valid s \<longleftrightarrow>
     (\<forall>k a. db_lookup s k \<noteq> None \<and> valid a \<and> has_prefix (base a) k
        \<longrightarrow> (\<exists>b n. valid b \<and> k = key b n))"

definition db_empty :: "'v badger" where
  "db_empty = \<lparr>kvs = [], io = (\<lambda>_. None)\<rparr>"


section \<open>Laws of the database\<close>

lemma io_check_Ok [simp]: "io_check s x = Ok u \<longleftrightarrow> io s x = None"
  by (simp add: io_check_def split: option.splits)

lemma io_check_not_Panic [simp]: "io_check s x \<noteq> Panic e"
  by (simp add: io_check_def split: option.splits)

lemma map_of_kv_set: "map_of (kv_set k v xs) = (map_of xs)(k \<mapsto> v)"
  by (induction k v xs rule: kv_set.induct) auto

lemma map_of_kv_del: "map_of (kv_del k xs) = (map_of xs)(k := None)"
  by (induction xs) (auto simp: kv_del_def)

lemma keys_kv_set: "fst ` set (kv_set k v xs) = insert k (fst ` set xs)"
  by (induction k v xs rule: kv_set.induct) auto

lemma sorted_kv_set: "sorted_wrt (<) (map fst xs) \<Longrightarrow> sorted_wrt (<) (map fst (kv_set k v xs))"
proof (induction k v xs rule: kv_set.induct)
  case (2 k v k' v' xs)
  have "k' < y" if "y \<in> fst ` set (kv_set k v xs)" and "\<not> k < k'" and "k \<noteq> k'" for y
    using that 2 by (auto simp: keys_kv_set)
  with 2 show ?case by auto
qed simp

lemma sorted_kv_del: "sorted_wrt (<) (map fst xs) \<Longrightarrow> sorted_wrt (<) (map fst (kv_del k xs))"
  by (induction xs) (auto simp: kv_del_def)

lemma txn_get_Ok [simp]: "txn_get s k = Ok r \<longleftrightarrow> io s (IoGet k) = None \<and> r = db_lookup s k"
  by (auto simp: txn_get_def)

lemma txn_value_Ok [simp]: "txn_value s k v = Ok w \<longleftrightarrow> io s (IoValue k) = None \<and> w = v"
  by (auto simp: txn_value_def)

lemma txn_set_Ok [simp]:
  "txn_set s k v = Ok t \<longleftrightarrow> io s (IoSet k) = None \<and> t = s\<lparr>kvs := kv_set k v (kvs s)\<rparr>"
  by (auto simp: txn_set_def)

lemma txn_delete_Ok [simp]:
  "txn_delete s k = Ok t \<longleftrightarrow> io s (IoDelete k) = None \<and> t = s\<lparr>kvs := kv_del k (kvs s)\<rparr>"
  by (auto simp: txn_delete_def)

lemma txn_not_Panic [simp]:
  "txn_get s k \<noteq> Panic e" "txn_value s k v \<noteq> Panic e" "txn_set s k v \<noteq> Panic e"
  "txn_delete s k \<noteq> Panic e"
  by (auto simp: txn_get_def txn_value_def txn_set_def txn_delete_def rbind_Panic_iff)

lemma db_update_Ok [simp]: "db_update s f = Ok t \<longleftrightarrow> f s = Ok t \<and> io t IoCommit = None"
  by (auto simp: db_update_def)

lemma db_update_Panic [simp]: "db_update s f = Panic e \<longleftrightarrow> f s = Panic e"
  by (auto simp: db_update_def rbind_Panic_iff)

text \<open>Updates one after the other collapse to one \<open>kvs := \<dots>\<close>, so the laws are stated for its contents.\<close>

lemma db_lookup_kvs [simp]: "db_lookup (s\<lparr>kvs := kvs t\<rparr>) = db_lookup t"
  by (simp add: db_lookup_def fun_eq_iff)

lemma db_lookup_set [simp]:
  "db_lookup (s\<lparr>kvs := kv_set k v xs\<rparr>) = (db_lookup (s\<lparr>kvs := xs\<rparr>))(k \<mapsto> v)"
  by (simp add: db_lookup_def fun_eq_iff map_of_kv_set)

lemma db_lookup_del [simp]:
  "db_lookup (s\<lparr>kvs := kv_del k xs\<rparr>) = (db_lookup (s\<lparr>kvs := xs\<rparr>))(k := None)"
  by (simp add: db_lookup_def fun_eq_iff map_of_kv_del)

lemma db_ok_kvs [simp]: "db_ok (s\<lparr>kvs := kvs t\<rparr>) \<longleftrightarrow> db_ok t"
  by (simp add: db_ok_def)

lemma db_ok_set [simp]: "db_ok (s\<lparr>kvs := xs\<rparr>) \<Longrightarrow> db_ok (s\<lparr>kvs := kv_set k v xs\<rparr>)"
  by (simp add: db_ok_def sorted_kv_set)

lemma db_ok_del [simp]: "db_ok (s\<lparr>kvs := xs\<rparr>) \<Longrightarrow> db_ok (s\<lparr>kvs := kv_del k xs\<rparr>)"
  by (simp add: db_ok_def sorted_kv_del)

lemma db_empty_simps [simp]:
  "db_ok db_empty" "no_fault db_empty" "db_lookup db_empty k = None"
  by (simp_all add: db_ok_def no_fault_def db_empty_def db_lookup_def)

text \<open>With no fault the database calls return, and leave the database without faults.\<close>

lemma no_fault_simps [res_simps]:
  assumes "no_fault s"
  shows "txn_get s k = Ok (db_lookup s k)" "txn_value s k v = Ok v"
    "txn_set s k v = Ok (s\<lparr>kvs := kv_set k v (kvs s)\<rparr>)"
    "txn_delete s k = Ok (s\<lparr>kvs := kv_del k (kvs s)\<rparr>)"
  using assms by (simp_all add: no_fault_def)

lemma no_fault_kvs [simp]: "no_fault (s\<lparr>kvs := xs\<rparr>) \<longleftrightarrow> no_fault s"
  by (simp add: no_fault_def)

lemma db_update_no_fault [res_simps]:
  "(\<And>t. f s = Ok t \<Longrightarrow> no_fault t) \<Longrightarrow> db_update s f = f s"
  by (cases "f s") (auto simp: db_update_def no_fault_def io_check_def)

text \<open>Keys that share a prefix are contiguous in byte order, so a prefixed iteration is a filter.\<close>

lemma prefix_convex:
  "p @ a \<le> k \<Longrightarrow> k \<le> p @ b \<Longrightarrow> has_prefix p (k :: string)"
proof (induction p arbitrary: k)
  case (Cons c p)
  then obtain k' where k: "k = c # k'"
    by (cases k) auto
  with Cons.prems have "p @ a \<le> k'" "k' \<le> p @ b" by auto
  from Cons.IH [OF this] show ?case by (simp add: k has_prefix_def)
qed (simp add: has_prefix_def)

lemma takeWhile_dropWhile_filter:
  assumes "sorted_wrt (<) (map fst xs)" and "has_prefix p st"
  shows "takeWhile (\<lambda>x. has_prefix p (fst x)) (dropWhile (\<lambda>x. fst x < st) xs)
       = filter (\<lambda>x. has_prefix p (fst x) \<and> st \<le> fst x) (xs :: (bytes \<times> 'v) list)"
proof -
  have tw: "takeWhile (\<lambda>x. has_prefix p (fst x)) ys = filter (\<lambda>x. has_prefix p (fst x)) ys"
    if "sorted_wrt (<) (map fst ys)" and "\<forall>y \<in> set ys. st \<le> fst y" for ys :: "(bytes \<times> 'v) list"
    using that
  proof (induction ys)
    case (Cons y ys)
    show ?case
    proof (cases "has_prefix p (fst y)")
      case True
      with Cons show ?thesis by simp
    next
      case False
      have "\<not> has_prefix p (fst z)" if "z \<in> set ys" for z
      proof
        assume "has_prefix p (fst z)"
        moreover from Cons.prems that have "st \<le> fst y" "fst y \<le> fst z" by auto
        ultimately have "has_prefix p (fst y)"
          using assms(2) prefix_convex by (metis has_prefix_iff)
        with False show False by simp
      qed
      then have "filter (\<lambda>x. has_prefix p (fst x)) ys = []" by (simp add: filter_empty_conv)
      with False show ?thesis by simp
    qed
  qed simp
  show ?thesis using assms(1)
  proof (induction xs)
    case (Cons x xs)
    show ?case
    proof (cases "fst x < st")
      case True
      with Cons show ?thesis by (auto simp: not_le)
    next
      case False
      then have ge: "\<forall>y \<in> set (x # xs). st \<le> fst y"
        using Cons.prems by (fastforce simp: not_less)
      then have "filter (\<lambda>x. has_prefix p (fst x) \<and> st \<le> fst x) (x # xs)
               = filter (\<lambda>x. has_prefix p (fst x)) (x # xs)"
        by (intro filter_cong) auto
      with tw [OF Cons.prems ge] False show ?thesis
        by (simp only: dropWhile.simps if_False)
    qed
  qed simp
qed

lemma iter_from_filter:
  "db_ok s \<Longrightarrow> has_prefix p st \<Longrightarrow>
   iter_from s p st = filter (\<lambda>x. has_prefix p (fst x) \<and> st \<le> fst x) (kvs s)"
  unfolding iter_from_def db_ok_def by (rule takeWhile_dropWhile_filter)

lemma db_ok_distinct: "db_ok s \<Longrightarrow> distinct (map fst (kvs s))"
  by (simp add: db_ok_def strict_sorted_iff)

lemma db_lookup_in: "db_ok s \<Longrightarrow> db_lookup s k = Some v \<longleftrightarrow> (k, v) \<in> set (kvs s)"
  by (simp add: db_lookup_def map_of_eq_Some_iff [OF db_ok_distinct])

lemma set_iter_from:
  "db_ok s \<Longrightarrow> has_prefix p st \<Longrightarrow>
   (k, v) \<in> set (iter_from s p st) \<longleftrightarrow> db_lookup s k = Some v \<and> has_prefix p k \<and> st \<le> k"
  by (auto simp: iter_from_filter db_lookup_in)

lemma sorted_iter_from:
  "db_ok s \<Longrightarrow> sorted_wrt (<) (map fst (iter_from s p st))"
proof -
  assume ok: "db_ok s"
  have "sorted_wrt (<) (map fst (dropWhile P (kvs s)))" for P
    using ok unfolding db_ok_def sorted_wrt_map by (metis dropWhile_eq_drop sorted_wrt_drop)
  then show ?thesis
    unfolding iter_from_def sorted_wrt_map by (metis sorted_wrt_take takeWhile_eq_take)
qed

lemma list_items_Ok:
  "list_items s dec xs = Ok ys \<Longrightarrow> length ys = length xs \<and>
     (\<forall>i < length xs. dec (snd (xs ! i)) = Ok (ys ! i))"
proof (induction xs arbitrary: ys)
  case (Cons x xs)
  obtain k v where x: "x = (k, v)" by force
  from Cons.prems obtain a as where a: "dec v = Ok a" and as: "list_items s dec xs = Ok as"
    and ys: "ys = a # as"
    by (auto simp: x)
  from Cons.IH [OF as] have IH: "length as = length xs"
    "\<forall>i < length xs. dec (snd (xs ! i)) = Ok (as ! i)" by auto
  show ?case
  proof (intro conjI allI impI)
    fix i assume "i < length (x # xs)"
    then show "dec (snd ((x # xs) ! i)) = Ok (ys ! i)"
      using IH a by (cases i) (auto simp: x ys)
  qed (use IH ys in simp)
qed simp

lemma list_items_append:
  "list_items s dec (xs @ ys) =
     rbind (list_items s dec xs) (\<lambda>as. rbind (list_items s dec ys) (\<lambda>bs. Ok (as @ bs)))"
proof (induction xs)
  case (Cons x xs)
  then show ?case by (cases x) (simp add: rbind_assoc)
qed (simp add: rbind_assoc)

text \<open>The loop with its early exit lists the first \<open>mx\<close> entries.\<close>

lemma list_loop_take:
  assumes "\<And>n. n \<le> mx \<Longrightarrow> stop n \<longleftrightarrow> n = mx"
  shows "length acc < mx \<Longrightarrow> list_loop s dec stop acc xs =
     rbind (list_items s dec (take (mx - length acc) xs)) (\<lambda>ys. Ok (acc @ ys))"
proof (induction xs arbitrary: acc)
  case (Cons x xs)
  obtain k v where x: "x = (k, v)" by force
  have mx: "mx - length acc = Suc (mx - Suc (length acc))" using Cons.prems by simp
  show ?case
  proof (cases "Suc (length acc) = mx")
    case True
    then show ?thesis
      using assms [of mx] by (auto simp: x mx rbind_assoc intro!: rbind_cong)
  next
    case False
    then have "length (acc @ [a]) < mx" for a using Cons.prems by simp
    moreover have "\<not> stop (Suc (length acc))" using False Cons.prems assms by simp
    ultimately show ?thesis
      using Cons.IH by (auto simp: x mx rbind_assoc intro!: rbind_cong)
  qed
qed simp

lemma list_loop_length:
  assumes "list_loop s dec stop [] xs = Ok ys" and "\<And>n. n \<le> mx \<Longrightarrow> stop n \<longleftrightarrow> n = mx" and "0 < mx"
  shows "length ys \<le> mx"
proof -
  have "list_items s dec (take mx xs) = Ok ys"
    using assms list_loop_take [of mx stop "[]" s dec xs] by simp
  from list_items_Ok [OF this] show ?thesis by simp
qed

lemma list_items_map:
  assumes "no_fault s" and "\<And>x. x \<in> set xs \<Longrightarrow> dec (snd x) = Ok (f x)"
  shows "list_items s dec xs = Ok (map f xs)"
  using assms(2)
proof (induction xs)
  case (Cons x xs)
  have "dec (snd x) = Ok (f x)" using Cons.prems by simp
  with Cons show ?case using assms(1) by (cases x) (simp add: no_fault_simps)
qed simp


lemma list_items_Ok_map:
  assumes "list_items s dec xs = Ok ys" and "\<And>x. x \<in> set xs \<Longrightarrow> dec (snd x) = Ok (f x)"
  shows "ys = map f xs"
  using assms
proof (induction xs arbitrary: ys)
  case (Cons x xs)
  have "dec (snd x) = Ok (f x)" using Cons.prems by simp
  with Cons show ?case by (cases x) auto
qed simp


section \<open>Queues of keys that end in a nonce\<close>

locale nonce_queue =
  fixes base :: "'a \<Rightarrow> bytes" and key :: "'a \<Rightarrow> u64 \<Rightarrow> bytes" and valid :: "'a \<Rightarrow> bool"
  assumes key_eq: "key a n = base a @ putUint64 n"
    and prefix_free: "valid a \<Longrightarrow> valid b \<Longrightarrow> has_prefix (base a) (key b n) \<Longrightarrow> a = b"
begin

lemma key_inj: "valid a \<Longrightarrow> valid b \<Longrightarrow> key a n = key b m \<longleftrightarrow> a = b \<and> n = m"
  using prefix_free [of a b m] by (auto simp: key_eq)

lemma key_less: "key a n < key a m \<longleftrightarrow> n < m"
  by (simp add: key_eq)

lemma key_le: "key a n \<le> key a m \<longleftrightarrow> n \<le> m"
  by (metis key_less not_less)

lemma only_queue_keys_set:
  "only_queue_keys base key valid s \<Longrightarrow> valid a \<Longrightarrow>
   only_queue_keys base key valid (s\<lparr>kvs := kv_set (key a n) v (kvs s)\<rparr>)"
  by (auto simp: only_queue_keys_def split: if_splits)

lemma only_queue_keys_other:
  "only_queue_keys base key valid s \<Longrightarrow> (\<And>a. valid a \<Longrightarrow> \<not> has_prefix (base a) k) \<Longrightarrow>
   only_queue_keys base key valid (s\<lparr>kvs := kv_set k v (kvs s)\<rparr>)"
  by (auto simp: only_queue_keys_def split: if_splits)

lemma only_queue_keys_del:
  "only_queue_keys base key valid s \<Longrightarrow>
   only_queue_keys base key valid (s\<lparr>kvs := kv_del k (kvs s)\<rparr>)"
  by (auto simp: only_queue_keys_def split: if_splits)

text \<open>Iterating a queue from an offset visits its entries at that nonce or later, ascending.\<close>

lemma iterate_queue:
  assumes "db_ok s" and "only_queue_keys base key valid s" and "valid a"
  obtains ns where "sorted_wrt (<) ns"
    and "set ns = {n. off \<le> n \<and> db_lookup s (key a n) \<noteq> None}"
    and "iter_from s (base a) (key a off) = map (\<lambda>n. (key a n, the (db_lookup s (key a n)))) ns"
proof -
  let ?xs = "iter_from s (base a) (key a off)"
  have pre: "has_prefix (base a) (key a off)" by (simp add: key_eq)
  have form: "\<exists>n. off \<le> n \<and> fst x = key a n \<and> db_lookup s (key a n) = Some (snd x)"
    if "x \<in> set ?xs" for x
  proof -
    obtain k v where x: "x = (k, v)" by force
    from that have look: "db_lookup s k = Some v" and pk: "has_prefix (base a) k"
      and off: "key a off \<le> k"
      using set_iter_from [OF assms(1) pre, of k v] by (auto simp: x)
    from look pk assms(2,3) obtain b n where "valid b" "k = key b n"
      unfolding only_queue_keys_def by fastforce
    with pk assms(3) have "k = key a n" using prefix_free by blast
    with off look show ?thesis by (auto simp: x key_le)
  qed
  then have "\<forall>x. \<exists>n. x \<in> set ?xs \<longrightarrow> off \<le> n \<and> fst x = key a n \<and> db_lookup s (key a n) = Some (snd x)"
    by blast
  then obtain f where f: "\<And>x. x \<in> set ?xs \<Longrightarrow>
      off \<le> f x \<and> fst x = key a (f x) \<and> db_lookup s (key a (f x)) = Some (snd x)"
    by metis
  have 1: "sorted_wrt (<) (map f ?xs)"
  proof -
    have "sorted_wrt (\<lambda>x y. fst x < fst y) ?xs"
      using sorted_iter_from [OF assms(1)] by (simp add: sorted_wrt_map)
    then have "sorted_wrt (\<lambda>x y. f x < f y) ?xs"
      by (rule sorted_wrt_mono_rel [rotated]) (metis f key_less)
    then show ?thesis by (simp add: sorted_wrt_map)
  qed
  have 2: "set (map f ?xs) = {n. off \<le> n \<and> db_lookup s (key a n) \<noteq> None}"
  proof -
    have "n \<in> f ` set ?xs" if "off \<le> n" "db_lookup s (key a n) = Some v" for n v
    proof -
      have "(key a n, v) \<in> set ?xs"
        using that set_iter_from [OF assms(1) pre] by (simp add: key_le) (simp add: key_eq)
      moreover from f [OF this] have "f (key a n, v) = n" by (simp add: key_eq)
      ultimately show ?thesis by force
    qed
    moreover have "off \<le> f x \<and> db_lookup s (key a (f x)) \<noteq> None" if "x \<in> set ?xs" for x
      using f [OF that] by simp
    ultimately show ?thesis by auto
  qed
  have 3: "?xs = map (\<lambda>n. (key a n, the (db_lookup s (key a n)))) (map f ?xs)"
  proof -
    have "(key a (f x), the (db_lookup s (key a (f x)))) = x" if "x \<in> set ?xs" for x
      using f [OF that] by (metis option.sel prod.collapse)
    then have "map (\<lambda>x. (key a (f x), the (db_lookup s (key a (f x))))) ?xs = ?xs"
      by (intro map_idI) auto
    then show ?thesis by (simp add: comp_def)
  qed
  from that [OF 1 2 3] show ?thesis .
qed

text \<open>A listing loop over a queue returns its values from the offset on, ascending, up to its limit.\<close>

lemma list_queue:
  assumes "db_ok s" and "only_queue_keys base key valid s" and "valid a"
    and "\<And>n v. db_lookup s (key a n) = Some v \<Longrightarrow> dec v = Ok (f v)"
    and "0 < mx" and "\<And>n. n \<le> mx \<Longrightarrow> stop n \<longleftrightarrow> n = mx"
  obtains ns where "sorted_wrt (<) ns" "set ns = {n. off \<le> n \<and> db_lookup s (key a n) \<noteq> None}"
    and "\<And>ys. list_loop s dec stop [] (iter_from s (base a) (key a off)) = Ok ys \<Longrightarrow>
       ys = take mx (map (\<lambda>n. f (the (db_lookup s (key a n)))) ns)"
    and "no_fault s \<Longrightarrow> list_loop s dec stop [] (iter_from s (base a) (key a off))
       = Ok (take mx (map (\<lambda>n. f (the (db_lookup s (key a n)))) ns))"
proof -
  obtain ns where ns: "sorted_wrt (<) ns" "set ns = {n. off \<le> n \<and> db_lookup s (key a n) \<noteq> None}"
    and it: "iter_from s (base a) (key a off) = map (\<lambda>n. (key a n, the (db_lookup s (key a n)))) ns"
    using iterate_queue [OF assms(1-3), of off] by blast
  let ?xs = "map (\<lambda>n. (key a n, the (db_lookup s (key a n)))) ns"
  have dec: "dec (snd x) = Ok (f (snd x))" if "x \<in> set (take mx ?xs)" for x
    using in_set_takeD [OF that] ns(2) assms(4) by auto
  have loop: "list_loop s dec stop [] ?xs = list_items s dec (take mx ?xs)"
    using list_loop_take [OF assms(6), where acc = "[]" and s = s and dec = dec and xs = ?xs] assms(5) by simp
  have eq: "map (\<lambda>x. f (snd x)) (take mx ?xs) = take mx (map (\<lambda>n. f (the (db_lookup s (key a n)))) ns)"
    by (simp add: take_map comp_def)
  have "ys = map (\<lambda>x. f (snd x)) (take mx ?xs)" if "list_items s dec (take mx ?xs) = Ok ys" for ys
    using that dec by (rule list_items_Ok_map)
  moreover have "list_items s dec (take mx ?xs) = Ok (map (\<lambda>x. f (snd x)) (take mx ?xs))" if "no_fault s"
    using that dec by (rule list_items_map)
  ultimately show ?thesis using that [OF ns] unfolding it loop eq by blast
qed

end

end
