(* ===== verification/Text_Codecs.thy ===== *)
theory Text_Codecs
  imports TG_Prelude
begin

text \<open>
  The parts of Go's standard library that turn bytes and numbers into text and back:
  \<open>encoding/hex\<close>, \<open>encoding/base64\<close>'s \<open>RawURLEncoding\<close>, and \<open>fmt\<close>'s \<open>%d\<close> and
  \<open>%x\<close> verbs with a width. Each decoder inverts its encoder.
\<close>

section \<open>Hexadecimal\<close>

text \<open>The digits \<open>0123456789abcdef\<close>.\<close>

definition hexdigit :: "nat \<Rightarrow> char" where
  "hexdigit n = char_of (if n < 10 then n + 48 else n + 87)"

text \<open>\<open>fromHexChar\<close>: both cases are accepted.\<close>

definition hexval :: "char \<Rightarrow> nat option" where
  "hexval c = (let n = (of_char c :: nat) in
     if 48 \<le> n \<and> n \<le> 57 then Some (n - 48)
     else if 97 \<le> n \<and> n \<le> 102 then Some (n - 87)
     else if 65 \<le> n \<and> n \<le> 70 then Some (n - 55)
     else None)"

fun hexEncode :: "bytes \<Rightarrow> string" where
  "hexEncode [] = []"
| "hexEncode (c # cs) = hexdigit (of_char c div 16) # hexdigit (of_char c mod 16) # hexEncode cs"

fun hexDecode :: "string \<Rightarrow> bytes res" where
  "hexDecode [] = Ok []"
| "hexDecode [c] = Err ''encoding/hex: odd length hex string''"
| "hexDecode (a # b # cs) =
     (case (hexval a, hexval b) of
        (Some x, Some y) \<Rightarrow> rbind (hexDecode cs) (\<lambda>r. Ok (char_of (16 * x + y) # r))
      | _ \<Rightarrow> Err ''encoding/hex: invalid byte'')"

section \<open>Base64 (RawURLEncoding)\<close>

text \<open>The alphabet \<open>A..Za..z0..9-_\<close>.\<close>

definition b64chr :: "nat \<Rightarrow> char" where
  "b64chr n = char_of (if n < 26 then n + 65 else if n < 52 then n + 71
     else if n < 62 then n - 4 else if n = 62 then 45 else 95)"

definition b64val :: "char \<Rightarrow> nat option" where
  "b64val c = (let n = (of_char c :: nat) in
     if 65 \<le> n \<and> n \<le> 90 then Some (n - 65)
     else if 97 \<le> n \<and> n \<le> 122 then Some (n - 71)
     else if 48 \<le> n \<and> n \<le> 57 then Some (n + 4)
     else if n = 45 then Some 62
     else if n = 95 then Some 63
     else None)"

fun b64Encode :: "bytes \<Rightarrow> string" where
  "b64Encode [] = []"
| "b64Encode [x] = (let a = (of_char x :: nat) in [b64chr (a div 4), b64chr (a mod 4 * 16)])"
| "b64Encode [x, y] = (let a = (of_char x :: nat); b = of_char y in
     [b64chr (a div 4), b64chr (a mod 4 * 16 + b div 16), b64chr (b mod 16 * 4)])"
| "b64Encode (x # y # z # cs) = (let a = (of_char x :: nat); b = of_char y; c = of_char z in
     b64chr (a div 4) # b64chr (a mod 4 * 16 + b div 16) # b64chr (b mod 16 * 4 + c div 64)
     # b64chr (c mod 64) # b64Encode cs)"

fun b64_quanta :: "nat list \<Rightarrow> bytes res" where
  "b64_quanta [] = Ok []"
| "b64_quanta [a] = Err ''illegal base64 data''"
| "b64_quanta [a, b] = Ok [char_of (a * 4 + b div 16)]"
| "b64_quanta [a, b, c] = Ok [char_of (a * 4 + b div 16), char_of (b mod 16 * 16 + c div 4)]"
| "b64_quanta (a # b # c # d # vs) = rbind (b64_quanta vs) (\<lambda>r.
     Ok (char_of (a * 4 + b div 16) # char_of (b mod 16 * 16 + c div 4)
         # char_of (c mod 4 * 64 + d) # r))"

text \<open>Line breaks in the input are skipped; the bits left over in the last quantum are ignored.\<close>

definition b64Decode :: "string \<Rightarrow> bytes res" where
  "b64Decode s = rbind
     (rmap (\<lambda>c. of_option (Err ''illegal base64 data'') (b64val c))
           (filter (\<lambda>c. c \<noteq> CHR 0x0A \<and> c \<noteq> CHR 0x0D) s))
     b64_quanta"

section \<open>Numbers as text\<close>

fun nat_digits :: "nat \<Rightarrow> string" where
  "nat_digits n = (if n < 10 then [hexdigit n] else nat_digits (n div 10) @ [hexdigit (n mod 10)])"

fun nat_hex :: "nat \<Rightarrow> string" where
  "nat_hex n = (if n < 16 then [hexdigit n] else nat_hex (n div 16) @ [hexdigit (n mod 16)])"

definition pad_left :: "char \<Rightarrow> nat \<Rightarrow> string \<Rightarrow> string" where
  "pad_left c w s = replicate (w - length s) c @ s"

declare nat_digits.simps [simp del] nat_hex.simps [simp del]

section \<open>Round trips\<close>

lemma hexval_hexdigit: "n < 16 \<Longrightarrow> hexval (hexdigit n) = Some n"
  by (auto simp: hexval_def hexdigit_def Let_def)

lemma hexDecode_hexEncode [simp]: "hexDecode (hexEncode b) = Ok b"
proof (induction b)
  case (Cons c b)
  have "(of_char c :: nat) div 16 < 16"
    by (rule less_mult_imp_div_less) simp
  with Cons show ?case by (simp add: hexval_hexdigit)
qed simp

lemma length_hexEncode [simp]: "length (hexEncode b) = 2 * length b"
  by (induction b) auto

lemma hexDecode_length: "hexDecode s = Ok b \<Longrightarrow> length s = 2 * length b"
  by (induction s arbitrary: b rule: hexDecode.induct) (auto split: option.splits)

lemma hexEncode_inj: "hexEncode a = hexEncode b \<Longrightarrow> a = b"
  by (metis hexDecode_hexEncode res.inject(1))

lemma hexEncode_append: "hexEncode (a @ b) = hexEncode a @ hexEncode b"
  by (induction a) auto

lemma b64val_b64chr: "n < 64 \<Longrightarrow> b64val (b64chr n) = Some n"
  by (auto simp: b64val_def b64chr_def Let_def)

lemma b64chr_no_newline: "n < 64 \<Longrightarrow> b64chr n \<noteq> CHR 0x0A \<and> b64chr n \<noteq> CHR 0x0D"
proof -
  assume "n < 64"
  then have ge: "(of_char (b64chr n) :: nat) \<ge> 45"
    by (auto simp: b64chr_def)
  show ?thesis
  proof (intro conjI notI)
    assume "b64chr n = CHR 0x0A"
    with ge show False by simp
  next
    assume "b64chr n = CHR 0x0D"
    with ge show False by simp
  qed
qed

lemma div_mod_split:
  fixes x y k :: nat
  assumes "y < k"
  shows "(x * k + y) div k = x" "(x * k + y) mod k = y"
  using assms by simp_all

lemma quantum_bounds:
  fixes a b c :: nat
  assumes "a < 256" "b < 256" "c < 256"
  shows "a mod 4 * 16 + b div 16 < 64" "b mod 16 * 4 + c div 64 < 64"
    "a mod 4 * 16 < 64" "b mod 16 * 4 < 64" "c mod 64 < 64" "a div 4 < 64"
proof -
  have "a mod 4 \<le> 3" "b mod 16 \<le> 15" by simp_all
  moreover have "b div 16 \<le> 15" "c div 64 \<le> 3" "a div 4 \<le> 63" using assms by auto
  ultimately show "a mod 4 * 16 + b div 16 < 64" "b mod 16 * 4 + c div 64 < 64"
    "a mod 4 * 16 < 64" "b mod 16 * 4 < 64" "c mod 64 < 64" "a div 4 < 64"
    by simp_all
qed

lemma quantum_bytes:
  fixes a b c :: nat
  assumes "a < 256" "b < 256" "c < 256"
  shows "a div 4 * 4 + (a mod 4 * 16 + b div 16) div 16 = a"
    "a div 4 * 4 + a mod 4 * 16 div 16 = a"
    "(a mod 4 * 16 + b div 16) mod 16 * 16 + (b mod 16 * 4 + c div 64) div 4 = b"
    "(a mod 4 * 16 + b div 16) mod 16 * 16 + b mod 16 * 4 div 4 = b"
    "(b mod 16 * 4 + c div 64) mod 4 * 64 + c mod 64 = c"
proof -
  have "b div 16 < 16" "c div 64 < 4" using assms by auto
  then show "a div 4 * 4 + (a mod 4 * 16 + b div 16) div 16 = a"
    "a div 4 * 4 + a mod 4 * 16 div 16 = a"
    "(a mod 4 * 16 + b div 16) mod 16 * 16 + (b mod 16 * 4 + c div 64) div 4 = b"
    "(a mod 4 * 16 + b div 16) mod 16 * 16 + b mod 16 * 4 div 4 = b"
    "(b mod 16 * 4 + c div 64) mod 4 * 64 + c mod 64 = c"
    by (simp_all add: div_mod_split)
qed

lemma b64Decode_b64Encode [simp]: "b64Decode (b64Encode b) = Ok b"
proof (induction b rule: b64Encode.induct)
  case 1
  show ?case by (simp add: b64Decode_def)
next
  case (2 x)
  note B = nat_of_char_less_256 [of x]
  show ?case
    using quantum_bounds [OF B B B] quantum_bytes [OF B B B]
    by (simp add: b64Decode_def b64val_b64chr b64chr_no_newline Let_def)
next
  case (3 x y)
  note B = nat_of_char_less_256 [of x] nat_of_char_less_256 [of y]
  show ?case
    using quantum_bounds [OF B B(2)] quantum_bytes [OF B B(2)]
    by (simp add: b64Decode_def b64val_b64chr b64chr_no_newline Let_def)
next
  case (4 x y z cs)
  note B = nat_of_char_less_256 [of x] nat_of_char_less_256 [of y] nat_of_char_less_256 [of z]
  from 4 [OF refl refl refl] obtain vs where vs: "rmap (\<lambda>c. of_option (Err ''illegal base64 data'') (b64val c))
      (filter (\<lambda>c. c \<noteq> CHR 0x0A \<and> c \<noteq> CHR 0x0D) (b64Encode cs)) = Ok vs"
    and q: "b64_quanta vs = Ok cs"
    by (auto simp: b64Decode_def)
  show ?case
    using q quantum_bounds [OF B] quantum_bytes [OF B]
    by (simp add: b64Decode_def b64val_b64chr b64chr_no_newline Let_def vs)
qed

section \<open>Numbers as text\<close>

definition digits_value :: "nat \<Rightarrow> string \<Rightarrow> nat" where
  "digits_value base s = foldl (\<lambda>a c. base * a + (case hexval c of Some d \<Rightarrow> d | None \<Rightarrow> 0)) 0 s"

lemma digits_value_nat_hex: "digits_value 16 (nat_hex n) = n"
proof (induction n rule: nat_hex.induct)
  case (1 n)
  then show ?case by (subst nat_hex.simps) (simp add: digits_value_def hexval_hexdigit)
qed

lemma digits_value_nat_digits: "digits_value 10 (nat_digits n) = n"
proof (induction n rule: nat_digits.induct)
  case (1 n)
  then show ?case by (subst nat_digits.simps) (simp add: digits_value_def hexval_hexdigit)
qed

lemma nat_hex_inj [simp]: "nat_hex n = nat_hex m \<longleftrightarrow> n = m"
  by (metis digits_value_nat_hex)

lemma nat_digits_inj [simp]: "nat_digits n = nat_digits m \<longleftrightarrow> n = m"
  by (metis digits_value_nat_digits)

lemma hexdigit_no_space: "n < 16 \<Longrightarrow> hexdigit n \<noteq> CHR '' ''"
  using hexval_hexdigit [of n] by (auto simp: hexval_def)

lemma nat_hex_chars: "CHR '' '' \<notin> set (nat_hex n)"
proof (induction n rule: nat_hex.induct)
  case (1 n)
  have "CHR '' '' \<noteq> hexdigit (n mod 16)" "n < 16 \<Longrightarrow> CHR '' '' \<noteq> hexdigit n"
    using hexdigit_no_space [of "n mod 16"] hexdigit_no_space [of n] by auto
  with 1 show ?case by (subst nat_hex.simps) auto
qed

lemma pad_left_nat_hex_inj: "pad_left (CHR '' '') w (nat_hex n) = pad_left (CHR '' '') w (nat_hex m) \<longleftrightarrow> n = m"
proof -
  have "filter (\<lambda>c. c \<noteq> CHR '' '') (pad_left (CHR '' '') w (nat_hex k)) = nat_hex k" for k
  proof -
    have "filter (\<lambda>c. c \<noteq> CHR '' '') (nat_hex k) = nat_hex k"
      using nat_hex_chars [of k] by (intro filter_True) auto
    then show ?thesis by (simp add: pad_left_def)
  qed
  then show ?thesis by (metis nat_hex_inj)
qed

text \<open>\<open>%064x\<close> and the like: fixed-width hexadecimal text is the text of the big-endian bytes.\<close>

fun hex_fixed :: "nat \<Rightarrow> nat \<Rightarrow> string" where
  "hex_fixed 0 n = []"
| "hex_fixed (Suc w) n = hex_fixed w (n div 16) @ [hexdigit (n mod 16)]"

lemma hex_fixed_zero: "hex_fixed w 0 = replicate w (CHR ''0'')"
proof (induction w)
  case (Suc w)
  have "hexdigit 0 = CHR ''0''" by code_simp
  with Suc show ?case by (simp add: replicate_append_same)
qed simp

lemma length_nat_hex: "n < 16 ^ w \<Longrightarrow> 0 < w \<Longrightarrow> length (nat_hex n) \<le> w"
proof (induction w arbitrary: n)
  case (Suc w)
  show ?case
  proof (cases "n < 16")
    case True
    then show ?thesis by (subst nat_hex.simps) simp
  next
    case False
    have w: "0 < w" using False Suc.prems by (cases w) auto
    have "n div 16 < 16 ^ w" using Suc.prems by (simp add: less_mult_imp_div_less mult.commute)
    from Suc.IH [OF this w] False show ?thesis by (subst nat_hex.simps) simp
  qed
qed simp

lemma pad_left_nat_hex: "n < 16 ^ w \<Longrightarrow> 0 < w \<Longrightarrow> pad_left (CHR ''0'') w (nat_hex n) = hex_fixed w n"
proof (induction w arbitrary: n)
  case (Suc w)
  show ?case
  proof (cases "n < 16")
    case True
    then show ?thesis by (subst nat_hex.simps) (simp add: pad_left_def hex_fixed_zero)
  next
    case False
    have w: "0 < w" using False Suc.prems by (cases w) auto
    have n: "n div 16 < 16 ^ w" using Suc.prems by (simp add: less_mult_imp_div_less mult.commute)
    have len: "length (nat_hex (n div 16)) \<le> w" by (rule length_nat_hex [OF n w])
    have "pad_left (CHR ''0'') (Suc w) (nat_hex n)
        = pad_left (CHR ''0'') w (nat_hex (n div 16)) @ [hexdigit (n mod 16)]"
      using False len by (subst nat_hex.simps) (simp add: pad_left_def)
    then show ?thesis using Suc.IH [OF n w] by simp
  qed
qed simp

lemma be_bytes_snoc: "be_bytes (Suc k) n = be_bytes k (n div 256) @ [char_of (n mod 256)]"
proof (induction k)
  case (Suc k)
  have "n div 256 ^ Suc k = n div 256 div 256 ^ k" by (simp add: div_mult2_eq)
  with Suc show ?case by (metis append_Cons be_bytes.simps(2))
qed simp

lemma hex_fixed_be_bytes: "hex_fixed (2 * k) n = hexEncode (be_bytes k n)"
proof (induction k arbitrary: n)
  case (Suc k)
  have "n mod 256 div 16 = n div 16 mod 16"
    using mod_mult2_eq [of n 16 16] by simp
  moreover have "n mod 256 mod 16 = n mod 16" by (simp add: mod_mod_cancel)
  moreover have "n div 16 div 16 = n div 256" by (simp flip: div_mult2_eq)
  ultimately show ?case
    using Suc.IH [of "n div 256"] by (simp only: be_bytes_snoc hexEncode_append) simp
qed simp

end
