(* ===== verification/Encoding.thy ===== *)
theory Encoding
  imports Text_Codecs
begin

text \<open>
  mvm/encoding: the \<open>Event\<close> exchanged between the group and the contracts, the \<open>Operation\<close>
  carried by a transaction memo, and their wire formats.

  The primitive readers and writers (\<open>common.Encoder\<close>, \<open>common.Decoder\<close>), the UUID text
  functions and the arithmetic of \<open>common.Integer\<close> belong to other modules (\<open>integerReadBack\<close> is
  \<open>NewIntegerFromString\<close> on the text that \<open>String\<close> gives for an amount): they are the fields
  of the record \<open>lib\<close>, and the locale \<open>codec\<close> states what the encodings rely on, field by
  field. An amount is the integer number of units of \<open>10^-8\<close>. A byte slice that may be nil is a
  \<open>bytes option\<close> (\<open>None\<close> is nil); a nil slice and an empty one have the same bytes.
\<close>

section \<open>Functions of other modules\<close>

record lib =
  encUint64 :: "u64 \<Rightarrow> bytes"
  encInt :: "int \<Rightarrow> bytes res"
  encInteger :: "int \<Rightarrow> bytes res"
  decRead :: "nat \<Rightarrow> bytes \<Rightarrow> (bytes \<times> bytes) res"
  decUint64 :: "bytes \<Rightarrow> (u64 \<times> bytes) res"
  decInt :: "bytes \<Rightarrow> (int \<times> bytes) res"
  decInteger :: "bytes \<Rightarrow> (int \<times> bytes) res"
  decBytes :: "bytes \<Rightarrow> (bytes option \<times> bytes) res"
  uuidFromString :: "string \<Rightarrow> bytes res"
  uuidFromBytes :: "bytes \<Rightarrow> bytes res"
  uuidString :: "bytes \<Rightarrow> string"
  integerAdd :: "int \<Rightarrow> int \<Rightarrow> int res"
  integerSub :: "int \<Rightarrow> int \<Rightarrow> int res"
  integerMul :: "int \<Rightarrow> int \<Rightarrow> int res"
  integerFromDecimal :: "rat \<Rightarrow> int res"
  integerReadBack :: "int \<Rightarrow> int res"

definition slice_bytes :: "bytes option \<Rightarrow> bytes" where
  "slice_bytes b = (case b of None \<Rightarrow> [] | Some x \<Rightarrow> x)"

section \<open>Data\<close>

definition EventExtraMaxSize :: nat where
  "EventExtraMaxSize = 256"

record event =
  e_Process :: string
  e_Asset :: string
  e_Members :: "string list"
  e_Threshold :: int
  e_Amount :: int
  e_Extra :: bytes
  e_Timestamp :: u64
  e_Nonce :: u64
  e_Signature :: "bytes option"

definition OperationPurposeUnknown :: int where
  "OperationPurposeUnknown = 0"

definition OperationPurposeGroupEvent :: int where
  "OperationPurposeGroupEvent = 1"

definition OperationPurposeAddProcess :: int where
  "OperationPurposeAddProcess = 11"

definition OperationPurposeCreditProcess :: int where
  "OperationPurposeCreditProcess = 12"

record operation =
  o_Purpose :: int
  o_Process :: string
  o_Platform :: string
  o_Address :: string
  o_Extra :: bytes

section \<open>Encoding\<close>

text \<open>\<open>fmt.Sprintf("%s:%16x", e.Process, e.Nonce)\<close>.\<close>

definition Event_ID :: "event \<Rightarrow> string" where
  "Event_ID e = e_Process e @ '':'' @ pad_left CHR '' '' 16 (nat_hex (unat (e_Nonce e)))"

text \<open>The encoder is the bytes written so far.\<close>

definition writeUUID :: "'z lib_scheme \<Rightarrow> bytes \<Rightarrow> string \<Rightarrow> bytes res" where
  "writeUUID L enc i = rbind (must (uuidFromString L i)) (\<lambda>uid. Ok (enc @ uid))"

definition writeInt :: "'z lib_scheme \<Rightarrow> bytes \<Rightarrow> int \<Rightarrow> bytes res" where
  "writeInt L enc n = rbind (encInt L n) (\<lambda>b. Ok (enc @ b))"

definition writeInteger :: "'z lib_scheme \<Rightarrow> bytes \<Rightarrow> int \<Rightarrow> bytes res" where
  "writeInteger L enc n = rbind (encInteger L n) (\<lambda>b. Ok (enc @ b))"

definition writeBytes :: "'z lib_scheme \<Rightarrow> bytes \<Rightarrow> bytes \<Rightarrow> bytes res" where
  "writeBytes L enc b =
     (if EventExtraMaxSize < length b then Panic ''bytes too long''
      else rbind (writeInt L enc (int (length b))) (\<lambda>enc. Ok (enc @ b)))"

definition Event_Encode :: "'z lib_scheme \<Rightarrow> event \<Rightarrow> bytes res" where
  "Event_Encode L e =
     rbind (writeUUID L [] (e_Process e)) (\<lambda>enc.
     rbind (writeUUID L (enc @ encUint64 L (e_Nonce e)) (e_Asset e)) (\<lambda>enc.
     rbind (writeInteger L enc (e_Amount e)) (\<lambda>enc.
     rbind (writeBytes L enc (e_Extra e)) (\<lambda>enc.
     let enc = enc @ encUint64 L (e_Timestamp e) in
     if 64 < length (e_Members e) then Panic ''too many members''
     else rbind (writeInt L enc (int (length (e_Members e)))) (\<lambda>enc.
     rbind (rfold (writeUUID L) enc (e_Members e)) (\<lambda>enc.
     if int (length (e_Members e)) < e_Threshold e then Panic ''threshold''
     else rbind (writeInt L enc (e_Threshold e)) (\<lambda>enc.
     writeBytes L enc (slice_bytes (e_Signature e)))))))))"

definition Operation_Encode :: "'z lib_scheme \<Rightarrow> operation \<Rightarrow> bytes res" where
  "Operation_Encode L p =
     rbind (writeInt L [] (o_Purpose p)) (\<lambda>enc.
     rbind (writeUUID L enc (o_Process p)) (\<lambda>enc.
     rbind (writeBytes L enc (o_Platform p)) (\<lambda>enc.
     rbind (writeBytes L enc (o_Address p)) (\<lambda>enc.
     writeBytes L enc (o_Extra p)))))"

section \<open>Decoding\<close>

text \<open>The decoder is the bytes not read yet.\<close>

definition readUUID :: "'z lib_scheme \<Rightarrow> bytes \<Rightarrow> (string \<times> bytes) res" where
  "readUUID L d =
     rbind (decRead L 16 d) (\<lambda>(b, d).
     rbind (uuidFromBytes L b) (\<lambda>i. Ok (uuidString L i, d)))"

fun readMembers :: "'z lib_scheme \<Rightarrow> nat \<Rightarrow> bytes \<Rightarrow> (string list \<times> bytes) res" where
  "readMembers L 0 d = Ok ([], d)"
| "readMembers L (Suc n) d =
     rbind (readUUID L d) (\<lambda>(m, d). rbind (readMembers L n d) (\<lambda>(ms, d). Ok (m # ms, d)))"

text \<open>\<open>make([]string, ml)\<close> panics on a negative length.\<close>

definition DecodeEvent :: "'z lib_scheme \<Rightarrow> bytes \<Rightarrow> event res" where
  "DecodeEvent L b =
     rbind (readUUID L b) (\<lambda>(process, d).
     rbind (decUint64 L d) (\<lambda>(nonce, d).
     rbind (readUUID L d) (\<lambda>(asset, d).
     rbind (decInteger L d) (\<lambda>(amount, d).
     rbind (decBytes L d) (\<lambda>(extra, d).
     rbind (decUint64 L d) (\<lambda>(timestamp, d).
     rbind (decInt L d) (\<lambda>(ml, d).
     if ml < 0 then Panic ''makeslice: len out of range''
     else rbind (readMembers L (nat ml) d) (\<lambda>(members, d).
     rbind (decInt L d) (\<lambda>(threshold, d).
     rbind (decBytes L d) (\<lambda>(sig, d).
     Ok \<lparr>e_Process = process, e_Asset = asset, e_Members = members, e_Threshold = threshold,
         e_Amount = amount, e_Extra = slice_bytes extra, e_Timestamp = timestamp,
         e_Nonce = nonce, e_Signature = sig\<rparr>))))))))))"

definition DecodeOperation :: "'z lib_scheme \<Rightarrow> bytes \<Rightarrow> operation res" where
  "DecodeOperation L b =
     rbind (decInt L b) (\<lambda>(purpose, d).
     rbind (readUUID L d) (\<lambda>(process, d).
     rbind (decBytes L d) (\<lambda>(platform, d).
     rbind (decBytes L d) (\<lambda>(address, d).
     rbind (decBytes L d) (\<lambda>(extra, d).
     Ok \<lparr>o_Purpose = purpose, o_Process = process, o_Platform = slice_bytes platform,
         o_Address = slice_bytes address, o_Extra = slice_bytes extra\<rparr>)))))"

section \<open>When encoding is possible\<close>

text \<open>An identifier in the form the UUID printer produces.\<close>

definition canonical_uuid :: "'z lib_scheme \<Rightarrow> string \<Rightarrow> bool" where
  "canonical_uuid L s \<longleftrightarrow>
     (case uuidFromString L s of Ok u \<Rightarrow> uuidString L u = s | _ \<Rightarrow> False)"

definition canonical_event :: "'z lib_scheme \<Rightarrow> event \<Rightarrow> bool" where
  "canonical_event L e \<longleftrightarrow> canonical_uuid L (e_Process e) \<and> canonical_uuid L (e_Asset e)
     \<and> list_all (canonical_uuid L) (e_Members e)"

definition event_encodable :: "event \<Rightarrow> bool" where
  "event_encodable e \<longleftrightarrow> length (e_Extra e) \<le> 256 \<and> length (slice_bytes (e_Signature e)) \<le> 256
     \<and> length (e_Members e) \<le> 64 \<and> 0 \<le> e_Threshold e
     \<and> e_Threshold e \<le> int (length (e_Members e)) \<and> 0 \<le> e_Amount e \<and> e_Amount e < 2 ^ 256"

section \<open>What the encodings rely on\<close>

lemma writeUUID_Ok [simp]:
  "writeUUID L enc i = Ok b \<longleftrightarrow> (\<exists>u. uuidFromString L i = Ok u \<and> b = enc @ u)"
  by (auto simp: writeUUID_def)

locale codec =
  fixes L :: "'z lib_scheme"
  assumes uint64_rt: "decUint64 L (encUint64 L n @ r) = Ok (n, r)"
    and int_rt: "encInt L i = Ok b \<Longrightarrow> decInt L (b @ r) = Ok (i, r)"
    and int_total: "0 \<le> i \<Longrightarrow> i \<le> 65535 \<Longrightarrow> \<exists>b. encInt L i = Ok b"
    and int_nonneg: "i < 0 \<Longrightarrow> \<exists>e. encInt L i = Panic e"
    and integer_rt: "encInteger L a = Ok b \<Longrightarrow> decInteger L (b @ r) = Ok (a, r)"
    and integer_total: "0 \<le> a \<Longrightarrow> a < 2 ^ 256 \<Longrightarrow> \<exists>b. encInteger L a = Ok b"
    and bytes_rt: "encInt L (int (length x)) = Ok b \<Longrightarrow>
        \<exists>s. decBytes L (b @ x @ r) = Ok (s, r) \<and> slice_bytes s = x"
    and read_rt: "length x = k \<Longrightarrow> decRead L k (x @ r) = Ok (x, r)"
    and uuid_length: "uuidFromString L i' = Ok u \<Longrightarrow> length u = 16"
    and uuid_bytes: "length u = 16 \<Longrightarrow> uuidFromBytes L u = Ok u"
    and uuid_text_length: "uuidFromBytes L b = Ok u \<Longrightarrow> length (uuidString L u) = 36"
begin

lemma readUUID_rt:
  "canonical_uuid L i \<Longrightarrow> uuidFromString L i = Ok u \<Longrightarrow> readUUID L (u @ r) = Ok (i, r)"
  by (auto simp: readUUID_def canonical_uuid_def read_rt uuid_length uuid_bytes)

lemma readUUID_length: "readUUID L d = Ok (s, r) \<Longrightarrow> length s = 36"
  by (auto simp: readUUID_def uuid_text_length)

lemma DecodeOperation_process: "DecodeOperation L b = Ok op \<Longrightarrow> length (o_Process op) = 36"
  by (auto simp: DecodeOperation_def dest: readUUID_length)

lemma DecodeEvent_process: "DecodeEvent L b = Ok e \<Longrightarrow> length (e_Process e) = 36"
  by (auto simp: DecodeEvent_def split: if_splits dest: readUUID_length)

lemma members_rt:
  "rfold (writeUUID L) enc ms = Ok b \<Longrightarrow> list_all (canonical_uuid L) ms \<Longrightarrow>
   \<exists>x. b = enc @ x \<and> (\<forall>r. readMembers L (length ms) (x @ r) = Ok (ms, r))"
proof (induction ms arbitrary: enc)
  case (Cons m ms)
  from Cons.prems obtain u where u: "uuidFromString L m = Ok u"
    and rest: "rfold (writeUUID L) (enc @ u) ms = Ok b"
    by auto
  from Cons.IH [OF rest] Cons.prems obtain x where "b = (enc @ u) @ x"
    "\<forall>r. readMembers L (length ms) (x @ r) = Ok (ms, r)" by auto
  then show ?case
    using readUUID_rt [OF _ u] Cons.prems by (intro exI [of _ "u @ x"]) simp
qed simp

lemma writeBytes_rt:
  "writeBytes L enc x = Ok b \<Longrightarrow>
   length x \<le> 256 \<and> (\<exists>l. b = enc @ l @ x \<and> encInt L (int (length x)) = Ok l)"
  by (auto simp: writeBytes_def writeInt_def EventExtraMaxSize_def split: if_splits)

lemma writeBytes_total: "length x \<le> 256 \<Longrightarrow> \<exists>b. writeBytes L enc x = Ok b"
  using int_total [of "int (length x)"]
  by (auto simp: writeBytes_def writeInt_def EventExtraMaxSize_def)

lemma event_rt:
  assumes "canonical_event L e" and "Event_Encode L e = Ok b"
  shows "\<exists>s. DecodeEvent L (b @ junk) = Ok (e\<lparr>e_Signature := s\<rparr>)
           \<and> slice_bytes s = slice_bytes (e_Signature e)"
proof -
  from assms(2) obtain p a am lx lm mb lt ls where
    p: "uuidFromString L (e_Process e) = Ok p" and a: "uuidFromString L (e_Asset e) = Ok a"
    and am: "encInteger L (e_Amount e) = Ok am" and lx: "encInt L (int (length (e_Extra e))) = Ok lx"
    and lm: "encInt L (int (length (e_Members e))) = Ok lm"
    and mb: "rfold (writeUUID L) (p @ encUint64 L (e_Nonce e) @ a @ am @ lx @ e_Extra e
               @ encUint64 L (e_Timestamp e) @ lm) (e_Members e) = Ok mb"
    and lt: "encInt L (e_Threshold e) = Ok lt"
    and ls: "encInt L (int (length (slice_bytes (e_Signature e)))) = Ok ls"
    and b: "b = mb @ lt @ ls @ slice_bytes (e_Signature e)"
    by (auto simp: Event_Encode_def writeInt_def writeInteger_def Let_def
        split: if_splits dest!: writeBytes_rt)
  from assms(1) have can: "canonical_uuid L (e_Process e)" "canonical_uuid L (e_Asset e)"
    "list_all (canonical_uuid L) (e_Members e)" by (auto simp: canonical_event_def)
  from members_rt [OF mb can(3)] obtain x where
    mbx: "mb = p @ encUint64 L (e_Nonce e) @ a @ am @ lx @ e_Extra e
               @ encUint64 L (e_Timestamp e) @ lm @ x"
    and rm: "\<And>r. readMembers L (length (e_Members e)) (x @ r) = Ok (e_Members e, r)" by auto
  let ?rest = "encUint64 L (e_Timestamp e) @ lm @ x @ lt @ ls @ slice_bytes (e_Signature e) @ junk"
  obtain sx where sx: "decBytes L (lx @ e_Extra e @ ?rest) = Ok (sx, ?rest)"
    "slice_bytes sx = e_Extra e" using bytes_rt [OF lx] by blast
  obtain ss where ss: "decBytes L (ls @ slice_bytes (e_Signature e) @ junk) = Ok (ss, junk)"
    "slice_bytes ss = slice_bytes (e_Signature e)" using bytes_rt [OF ls] by blast
  have "DecodeEvent L (b @ junk) = Ok (e\<lparr>e_Signature := ss\<rparr>)"
    unfolding b mbx DecodeEvent_def
    using readUUID_rt [OF can(1) p] readUUID_rt [OF can(2) a] int_rt [OF lm] int_rt [OF lt]
      integer_rt [OF am] sx ss(1) rm uint64_rt
    by simp
  with ss(2) show ?thesis by blast
qed

lemma operation_rt:
  assumes "canonical_uuid L (o_Process p)" and "Operation_Encode L p = Ok b"
  shows "DecodeOperation L (b @ junk) = Ok p"
proof -
  from assms(2) obtain lp u l1 l2 l3 where
    lp: "encInt L (o_Purpose p) = Ok lp" and u: "uuidFromString L (o_Process p) = Ok u"
    and l1: "encInt L (int (length (o_Platform p))) = Ok l1"
    and l2: "encInt L (int (length (o_Address p))) = Ok l2"
    and l3: "encInt L (int (length (o_Extra p))) = Ok l3"
    and b: "b = lp @ u @ l1 @ o_Platform p @ l2 @ o_Address p @ l3 @ o_Extra p"
    by (auto simp: Operation_Encode_def writeInt_def dest!: writeBytes_rt)
  obtain s1 where s1: "decBytes L (l1 @ o_Platform p @ l2 @ o_Address p @ l3 @ o_Extra p @ junk)
      = Ok (s1, l2 @ o_Address p @ l3 @ o_Extra p @ junk)" "slice_bytes s1 = o_Platform p"
    using bytes_rt [OF l1] by blast
  obtain s2 where s2: "decBytes L (l2 @ o_Address p @ l3 @ o_Extra p @ junk)
      = Ok (s2, l3 @ o_Extra p @ junk)" "slice_bytes s2 = o_Address p"
    using bytes_rt [OF l2] by blast
  obtain s3 where s3: "decBytes L (l3 @ o_Extra p @ junk) = Ok (s3, junk)"
    "slice_bytes s3 = o_Extra p" using bytes_rt [OF l3] by blast
  show ?thesis
    unfolding b DecodeOperation_def
    using int_rt [OF lp] readUUID_rt [OF assms(1) u] s1 s2 s3 by simp
qed

lemma members_total:
  "list_all (canonical_uuid L) ms \<Longrightarrow> \<exists>b. rfold (writeUUID L) enc ms = Ok b"
proof (induction ms arbitrary: enc)
  case (Cons m ms)
  then obtain u where "uuidFromString L m = Ok u"
    by (auto simp: canonical_uuid_def split: res.splits)
  with Cons show ?case by (auto simp: rbind_Ok_iff)
qed simp

lemma event_encode_total:
  assumes "canonical_event L e" and "event_encodable e"
  shows "\<exists>b. Event_Encode L e = Ok b"
proof -
  from assms(1) obtain p a where p: "uuidFromString L (e_Process e) = Ok p"
    and a: "uuidFromString L (e_Asset e) = Ok a"
    and ms: "list_all (canonical_uuid L) (e_Members e)"
    by (auto simp: canonical_event_def canonical_uuid_def split: res.splits)
  from assms(2) have enc: "length (e_Extra e) \<le> 256" "length (slice_bytes (e_Signature e)) \<le> 256"
    "length (e_Members e) \<le> 64" "0 \<le> e_Threshold e" "e_Threshold e \<le> int (length (e_Members e))"
    and amt: "0 \<le> e_Amount e" "e_Amount e < 2 ^ 256"
    by (auto simp: event_encodable_def)
  obtain am where "encInteger L (e_Amount e) = Ok am" using integer_total [OF amt] by blast
  moreover obtain lm where "encInt L (int (length (e_Members e))) = Ok lm"
    using int_total [of "int (length (e_Members e))"] enc(3) by auto
  moreover obtain lt where "encInt L (e_Threshold e) = Ok lt"
    using int_total [of "e_Threshold e"] enc by auto
  ultimately show ?thesis
    using p a enc writeBytes_total [OF enc(1)] writeBytes_total [OF enc(2)] members_total [OF ms]
    by (simp add: Event_Encode_def writeUUID_def writeInt_def writeInteger_def Let_def)
      (metis (no_types, lifting))
qed

lemma event_encode_Ok_bounds:
  assumes "Event_Encode L e = Ok b"
  shows "length (e_Extra e) \<le> 256 \<and> length (slice_bytes (e_Signature e)) \<le> 256
     \<and> length (e_Members e) \<le> 64 \<and> 0 \<le> e_Threshold e
     \<and> e_Threshold e \<le> int (length (e_Members e))"
proof -
  from assms have "length (e_Extra e) \<le> 256" "length (slice_bytes (e_Signature e)) \<le> 256"
    "length (e_Members e) \<le> 64" "e_Threshold e \<le> int (length (e_Members e))"
    "\<exists>lt. encInt L (e_Threshold e) = Ok lt"
    by (auto simp: Event_Encode_def writeInt_def Let_def split: if_splits dest!: writeBytes_rt)
  moreover from this(5) have "0 \<le> e_Threshold e"
    using int_nonneg [of "e_Threshold e"] by (cases "e_Threshold e < 0") auto
  ultimately show ?thesis by simp
qed

end

text \<open>The arithmetic of \<open>common.Integer\<close>: it panics on operands that are not amounts.\<close>

locale amounts =
  fixes L :: "'z lib_scheme"
  assumes add_Ok: "integerAdd L x y = Ok z \<longleftrightarrow> 0 \<le> x \<and> 0 < y \<and> z = x + y"
    and sub_Ok: "integerSub L x y = Ok z \<longleftrightarrow> 0 \<le> x \<and> 0 < y \<and> y \<le> x \<and> z = x - y"
    and mul_Ok: "integerMul L x y = Ok z \<longleftrightarrow> 0 \<le> x \<and> 0 < y \<and> z = x * y"
    and dec_Ok: "integerFromDecimal L d = Ok z \<Longrightarrow> 0 \<le> z"
    and read_Ok: "integerReadBack L x = Ok z \<Longrightarrow> z = x"
    and read_pos: "0 < x \<Longrightarrow> integerReadBack L x = Ok x"

end
