(* ===== verification/Store.thy ===== *)
theory Store
  imports Badger Encoding
begin

text \<open>
  mvm/store: the \<open>BadgerStore\<close> of the machine. Each exported method is one definition on the
  database contents; a method that updates returns the new contents, a method that reads returns
  its result. The records are the structs of mvm/machine that the store saves.

  Values are kept by what was written: \<open>Raw\<close> for plain bytes, \<open>Dec\<close> for the decimal text of
  an amount, one constructor per struct for the JSON texts. \<open>encoding.JSONUnmarshal\<close> of a value
  that was written as the same struct gives the struct back, any other value is its error.
\<close>

section \<open>Data\<close>

record process =
  p_Identifier :: string
  p_Platform :: string
  p_Address :: string
  p_Credit :: int
  p_Nonce :: u64
  p_Asset :: bool

record account_snapshot =
  as_Process :: string
  as_Nonce :: u64
  as_Asset :: string
  as_Amount :: int
  as_Credit :: bool

record asset =
  a_Id :: string
  a_Symbol :: string
  a_Name :: string

record collectible_token =
  ct_Id :: string
  ct_Symbol :: string
  ct_Name :: string

datatype dbval =
    Raw bytes
  | Dec int
  | JEvent event
  | JProcess process
  | JSnapshot account_snapshot
  | JAsset asset
  | JToken collectible_token

type_synonym store = "dbval badger"

definition as_bytes :: "dbval \<Rightarrow> bytes res" where
  "as_bytes v = (case v of Raw b \<Rightarrow> Ok b | _ \<Rightarrow> Err ''bytes'')"

definition as_decimal :: "'z lib_scheme \<Rightarrow> dbval \<Rightarrow> int res" where
  "as_decimal L v = (case v of Dec d \<Rightarrow> integerReadBack L d | _ \<Rightarrow> Panic ''NewIntegerFromString'')"

definition as_event :: "dbval \<Rightarrow> event res" where
  "as_event v = (case v of JEvent e \<Rightarrow> Ok e | _ \<Rightarrow> Err ''JSONUnmarshal'')"

definition as_process :: "dbval \<Rightarrow> process res" where
  "as_process v = (case v of JProcess p \<Rightarrow> Ok p | _ \<Rightarrow> Err ''JSONUnmarshal'')"

definition as_asset :: "dbval \<Rightarrow> asset res" where
  "as_asset v = (case v of JAsset a \<Rightarrow> Ok a | _ \<Rightarrow> Err ''JSONUnmarshal'')"

definition as_token :: "dbval \<Rightarrow> collectible_token res" where
  "as_token v = (case v of JToken t \<Rightarrow> Ok t | _ \<Rightarrow> Err ''JSONUnmarshal'')"

text \<open>The idiom \<open>txn.Get\<close>, \<open>ErrKeyNotFound\<close> is nil, \<open>ValueCopy\<close>, decode.\<close>

definition read_opt :: "store \<Rightarrow> (dbval \<Rightarrow> 'a res) \<Rightarrow> bytes \<Rightarrow> 'a option res" where
  "read_opt s dec k = rbind (txn_get s k) (\<lambda>item. case item of
       None \<Rightarrow> Ok None
     | Some v \<Rightarrow> rbind (txn_value s k v) (\<lambda>w. rbind (dec w) (\<lambda>x. Ok (Some x))))"

section \<open>Keys\<close>

definition prefixPendingEventQueue :: string where
  "prefixPendingEventQueue = ''MVM:EVENT:PENDING:QUEUE:''"

definition prefixPendingEventSignatures :: string where
  "prefixPendingEventSignatures = ''MVM:EVENT:PENDING:SIGNATURES:''"

definition prefixPendingEventIdentifier :: string where
  "prefixPendingEventIdentifier = ''MVM:EVENT:PENDING:IDENTIFIER:''"

definition prefixSignedEventQueue :: string where
  "prefixSignedEventQueue = ''MVM:EVENT:SIGNED:QUEUE:''"

definition prefixProcessPayload :: string where
  "prefixProcessPayload = ''MVM:PROCESS:PAYLOAD:''"

definition prefixEngineGroupEventsOffset :: string where
  "prefixEngineGroupEventsOffset = ''MVM:ENGINE:GROUP:EVENTS:OFFSET:''"

definition prefixAccountSnapshotInc :: string where
  "prefixAccountSnapshotInc = ''MVM:ACCOUNT:SNAPSHOT:INC:''"

definition prefixAccountSnapshotDec :: string where
  "prefixAccountSnapshotDec = ''MVM:ACCOUNT:SNAPSHOT:DEC:''"

definition prefixAccountBalance :: string where
  "prefixAccountBalance = ''MVM:ACCOUNT:BALANCE:''"

definition prefixAssetMeta :: string where
  "prefixAssetMeta = ''MVM:ASSET:META:''"

definition prefixCollectibleTokenMeta :: string where
  "prefixCollectibleTokenMeta = ''MVM:COLLECTIBLE:TOKEN:META:''"

definition prefixCollectibleOrAsset :: string where
  "prefixCollectibleOrAsset = ''MVM:OR:COLLECTIBLE:ASSET:''"

definition uint64Bytes :: "u64 \<Rightarrow> bytes" where
  "uint64Bytes i = putUint64 i"

definition buildPendingEventSignaturesKey :: "string \<Rightarrow> u64 \<Rightarrow> bytes" where
  "buildPendingEventSignaturesKey pid nonce = (prefixPendingEventSignatures @ pid) @ uint64Bytes nonce"

definition buildPendingEventTimedKey :: "event \<Rightarrow> bytes" where
  "buildPendingEventTimedKey evt =
     prefixPendingEventQueue @ uint64Bytes (e_Timestamp evt) @ e_Process evt @ uint64Bytes (e_Nonce evt)"

definition buildSignedEventTimedKey :: "string \<Rightarrow> u64 \<Rightarrow> bytes" where
  "buildSignedEventTimedKey pid nonce = (prefixSignedEventQueue @ pid) @ uint64Bytes nonce"

definition buildAccountSnapshotKey :: "account_snapshot \<Rightarrow> bytes" where
  "buildAccountSnapshotKey sn =
     ((if as_Credit sn then prefixAccountSnapshotInc else prefixAccountSnapshotDec)
        @ as_Process sn) @ uint64Bytes (as_Nonce sn)"

definition buildAccountBalanceKey :: "string \<Rightarrow> string \<Rightarrow> bytes" where
  "buildAccountBalanceKey pid ast = (prefixAccountBalance @ pid) @ ast"

definition buildAssetMetaKey :: "string \<Rightarrow> bytes" where
  "buildAssetMetaKey i = prefixAssetMeta @ i"

definition buildCollectibleTokenMetaKey :: "string \<Rightarrow> bytes" where
  "buildCollectibleTokenMetaKey i = prefixCollectibleTokenMeta @ i"

definition identifierKey :: "string \<Rightarrow> bytes" where
  "identifierKey i = prefixPendingEventIdentifier @ i"

definition processKey :: "string \<Rightarrow> bytes" where
  "processKey pid = prefixProcessPayload @ pid"

definition offsetKey :: "string \<Rightarrow> bytes" where
  "offsetKey pid = prefixEngineGroupEventsOffset @ pid"

definition categoryKey :: "string \<Rightarrow> bytes" where
  "categoryKey i = prefixCollectibleOrAsset @ i"

section \<open>Processes and offsets (process.go)\<close>

definition readProcess :: "store \<Rightarrow> string \<Rightarrow> process option res" where
  "readProcess s pid = read_opt s as_process (processKey pid)"

definition writeProcess :: "store \<Rightarrow> process \<Rightarrow> store res" where
  "writeProcess s p = txn_set s (processKey (p_Identifier p)) (JProcess p)"

definition WriteProcess :: "store \<Rightarrow> process \<Rightarrow> store res" where
  "WriteProcess s p = db_update s (\<lambda>s. rbind (readProcess s (p_Identifier p)) (\<lambda>old.
     if old \<noteq> None then Ok s else writeProcess s p))"

definition ListProcesses :: "store \<Rightarrow> process list res" where
  "ListProcesses s = list_items s as_process (iter_from s prefixProcessPayload prefixProcessPayload)"

text \<open>A failed \<open>ValueCopy\<close> leaves a nil slice, on which \<open>BigEndian.Uint64\<close> panics before
  the error is returned.\<close>

definition ReadEngineGroupEventsOffset :: "store \<Rightarrow> string \<Rightarrow> u64 res" where
  "ReadEngineGroupEventsOffset s pid = rbind (txn_get s (offsetKey pid)) (\<lambda>item. case item of
       None \<Rightarrow> Ok 0
     | Some v \<Rightarrow> rbind (must (txn_value s (offsetKey pid) v)) (\<lambda>w. rbind (as_bytes w) getUint64))"

definition WriteEngineGroupEventsOffset :: "store \<Rightarrow> string \<Rightarrow> u64 \<Rightarrow> store res" where
  "WriteEngineGroupEventsOffset s pid offset =
     db_update s (\<lambda>s. txn_set s (offsetKey pid) (Raw (uint64Bytes offset)))"

section \<open>Events (event.go)\<close>

definition checkFullSignature :: "bytes \<Rightarrow> bool" where
  "checkFullSignature val \<longleftrightarrow> length val = 64"

definition readPendingGroupEventIdentifier :: "store \<Rightarrow> string \<Rightarrow> u64 res" where
  "readPendingGroupEventIdentifier s i = rbind (read_opt s as_bytes (identifierKey i)) (\<lambda>v.
     case v of None \<Rightarrow> Ok 0 | Some b \<Rightarrow> getUint64 b)"

definition writePendingGroupEventIdentifier :: "store \<Rightarrow> string \<Rightarrow> u64 \<Rightarrow> store res" where
  "writePendingGroupEventIdentifier s i ts = txn_set s (identifierKey i) (Raw (uint64Bytes ts))"

definition CheckPendingGroupEventIdentifier :: "store \<Rightarrow> string \<Rightarrow> bool res" where
  "CheckPendingGroupEventIdentifier s i =
     rbind (readPendingGroupEventIdentifier s i) (\<lambda>ts. Ok (0 < ts))"

definition checkSignedEvent :: "store \<Rightarrow> string \<Rightarrow> u64 \<Rightarrow> bool res" where
  "checkSignedEvent s pid nonce =
     rbind (read_opt s as_bytes (buildPendingEventSignaturesKey pid nonce)) (\<lambda>v.
       case v of None \<Rightarrow> Ok False | Some val \<Rightarrow> Ok (checkFullSignature val))"

definition WritePendingGroupEventAndNonce :: "store \<Rightarrow> event \<Rightarrow> string \<Rightarrow> store res" where
  "WritePendingGroupEventAndNonce s evt i = db_update s (\<lambda>s.
     if e_Timestamp evt \<le> 0 then Panic ''timestamp''
     else rbind (readPendingGroupEventIdentifier s i) (\<lambda>ts.
     if 0 < ts then Panic i
     else rbind (writePendingGroupEventIdentifier s i (e_Timestamp evt)) (\<lambda>s.
     rbind (readProcess s (e_Process evt)) (\<lambda>proc.
     case proc of
       None \<Rightarrow> Panic ''nil pointer dereference''
     | Some proc \<Rightarrow>
         if p_Nonce proc \<noteq> e_Nonce evt then Panic ''nonce''
         else rbind (writeProcess s (proc\<lparr>p_Nonce := p_Nonce proc + 1\<rparr>)) (\<lambda>s.
         rbind (checkSignedEvent s (e_Process evt) (e_Nonce evt)) (\<lambda>full.
         if full then Ok s
         else txn_set s (buildPendingEventTimedKey evt) (JEvent evt)))))))"

definition ListPendingGroupEvents :: "store \<Rightarrow> int \<Rightarrow> event list res" where
  "ListPendingGroupEvents s limit =
     list_loop s as_event (\<lambda>n. int n = limit) []
       (iter_from s prefixPendingEventQueue prefixPendingEventQueue)"

text \<open>\<open>val[i*66 : (i+1)*66]\<close> for the \<open>len(val)/66\<close> whole chunks.\<close>

definition ReadGroupEventSignatures :: "store \<Rightarrow> string \<Rightarrow> u64 \<Rightarrow> (bytes list \<times> bool) res" where
  "ReadGroupEventSignatures s pid nonce =
     rbind (read_opt s as_bytes (buildPendingEventSignaturesKey pid nonce)) (\<lambda>v. case v of
         None \<Rightarrow> Ok ([], False)
       | Some val \<Rightarrow>
           if length val = 64 then Ok ([val], True)
           else Ok (map (\<lambda>i. take 66 (drop (i * 66) val)) [0..<length val div 66], False))"

definition append_partial :: "bytes \<Rightarrow> bytes \<Rightarrow> bytes res" where
  "append_partial val p = (if length p \<noteq> 66 then Panic (hexEncode p) else Ok (val @ p))"

definition WritePendingGroupEventSignatures :: "store \<Rightarrow> string \<Rightarrow> u64 \<Rightarrow> bytes list \<Rightarrow> store res" where
  "WritePendingGroupEventSignatures s pid nonce partials = db_update s (\<lambda>s.
     rbind (checkSignedEvent s pid nonce) (\<lambda>full.
     if full then Ok s
     else rbind (rfold append_partial [] partials) (\<lambda>val.
     txn_set s (buildPendingEventSignaturesKey pid nonce) (Raw val))))"

definition WriteSignedGroupEventAndExpirePending :: "store \<Rightarrow> event \<Rightarrow> store res" where
  "WriteSignedGroupEventAndExpirePending s evt = db_update s (\<lambda>s.
     if \<not> checkFullSignature (slice_bytes (e_Signature evt))
     then Panic (hexEncode (slice_bytes (e_Signature evt)))
     else rbind (checkSignedEvent s (e_Process evt) (e_Nonce evt)) (\<lambda>full.
     if full then Ok s
     else rbind (txn_delete s (buildPendingEventTimedKey evt)) (\<lambda>s.
     rbind (txn_set s (buildPendingEventSignaturesKey (e_Process evt) (e_Nonce evt))
              (Raw (slice_bytes (e_Signature evt)))) (\<lambda>s.
     txn_set s (buildSignedEventTimedKey (e_Process evt) (e_Nonce evt)) (JEvent evt)))))"

definition ListSignedGroupEvents :: "store \<Rightarrow> string \<Rightarrow> int \<Rightarrow> event list res" where
  "ListSignedGroupEvents s pid limit =
     list_loop s as_event (\<lambda>n. int n = limit) []
       (iter_from s (prefixSignedEventQueue @ pid) (prefixSignedEventQueue @ pid))"

definition delete_signed :: "string \<Rightarrow> store \<Rightarrow> event \<Rightarrow> store res" where
  "delete_signed pid s evt =
     (if e_Process evt \<noteq> pid then Panic (e_Process evt)
      else txn_delete s (buildSignedEventTimedKey (e_Process evt) (e_Nonce evt)))"

definition ExpireGroupEventsWithCost :: "'z lib_scheme \<Rightarrow> store \<Rightarrow> event list \<Rightarrow> int \<Rightarrow> store res" where
  "ExpireGroupEventsWithCost L s events cost = (case events of
       [] \<Rightarrow> Ok s
     | e0 # _ \<Rightarrow> let pid = e_Process e0 in db_update s (\<lambda>s.
         rbind (rfold (delete_signed pid) s events) (\<lambda>s.
         if cost = 0 then Ok s
         else rbind (readProcess s pid) (\<lambda>p. case p of
             None \<Rightarrow> Panic ''nil pointer dereference''
           | Some p \<Rightarrow> rbind (integerSub L (p_Credit p) cost) (\<lambda>c.
               writeProcess s (p\<lparr>p_Credit := c\<rparr>))))))"

section \<open>Accounts (account.go)\<close>

definition readAccountBalance :: "'z lib_scheme \<Rightarrow> store \<Rightarrow> string \<Rightarrow> string \<Rightarrow> int res" where
  "readAccountBalance L s pid ast = rbind (read_opt s (as_decimal L) (buildAccountBalanceKey pid ast)) (\<lambda>v.
     Ok (case v of None \<Rightarrow> 0 | Some d \<Rightarrow> d))"

definition CheckAccountSnapshot :: "'z lib_scheme \<Rightarrow> store \<Rightarrow> account_snapshot \<Rightarrow> bool res" where
  "CheckAccountSnapshot L s sn =
     (if as_Credit sn then Panic ''credit''
      else rbind (txn_get s (buildAccountSnapshotKey sn)) (\<lambda>item.
      if item \<noteq> None then Ok True
      else rbind (readAccountBalance L s (as_Process sn) (as_Asset sn)) (\<lambda>balance.
      Ok (as_Amount sn \<le> balance))))"

definition WriteAccountSnapshot :: "'z lib_scheme \<Rightarrow> store \<Rightarrow> account_snapshot \<Rightarrow> store res" where
  "WriteAccountSnapshot L s sn = db_update s (\<lambda>s.
     rbind (txn_get s (buildAccountSnapshotKey sn)) (\<lambda>item.
     if item \<noteq> None then Ok s
     else rbind (readAccountBalance L s (as_Process sn) (as_Asset sn)) (\<lambda>bal.
     if \<not> as_Credit sn \<and> bal < as_Amount sn then Panic ''balance''
     else rbind (if as_Credit sn then integerAdd L bal (as_Amount sn)
                 else integerSub L bal (as_Amount sn)) (\<lambda>bal.
     rbind (txn_set s (buildAccountBalanceKey (as_Process sn) (as_Asset sn)) (Dec bal)) (\<lambda>s.
     txn_set s (buildAccountSnapshotKey sn) (JSnapshot sn))))))"

section \<open>Assets and collectibles (asset.go, collectible.go)\<close>

definition readAssetMeta :: "store \<Rightarrow> string \<Rightarrow> asset option res" where
  "readAssetMeta s i = read_opt s as_asset (buildAssetMetaKey i)"

definition ReadAsset :: "store \<Rightarrow> string \<Rightarrow> asset option res" where
  "ReadAsset s i = readAssetMeta s i"

definition WriteAsset :: "store \<Rightarrow> asset \<Rightarrow> store res" where
  "WriteAsset s a = db_update s (\<lambda>s. rbind (readAssetMeta s (a_Id a)) (\<lambda>old.
     if old \<noteq> None then Ok s else txn_set s (buildAssetMetaKey (a_Id a)) (JAsset a)))"

definition ReadAssetOrCollectible :: "store \<Rightarrow> string \<Rightarrow> string res" where
  "ReadAssetOrCollectible s i = rbind (read_opt s as_bytes (categoryKey i)) (\<lambda>v.
     Ok (case v of None \<Rightarrow> [] | Some b \<Rightarrow> b))"

definition WriteAssetOrCollectible :: "store \<Rightarrow> string \<Rightarrow> string \<Rightarrow> store res" where
  "WriteAssetOrCollectible s i cat = db_update s (\<lambda>s. txn_set s (categoryKey i) (Raw cat))"

definition readCollectibleTokenMeta :: "store \<Rightarrow> string \<Rightarrow> collectible_token option res" where
  "readCollectibleTokenMeta s i = read_opt s as_token (buildCollectibleTokenMetaKey i)"

definition ReadCollectibleToken :: "store \<Rightarrow> string \<Rightarrow> collectible_token option res" where
  "ReadCollectibleToken s i = readCollectibleTokenMeta s i"

definition WriteCollectibleToken :: "store \<Rightarrow> collectible_token \<Rightarrow> store res" where
  "WriteCollectibleToken s t = db_update s (\<lambda>s. rbind (readCollectibleTokenMeta s (ct_Id t)) (\<lambda>old.
     if old \<noteq> None then Ok s else txn_set s (buildCollectibleTokenMetaKey (ct_Id t)) (JToken t)))"

end
