(* ===== verification/Wire_Lib.thy ===== *)
theory Wire_Lib
  imports Encoding
begin

text \<open>
  A concrete instance of the record \<open>lib\<close>, used to show that the assumptions of the development
  can hold and to evaluate concrete events: big-endian integers, two-byte lengths and minimal
  big-endian amounts, the layout the contracts in mvm/quorum/contracts read; identifiers in the
  8-4-4-4-12 hexadecimal form; fixed-point amounts whose operations panic on negative operands.
\<close>

fun nat_bytes :: "nat \<Rightarrow> bytes" where
  "nat_bytes n = (if n = 0 then [] else nat_bytes (n div 256) @ [char_of (n mod 256)])"

declare nat_bytes.simps [simp del]

definition wire_encInt :: "int \<Rightarrow> bytes res" where
  "wire_encInt i = (if 0 \<le> i \<and> i \<le> 65535 then Ok (be_bytes 2 (nat i)) else Panic ''int'')"

definition wire_read :: "nat \<Rightarrow> bytes \<Rightarrow> (bytes \<times> bytes) res" where
  "wire_read n b = (if length b < n then Err ''EOF'' else Ok (take n b, drop n b))"

definition wire_decInt :: "bytes \<Rightarrow> (int \<times> bytes) res" where
  "wire_decInt b = rbind (wire_read 2 b) (\<lambda>(x, r). Ok (int (be_nat x), r))"

definition wire_decBytes :: "bytes \<Rightarrow> (bytes option \<times> bytes) res" where
  "wire_decBytes b = rbind (wire_decInt b) (\<lambda>(n, r).
     if n = 0 then Ok (None, r) else rbind (wire_read (nat n) r) (\<lambda>(x, r). Ok (Some x, r)))"

definition wire_encInteger :: "int \<Rightarrow> bytes res" where
  "wire_encInteger a = (if a < 0 then Panic ''integer'' else
     let b = nat_bytes (nat a) in rbind (wire_encInt (int (length b))) (\<lambda>l. Ok (l @ b)))"

definition wire_decInteger :: "bytes \<Rightarrow> (int \<times> bytes) res" where
  "wire_decInteger b = rbind (wire_decBytes b) (\<lambda>(x, r). Ok (int (be_nat (slice_bytes x)), r))"

definition uuid_text :: "bytes \<Rightarrow> string" where
  "uuid_text u = (let h = hexEncode u in take 8 h @ ''-'' @ take 4 (drop 8 h) @ ''-''
     @ take 4 (drop 12 h) @ ''-'' @ take 4 (drop 16 h) @ ''-'' @ drop 20 h)"

definition uuid_parse :: "string \<Rightarrow> bytes res" where
  "uuid_parse s = (if length s = 36 \<and> s ! 8 = CHR ''-'' \<and> s ! 13 = CHR ''-'' \<and> s ! 18 = CHR ''-''
       \<and> s ! 23 = CHR ''-''
     then hexDecode (take 8 s @ take 4 (drop 9 s) @ take 4 (drop 14 s) @ take 4 (drop 19 s) @ drop 24 s)
     else Err ''uuid: incorrect length'')"

definition wire_lib :: lib where
  "wire_lib = \<lparr>
     encUint64 = putUint64,
     encInt = wire_encInt,
     encInteger = wire_encInteger,
     decRead = wire_read,
     decUint64 = (\<lambda>b. rbind (wire_read 8 b) (\<lambda>(x, r). Ok (word_of_nat (be_nat x), r))),
     decInt = wire_decInt,
     decInteger = wire_decInteger,
     decBytes = wire_decBytes,
     uuidFromString = uuid_parse,
     uuidFromBytes = (\<lambda>b. if length b = 16 then Ok b else Err ''uuid''),
     uuidString = uuid_text,
     integerAdd = (\<lambda>x y. if x < 0 \<or> y \<le> 0 then Panic ''Add'' else Ok (x + y)),
     integerSub = (\<lambda>x y. if x < 0 \<or> y \<le> 0 \<or> x < y then Panic ''Sub'' else Ok (x - y)),
     integerMul = (\<lambda>x y. if x < 0 \<or> y \<le> 0 then Panic ''Mul'' else Ok (x * y)),
     integerFromDecimal = (\<lambda>d. if d \<le> 0 then Panic ''decimal'' else Ok \<lfloor>d * 100000000\<rfloor>),
     integerReadBack = (\<lambda>x. if x < 0 then Panic ''NewIntegerFromString'' else Ok x)\<rparr>"

section \<open>The instance satisfies the assumptions\<close>

lemma be_nat_snoc: "be_nat (xs @ [c]) = be_nat xs * 256 + of_char c"
  by (induction xs) (auto simp: algebra_simps)

lemma be_nat_nat_bytes: "be_nat (nat_bytes n) = n"
proof (induction n rule: nat_bytes.induct)
  case (1 n)
  then show ?case
    by (subst nat_bytes.simps) (auto simp: be_nat_snoc)
qed

lemma length_nat_bytes: "n < 256 ^ k \<Longrightarrow> length (nat_bytes n) \<le> k"
proof (induction k arbitrary: n)
  case 0
  then show ?case by (simp add: nat_bytes.simps)
next
  case (Suc k)
  then have "n div 256 < 256 ^ k" by (simp add: less_mult_imp_div_less mult.commute)
  from Suc.IH [OF this] show ?case by (subst nat_bytes.simps) auto
qed

lemma wire_read_append: "length x = n \<Longrightarrow> wire_read n (x @ r) = Ok (x, r)"
  by (simp add: wire_read_def)

lemma wire_int_rt: "wire_encInt i = Ok b \<Longrightarrow> wire_decInt (b @ r) = Ok (i, r)"
proof -
  assume "wire_encInt i = Ok b"
  then have b: "b = be_bytes 2 (nat i)" and i: "0 \<le> i" "i \<le> 65535"
    by (auto simp: wire_encInt_def split: if_splits)
  have "be_nat b = nat i" using i unfolding b be_nat_be_bytes by simp
  then show ?thesis
    using i wire_read_append [of b 2 r] by (simp add: wire_decInt_def b)
qed

lemma wire_bytes_rt:
  "wire_encInt (int (length x)) = Ok b \<Longrightarrow>
   \<exists>s. wire_decBytes (b @ x @ r) = Ok (s, r) \<and> slice_bytes s = x"
  using wire_int_rt [of "int (length x)" b "x @ r"]
  by (cases "x = []") (auto simp: wire_decBytes_def slice_bytes_def wire_read_append)

lemma wire_integer_rt: "wire_encInteger a = Ok b \<Longrightarrow> wire_decInteger (b @ r) = Ok (a, r)"
proof -
  assume "wire_encInteger a = Ok b"
  then obtain l where a: "0 \<le> a" and l: "wire_encInt (int (length (nat_bytes (nat a)))) = Ok l"
    and b: "b = l @ nat_bytes (nat a)"
    by (auto simp: wire_encInteger_def Let_def split: if_splits)
  from wire_bytes_rt [OF l, of r] obtain s where
    "wire_decBytes (b @ r) = Ok (s, r)" "slice_bytes s = nat_bytes (nat a)"
    by (auto simp: b)
  then show ?thesis using a by (simp add: wire_decInteger_def be_nat_nat_bytes)
qed

lemma wire_integer_total:
  assumes "0 \<le> a" and "a < 2 ^ 256"
  shows "\<exists>b. wire_encInteger a = Ok b"
proof -
  have "nat a < 256 ^ 32" using assms by simp
  then have "length (nat_bytes (nat a)) \<le> 32" by (rule length_nat_bytes)
  then show ?thesis using assms by (simp add: wire_encInteger_def wire_encInt_def Let_def)
qed

lemma uuid_parse_length: "uuid_parse s = Ok u \<Longrightarrow> length u = 16"
proof -
  assume "uuid_parse s = Ok u"
  then have "hexDecode (take 8 s @ take 4 (drop 9 s) @ take 4 (drop 14 s) @ take 4 (drop 19 s)
      @ drop 24 s) = Ok u" and "length s = 36"
    by (auto simp: uuid_parse_def split: if_splits)
  from hexDecode_length [OF this(1)] this(2) show ?thesis by simp
qed

interpretation wire: codec wire_lib
proof
  fix n :: u64 and r
  have "be_nat (putUint64 n) = unat n"
    unfolding putUint64_def using unat_u64_less by (simp add: be_nat_be_bytes del: be_bytes.simps)
  then show "decUint64 wire_lib (encUint64 wire_lib n @ r) = Ok (n, r)"
    by (simp add: wire_lib_def wire_read_append)
next
  show "0 \<le> i \<Longrightarrow> i \<le> 65535 \<Longrightarrow> \<exists>b. encInt wire_lib i = Ok b" for i
    by (simp add: wire_lib_def wire_encInt_def)
  show "i < 0 \<Longrightarrow> \<exists>e. encInt wire_lib i = Panic e" for i
    by (simp add: wire_lib_def wire_encInt_def)
next
  show "uuidFromBytes wire_lib b = Ok u \<Longrightarrow> length (uuidString wire_lib u) = 36" for b u
    by (simp add: wire_lib_def uuid_text_def Let_def split: if_splits)
qed (simp_all add: wire_lib_def wire_int_rt wire_bytes_rt wire_integer_rt wire_integer_total
      wire_read_append uuid_parse_length)

interpretation wire: amounts wire_lib
  by unfold_locales (auto simp: wire_lib_def split: if_splits)

text \<open>The text of any identifier is canonical.\<close>

lemma split_at: "n \<le> length xs \<Longrightarrow> \<exists>a b. xs = a @ b \<and> length a = n"
  by (metis append_take_drop_id length_take min.absorb2)

lemma uuid_parse_parts:
  assumes "length a = 8" "length b = 4" "length c = 4" "length d = 4" "length e = 12"
  shows "uuid_parse (a @ ''-'' @ b @ ''-'' @ c @ ''-'' @ d @ ''-'' @ e) = hexDecode (a @ b @ c @ d @ e)"
  using assms by (simp add: uuid_parse_def nth_append)

lemma uuid_text_parts:
  assumes "hexEncode u = a @ b @ c @ d @ e" "length a = 8" "length b = 4" "length c = 4" "length d = 4"
  shows "uuid_text u = a @ ''-'' @ b @ ''-'' @ c @ ''-'' @ d @ ''-'' @ e"
  using assms(2-) by (simp add: uuid_text_def Let_def assms(1))

lemma uuid_parse_text: "length u = 16 \<Longrightarrow> uuid_parse (uuid_text u) = Ok u"
proof -
  assume "length u = 16"
  then have len: "length (hexEncode u) = 32" by simp
  obtain a x where 1: "hexEncode u = a @ x" "length a = 8"
    using split_at [of 8 "hexEncode u"] len by auto
  obtain b y where 2: "x = b @ y" "length b = 4" using split_at [of 4 x] len 1 by auto
  obtain c z where 3: "y = c @ z" "length c = 4" using split_at [of 4 y] len 1 2 by auto
  obtain d e where 4: "z = d @ e" "length d = 4" using split_at [of 4 z] len 1 2 3 by auto
  have h: "hexEncode u = a @ b @ c @ d @ e" using 1 2 3 4 by simp
  then have e: "length e = 12" using len 1(2) 2(2) 3(2) 4(2) by simp
  have "uuid_parse (uuid_text u) = hexDecode (hexEncode u)"
    unfolding uuid_text_parts [OF h 1(2) 2(2) 3(2) 4(2)]
      uuid_parse_parts [OF 1(2) 2(2) 3(2) 4(2) e] h ..
  then show ?thesis by simp
qed

lemma canonical_uuid_text: "length u = 16 \<Longrightarrow> canonical_uuid wire_lib (uuid_text u)"
  by (simp add: canonical_uuid_def uuid_parse_text wire_lib_def)

section \<open>Properties of the encodings\<close>

text \<open>C26: an encoded event decodes to the same event, for every event whose identifiers are in the
  printed form and that \<open>Encode\<close> accepts; bytes after the encoding are ignored. A nil and an empty
  signature have the same encoding, so the signature comes back with the same bytes.\<close>

theorem event_roundtrip:
  assumes "codec L" and "canonical_event L e" and "Event_Encode L e = Ok b"
  shows "\<exists>s. DecodeEvent L (b @ junk) = Ok (e\<lparr>e_Signature := s\<rparr>)
           \<and> slice_bytes s = slice_bytes (e_Signature e)"
  by (rule codec.event_rt [OF assms])

definition demo_wire_event :: event where
  "demo_wire_event = \<lparr>e_Process = uuid_text (replicate 16 (CHR ''p'')), e_Asset = uuid_text (replicate 16 (CHR ''a'')),
     e_Members = [uuid_text (replicate 16 (CHR ''m''))], e_Threshold = 1, e_Amount = 12345, e_Extra = ''memo'',
     e_Timestamp = 99, e_Nonce = 3, e_Signature = Some ''sig''\<rparr>"

lemma demo_wire_event_ok: "canonical_event wire_lib demo_wire_event" "event_encodable demo_wire_event"
  by (simp_all add: canonical_event_def demo_wire_event_def canonical_uuid_text event_encodable_def
      slice_bytes_def del: replicate.simps)

theorem event_roundtrip_witness:
  "\<exists>b s. Event_Encode wire_lib demo_wire_event = Ok b
     \<and> DecodeEvent wire_lib (b @ ''tail'') = Ok (demo_wire_event\<lparr>e_Signature := s\<rparr>)"
proof -
  obtain b where "Event_Encode wire_lib demo_wire_event = Ok b"
    using wire.event_encode_total [OF demo_wire_event_ok] by blast
  with event_roundtrip [OF wire.codec_axioms demo_wire_event_ok(1) this] show ?thesis by blast
qed



text \<open>Two events with process identifiers of the same length have the same \<open>ID\<close> only if they
  have the same process and the same nonce.\<close>

theorem event_id_injective:
  assumes "length (e_Process a) = length (e_Process b)" and "Event_ID a = Event_ID b"
  shows "e_Process a = e_Process b \<and> e_Nonce a = e_Nonce b"
  using assms by (auto simp: Event_ID_def pad_left_nat_hex_inj word_unat_eq_iff)

theorem event_id_injective_witness:
  "Event_ID (demo_wire_event\<lparr>e_Nonce := 3\<rparr>) = Event_ID demo_wire_event
   \<and> e_Nonce demo_wire_event = 3"
  using event_id_injective [of "demo_wire_event\<lparr>e_Nonce := 3\<rparr>" demo_wire_event]
  by (simp add: demo_wire_event_def Event_ID_def)

end
