(* ===== verification/Store_Laws.thy ===== *)
theory Store_Laws
  imports Store Wire_Lib
begin

text \<open>
  What the machine relies on in its store. The updates of the store are the values of
  \<open>store_op\<close>; \<open>store_reach\<close> relates a store to every store that a sequence of successful
  updates makes of it, in any order and interleaving. The invariant \<open>store_ok\<close> says that keys
  are in order, that the signed queues hold signed events under their own process and nonce, and
  that each balance is the sum of the credits less the debits recorded for it; every update keeps it.
\<close>

section \<open>Updates and sequences of them\<close>

text \<open>A process identifier is the text of a UUID.\<close>

definition valid_pid :: "string \<Rightarrow> bool" where
  "valid_pid s \<longleftrightarrow> length s = 36"

datatype store_op =
    OpProcess process
  | OpOffset string u64
  | OpPending event string
  | OpPartials string u64 "bytes list"
  | OpSigned event
  | OpExpire "event list" int
  | OpSnapshot account_snapshot
  | OpAsset asset
  | OpCategory string string
  | OpToken collectible_token

fun apply_op :: "'z lib_scheme \<Rightarrow> store \<Rightarrow> store_op \<Rightarrow> store res" where
  "apply_op L s (OpProcess p) = WriteProcess s p"
| "apply_op L s (OpOffset pid n) = WriteEngineGroupEventsOffset s pid n"
| "apply_op L s (OpPending e i) = WritePendingGroupEventAndNonce s e i"
| "apply_op L s (OpPartials pid n ps) = WritePendingGroupEventSignatures s pid n ps"
| "apply_op L s (OpSigned e) = WriteSignedGroupEventAndExpirePending s e"
| "apply_op L s (OpExpire es c) = ExpireGroupEventsWithCost L s es c"
| "apply_op L s (OpSnapshot sn) = WriteAccountSnapshot L s sn"
| "apply_op L s (OpAsset a) = WriteAsset s a"
| "apply_op L s (OpCategory i c) = WriteAssetOrCollectible s i c"
| "apply_op L s (OpToken t) = WriteCollectibleToken s t"

fun op_valid :: "store_op \<Rightarrow> bool" where
  "op_valid (OpProcess p) = valid_pid (p_Identifier p)"
| "op_valid (OpOffset pid n) = valid_pid pid"
| "op_valid (OpPending e i) = valid_pid (e_Process e)"
| "op_valid (OpPartials pid n ps) = valid_pid pid"
| "op_valid (OpSigned e) = valid_pid (e_Process e)"
| "op_valid (OpExpire es c) = list_all (\<lambda>e. valid_pid (e_Process e)) es"
| "op_valid (OpSnapshot sn) = valid_pid (as_Process sn)"
| "op_valid _ = True"

inductive store_reach :: "'z lib_scheme \<Rightarrow> store \<Rightarrow> store \<Rightarrow> bool" for L s where
  refl: "store_reach L s s"
| step: "store_reach L s t \<Longrightarrow> op_valid op \<Longrightarrow> apply_op L t op = Ok u \<Longrightarrow> store_reach L s u"

section \<open>What a store holds\<close>

definition signed_event :: "store \<Rightarrow> string \<Rightarrow> u64 \<Rightarrow> event option" where
  "signed_event s pid n = (case db_lookup s (buildSignedEventTimedKey pid n) of
       Some (JEvent e) \<Rightarrow> Some e | _ \<Rightarrow> None)"

definition stored_signature :: "store \<Rightarrow> string \<Rightarrow> u64 \<Rightarrow> bytes option" where
  "stored_signature s pid n = (case db_lookup s (buildPendingEventSignaturesKey pid n) of
       Some (Raw b) \<Rightarrow> Some b | _ \<Rightarrow> None)"

definition stored_process :: "store \<Rightarrow> string \<Rightarrow> process option" where
  "stored_process s pid = (case db_lookup s (processKey pid) of
       Some (JProcess p) \<Rightarrow> Some p | _ \<Rightarrow> None)"

definition balance :: "store \<Rightarrow> string \<Rightarrow> string \<Rightarrow> int" where
  "balance s pid ast = (case db_lookup s (buildAccountBalanceKey pid ast) of
       Some (Dec d) \<Rightarrow> d | _ \<Rightarrow> 0)"

text \<open>What one entry of the database adds to the account of a process and an asset.\<close>

definition posting :: "string \<Rightarrow> string \<Rightarrow> dbval \<Rightarrow> int" where
  "posting pid ast v = (case v of
       JSnapshot sn \<Rightarrow>
         if as_Process sn = pid \<and> as_Asset sn = ast
         then (if as_Credit sn then as_Amount sn else - as_Amount sn) else 0
     | _ \<Rightarrow> 0)"

definition posted :: "store \<Rightarrow> string \<Rightarrow> string \<Rightarrow> int" where
  "posted s pid ast = sum_list (map (\<lambda>x. posting pid ast (snd x)) (kvs s))"

definition ledger_ok :: "store \<Rightarrow> bool" where
  "ledger_ok s \<longleftrightarrow> (\<forall>pid ast. valid_pid pid \<longrightarrow>
       balance s pid ast = posted s pid ast \<and> 0 \<le> balance s pid ast)
     \<and> (\<forall>k sn. db_lookup s k = Some (JSnapshot sn) \<longrightarrow> k = buildAccountSnapshotKey sn)"

definition queue_ok :: "store \<Rightarrow> bool" where
  "queue_ok s \<longleftrightarrow> only_queue_keys (\<lambda>pid. prefixSignedEventQueue @ pid) buildSignedEventTimedKey valid_pid s
     \<and> (\<forall>pid n v. valid_pid pid \<longrightarrow> db_lookup s (buildSignedEventTimedKey pid n) = Some v \<longrightarrow>
         (\<exists>e. v = JEvent e \<and> e_Process e = pid \<and> e_Nonce e = n
            \<and> length (slice_bytes (e_Signature e)) = 64
            \<and> stored_signature s pid n = e_Signature e))"

definition process_ok :: "store \<Rightarrow> bool" where
  "process_ok s \<longleftrightarrow> (\<forall>pid v. db_lookup s (processKey pid) = Some v \<longrightarrow>
     (\<exists>p. v = JProcess p \<and> p_Identifier p = pid))"

definition store_ok :: "store \<Rightarrow> bool" where
  "store_ok s \<longleftrightarrow> db_ok s \<and> queue_ok s \<and> process_ok s \<and> ledger_ok s"

section \<open>Keys\<close>

lemmas prefix_defs = prefixPendingEventQueue_def prefixPendingEventSignatures_def
  prefixPendingEventIdentifier_def prefixSignedEventQueue_def prefixProcessPayload_def
  prefixEngineGroupEventsOffset_def prefixAccountSnapshotInc_def prefixAccountSnapshotDec_def
  prefixAccountBalance_def prefixAssetMeta_def prefixCollectibleTokenMeta_def
  prefixCollectibleOrAsset_def

lemmas key_defs = buildPendingEventSignaturesKey_def buildPendingEventTimedKey_def
  buildSignedEventTimedKey_def buildAccountSnapshotKey_def buildAccountBalanceKey_def
  buildAssetMetaKey_def buildCollectibleTokenMetaKey_def identifierKey_def processKey_def
  offsetKey_def categoryKey_def uint64Bytes_def

text \<open>The key families are disjoint, and within a family the arguments determine the key.\<close>

lemma balance_key_neq [simp]:
  "buildAccountBalanceKey p a \<noteq> buildAccountSnapshotKey sn" "buildAccountBalanceKey p a \<noteq> processKey q"
  "buildAccountBalanceKey p a \<noteq> offsetKey q" "buildAccountBalanceKey p a \<noteq> identifierKey i"
  "buildAccountBalanceKey p a \<noteq> buildPendingEventSignaturesKey q n"
  "buildAccountBalanceKey p a \<noteq> buildPendingEventTimedKey e"
  "buildAccountBalanceKey p a \<noteq> buildSignedEventTimedKey q n" "buildAccountBalanceKey p a \<noteq> buildAssetMetaKey i"
  "buildAccountBalanceKey p a \<noteq> categoryKey i" "buildAccountBalanceKey p a \<noteq> buildCollectibleTokenMetaKey i"
  by (simp_all add: key_defs prefix_defs)

lemma snapshot_key_neq [simp]:
  "buildAccountSnapshotKey sn \<noteq> buildAccountBalanceKey p a" "buildAccountSnapshotKey sn \<noteq> processKey q"
  "buildAccountSnapshotKey sn \<noteq> offsetKey q" "buildAccountSnapshotKey sn \<noteq> identifierKey i"
  "buildAccountSnapshotKey sn \<noteq> buildPendingEventSignaturesKey q n"
  "buildAccountSnapshotKey sn \<noteq> buildPendingEventTimedKey e"
  "buildAccountSnapshotKey sn \<noteq> buildSignedEventTimedKey q n"
  "buildAccountSnapshotKey sn \<noteq> buildAssetMetaKey i"
  "buildAccountSnapshotKey sn \<noteq> categoryKey i" "buildAccountSnapshotKey sn \<noteq> buildCollectibleTokenMetaKey i"
  by (simp_all add: key_defs prefix_defs)

lemma signatures_key_neq [simp]:
  "buildPendingEventSignaturesKey p n \<noteq> buildAccountBalanceKey q a"
  "buildPendingEventSignaturesKey p n \<noteq> buildAccountSnapshotKey sn"
  "buildPendingEventSignaturesKey p n \<noteq> processKey q" "buildPendingEventSignaturesKey p n \<noteq> offsetKey q"
  "buildPendingEventSignaturesKey p n \<noteq> identifierKey i"
  "buildPendingEventSignaturesKey p n \<noteq> buildPendingEventTimedKey e"
  "buildPendingEventSignaturesKey p n \<noteq> buildSignedEventTimedKey q m"
  "buildPendingEventSignaturesKey p n \<noteq> buildAssetMetaKey i"
  "buildPendingEventSignaturesKey p n \<noteq> categoryKey i"
  "buildPendingEventSignaturesKey p n \<noteq> buildCollectibleTokenMetaKey i"
  by (simp_all add: key_defs prefix_defs)

lemma signed_key_neq [simp]:
  "buildSignedEventTimedKey p n \<noteq> buildAccountBalanceKey q a"
  "buildSignedEventTimedKey p n \<noteq> buildAccountSnapshotKey sn"
  "buildSignedEventTimedKey p n \<noteq> processKey q" "buildSignedEventTimedKey p n \<noteq> offsetKey q"
  "buildSignedEventTimedKey p n \<noteq> identifierKey i"
  "buildSignedEventTimedKey p n \<noteq> buildPendingEventTimedKey e"
  "buildSignedEventTimedKey p n \<noteq> buildPendingEventSignaturesKey q m"
  "buildSignedEventTimedKey p n \<noteq> buildAssetMetaKey i" "buildSignedEventTimedKey p n \<noteq> categoryKey i"
  "buildSignedEventTimedKey p n \<noteq> buildCollectibleTokenMetaKey i"
  by (simp_all add: key_defs prefix_defs)

lemma timed_key_neq [simp]:
  "buildPendingEventTimedKey e \<noteq> buildAccountBalanceKey q a"
  "buildPendingEventTimedKey e \<noteq> buildAccountSnapshotKey sn"
  "buildPendingEventTimedKey e \<noteq> processKey q" "buildPendingEventTimedKey e \<noteq> offsetKey q"
  "buildPendingEventTimedKey e \<noteq> identifierKey i"
  "buildPendingEventTimedKey e \<noteq> buildSignedEventTimedKey p n"
  "buildPendingEventTimedKey e \<noteq> buildPendingEventSignaturesKey q m"
  "buildPendingEventTimedKey e \<noteq> buildAssetMetaKey i" "buildPendingEventTimedKey e \<noteq> categoryKey i"
  "buildPendingEventTimedKey e \<noteq> buildCollectibleTokenMetaKey i"
  by (simp_all add: key_defs prefix_defs)

lemma identifier_key_neq [simp]:
  "identifierKey i \<noteq> buildAccountBalanceKey q a" "identifierKey i \<noteq> buildAccountSnapshotKey sn"
  "identifierKey i \<noteq> processKey q" "identifierKey i \<noteq> offsetKey q"
  "identifierKey i \<noteq> buildPendingEventTimedKey e" "identifierKey i \<noteq> buildSignedEventTimedKey p n"
  "identifierKey i \<noteq> buildPendingEventSignaturesKey q m" "identifierKey i \<noteq> buildAssetMetaKey j"
  "identifierKey i \<noteq> categoryKey j" "identifierKey i \<noteq> buildCollectibleTokenMetaKey j"
  "identifierKey i = identifierKey j \<longleftrightarrow> i = j"
  by (simp_all add: key_defs prefix_defs)

lemma process_key_neq [simp]:
  "processKey i \<noteq> buildAccountBalanceKey q a" "processKey i \<noteq> buildAccountSnapshotKey sn"
  "processKey i \<noteq> identifierKey q" "processKey i \<noteq> offsetKey q"
  "processKey i \<noteq> buildPendingEventTimedKey e" "processKey i \<noteq> buildSignedEventTimedKey p n"
  "processKey i \<noteq> buildPendingEventSignaturesKey q m" "processKey i \<noteq> buildAssetMetaKey j"
  "processKey i \<noteq> categoryKey j" "processKey i \<noteq> buildCollectibleTokenMetaKey j"
  "processKey i = processKey j \<longleftrightarrow> i = j"
  by (simp_all add: key_defs prefix_defs)

lemma balance_key_inj:
  "valid_pid p \<Longrightarrow> valid_pid q \<Longrightarrow> buildAccountBalanceKey p a = buildAccountBalanceKey q b \<longleftrightarrow> p = q \<and> a = b"
  by (simp add: key_defs valid_pid_def)

lemma signatures_key_inj:
  "valid_pid p \<Longrightarrow> valid_pid q \<Longrightarrow>
   buildPendingEventSignaturesKey p n = buildPendingEventSignaturesKey q m \<longleftrightarrow> p = q \<and> n = m"
  by (auto simp: key_defs valid_pid_def)


lemma snapshot_key_inj:
  "valid_pid (as_Process x) \<Longrightarrow> valid_pid (as_Process y) \<Longrightarrow>
   buildAccountSnapshotKey x = buildAccountSnapshotKey y \<longleftrightarrow>
   as_Credit x = as_Credit y \<and> as_Process x = as_Process y \<and> as_Nonce x = as_Nonce y"
  by (auto simp: key_defs prefix_defs valid_pid_def)

interpretation signed: nonce_queue "\<lambda>pid. prefixSignedEventQueue @ pid" buildSignedEventTimedKey valid_pid
proof
  show "buildSignedEventTimedKey a n = (prefixSignedEventQueue @ a) @ putUint64 n" for a n
    by (simp add: key_defs)
  show "a = b" if "valid_pid a" "valid_pid b"
    "has_prefix (prefixSignedEventQueue @ a) (buildSignedEventTimedKey b n)" for a b n
    using that by (auto simp: key_defs valid_pid_def has_prefix_def)
qed

section \<open>The effect of each update\<close>

lemma read_opt_Ok [simp]:
  "read_opt s dec k = Ok r \<longleftrightarrow> io s (IoGet k) = None \<and>
     (case db_lookup s k of None \<Rightarrow> r = None
      | Some v \<Rightarrow> io s (IoValue k) = None \<and> (\<exists>x. dec v = Ok x \<and> r = Some x))"
  by (auto simp: read_opt_def split: option.splits)

lemma as_val_Ok [simp]:
  "as_bytes v = Ok b \<longleftrightarrow> v = Raw b"
  "as_decimal L v = Ok d \<longleftrightarrow> (\<exists>x. v = Dec x \<and> integerReadBack L x = Ok d)"
  "as_event v = Ok e \<longleftrightarrow> v = JEvent e" "as_process v = Ok p \<longleftrightarrow> v = JProcess p"
  "as_asset v = Ok a \<longleftrightarrow> v = JAsset a" "as_token v = Ok t \<longleftrightarrow> v = JToken t"
  by (auto simp: as_bytes_def as_decimal_def as_event_def as_process_def as_asset_def as_token_def
      split: dbval.splits)

lemma checkSignedEvent_Ok:
  "checkSignedEvent s pid n = Ok full \<Longrightarrow>
   full = (\<exists>b. stored_signature s pid n = Some b \<and> length b = 64)"
  by (auto simp: checkSignedEvent_def stored_signature_def checkFullSignature_def
      split: option.splits dbval.splits)

lemma WriteProcess_Ok:
  "WriteProcess s p = Ok t \<Longrightarrow> t = s \<or>
   db_lookup s (processKey (p_Identifier p)) = None
   \<and> t = s\<lparr>kvs := kv_set (processKey (p_Identifier p)) (JProcess p) (kvs s)\<rparr>"
  by (auto simp: WriteProcess_def readProcess_def writeProcess_def split: option.splits if_splits)

lemma WritePending_Ok:
  assumes "WritePendingGroupEventAndNonce s e i = Ok t"
  obtains p s' where "stored_process s (e_Process e) = Some p" and "p_Nonce p = e_Nonce e"
    and "0 < e_Timestamp e"
    and "db_lookup s (identifierKey i) = None \<or> (\<exists>b. db_lookup s (identifierKey i) = Some (Raw b) \<and> getUint64 b = Ok 0)"
    and "s' = s\<lparr>kvs := kv_set (processKey (p_Identifier p)) (JProcess (p\<lparr>p_Nonce := p_Nonce p + 1\<rparr>))
               (kv_set (identifierKey i) (Raw (putUint64 (e_Timestamp e))) (kvs s))\<rparr>"
    and "t = s' \<and> (\<exists>b. stored_signature s (e_Process e) (e_Nonce e) = Some b \<and> length b = 64)
       \<or> t = s'\<lparr>kvs := kv_set (buildPendingEventTimedKey e) (JEvent e) (kvs s')\<rparr>
          \<and> \<not> (\<exists>b. stored_signature s (e_Process e) (e_Nonce e) = Some b \<and> length b = 64)"
proof -
  let ?s1 = "s\<lparr>kvs := kv_set (identifierKey i) (Raw (putUint64 (e_Timestamp e))) (kvs s)\<rparr>"
  from assms obtain p full where ts: "\<not> e_Timestamp e \<le> 0"
    and id: "readPendingGroupEventIdentifier s i = Ok 0"
    and p: "readProcess ?s1 (e_Process e) = Ok (Some p)" and n: "p_Nonce p = e_Nonce e"
    and full: "checkSignedEvent (?s1\<lparr>kvs := kv_set (processKey (p_Identifier p))
         (JProcess (p\<lparr>p_Nonce := p_Nonce p + 1\<rparr>)) (kvs ?s1)\<rparr>) (e_Process e) (e_Nonce e) = Ok full"
    and t: "(if full then Ok (?s1\<lparr>kvs := kv_set (processKey (p_Identifier p))
         (JProcess (p\<lparr>p_Nonce := p_Nonce p + 1\<rparr>)) (kvs ?s1)\<rparr>)
       else txn_set (?s1\<lparr>kvs := kv_set (processKey (p_Identifier p))
         (JProcess (p\<lparr>p_Nonce := p_Nonce p + 1\<rparr>)) (kvs ?s1)\<rparr>) (buildPendingEventTimedKey e) (JEvent e)) = Ok t"
    by (auto simp: WritePendingGroupEventAndNonce_def writePendingGroupEventIdentifier_def
        writeProcess_def uint64Bytes_def word_gt_0 split: if_splits option.splits)
  have "stored_process s (e_Process e) = Some p"
    using p by (auto simp: readProcess_def stored_process_def split: option.splits)
  moreover have "full = (\<exists>b. stored_signature s (e_Process e) (e_Nonce e) = Some b \<and> length b = 64)"
    using checkSignedEvent_Ok [OF full] by (simp add: stored_signature_def)
  moreover have "db_lookup s (identifierKey i) = None
      \<or> (\<exists>b. db_lookup s (identifierKey i) = Some (Raw b) \<and> getUint64 b = Ok 0)"
    using id by (auto simp: readPendingGroupEventIdentifier_def split: option.splits)
  ultimately show ?thesis
    using that n ts t by (cases full) (auto simp: word_gt_0)
qed

lemma WritePartials_Ok:
  assumes "WritePendingGroupEventSignatures s pid n ps = Ok t"
  shows "t = s \<and> (\<exists>b. stored_signature s pid n = Some b \<and> length b = 64) \<or>
     list_all (\<lambda>p. length p = 66) ps \<and> \<not> (\<exists>b. stored_signature s pid n = Some b \<and> length b = 64) \<and>
     t = s\<lparr>kvs := kv_set (buildPendingEventSignaturesKey pid n) (Raw (concat ps)) (kvs s)\<rparr>"
proof -
  have fold: "rfold append_partial acc ps = Ok v
      \<Longrightarrow> list_all (\<lambda>p. length p = 66) ps \<and> v = acc @ concat ps" for acc v
    by (induction ps arbitrary: acc) (fastforce simp: append_partial_def split: if_splits)+
  from assms show ?thesis
    by (auto simp: WritePendingGroupEventSignatures_def split: if_splits
        dest!: checkSignedEvent_Ok fold)
qed

lemma WriteSigned_Ok:
  assumes "WriteSignedGroupEventAndExpirePending s e = Ok t"
  shows "length (slice_bytes (e_Signature e)) = 64 \<and>
    (t = s \<and> (\<exists>b. stored_signature s (e_Process e) (e_Nonce e) = Some b \<and> length b = 64) \<or>
     \<not> (\<exists>b. stored_signature s (e_Process e) (e_Nonce e) = Some b \<and> length b = 64) \<and>
     t = s\<lparr>kvs := kv_set (buildSignedEventTimedKey (e_Process e) (e_Nonce e)) (JEvent e)
         (kv_set (buildPendingEventSignaturesKey (e_Process e) (e_Nonce e)) (Raw (slice_bytes (e_Signature e)))
         (kv_del (buildPendingEventTimedKey e) (kvs s)))\<rparr>)"
  using assms by (auto simp: WriteSignedGroupEventAndExpirePending_def checkFullSignature_def
      split: if_splits dest!: checkSignedEvent_Ok)

lemma readAccountBalance_Ok:
  "amounts L \<Longrightarrow> readAccountBalance L s pid ast = Ok b \<Longrightarrow> b = balance s pid ast"
  using amounts.read_Ok [of L] by (fastforce simp: readAccountBalance_def balance_def split: option.splits)

lemma WriteSnapshot_Ok:
  assumes "WriteAccountSnapshot L s sn = Ok t"
  shows "t = s \<and> db_lookup s (buildAccountSnapshotKey sn) \<noteq> None \<or>
    db_lookup s (buildAccountSnapshotKey sn) = None \<and>
    (\<exists>b bal. readAccountBalance L s (as_Process sn) (as_Asset sn) = Ok b \<and> (as_Credit sn \<or> as_Amount sn \<le> b) \<and>
     (if as_Credit sn then integerAdd L b (as_Amount sn) else integerSub L b (as_Amount sn)) = Ok bal \<and>
     t = s\<lparr>kvs := kv_set (buildAccountSnapshotKey sn) (JSnapshot sn)
         (kv_set (buildAccountBalanceKey (as_Process sn) (as_Asset sn)) (Dec bal) (kvs s))\<rparr>)"
  using assms by (auto simp: WriteAccountSnapshot_def split: if_splits)

lemma delete_signed_Ok [simp]:
  "delete_signed pid s e = Ok t \<longleftrightarrow> e_Process e = pid
     \<and> io s (IoDelete (buildSignedEventTimedKey pid (e_Nonce e))) = None
     \<and> t = s\<lparr>kvs := kv_del (buildSignedEventTimedKey pid (e_Nonce e)) (kvs s)\<rparr>"
  by (auto simp: delete_signed_def)

text \<open>Expiring deletes the events one by one, then debits the process.\<close>

lemma Expire_Ok:
  assumes "ExpireGroupEventsWithCost L s es cost = Ok t"
  obtains "es = []" "t = s"
  | s' where "es \<noteq> []" "rfold (delete_signed (e_Process (hd es))) s es = Ok s'"
      "cost = 0" "t = s'"
  | s' p c where "es \<noteq> []" "rfold (delete_signed (e_Process (hd es))) s es = Ok s'"
      "cost \<noteq> 0" "stored_process s' (e_Process (hd es)) = Some p" "integerSub L (p_Credit p) cost = Ok c"
      "t = s'\<lparr>kvs := kv_set (processKey (p_Identifier p)) (JProcess (p\<lparr>p_Credit := c\<rparr>)) (kvs s')\<rparr>"
proof (cases es)
  case Nil
  with assms that(1) show ?thesis by (simp add: ExpireGroupEventsWithCost_def)
next
  case (Cons e0 rest)
  with assms obtain s' where fold: "rfold (delete_signed (e_Process (hd es))) s es = Ok s'"
    and rest: "(if cost = 0 then Ok s' else rbind (readProcess s' (e_Process (hd es))) (\<lambda>p. case p of
             None \<Rightarrow> Panic ''nil pointer dereference''
           | Some p \<Rightarrow> rbind (integerSub L (p_Credit p) cost) (\<lambda>c.
               writeProcess s' (p\<lparr>p_Credit := c\<rparr>)))) = Ok t"
    unfolding Cons ExpireGroupEventsWithCost_def Let_def list.case list.sel
    by (simp only: db_update_Ok rbind_Ok_iff) blast
  show ?thesis
  proof (cases "cost = 0")
    case True
    with fold rest that(2) Cons show ?thesis by simp
  next
    case False
    with rest obtain p c where "stored_process s' (e_Process (hd es)) = Some p"
      "integerSub L (p_Credit p) cost = Ok c"
      "t = s'\<lparr>kvs := kv_set (processKey (p_Identifier p)) (JProcess (p\<lparr>p_Credit := c\<rparr>)) (kvs s')\<rparr>"
      by (auto simp: readProcess_def writeProcess_def stored_process_def split: option.splits)
    with fold False that(3) Cons show ?thesis by blast
  qed
qed

lemma WriteOther_Ok:
  "WriteEngineGroupEventsOffset s pid n = Ok t \<Longrightarrow>
     t = s\<lparr>kvs := kv_set (offsetKey pid) (Raw (putUint64 n)) (kvs s)\<rparr>"
  "WriteAsset s a = Ok t \<Longrightarrow> t = s \<or> t = s\<lparr>kvs := kv_set (buildAssetMetaKey (a_Id a)) (JAsset a) (kvs s)\<rparr>"
  "WriteAssetOrCollectible s i c = Ok t \<Longrightarrow> t = s\<lparr>kvs := kv_set (categoryKey i) (Raw c) (kvs s)\<rparr>"
  "WriteCollectibleToken s tk = Ok t \<Longrightarrow>
     t = s \<or> t = s\<lparr>kvs := kv_set (buildCollectibleTokenMetaKey (ct_Id tk)) (JToken tk) (kvs s)\<rparr>"
  by (auto simp: WriteEngineGroupEventsOffset_def WriteAsset_def WriteAssetOrCollectible_def
      WriteCollectibleToken_def readAssetMeta_def readCollectibleTokenMeta_def uint64Bytes_def
      split: if_splits option.splits)

section \<open>The invariant\<close>

lemma sum_kv_set:
  fixes f :: "'v \<Rightarrow> int"
  assumes "sorted_wrt (<) (map fst xs)"
  shows "sum_list (map (\<lambda>x. f (snd x)) (kv_set k v xs)) =
     sum_list (map (\<lambda>x. f (snd x)) xs) - (case map_of xs k of None \<Rightarrow> 0 | Some w \<Rightarrow> f w) + f v"
  using assms
proof (induction k v xs rule: kv_set.induct)
  case (2 k v k' v' xs)
  have "map_of xs k = None" if "k < k'"
    using that 2(2) by (force simp: map_of_eq_None_iff)
  with 2 show ?case by auto
qed simp

lemma sum_kv_del:
  fixes f :: "'v \<Rightarrow> int"
  assumes "distinct (map fst xs)"
  shows "sum_list (map (\<lambda>x. f (snd x)) (kv_del k xs)) =
     sum_list (map (\<lambda>x. f (snd x)) xs) - (case map_of xs k of None \<Rightarrow> 0 | Some w \<Rightarrow> f w)"
  using assms
proof (induction xs)
  case (Cons x xs)
  have "filter (\<lambda>y. fst y \<noteq> fst x) xs = xs" using Cons.prems by (intro filter_True) (auto simp: image_iff)
  moreover have "map_of xs (fst x) = None" using Cons.prems by (simp add: map_of_eq_None_iff)
  ultimately show ?case using Cons by (cases x) (auto simp: kv_del_def)
qed (simp add: kv_del_def)

lemma posted_set:
  "db_ok s \<Longrightarrow> posted (s\<lparr>kvs := kv_set k v (kvs s)\<rparr>) p a =
     posted s p a - (case db_lookup s k of None \<Rightarrow> 0 | Some w \<Rightarrow> posting p a w) + posting p a v"
  by (simp add: posted_def db_lookup_def db_ok_def sum_kv_set)

lemma posted_del:
  "db_ok s \<Longrightarrow> posted (s\<lparr>kvs := kv_del k (kvs s)\<rparr>) p a =
     posted s p a - (case db_lookup s k of None \<Rightarrow> 0 | Some w \<Rightarrow> posting p a w)"
  using db_ok_distinct [of s] by (simp add: posted_def db_lookup_def sum_kv_del)

lemma posting_plain [simp]:
  "posting p a (Raw b) = 0" "posting p a (Dec d) = 0" "posting p a (JEvent e) = 0"
  "posting p a (JProcess x) = 0" "posting p a (JAsset y) = 0" "posting p a (JToken z) = 0"
  by (simp_all add: posting_def)

definition is_snapshot :: "dbval \<Rightarrow> bool" where
  "is_snapshot v = (case v of JSnapshot sn \<Rightarrow> True | _ \<Rightarrow> False)"

lemma posting_not_snapshot: "\<not> is_snapshot v \<Longrightarrow> posting p a v = 0"
  by (simp add: is_snapshot_def posting_def split: dbval.splits)

lemma ledger_no_posting:
  assumes "ledger_ok s" "db_lookup s k = Some w" "\<And>sn. k \<noteq> buildAccountSnapshotKey sn"
  shows "posting p a w = 0"
proof (rule posting_not_snapshot, rule notI)
  assume "is_snapshot w"
  then obtain sn where "w = JSnapshot sn" by (auto simp: is_snapshot_def split: dbval.splits)
  with assms(1,2) have "k = buildAccountSnapshotKey sn" by (simp add: ledger_ok_def)
  with assms(3) show False by blast
qed

text \<open>A key that is neither a balance nor a snapshot can be written or deleted without touching the ledger.\<close>

lemma ledger_ok_set:
  assumes "db_ok s" "ledger_ok s" "\<And>p a. k \<noteq> buildAccountBalanceKey p a"
    "\<And>sn. k \<noteq> buildAccountSnapshotKey sn" "\<not> is_snapshot v"
  shows "ledger_ok (s\<lparr>kvs := kv_set k v (kvs s)\<rparr>)"
proof -
  let ?t = "s\<lparr>kvs := kv_set k v (kvs s)\<rparr>"
  have "posted ?t p a = posted s p a" for p a
    using ledger_no_posting [OF assms(2) _ assms(4)] posting_not_snapshot [OF assms(5)]
    by (simp add: posted_set [OF assms(1)] split: option.splits)
  moreover have "balance ?t p a = balance s p a" for p a
    using assms(3) [of p a] by (simp add: balance_def)
  moreover have "k' = buildAccountSnapshotKey sn" if "db_lookup ?t k' = Some (JSnapshot sn)" for k' sn
    using that assms(2,5) by (auto simp: ledger_ok_def is_snapshot_def split: if_splits)
  ultimately show ?thesis using assms(2) unfolding ledger_ok_def by metis
qed

lemma ledger_ok_del:
  assumes "db_ok s" "ledger_ok s" "\<And>p a. k \<noteq> buildAccountBalanceKey p a"
    "\<And>sn. k \<noteq> buildAccountSnapshotKey sn"
  shows "ledger_ok (s\<lparr>kvs := kv_del k (kvs s)\<rparr>)"
proof -
  let ?t = "s\<lparr>kvs := kv_del k (kvs s)\<rparr>"
  have "posted ?t p a = posted s p a" for p a
    using ledger_no_posting [OF assms(2) _ assms(4)]
    by (simp add: posted_del [OF assms(1)] split: option.splits)
  moreover have "balance ?t p a = balance s p a" for p a
    using assms(3) [of p a] by (simp add: balance_def)
  moreover have "k' = buildAccountSnapshotKey sn" if "db_lookup ?t k' = Some (JSnapshot sn)" for k' sn
    using that assms(2) by (auto simp: ledger_ok_def split: if_splits)
  ultimately show ?thesis using assms(2) unfolding ledger_ok_def by metis
qed

text \<open>A recorded snapshot moves its account's balance and the sum of its postings alike.\<close>

lemma ledger_ok_snapshot:
  assumes ok: "db_ok s" "ledger_ok s" and pid: "valid_pid (as_Process sn)"
    and fresh: "db_lookup s (buildAccountSnapshotKey sn) = None"
    and bal: "bal = balance s (as_Process sn) (as_Asset sn)
               + (if as_Credit sn then as_Amount sn else - as_Amount sn)" "0 \<le> bal"
  shows "ledger_ok (s\<lparr>kvs := kv_set (buildAccountSnapshotKey sn) (JSnapshot sn)
      (kv_set (buildAccountBalanceKey (as_Process sn) (as_Asset sn)) (Dec bal) (kvs s))\<rparr>)"
proof -
  let ?b = "buildAccountBalanceKey (as_Process sn) (as_Asset sn)"
  let ?s1 = "s\<lparr>kvs := kv_set ?b (Dec bal) (kvs s)\<rparr>"
  let ?t = "?s1\<lparr>kvs := kv_set (buildAccountSnapshotKey sn) (JSnapshot sn) (kvs ?s1)\<rparr>"
  have ok1: "db_ok ?s1" using ok(1) by simp
  have "posted ?s1 p a = posted s p a" for p a
    using ledger_no_posting [OF ok(2)]
    by (auto simp: posted_set [OF ok(1)] split: option.splits)
  then have posted: "posted ?t p a = posted s p a + posting p a (JSnapshot sn)" for p a
    using fresh by (subst posted_set [OF ok1]) simp
  have balance: "balance ?t p a = (if p = as_Process sn \<and> a = as_Asset sn then bal else balance s p a)"
    if "valid_pid p" for p a
    using balance_key_inj [OF that pid, of a "as_Asset sn"] by (auto simp: balance_def)
  have "balance ?t p a = posted ?t p a \<and> 0 \<le> balance ?t p a" if "valid_pid p" for p a
  proof -
    have "balance s p a = posted s p a" "0 \<le> balance s p a"
      using that ok(2) unfolding ledger_ok_def by blast+
    with bal show ?thesis unfolding posted balance [OF that] by (auto simp: posting_def)
  qed
  moreover have "k = buildAccountSnapshotKey x" if "db_lookup ?t k = Some (JSnapshot x)" for k x
    using that ok(2) by (auto simp: ledger_ok_def split: if_splits)
  ultimately have "ledger_ok ?t" unfolding ledger_ok_def by blast
  then show ?thesis by simp
qed

text \<open>Writes outside the signed queues and the signatures keep the queues.\<close>

definition queue_free :: "bytes \<Rightarrow> bool" where
  "queue_free k \<longleftrightarrow> \<not> has_prefix prefixSignedEventQueue k \<and> \<not> has_prefix prefixPendingEventSignatures k"

lemma queue_free_keys [simp]:
  "queue_free (buildAccountBalanceKey p a)" "queue_free (buildAccountSnapshotKey sn)"
  "queue_free (processKey p)" "queue_free (offsetKey p)" "queue_free (identifierKey i)"
  "queue_free (buildPendingEventTimedKey e)" "queue_free (buildAssetMetaKey i)"
  "queue_free (categoryKey i)" "queue_free (buildCollectibleTokenMetaKey i)"
  by (simp_all add: queue_free_def key_defs prefix_defs has_prefix_def)

lemma queue_free_neq:
  assumes "queue_free k"
  shows "buildSignedEventTimedKey p n \<noteq> k" "buildPendingEventSignaturesKey p n \<noteq> k"
    "\<not> has_prefix (prefixSignedEventQueue @ p) k"
  using assms by (auto simp: queue_free_def buildSignedEventTimedKey_def
      buildPendingEventSignaturesKey_def has_prefix_iff)

lemma queue_ok_set:
  "queue_ok s \<Longrightarrow> queue_free k \<Longrightarrow> queue_ok (s\<lparr>kvs := kv_set k v (kvs s)\<rparr>)"
  by (auto simp: queue_ok_def stored_signature_def queue_free_neq
      intro!: signed.only_queue_keys_other)

lemma queue_ok_del: "queue_ok s \<Longrightarrow> queue_free k \<Longrightarrow> queue_ok (s\<lparr>kvs := kv_del k (kvs s)\<rparr>)"
  by (auto simp: queue_ok_def stored_signature_def queue_free_neq intro!: signed.only_queue_keys_del)

lemma queue_ok_del_signed:
  "queue_ok s \<Longrightarrow> queue_ok (s\<lparr>kvs := kv_del (buildSignedEventTimedKey p n) (kvs s)\<rparr>)"
  by (auto simp: queue_ok_def stored_signature_def intro!: signed.only_queue_keys_del)

lemma queue_okD:
  "queue_ok s \<Longrightarrow> valid_pid pid \<Longrightarrow> db_lookup s (buildSignedEventTimedKey pid n) = Some v \<Longrightarrow>
   \<exists>e. v = JEvent e \<and> e_Process e = pid \<and> e_Nonce e = n
      \<and> length (slice_bytes (e_Signature e)) = 64 \<and> stored_signature s pid n = e_Signature e"
  unfolding queue_ok_def by blast

lemma queue_ok_signatures:
  assumes "queue_ok s" "valid_pid p" "\<not> (\<exists>b. stored_signature s p n = Some b \<and> length b = 64)"
  shows "queue_ok (s\<lparr>kvs := kv_set (buildPendingEventSignaturesKey p n) (Raw b) (kvs s)\<rparr>)"
    and "db_lookup s (buildSignedEventTimedKey p n) = None"
proof -
  show no: "db_lookup s (buildSignedEventTimedKey p n) = None"
  proof (rule ccontr)
    assume "db_lookup s (buildSignedEventTimedKey p n) \<noteq> None"
    then obtain v where "db_lookup s (buildSignedEventTimedKey p n) = Some v" by blast
    then obtain e :: event where "length (slice_bytes (e_Signature e)) = 64"
      "stored_signature s p n = e_Signature e"
      using queue_okD [OF assms(1,2)] by blast
    with assms(3) show False by (cases "e_Signature e") (auto simp: slice_bytes_def)
  qed
  have "\<not> has_prefix (prefixSignedEventQueue @ q) (buildPendingEventSignaturesKey p n)" for q
    by (simp add: key_defs prefix_defs has_prefix_def)
  then show "queue_ok (s\<lparr>kvs := kv_set (buildPendingEventSignaturesKey p n) (Raw b) (kvs s)\<rparr>)"
    using assms(1,2) no
    by (auto simp: queue_ok_def stored_signature_def signatures_key_inj
        intro!: signed.only_queue_keys_other)
qed

lemma queue_ok_signed:
  assumes "queue_ok s" "valid_pid (e_Process e)" "length (slice_bytes (e_Signature e)) = 64"
    "stored_signature s (e_Process e) (e_Nonce e) = e_Signature e"
  shows "queue_ok (s\<lparr>kvs := kv_set (buildSignedEventTimedKey (e_Process e) (e_Nonce e)) (JEvent e) (kvs s)\<rparr>)"
  using assms
  by (auto simp: queue_ok_def stored_signature_def signed.key_inj signed.only_queue_keys_set)

lemma process_ok_set:
  "process_ok s \<Longrightarrow> (\<And>p. k \<noteq> processKey p) \<Longrightarrow> process_ok (s\<lparr>kvs := kv_set k v (kvs s)\<rparr>)"
  "process_ok s \<Longrightarrow> (\<And>p. k \<noteq> processKey p) \<Longrightarrow> process_ok (s\<lparr>kvs := kv_del k (kvs s)\<rparr>)"
  "process_ok s \<Longrightarrow> process_ok (s\<lparr>kvs := kv_set (processKey (p_Identifier p)) (JProcess p) (kvs s)\<rparr>)"
  by (auto simp: process_ok_def split: if_splits)

lemma process_ok_stored: "process_ok s \<Longrightarrow> stored_process s pid = Some p \<Longrightarrow> p_Identifier p = pid"
  by (auto simp: process_ok_def stored_process_def split: option.splits dbval.splits)

lemma store_ok_set:
  assumes "store_ok s" "queue_free k" "\<And>p a. k \<noteq> buildAccountBalanceKey p a"
    "\<And>sn. k \<noteq> buildAccountSnapshotKey sn" "\<not> is_snapshot v"
    "(\<forall>p. k \<noteq> processKey p) \<or> (\<exists>p. k = processKey (p_Identifier p) \<and> v = JProcess p)"
  shows "store_ok (s\<lparr>kvs := kv_set k v (kvs s)\<rparr>)"
  using assms(1,2,6) ledger_ok_set [OF _ _ assms(3-5)]
  by (auto simp: store_ok_def queue_ok_set process_ok_set)

lemma store_ok_expire:
  assumes "rfold (delete_signed pid) s es = Ok t" "store_ok s"
  shows "store_ok t"
  using assms(2,1)
proof (rule rfold_invariant [rotated])
  fix s e t assume "store_ok s" "delete_signed pid s e = Ok t"
  then show "store_ok t"
    by (auto simp: store_ok_def queue_ok_del_signed process_ok_set ledger_ok_del)
qed

lemma store_ok_WriteSigned:
  assumes "WriteSignedGroupEventAndExpirePending s e = Ok t" "store_ok s" "valid_pid (e_Process e)"
  shows "store_ok t"
proof -
  let ?sig = "slice_bytes (e_Signature e)"
  let ?d = "s\<lparr>kvs := kv_del (buildPendingEventTimedKey e) (kvs s)\<rparr>"
  let ?g = "?d\<lparr>kvs := kv_set (buildPendingEventSignaturesKey (e_Process e) (e_Nonce e)) (Raw ?sig) (kvs ?d)\<rparr>"
  let ?t = "?g\<lparr>kvs := kv_set (buildSignedEventTimedKey (e_Process e) (e_Nonce e)) (JEvent e) (kvs ?g)\<rparr>"
  from WriteSigned_Ok [OF assms(1)] have len: "length ?sig = 64"
    and or: "t = s \<or> \<not> (\<exists>b. stored_signature s (e_Process e) (e_Nonce e) = Some b \<and> length b = 64) \<and> t = ?t"
    by auto
  have "store_ok ?t" if new: "\<not> (\<exists>b. stored_signature s (e_Process e) (e_Nonce e) = Some b \<and> length b = 64)"
  proof -
    have d: "queue_ok ?d" "db_ok ?d" "process_ok ?d" "ledger_ok ?d"
      using assms(2) by (auto simp: store_ok_def queue_ok_del process_ok_set ledger_ok_del)
    have g: "queue_ok ?g" using queue_ok_signatures(1) [OF d(1) assms(3)] new
      by (simp add: stored_signature_def)
    have g': "db_ok ?g" "process_ok ?g" "ledger_ok ?g"
      using d process_ok_set(1) [OF d(3)] ledger_ok_set [OF d(2,4)] by (auto simp: is_snapshot_def)
    have "e_Signature e = Some ?sig" using len by (cases "e_Signature e") (auto simp: slice_bytes_def)
    then have "queue_ok ?t" using queue_ok_signed [OF g assms(3) len] by (simp add: stored_signature_def)
    moreover have "db_ok ?t" "process_ok ?t" "ledger_ok ?t"
      using g' process_ok_set(1) [OF g'(2)] ledger_ok_set [OF g'(1,3)] by (auto simp: is_snapshot_def)
    ultimately show ?thesis by (simp add: store_ok_def)
  qed
  with or assms(2) show ?thesis by auto
qed

lemma store_ok_WriteSnapshot:
  assumes "amounts L" "WriteAccountSnapshot L s sn = Ok t" "store_ok s" "valid_pid (as_Process sn)"
  shows "store_ok t"
proof (cases "t = s")
  case False
  with WriteSnapshot_Ok [OF assms(2)] obtain b bal where fresh: "db_lookup s (buildAccountSnapshotKey sn) = None"
    and b: "readAccountBalance L s (as_Process sn) (as_Asset sn) = Ok b"
    and bal: "(if as_Credit sn then integerAdd L b (as_Amount sn) else integerSub L b (as_Amount sn)) = Ok bal"
    and t: "t = s\<lparr>kvs := kv_set (buildAccountSnapshotKey sn) (JSnapshot sn)
         (kv_set (buildAccountBalanceKey (as_Process sn) (as_Asset sn)) (Dec bal) (kvs s))\<rparr>"
    by blast
  let ?s1 = "s\<lparr>kvs := kv_set (buildAccountBalanceKey (as_Process sn) (as_Asset sn)) (Dec bal) (kvs s)\<rparr>"
  have "bal = balance s (as_Process sn) (as_Asset sn)
               + (if as_Credit sn then as_Amount sn else - as_Amount sn)" "0 \<le> bal"
    using bal readAccountBalance_Ok [OF assms(1) b] amounts.add_Ok [OF assms(1)] amounts.sub_Ok [OF assms(1)] by (auto split: if_splits)
  then have "ledger_ok t"
    using assms(3,4) fresh unfolding t by (intro ledger_ok_snapshot) (auto simp: store_ok_def)
  moreover have "queue_ok ?s1" "process_ok ?s1" "db_ok ?s1"
    using assms(3) queue_ok_set process_ok_set(1) by (auto simp: store_ok_def)
  then have "db_ok t" "queue_ok t" "process_ok t"
    using queue_ok_set [of ?s1 "buildAccountSnapshotKey sn"] process_ok_set(1) [of ?s1 "buildAccountSnapshotKey sn"]
    by (auto simp: t)
  ultimately show ?thesis by (simp add: store_ok_def)
qed (use assms(3) in simp)

lemma plain_not_snapshot [simp]:
  "\<not> is_snapshot (Raw b)" "\<not> is_snapshot (Dec d)" "\<not> is_snapshot (JEvent e)"
  "\<not> is_snapshot (JProcess p)" "\<not> is_snapshot (JAsset a)" "\<not> is_snapshot (JToken x)"
  by (simp_all add: is_snapshot_def)

lemma store_ok_WritePending:
  assumes "WritePendingGroupEventAndNonce s e i = Ok t" "store_ok s"
  shows "store_ok t"
proof -
  obtain p s' where s': "s' = s\<lparr>kvs := kv_set (processKey (p_Identifier p)) (JProcess (p\<lparr>p_Nonce := p_Nonce p + 1\<rparr>))
               (kv_set (identifierKey i) (Raw (putUint64 (e_Timestamp e))) (kvs s))\<rparr>"
    and t: "t = s' \<or> t = s'\<lparr>kvs := kv_set (buildPendingEventTimedKey e) (JEvent e) (kvs s')\<rparr>"
    using WritePending_Ok [OF assms(1)] by metis
  let ?s1 = "s\<lparr>kvs := kv_set (identifierKey i) (Raw (putUint64 (e_Timestamp e))) (kvs s)\<rparr>"
  let ?p = "p\<lparr>p_Nonce := p_Nonce p + 1\<rparr>"
  have "store_ok ?s1" by (rule store_ok_set [OF assms(2)]) auto
  then have "store_ok (?s1\<lparr>kvs := kv_set (processKey (p_Identifier ?p)) (JProcess ?p) (kvs ?s1)\<rparr>)"
    by (rule store_ok_set) auto
  then have "store_ok s'" by (simp add: s')
  moreover from this have "store_ok (s'\<lparr>kvs := kv_set (buildPendingEventTimedKey e) (JEvent e) (kvs s')\<rparr>)"
    by (rule store_ok_set) auto
  ultimately show ?thesis using t by auto
qed

lemma store_ok_Expire:
  assumes "ExpireGroupEventsWithCost L s es c = Ok t" "store_ok s"
  shows "store_ok t"
  using assms(1)
proof (cases rule: Expire_Ok)
  case (3 s' p c')
  have "store_ok s'" by (rule store_ok_expire [OF 3(2) assms(2)])
  then show ?thesis unfolding 3(6) by (rule store_ok_set) (auto intro: exI [of _ "p\<lparr>p_Credit := c'\<rparr>"])
qed (use assms(2) store_ok_expire in auto)

lemma other_key_neq [simp]:
  "offsetKey x \<noteq> buildAccountBalanceKey p a" "offsetKey x \<noteq> buildAccountSnapshotKey sn" "offsetKey x \<noteq> processKey p"
  "buildAssetMetaKey x \<noteq> buildAccountBalanceKey p a" "buildAssetMetaKey x \<noteq> buildAccountSnapshotKey sn"
  "buildAssetMetaKey x \<noteq> processKey p"
  "categoryKey x \<noteq> buildAccountBalanceKey p a" "categoryKey x \<noteq> buildAccountSnapshotKey sn"
  "categoryKey x \<noteq> processKey p"
  "buildCollectibleTokenMetaKey x \<noteq> buildAccountBalanceKey p a"
  "buildCollectibleTokenMetaKey x \<noteq> buildAccountSnapshotKey sn"
  "buildCollectibleTokenMetaKey x \<noteq> processKey p"
  by (simp_all add: key_defs prefix_defs)

lemma store_ok_step:
  assumes "amounts L" "apply_op L s op = Ok t" "op_valid op" "store_ok s"
  shows "store_ok t"
proof (cases op)
  case (OpProcess p)
  have "store_ok (s\<lparr>kvs := kv_set (processKey (p_Identifier p)) (JProcess p) (kvs s)\<rparr>)"
    by (rule store_ok_set [OF assms(4)]) auto
  with OpProcess assms show ?thesis by (auto dest!: WriteProcess_Ok)
next
  case (OpOffset pid n)
  have "store_ok (s\<lparr>kvs := kv_set (offsetKey pid) (Raw (putUint64 n)) (kvs s)\<rparr>)"
    by (rule store_ok_set [OF assms(4)]) auto
  with OpOffset assms show ?thesis by (auto dest!: WriteOther_Ok)
next
  case (OpPartials pid n ps)
  let ?t = "s\<lparr>kvs := kv_set (buildPendingEventSignaturesKey pid n) (Raw (concat ps)) (kvs s)\<rparr>"
  have "store_ok ?t" if "\<not> (\<exists>b. stored_signature s pid n = Some b \<and> length b = 64)"
    using assms(3,4) OpPartials queue_ok_signatures(1) [OF _ _ that]
    by (simp add: store_ok_def process_ok_set(1) ledger_ok_set)
  then show ?thesis using assms(2,4) OpPartials WritePartials_Ok [of s pid n ps t] by auto
next
  case (OpAsset a)
  have "store_ok (s\<lparr>kvs := kv_set (buildAssetMetaKey (a_Id a)) (JAsset a) (kvs s)\<rparr>)"
    by (rule store_ok_set [OF assms(4)]) auto
  with OpAsset assms show ?thesis by (auto dest!: WriteOther_Ok)
next
  case (OpCategory i c)
  have "store_ok (s\<lparr>kvs := kv_set (categoryKey i) (Raw c) (kvs s)\<rparr>)"
    by (rule store_ok_set [OF assms(4)]) auto
  with OpCategory assms show ?thesis by (auto dest!: WriteOther_Ok)
next
  case (OpToken tk)
  have "store_ok (s\<lparr>kvs := kv_set (buildCollectibleTokenMetaKey (ct_Id tk)) (JToken tk) (kvs s)\<rparr>)"
    by (rule store_ok_set [OF assms(4)]) auto
  with OpToken assms show ?thesis by (auto dest!: WriteOther_Ok)
qed (use assms store_ok_WritePending store_ok_WriteSigned store_ok_Expire store_ok_WriteSnapshot in auto)

lemma store_ok_reach:
  "store_reach L s t \<Longrightarrow> amounts L \<Longrightarrow> store_ok s \<Longrightarrow> store_ok t"
  by (induction rule: store_reach.induct) (auto dest: store_ok_step)

section \<open>What no update undoes\<close>








text \<open>An output identifier, once used, stays used.\<close>

definition identifier_used :: "store \<Rightarrow> string \<Rightarrow> bool" where
  "identifier_used s i \<longleftrightarrow> (\<exists>ts. db_lookup s (identifierKey i) = Some (Raw (putUint64 ts)) \<and> 0 < ts)"

lemma identifier_kvs:
  "k \<noteq> identifierKey i \<Longrightarrow> identifier_used (s\<lparr>kvs := kv_set k v (kvs s)\<rparr>) i = identifier_used s i"
  "k \<noteq> identifierKey i \<Longrightarrow> identifier_used (s\<lparr>kvs := kv_del k (kvs s)\<rparr>) i = identifier_used s i"
  by (simp_all add: identifier_used_def)

lemma expire_identifier:
  "rfold (delete_signed pid) s es = Ok t \<Longrightarrow> identifier_used t i = identifier_used s i"
  by (rule rfold_invariant [where P = "\<lambda>t. identifier_used t i = identifier_used s i"])
    (auto simp: identifier_kvs)

lemma WritePending_used:
  assumes "WritePendingGroupEventAndNonce s e i = Ok t"
  shows "identifier_used t i" "\<not> identifier_used s i" "j \<noteq> i \<Longrightarrow> identifier_used t j = identifier_used s j"
proof -
  obtain p s' where "0 < e_Timestamp e"
    and old: "db_lookup s (identifierKey i) = None
         \<or> (\<exists>b. db_lookup s (identifierKey i) = Some (Raw b) \<and> getUint64 b = Ok 0)"
    and "s' = s\<lparr>kvs := kv_set (processKey (p_Identifier p)) (JProcess (p\<lparr>p_Nonce := p_Nonce p + 1\<rparr>))
               (kv_set (identifierKey i) (Raw (putUint64 (e_Timestamp e))) (kvs s))\<rparr>"
    and "t = s' \<or> t = s'\<lparr>kvs := kv_set (buildPendingEventTimedKey e) (JEvent e) (kvs s')\<rparr>"
    using WritePending_Ok [OF assms] by metis
  then show "identifier_used t i" "j \<noteq> i \<Longrightarrow> identifier_used t j = identifier_used s j"
    by (auto simp: identifier_used_def)
  show "\<not> identifier_used s i" using old by (auto simp: identifier_used_def)
qed

lemma identifier_step:
  assumes "apply_op L s op = Ok t" "identifier_used s i"
  shows "identifier_used t i"
proof (cases op)
  case (OpPending e j)
  with assms WritePending_used(1) [of s e j t] WritePending_used(3) [of s e j t i] show ?thesis
    by (cases "i = j") auto
next
  case (OpExpire es c)
  with assms(1) have "ExpireGroupEventsWithCost L s es c = Ok t" by simp
  then show ?thesis using assms(2)
    by (cases rule: Expire_Ok) (auto simp: expire_identifier identifier_kvs)
next
  case (OpSigned e)
  with assms show ?thesis by (auto simp: identifier_used_def dest!: WriteSigned_Ok)
next
  case (OpPartials pid m ps)
  with assms show ?thesis by (auto simp: identifier_used_def dest!: WritePartials_Ok)
next
  case (OpSnapshot sn)
  with assms show ?thesis by (auto simp: identifier_used_def dest!: WriteSnapshot_Ok)
next
  case (OpProcess p)
  with assms show ?thesis by (auto simp: identifier_kvs dest!: WriteProcess_Ok)
qed (use assms in \<open>auto simp: identifier_used_def key_defs prefix_defs dest!: WriteOther_Ok\<close>)

lemma identifier_reach: "store_reach L s t \<Longrightarrow> identifier_used s i \<Longrightarrow> identifier_used t i"
  by (induction rule: store_reach.induct) (auto dest: identifier_step)

text \<open>The nonce of a process moves only with its own pending events.\<close>

definition stored_nonce :: "store \<Rightarrow> string \<Rightarrow> u64 option" where
  "stored_nonce s pid = map_option p_Nonce (stored_process s pid)"

lemma stored_process_kvs:
  "k \<noteq> processKey p \<Longrightarrow> stored_process (s\<lparr>kvs := kv_set k v (kvs s)\<rparr>) p = stored_process s p"
  "k \<noteq> processKey p \<Longrightarrow> stored_process (s\<lparr>kvs := kv_del k (kvs s)\<rparr>) p = stored_process s p"
  "stored_process (s\<lparr>kvs := kv_set (processKey q) (JProcess r) (kvs s)\<rparr>) p
     = (if p = q then Some r else stored_process s p)"
  by (simp_all add: stored_process_def)

lemma expire_process:
  "rfold (delete_signed pid) s es = Ok t \<Longrightarrow> stored_process t p = stored_process s p"
  by (induction es arbitrary: s) (auto simp: stored_process_kvs)

lemma WritePending_nonce:
  assumes "WritePendingGroupEventAndNonce s e i = Ok t" "store_ok s"
  shows "stored_nonce s (e_Process e) = Some (e_Nonce e)"
    "stored_nonce t (e_Process e) = Some (e_Nonce e + 1)"
    "pid \<noteq> e_Process e \<Longrightarrow> stored_nonce t pid = stored_nonce s pid"
proof -
  obtain p s' where p: "stored_process s (e_Process e) = Some p" "p_Nonce p = e_Nonce e"
    and s': "s' = s\<lparr>kvs := kv_set (processKey (p_Identifier p)) (JProcess (p\<lparr>p_Nonce := p_Nonce p + 1\<rparr>))
               (kv_set (identifierKey i) (Raw (putUint64 (e_Timestamp e))) (kvs s))\<rparr>"
    and t: "t = s' \<or> t = s'\<lparr>kvs := kv_set (buildPendingEventTimedKey e) (JEvent e) (kvs s')\<rparr>"
    using WritePending_Ok [OF assms(1)] by metis
  have "p_Identifier p = e_Process e"
    using assms(2) p(1) by (auto simp: store_ok_def intro: process_ok_stored)
  with p s' t show "stored_nonce s (e_Process e) = Some (e_Nonce e)"
    "stored_nonce t (e_Process e) = Some (e_Nonce e + 1)"
    "pid \<noteq> e_Process e \<Longrightarrow> stored_nonce t pid = stored_nonce s pid"
    by (auto simp: stored_nonce_def stored_process_def)
qed

lemma nonce_step:
  assumes "apply_op L s op = Ok t" "store_ok s" "stored_nonce s pid \<noteq> None" "\<And>e i. op \<noteq> OpPending e i"
  shows "stored_nonce t pid = stored_nonce s pid"
proof (cases op)
  case (OpPending e j)
  with assms(4) show ?thesis by blast
next
  case (OpExpire es c)
  with assms(1) have "ExpireGroupEventsWithCost L s es c = Ok t" by simp
  then show ?thesis
  proof (cases rule: Expire_Ok)
    case (3 s' p c')
    have "store_ok s'" by (rule store_ok_expire [OF 3(2) assms(2)])
    then have "p_Identifier p = e_Process (hd es)"
      using 3(4) by (auto simp: store_ok_def intro: process_ok_stored)
    with 3 show ?thesis by (auto simp: stored_nonce_def stored_process_kvs expire_process)
  qed (auto simp: stored_nonce_def expire_process)
next
  case (OpSigned e)
  with assms show ?thesis by (auto simp: stored_nonce_def stored_process_def dest!: WriteSigned_Ok)
next
  case (OpPartials q m ps)
  with assms show ?thesis by (auto simp: stored_nonce_def stored_process_def dest!: WritePartials_Ok)
next
  case (OpSnapshot sn)
  with assms show ?thesis by (auto simp: stored_nonce_def stored_process_def dest!: WriteSnapshot_Ok)
next
  case (OpProcess p)
  with assms show ?thesis by (auto simp: stored_nonce_def stored_process_def dest!: WriteProcess_Ok)
qed (use assms in \<open>auto simp: stored_nonce_def stored_process_def key_defs prefix_defs dest!: WriteOther_Ok\<close>)

text \<open>The nonces of the pending events of a process in a sequence of updates.\<close>

fun pending_nonces :: "string \<Rightarrow> store_op list \<Rightarrow> u64 list" where
  "pending_nonces pid [] = []"
| "pending_nonces pid (op # ops) = (case op of
       OpPending e i \<Rightarrow> if e_Process e = pid then e_Nonce e # pending_nonces pid ops
                        else pending_nonces pid ops
     | _ \<Rightarrow> pending_nonces pid ops)"

fun counting :: "u64 \<Rightarrow> nat \<Rightarrow> u64 list" where
  "counting n 0 = []"
| "counting n (Suc k) = n # counting (n + 1) k"

lemma nonces_run:
  assumes "amounts L"
  shows "rfold (apply_op L) s ops = Ok t \<Longrightarrow> list_all op_valid ops \<Longrightarrow> store_ok s \<Longrightarrow>
     stored_nonce s pid = Some n \<Longrightarrow>
     pending_nonces pid ops = counting n (length (pending_nonces pid ops))
     \<and> stored_nonce t pid = Some (n + of_nat (length (pending_nonces pid ops)))"
proof (induction ops arbitrary: s n)
  case (Cons op ops)
  then obtain s' where s': "apply_op L s op = Ok s'" and rest: "rfold (apply_op L) s' ops = Ok t"
    by auto
  have ok: "store_ok s'" using store_ok_step [OF assms s'] Cons.prems by simp
  note IH = Cons.IH [OF rest _ ok]
  show ?case
  proof (cases "\<exists>e i. op = OpPending e i \<and> e_Process e = pid")
    case True
    then obtain e i where op: "op = OpPending e i" "e_Process e = pid" by blast
    with s' Cons.prems WritePending_nonce(1,2) [of s e i s'] have "n = e_Nonce e" "stored_nonce s' pid = Some (n + 1)"
      by auto
    with IH [of "n + 1"] Cons.prems(2) show ?thesis by (simp add: op algebra_simps)
  next
    case False
    have "stored_nonce s' pid = stored_nonce s pid"
    proof (cases "\<exists>e i. op = OpPending e i")
      case True
      with False s' Cons.prems WritePending_nonce(3) [of s _ _ s' pid] show ?thesis by auto
    next
      case no: False
      with s' Cons.prems nonce_step [of L s op s' pid] show ?thesis by simp
    qed
    moreover have "pending_nonces pid (op # ops) = pending_nonces pid ops"
      using False by (auto split: store_op.splits)
    ultimately show ?thesis using IH [of n] Cons.prems by simp
  qed
qed simp

section \<open>Listings\<close>

lemma list_loop_events:
  assumes "no_fault s" "\<And>x. x \<in> set xs \<Longrightarrow> as_event (snd x) = Ok (f x)" "0 < limit"
  shows "list_loop s as_event (\<lambda>n. int n = limit) [] xs = Ok (take (nat limit) (map f xs))"
proof -
  have "int n = limit \<longleftrightarrow> n = nat limit" for n using assms(3) by auto
  then have "list_loop s as_event (\<lambda>n. int n = limit) [] xs
      = list_items s as_event (take (nat limit) xs)"
    using list_loop_take [of "nat limit" "\<lambda>n. int n = limit" "[]" s as_event xs] assms(3) by simp
  also have "\<dots> = Ok (map f (take (nat limit) xs))"
    using assms(1,2) by (intro list_items_map) (auto dest: in_set_takeD)
  finally show ?thesis by (simp add: take_map)
qed

lemma ListSigned_iter:
  assumes "store_ok s" "valid_pid pid"
  shows "iter_from s (prefixSignedEventQueue @ pid) (prefixSignedEventQueue @ pid)
       = iter_from s (prefixSignedEventQueue @ pid) (buildSignedEventTimedKey pid 0)"
proof -
  let ?b = "prefixSignedEventQueue @ pid" and ?k = "buildSignedEventTimedKey pid 0"
  have pre: "has_prefix ?b ?b" "has_prefix ?b ?k"
    by (simp_all add: has_prefix_def buildSignedEventTimedKey_def)
  have ok: "db_ok s" "only_queue_keys (\<lambda>pid. prefixSignedEventQueue @ pid) buildSignedEventTimedKey valid_pid s"
    using assms(1) by (auto simp: store_ok_def queue_ok_def)
  have "?b \<le> k \<longleftrightarrow> ?k \<le> k" if k: "db_lookup s k \<noteq> None" "has_prefix ?b k" for k
  proof -
    obtain q n where "valid_pid q" "k = buildSignedEventTimedKey q n"
      using ok(2) k assms(2) unfolding only_queue_keys_def by blast
    with k(2) assms(2) have "k = buildSignedEventTimedKey pid n"
      using signed.prefix_free by blast
    then show ?thesis
      using prefix_le [of ?b "putUint64 n"] by (simp add: signed.key_le) (simp add: key_defs)
  qed
  then show ?thesis
    unfolding iter_from_filter [OF ok(1) pre(1)] iter_from_filter [OF ok(1) pre(2)]
    using db_lookup_in [OF ok(1)] by (intro filter_cong) force+
qed

lemma ListSigned_events:
  assumes "store_ok s" "no_fault s" "valid_pid pid" "0 < limit"
  obtains ns where "sorted_wrt (<) ns" "set ns = {n. signed_event s pid n \<noteq> None}"
    and "ListSignedGroupEvents s pid limit = Ok (take (nat limit) (map (\<lambda>n. the (signed_event s pid n)) ns))"
proof -
  let ?k = "buildSignedEventTimedKey pid"
  have ok: "db_ok s" "queue_ok s"
    and qk: "only_queue_keys (\<lambda>pid. prefixSignedEventQueue @ pid) buildSignedEventTimedKey valid_pid s"
    using assms(1) by (auto simp: store_ok_def queue_ok_def)
  obtain ns where ns: "sorted_wrt (<) ns" "set ns = {n. 0 \<le> n \<and> db_lookup s (?k n) \<noteq> None}"
    and it: "iter_from s (prefixSignedEventQueue @ pid) (?k 0) = map (\<lambda>n. (?k n, the (db_lookup s (?k n)))) ns"
    using signed.iterate_queue [OF ok(1) qk assms(3), of 0] by blast
  have ev: "\<exists>e. db_lookup s (?k n) = Some (JEvent e) \<and> signed_event s pid n = Some e"
    if "db_lookup s (?k n) \<noteq> None" for n
    using that queue_okD [OF ok(2) assms(3), of n] by (auto simp: signed_event_def)
  have none: "signed_event s pid n = None" if "db_lookup s (?k n) = None" for n
    using that by (simp add: signed_event_def)
  have set: "set ns = {n. signed_event s pid n \<noteq> None}"
    unfolding ns(2) using ev none by (metis option.distinct(1) word_zero_le)
  let ?f = "\<lambda>x. case snd x of JEvent e \<Rightarrow> e | _ \<Rightarrow> undefined"
  have "ListSignedGroupEvents s pid limit
      = Ok (take (nat limit) (map ?f (map (\<lambda>n. (?k n, the (db_lookup s (?k n)))) ns)))"
    unfolding ListSignedGroupEvents_def ListSigned_iter [OF assms(1,3)] it
    using ns(2) ev by (intro list_loop_events [OF assms(2) _ assms(4)]) fastforce
  also have "map ?f (map (\<lambda>n. (?k n, the (db_lookup s (?k n)))) ns) = map (\<lambda>n. the (signed_event s pid n)) ns"
    using ns(2) ev by (fastforce simp: comp_def)
  finally show ?thesis using that ns(1) set by blast
qed

lemma store_ok_empty [simp]: "store_ok db_empty"
  by (simp add: store_ok_def queue_ok_def process_ok_def ledger_ok_def only_queue_keys_def
      balance_def posted_def db_empty_simps) (simp add: db_empty_def)

lemma chunks_concat:
  assumes "list_all (\<lambda>p. length p = m) ps" "0 < m"
  shows "map (\<lambda>i. take m (drop (i * m) (concat ps))) [0..<length (concat ps) div m] = ps"
  using assms(1)
proof (induction ps)
  case (Cons p ps)
  then have p: "length p = m" and IH: "map (\<lambda>i. take m (drop (i * m) (concat ps))) [0..<length (concat ps) div m] = ps"
    by auto
  have n: "length (concat (p # ps)) div m = Suc (length (concat ps) div m)"
    using p assms(2) by simp
  show ?case unfolding n upt_conv_Cons [OF zero_less_Suc] map_Suc_upt [symmetric]
    using IH p by (simp add: comp_def)
qed (use assms(2) in simp)

section \<open>Queues of events\<close>

text \<open>What a queue of JSON events holds at a nonce, and that it holds events under their own nonce.\<close>

definition stored_event :: "('a \<Rightarrow> u64 \<Rightarrow> bytes) \<Rightarrow> store \<Rightarrow> 'a \<Rightarrow> u64 \<Rightarrow> event option" where
  "stored_event key s a n = (case db_lookup s (key a n) of Some (JEvent e) \<Rightarrow> Some e | _ \<Rightarrow> None)"

definition typed_queue :: "('a \<Rightarrow> u64 \<Rightarrow> bytes) \<Rightarrow> ('a \<Rightarrow> bool) \<Rightarrow> store \<Rightarrow> bool" where
  "typed_queue key valid s \<longleftrightarrow> (\<forall>a n v. db_lookup s (key a n) = Some v \<longrightarrow> valid a \<longrightarrow>
     (\<exists>e. v = JEvent e \<and> e_Nonce e = n))"

definition event_of :: "dbval \<Rightarrow> event" where
  "event_of v = (case v of JEvent e \<Rightarrow> e | _ \<Rightarrow> the None)"

lemma stored_event_typed:
  assumes "typed_queue key valid s" "valid a" "db_lookup s (key a n) = Some v"
  shows "stored_event key s a n = Some (event_of v)" "e_Nonce (event_of v) = n" "v = JEvent (event_of v)"
  using assms unfolding typed_queue_def stored_event_def event_of_def by fastforce+

context nonce_queue
begin

lemma list_events:
  assumes "db_ok s" "only_queue_keys base key valid s" "typed_queue key valid s" "valid a" "0 < mx"
    "\<And>e. dec (JEvent e) = Ok e" "\<And>n. n \<le> mx \<Longrightarrow> stop n \<longleftrightarrow> n = mx"
  obtains ns where "sorted_wrt (<) ns" "set ns = {n. off \<le> n \<and> stored_event key s a n \<noteq> None}"
    "\<And>es. list_loop s dec stop [] (iter_from s (base a) (key a off)) = Ok es \<Longrightarrow>
       es = take mx (map (\<lambda>n. the (stored_event key s a n)) ns)"
    "no_fault s \<Longrightarrow> list_loop s dec stop [] (iter_from s (base a) (key a off))
       = Ok (take mx (map (\<lambda>n. the (stored_event key s a n)) ns))"
    "\<And>n. n \<in> set ns \<Longrightarrow> e_Nonce (the (stored_event key s a n)) = n"
proof -
  note ty = stored_event_typed [OF assms(3,4)]
  have dec: "dec v = Ok (event_of v)" if "db_lookup s (key a n) = Some v" for n v
    using ty(3) [OF that] assms(6) by metis
  obtain ns where ns: "sorted_wrt (<) ns" "set ns = {n. off \<le> n \<and> db_lookup s (key a n) \<noteq> None}"
    and l: "\<And>ys. list_loop s dec stop [] (iter_from s (base a) (key a off)) = Ok ys \<Longrightarrow>
       ys = take mx (map (\<lambda>n. event_of (the (db_lookup s (key a n)))) ns)"
    "no_fault s \<Longrightarrow> list_loop s dec stop [] (iter_from s (base a) (key a off))
       = Ok (take mx (map (\<lambda>n. event_of (the (db_lookup s (key a n)))) ns))"
    using list_queue [of s a dec event_of mx stop off] assms(1,2,4,5,7) dec by blast
  have eq: "map (\<lambda>n. event_of (the (db_lookup s (key a n)))) ns = map (\<lambda>n. the (stored_event key s a n)) ns"
    using ns(2) ty(1) by fastforce
  have "stored_event key s a n \<noteq> None \<longleftrightarrow> db_lookup s (key a n) \<noteq> None" for n
    using ty(1) by (cases "db_lookup s (key a n)") (auto simp: stored_event_def)
  then have set: "set ns = {n. off \<le> n \<and> stored_event key s a n \<noteq> None}" using ns(2) by simp
  have nonce: "e_Nonce (the (stored_event key s a n)) = n" if "n \<in> set ns" for n
    using that ns(2) ty(1,2) by fastforce
  from that [OF ns(1) set _ _ nonce] l show ?thesis unfolding eq by blast
qed

text \<open>The listed events are in nonce order, from the offset on, and are those the queue holds.\<close>

lemma listed_in_order:
  assumes "db_ok s" "only_queue_keys base key valid s" "typed_queue key valid s" "valid a" "0 < mx"
    "\<And>e. dec (JEvent e) = Ok e" "\<And>n. n \<le> mx \<Longrightarrow> stop n \<longleftrightarrow> n = mx"
    "list_loop s dec stop [] (iter_from s (base a) (key a off)) = Ok es"
  shows "sorted_wrt (<) (map e_Nonce es)
     \<and> (\<forall>e \<in> set es. off \<le> e_Nonce e \<and> stored_event key s a (e_Nonce e) = Some e)"
proof -
  obtain ns where ns: "sorted_wrt (<) ns" "set ns = {n. off \<le> n \<and> stored_event key s a n \<noteq> None}"
    and es: "es = take mx (map (\<lambda>n. the (stored_event key s a n)) ns)"
    and nonce: "\<And>n. n \<in> set ns \<Longrightarrow> e_Nonce (the (stored_event key s a n)) = n"
  proof (rule list_events [OF assms(1-7), of off])
    fix ns
    assume 1: "sorted_wrt (<) ns" "set ns = {n. off \<le> n \<and> stored_event key s a n \<noteq> None}"
      and 2: "\<And>es. list_loop s dec stop [] (iter_from s (base a) (key a off)) = Ok es \<Longrightarrow>
         es = take mx (map (\<lambda>n. the (stored_event key s a n)) ns)"
      and 3: "\<And>n. n \<in> set ns \<Longrightarrow> e_Nonce (the (stored_event key s a n)) = n"
    show thesis by (rule that [OF 1 2 [OF assms(8)] 3])
  qed
  have "map e_Nonce (map (\<lambda>n. the (stored_event key s a n)) ns) = ns"
    using nonce by (simp add: comp_def map_idI)
  then have "map e_Nonce es = take mx ns" unfolding es by (metis take_map)
  moreover have "off \<le> e_Nonce e \<and> stored_event key s a (e_Nonce e) = Some e" if e: "e \<in> set es" for e
  proof -
    have "e \<in> set (map (\<lambda>n. the (stored_event key s a n)) ns)"
      using e unfolding es by (rule in_set_takeD)
    then obtain n where "n \<in> set ns" "e = the (stored_event key s a n)" by auto
    with ns(2) nonce show ?thesis by auto
  qed
  ultimately show ?thesis using ns(1) by (simp add: sorted_wrt_take)
qed

text \<open>A queue of one event lists that event.\<close>

lemma list_single:
  assumes "db_ok s" "only_queue_keys base key valid s" "typed_queue key valid s" "valid a" "0 < mx"
    "\<And>e. dec (JEvent e) = Ok e" "\<And>n. n \<le> mx \<Longrightarrow> stop n \<longleftrightarrow> n = mx"
    "no_fault s" "\<And>n. stored_event key s a n = (if n = m then Some e else None)" "off \<le> m"
  shows "list_loop s dec stop [] (iter_from s (base a) (key a off)) = Ok [e]"
proof (rule list_events [OF assms(1-7), of off])
  fix ns
  assume ns: "sorted_wrt (<) ns" "set ns = {n. off \<le> n \<and> stored_event key s a n \<noteq> None}"
    and l: "no_fault s \<Longrightarrow> list_loop s dec stop [] (iter_from s (base a) (key a off))
       = Ok (take mx (map (\<lambda>n. the (stored_event key s a n)) ns))"
  have "set ns = {m}" unfolding ns(2) using assms(9,10) by auto
  then have "ns = [m]" by (rule sorted_wrt_single [OF ns(1)])
  with l [OF assms(8)] assms(5,9) show ?thesis by (cases mx) simp_all
qed

end

section \<open>A concrete run\<close>

text \<open>One process, one event written, signed and credited, used to instantiate the properties.\<close>

definition demo_pid :: string where
  "demo_pid = uuid_text (replicate 16 (CHR ''p''))"

definition demo_asset :: string where
  "demo_asset = uuid_text (replicate 16 (CHR ''c''))"

lemma valid_demo_pid [simp]: "valid_pid demo_pid"
  by (simp add: valid_pid_def demo_pid_def uuid_text_def Let_def)

definition demo_process :: process where
  "demo_process = \<lparr>p_Identifier = demo_pid, p_Platform = ''quorum'', p_Address = ''0x'' @ replicate 40 (CHR ''a''),
     p_Credit = 0, p_Nonce = 0, p_Asset = False\<rparr>"

definition demo_event :: event where
  "demo_event = \<lparr>e_Process = demo_pid, e_Asset = demo_asset, e_Members = [], e_Threshold = 0,
     e_Amount = 5, e_Extra = [], e_Timestamp = 7, e_Nonce = 0, e_Signature = None\<rparr>"

definition demo_signed :: event where
  "demo_signed = demo_event\<lparr>e_Signature := Some (replicate 64 (CHR ''s''))\<rparr>"

definition demo_ops :: "store_op list" where
  "demo_ops = [OpProcess demo_process, OpSnapshot \<lparr>as_Process = demo_pid, as_Nonce = 0, as_Asset = demo_asset,
     as_Amount = 5, as_Credit = True\<rparr>, OpPending demo_event ''u1'', OpSigned demo_signed]"

lemma reach_run: "rfold (apply_op L) s ops = Ok t \<Longrightarrow> list_all op_valid ops \<Longrightarrow> store_reach L s t"
proof -
  have "rfold (apply_op L) u ops = Ok t \<Longrightarrow> list_all op_valid ops \<Longrightarrow> store_reach L s u \<Longrightarrow> store_reach L s t" for u
    by (induction ops arbitrary: u) (auto intro: store_reach.step)
  then show "rfold (apply_op L) s ops = Ok t \<Longrightarrow> list_all op_valid ops \<Longrightarrow> ?thesis"
    by (blast intro: store_reach.refl)
qed

definition demo_store :: store where
  "demo_store = (case rfold (apply_op wire_lib) db_empty demo_ops of Ok t \<Rightarrow> t | _ \<Rightarrow> db_empty)"

lemmas demo_defs = demo_process_def demo_event_def demo_signed_def

lemmas store_eval = db_update_def txn_get_def txn_value_def txn_set_def txn_delete_def io_check_def read_opt_def
  readProcess_def writeProcess_def WriteProcess_def WriteAccountSnapshot_def readAccountBalance_def
  WritePendingGroupEventAndNonce_def readPendingGroupEventIdentifier_def uint64Bytes_def
  writePendingGroupEventIdentifier_def checkSignedEvent_def WriteSignedGroupEventAndExpirePending_def
  checkFullSignature_def as_process_def as_bytes_def as_decimal_def slice_bytes_def

lemma io_db_empty [simp]: "io db_empty = (\<lambda>_. None)"
  by (simp add: db_empty_def)

definition demo_start :: store where
  "demo_start = db_empty\<lparr>kvs := kv_set (processKey demo_pid) (JProcess demo_process) (kvs db_empty)\<rparr>"

lemma demo_ops_valid: "list_all op_valid demo_ops"
  by (simp add: demo_ops_def demo_defs)

lemma demo_run: "rfold (apply_op wire_lib) db_empty demo_ops = Ok demo_store"
proof -
  have "\<exists>t. rfold (apply_op wire_lib) db_empty demo_ops = Ok t"
    by (simp add: demo_ops_def demo_process_def demo_event_def demo_signed_def store_eval wire_lib_def
        del: rbind_Ok_iff)
  then show ?thesis by (auto simp: demo_store_def)
qed

lemma demo_store_eq: "demo_store = db_empty\<lparr>kvs :=
    kv_set (buildSignedEventTimedKey demo_pid 0) (JEvent demo_signed)
   (kv_set (buildPendingEventSignaturesKey demo_pid 0) (Raw (replicate 64 (CHR ''s'')))
   (kv_del (buildPendingEventTimedKey demo_signed)
   (kv_set (buildPendingEventTimedKey demo_event) (JEvent demo_event)
   (kv_set (processKey demo_pid) (JProcess (demo_process\<lparr>p_Nonce := 1\<rparr>))
   (kv_set (identifierKey ''u1'') (Raw (putUint64 7))
   (kv_set (buildAccountSnapshotKey \<lparr>as_Process = demo_pid, as_Nonce = 0, as_Asset = demo_asset,
      as_Amount = 5, as_Credit = True\<rparr>) (JSnapshot \<lparr>as_Process = demo_pid, as_Nonce = 0, as_Asset = demo_asset,
      as_Amount = 5, as_Credit = True\<rparr>)
   (kv_set (buildAccountBalanceKey demo_pid demo_asset) (Dec 5)
   (kv_set (processKey demo_pid) (JProcess demo_process) (kvs db_empty)))))))))\<rparr>"
  using demo_run
  by (simp add: demo_ops_def demo_process_def demo_event_def demo_signed_def store_eval wire_lib_def
        del: rbind_Ok_iff)

lemma demo_facts:
  "io demo_store x = None"
  "db_lookup demo_store (buildAccountBalanceKey demo_pid demo_asset) = Some (Dec 5)"
  "db_lookup demo_store (buildPendingEventSignaturesKey demo_pid 0) = Some (Raw (replicate 64 (CHR ''s'')))"
  "db_lookup demo_store (buildSignedEventTimedKey demo_pid 0) = Some (JEvent demo_signed)"
  "db_lookup demo_store (processKey demo_pid) = Some (JProcess (demo_process\<lparr>p_Nonce := 1\<rparr>))"
  by (simp_all add: demo_store_eq)

text \<open>A recorded snapshot stays recorded.\<close>

lemma expire_snapshot:
  "rfold (delete_signed pid) s es = Ok t \<Longrightarrow>
   db_lookup t (buildAccountSnapshotKey sn) = db_lookup s (buildAccountSnapshotKey sn)"
  by (rule rfold_invariant [where P = "\<lambda>t. db_lookup t (buildAccountSnapshotKey sn)
        = db_lookup s (buildAccountSnapshotKey sn)"]) auto

lemma snapshot_step:
  assumes "apply_op L s op = Ok t" "db_lookup s (buildAccountSnapshotKey sn) \<noteq> None"
  shows "db_lookup t (buildAccountSnapshotKey sn) \<noteq> None"
proof (cases op)
  case (OpPending e i)
  with assms(1) obtain q s' where "s' = s\<lparr>kvs := kv_set (processKey (p_Identifier q)) (JProcess (q\<lparr>p_Nonce := p_Nonce q + 1\<rparr>))
               (kv_set (identifierKey i) (Raw (putUint64 (e_Timestamp e))) (kvs s))\<rparr>"
    and "t = s' \<or> t = s'\<lparr>kvs := kv_set (buildPendingEventTimedKey e) (JEvent e) (kvs s')\<rparr>"
    using WritePending_Ok [of s e i t] by (metis apply_op.simps(3))
  with assms(2) show ?thesis by auto
next
  case (OpExpire es c)
  with assms(1) have "ExpireGroupEventsWithCost L s es c = Ok t" by simp
  then show ?thesis using assms(2)
    by (cases rule: Expire_Ok) (auto simp: expire_snapshot)
next
  case (OpSigned e)
  with assms show ?thesis by (auto dest!: WriteSigned_Ok)
next
  case (OpPartials pid m ps)
  with assms show ?thesis by (auto dest!: WritePartials_Ok)
next
  case (OpSnapshot sn)
  with assms show ?thesis by (auto dest!: WriteSnapshot_Ok)
next
  case (OpProcess p)
  with assms show ?thesis by (auto dest!: WriteProcess_Ok)
qed (use assms in \<open>auto dest!: WriteOther_Ok\<close>)

lemma snapshot_reach:
  "store_reach L s t \<Longrightarrow> db_lookup s (buildAccountSnapshotKey sn) \<noteq> None \<Longrightarrow>
   db_lookup t (buildAccountSnapshotKey sn) \<noteq> None"
  by (induction rule: store_reach.induct) (use snapshot_step in blast)+

section \<open>Properties\<close>

text \<open>C2: from an empty database, after any sequence of updates in any order, the balance that
  \<open>readAccountBalance\<close> returns for a process and an asset is the sum of the amounts of the recorded
  credits less the recorded debits, and is never negative.\<close>

theorem balance_is_posted:
  assumes "amounts L" and "store_reach L db_empty s" and "valid_pid pid"
    and "readAccountBalance L s pid ast = Ok b"
  shows "b = posted s pid ast \<and> 0 \<le> b"
proof -
  have "store_ok s" by (rule store_ok_reach [OF assms(2,1) store_ok_empty])
  then have "ledger_ok s" by (simp add: store_ok_def)
  moreover have "b = balance s pid ast" by (rule readAccountBalance_Ok [OF assms(1,4)])
  ultimately show ?thesis using assms(3) unfolding ledger_ok_def by blast
qed

theorem balance_is_posted_witness:
  "readAccountBalance wire_lib demo_store demo_pid demo_asset = Ok 5 \<and> posted demo_store demo_pid demo_asset = 5"
proof -
  have reach: "store_reach wire_lib db_empty demo_store" by (rule reach_run [OF demo_run demo_ops_valid])
  have "readAccountBalance wire_lib demo_store demo_pid demo_asset = Ok 5"
    by (simp add: readAccountBalance_def demo_facts wire_lib_def)
  moreover from balance_is_posted [OF wire.amounts_axioms reach _ this]
  have "posted demo_store demo_pid demo_asset = 5" by simp
  ultimately show ?thesis by simp
qed

text \<open>C27: an output identifier is accepted once. After a pending event is written for it, whatever
  updates follow, no later write for it succeeds; while the database has no fault, the store reports it
  as processed and every later write for it panics.\<close>

theorem pending_once:
  assumes "WritePendingGroupEventAndNonce s evt i = Ok t" and "store_reach L t u"
  shows "(\<nexists>v. WritePendingGroupEventAndNonce u evt' i = Ok v)
     \<and> (no_fault u \<longrightarrow> CheckPendingGroupEventIdentifier u i = Ok True
          \<and> (\<exists>m. WritePendingGroupEventAndNonce u evt' i = Panic m))"
proof -
  have used: "identifier_used u i"
    using identifier_reach [OF assms(2)] WritePending_used(1) [OF assms(1)] by blast
  then have "\<nexists>v. WritePendingGroupEventAndNonce u evt' i = Ok v"
    using WritePending_used(2) by blast
  moreover have "CheckPendingGroupEventIdentifier u i = Ok True" if "no_fault u"
    using used that by (auto simp: identifier_used_def CheckPendingGroupEventIdentifier_def
        readPendingGroupEventIdentifier_def no_fault_def)
  moreover have "\<exists>m. WritePendingGroupEventAndNonce u evt' i = Panic m" if "no_fault u"
  proof -
    from used obtain ts where "db_lookup u (identifierKey i) = Some (Raw (putUint64 ts))" "0 < ts" by (auto simp: identifier_used_def)
    with that show ?thesis by (auto simp: WritePendingGroupEventAndNonce_def readPendingGroupEventIdentifier_def no_fault_def
        store_eval simp del: rbind_Ok_iff)
  qed
  ultimately show ?thesis by blast
qed

theorem pending_once_witness:
  "\<exists>s t. WritePendingGroupEventAndNonce s demo_event ''u1'' = Ok t
      \<and> CheckPendingGroupEventIdentifier t ''u1'' = Ok True"
proof -
  obtain t where t: "WritePendingGroupEventAndNonce demo_start demo_event ''u1'' = Ok t" "no_fault t"
    by (simp add: store_eval demo_start_def demo_event_def demo_process_def no_fault_def del: rbind_Ok_iff)
  from pending_once [OF t(1) store_reach.refl [of wire_lib t]] t show ?thesis by blast
qed

text \<open>C28: nonces of a process are consecutive. In any sequence of updates that succeeds, the
  pending events of a process carry exactly the nonces \<open>n, n+1, n+2, \<dots>\<close> from the stored one,
  in the order they were written, and the stored nonce ends after the last of them.\<close>

theorem pending_nonces_consecutive:
  assumes "amounts L" and "store_ok s" and "list_all op_valid ops" and "rfold (apply_op L) s ops = Ok t"
    and "stored_nonce s pid = Some n"
  shows "pending_nonces pid ops = counting n (length (pending_nonces pid ops))
     \<and> stored_nonce t pid = Some (n + of_nat (length (pending_nonces pid ops)))"
  by (rule nonces_run [OF assms(1,4,3,2,5)])

theorem pending_nonces_consecutive_witness:
  "pending_nonces demo_pid [OpPending demo_event ''u1''] = counting 0 1"
proof -
  have ok: "store_ok demo_start"
    unfolding demo_start_def by (rule store_ok_set) (auto simp: demo_process_def)
  obtain t where t: "rfold (apply_op wire_lib) demo_start [OpPending demo_event ''u1''] = Ok t"
    by (simp add: store_eval demo_start_def demo_event_def demo_process_def del: rbind_Ok_iff)
  have "stored_nonce demo_start demo_pid = Some 0"
    by (simp add: stored_nonce_def demo_start_def stored_process_def demo_process_def)
  from pending_nonces_consecutive [OF wire.amounts_axioms ok _ t this]
  show ?thesis by (simp add: demo_event_def)
qed



text \<open>\<open>ListSignedGroupEvents\<close> returns the signed events of the process asked for and of no
  other, in ascending order of nonce, up to the limit and with none skipped.\<close>

theorem list_signed_in_order:
  assumes "amounts L" and "store_reach L db_empty s" and "no_fault s" and "valid_pid pid" and "0 < limit"
  shows "\<exists>ns. sorted_wrt (<) ns \<and> set ns = {n. signed_event s pid n \<noteq> None}
     \<and> ListSignedGroupEvents s pid limit = Ok (take (nat limit) (map (\<lambda>n. the (signed_event s pid n)) ns))
     \<and> (\<forall>n \<in> set ns. e_Process (the (signed_event s pid n)) = pid \<and> e_Nonce (the (signed_event s pid n)) = n)"
proof -
  have ok: "store_ok s" by (rule store_ok_reach [OF assms(2,1) store_ok_empty])
  obtain ns where ns: "sorted_wrt (<) ns" "set ns = {n. signed_event s pid n \<noteq> None}"
    "ListSignedGroupEvents s pid limit = Ok (take (nat limit) (map (\<lambda>n. the (signed_event s pid n)) ns))"
    using ListSigned_events [OF ok assms(3-5)] by blast
  have "e_Process e = pid \<and> e_Nonce e = n" if "signed_event s pid n = Some e" for n e
    using that ok queue_okD [OF _ assms(4), of s n]
    by (auto simp: signed_event_def store_ok_def split: option.splits dbval.splits)
  then have "\<forall>n \<in> set ns. e_Process (the (signed_event s pid n)) = pid \<and> e_Nonce (the (signed_event s pid n)) = n"
    using ns(2) by fastforce
  with ns show ?thesis by blast
qed

theorem list_signed_in_order_witness:
  "\<exists>ns. 0 \<in> set ns \<and> ListSignedGroupEvents demo_store demo_pid 100
     = Ok (take 100 (map (\<lambda>n. the (signed_event demo_store demo_pid n)) ns))"
proof -
  have "store_reach wire_lib db_empty demo_store" by (rule reach_run [OF demo_run demo_ops_valid])
  moreover have "no_fault demo_store" by (simp add: no_fault_def fun_eq_iff demo_facts)
  ultimately obtain ns where "set ns = {n. signed_event demo_store demo_pid n \<noteq> None}"
    "ListSignedGroupEvents demo_store demo_pid 100
     = Ok (take (nat 100) (map (\<lambda>n. the (signed_event demo_store demo_pid n)) ns))"
    using list_signed_in_order [OF wire.amounts_axioms, of demo_store demo_pid 100]
    by auto
  moreover have "signed_event demo_store demo_pid 0 = Some demo_signed" by (simp add: signed_event_def demo_facts)
  ultimately show ?thesis by auto
qed

text \<open>A snapshot is applied once. After a snapshot is written, whatever updates follow, writing a
  snapshot with the same process, nonce and direction changes nothing.\<close>

theorem snapshot_once:
  assumes "WriteAccountSnapshot L s sn = Ok t" and "store_reach L' t u" and "no_fault u"
    and "as_Process sn' = as_Process sn" and "as_Nonce sn' = as_Nonce sn" and "as_Credit sn' = as_Credit sn"
  shows "WriteAccountSnapshot L u sn' = Ok u"
proof -
  have "db_lookup t (buildAccountSnapshotKey sn) \<noteq> None"
    using WriteSnapshot_Ok [OF assms(1)] by auto
  then have "db_lookup u (buildAccountSnapshotKey sn) \<noteq> None" by (rule snapshot_reach [OF assms(2)])
  moreover have "buildAccountSnapshotKey sn' = buildAccountSnapshotKey sn"
    using assms(4-6) by (simp add: buildAccountSnapshotKey_def)
  ultimately show ?thesis using assms(3)
    by (auto simp: WriteAccountSnapshot_def store_eval no_fault_def simp del: rbind_Ok_iff)
qed

theorem snapshot_once_witness:
  "\<exists>sn t. WriteAccountSnapshot wire_lib db_empty sn = Ok t \<and> WriteAccountSnapshot wire_lib t sn = Ok t"
proof -
  let ?sn = "\<lparr>as_Process = demo_pid, as_Nonce = 0, as_Asset = demo_asset, as_Amount = 5, as_Credit = True\<rparr>"
  obtain t where t: "WriteAccountSnapshot wire_lib db_empty ?sn = Ok t" "no_fault t"
    by (simp add: store_eval wire_lib_def no_fault_def del: rbind_Ok_iff)
  from snapshot_once [OF t(1) store_reach.refl [of wire_lib] t(2) HOL.refl HOL.refl HOL.refl] t(1) show ?thesis by blast
qed

text \<open>A debit that \<open>CheckAccountSnapshot\<close> allows is written without a panic, and one that it
  refuses would leave the account negative.\<close>

theorem checked_debit_succeeds:
  assumes "amounts L" and "store_ok s" and "no_fault s" and "valid_pid (as_Process sn)"
    and "\<not> as_Credit sn" and "0 < as_Amount sn" and "CheckAccountSnapshot L s sn = Ok enough"
  shows "if enough then \<exists>t. WriteAccountSnapshot L s sn = Ok t
         else posted s (as_Process sn) (as_Asset sn) - as_Amount sn < 0"
proof -
  have led: "balance s (as_Process sn) (as_Asset sn) = posted s (as_Process sn) (as_Asset sn)"
    "0 \<le> balance s (as_Process sn) (as_Asset sn)"
    using assms(2,4) unfolding store_ok_def ledger_ok_def by blast+
  have io: "io s x = None" for x using assms(3) by (simp add: no_fault_def)
  consider "db_lookup s (buildAccountSnapshotKey sn) \<noteq> None" "enough"
    | b where "db_lookup s (buildAccountSnapshotKey sn) = None" "readAccountBalance L s (as_Process sn) (as_Asset sn) = Ok b"
        "enough = (as_Amount sn \<le> b)"
    using assms(5,7) by (auto simp: CheckAccountSnapshot_def split: if_splits)
  then show ?thesis
  proof cases
    case 1
    then show ?thesis by (auto simp: WriteAccountSnapshot_def io)
  next
    case 2
    have b: "b = balance s (as_Process sn) (as_Asset sn)"
      by (rule readAccountBalance_Ok [OF assms(1) 2(2)])
    show ?thesis
    proof (cases enough)
      case True
      then have "integerSub L b (as_Amount sn) = Ok (b - as_Amount sn)"
        using 2(3) led(2) assms(6) b amounts.sub_Ok [OF assms(1)] by simp
      then show ?thesis using True 2 assms(5) io
        by (simp add: WriteAccountSnapshot_def db_update_def txn_get_def txn_set_def io_check_def del: rbind_Ok_iff)
    qed (use 2 b led in simp)
  qed
qed

theorem checked_debit_succeeds_witness:
  "\<exists>t. WriteAccountSnapshot wire_lib demo_store
     \<lparr>as_Process = demo_pid, as_Nonce = 0, as_Asset = demo_asset, as_Amount = 3, as_Credit = False\<rparr> = Ok t"
proof -
  let ?sn = "\<lparr>as_Process = demo_pid, as_Nonce = 0, as_Asset = demo_asset, as_Amount = 3, as_Credit = False\<rparr>"
  have ok: "store_ok demo_store"
    by (rule store_ok_reach [OF reach_run [OF demo_run demo_ops_valid] wire.amounts_axioms store_ok_empty])
  have nf: "no_fault demo_store" by (simp add: no_fault_def fun_eq_iff demo_facts)
  have "CheckAccountSnapshot wire_lib demo_store ?sn = Ok True"
    using nf by (simp add: CheckAccountSnapshot_def readAccountBalance_def no_fault_simps demo_facts
      wire_lib_def)
  from checked_debit_succeeds [OF wire.amounts_axioms ok nf _ _ _ this] show ?thesis
    by simp
qed

text \<open>Partial signatures read back as they were written: 66 bytes each, in order, and never
  taken for a full signature.\<close>

theorem partials_roundtrip:
  assumes "WritePendingGroupEventSignatures s pid n partials = Ok t" and "no_fault t"
    and "stored_signature s pid n = None"
  shows "ReadGroupEventSignatures t pid n = Ok (partials, False)"
proof -
  have ps: "list_all (\<lambda>p. length p = 66) partials"
    and t: "t = s\<lparr>kvs := kv_set (buildPendingEventSignaturesKey pid n) (Raw (concat partials)) (kvs s)\<rparr>"
    using WritePartials_Ok [OF assms(1)] assms(3) by auto
  have "length (concat partials) = 66 * length partials"
    using ps by (induction partials) auto
  then have "length (concat partials) \<noteq> 64" by arith
  then show ?thesis using assms(2) chunks_concat [OF ps]
    by (simp add: ReadGroupEventSignatures_def store_eval no_fault_def t del: rbind_Ok_iff)
qed

theorem partials_roundtrip_witness:
  "\<exists>t. WritePendingGroupEventSignatures db_empty demo_pid 0 [replicate 66 (CHR ''p''), replicate 66 (CHR ''q'')] = Ok t
     \<and> ReadGroupEventSignatures t demo_pid 0 = Ok ([replicate 66 (CHR ''p''), replicate 66 (CHR ''q'')], False)"
proof -
  obtain t where t: "WritePendingGroupEventSignatures db_empty demo_pid 0 [replicate 66 (CHR ''p''), replicate 66 (CHR ''q'')] = Ok t" "no_fault t"
    by (simp add: WritePendingGroupEventSignatures_def append_partial_def store_eval no_fault_def del: rbind_Ok_iff)
  from partials_roundtrip [OF t] t(1) show ?thesis by (auto simp: stored_signature_def)
qed

end
