(* ===== verification/Machine.thy ===== *)
theory Machine
  imports Store_Laws "HOL-Library.AList"
begin

text \<open>
  mvm/machine: the machine that turns the outputs of the group's ledger into events for the engines,
  signs them with the other members, sends them, and turns the events of the engines into transactions.

  \<open>world\<close> adds to the library functions what the machine reads from outside: the group, the
  threshold signature scheme under the machine's own share and polynomial, the clock, and the answers of
  the Mixin API, the messenger and the group's transaction builder. What the machine sends is appended
  to the lists \<open>m_outbox\<close>, \<open>m_warnings\<close> and \<open>m_txs\<close>. The endless loops are their bodies,
  one iteration each; a loop's local map is an argument and a result. A process is reached through its
  identifier in \<open>m_processes\<close>, as the code reaches it through a shared pointer.
\<close>

section \<open>Outside the machine\<close>

datatype group_tx =
    AssetTx string "string list" int int string string string
  | CollectibleTx "string list" int string string string

record mixin_asset =
  ma_Symbol :: string
  ma_Name :: string

record mixin_token =
  mt_TokenID :: string
  mt_Token :: string
  mt_Group :: string

record world = lib +
  genesisId :: string
  groupMembers :: "string list"
  groupThreshold :: int
  tblsSign :: "bytes \<Rightarrow> bytes res"
  tblsVerifyPartial :: "bytes \<Rightarrow> bytes \<Rightarrow> bool"
  tblsRecover :: "bytes \<Rightarrow> bytes list \<Rightarrow> int \<Rightarrow> int \<Rightarrow> bytes res"
  cryptoVerify :: "bytes \<Rightarrow> bytes \<Rightarrow> bool"
  uniqueConversationID :: "string \<Rightarrow> string \<Rightarrow> string"
  now :: int
  mixinReadAsset :: "string \<Rightarrow> mixin_asset option res"
  mixinReadToken :: "string \<Rightarrow> mixin_token res"
  isNotFound :: "goerr \<Rightarrow> bool"
  queueMsg :: "string \<Rightarrow> bytes \<Rightarrow> unit res"
  broadcastPlain :: "string \<Rightarrow> unit res"
  groupBuild :: "group_tx \<Rightarrow> unit res"

text \<open>The outputs of \<open>mtg\<close>.\<close>

record mtg_output =
  out_UTXOID :: string
  out_Sender :: string
  out_AssetID :: string
  out_Amount :: rat
  out_Memo :: string
  out_CreatedAt :: u64

record mtg_collectible_output =
  co_OutputId :: string
  co_TokenId :: string
  co_Senders :: "string list"
  co_SendersThreshold :: int
  co_Amount :: rat
  co_Memo :: string
  co_CreatedAt :: u64

section \<open>Interfaces and state (interface.go, machine.go)\<close>

text \<open>The \<open>Engine\<close> interface, over the engine's own state.\<close>

record 'e engine_ops =
  VerifyAddress :: "'e \<Rightarrow> string \<Rightarrow> bytes \<Rightarrow> unit res"
  SetupNotifier :: "'e \<Rightarrow> string \<Rightarrow> 'e res"
  EstimateCost :: "'e \<Rightarrow> event list \<Rightarrow> int res"
  EnsureSendGroupEvents :: "'e \<Rightarrow> string \<Rightarrow> event list \<Rightarrow> 'e res"
  ReceiveGroupEvents :: "'e \<Rightarrow> string \<Rightarrow> u64 \<Rightarrow> int \<Rightarrow> event list res"

definition ProcessPlatformQuorum :: string where
  "ProcessPlatformQuorum = ''quorum''"

definition ProcessCreditMulplifier :: int where
  "ProcessCreditMulplifier = 10"

definition messagePeriod :: int where
  "messagePeriod = 3600 * 10 ^ 9"

record 'e machine =
  m_store :: store
  m_feeAssetId :: string
  m_feeAmount :: rat
  m_engines :: "(string \<times> 'e) list"
  m_processes :: "(string \<times> process) list"
  m_spawned :: "string list"
  m_outbox :: "(string \<times> bytes) list"
  m_warnings :: "string list"
  m_txs :: "group_tx list"

type_synonym sent_times = "(string \<times> int) list"

text \<open>\<open>sm[id].Add(messagePeriod).After(time.Now())\<close>; the zero time of a missing entry is long past.\<close>

definition recently :: "'z world_scheme \<Rightarrow> sent_times \<Rightarrow> string \<Rightarrow> bool" where
  "recently W sm i = (case map_of sm i of None \<Rightarrow> False | Some t \<Rightarrow> now W < t + messagePeriod)"

definition Spawn :: "'e machine \<Rightarrow> process \<Rightarrow> 'e machine" where
  "Spawn m p = m\<lparr>m_spawned := p_Identifier p # m_spawned m\<rparr>"

definition add_process :: "'e machine \<Rightarrow> process \<Rightarrow> 'e machine" where
  "add_process m p = m\<lparr>m_processes := AList.update (p_Identifier p) p (m_processes m)\<rparr>"

text \<open>\<open>Loop\<close> before it starts its two endless loops.\<close>

definition Loop_start :: "'e machine \<Rightarrow> 'e machine res" where
  "Loop_start m = rbind (must (ListProcesses (m_store m))) (\<lambda>processes.
     Ok (foldl (\<lambda>m p. Spawn (add_process m p) p) m processes))"

definition AddEngine :: "'e machine \<Rightarrow> string \<Rightarrow> 'e \<Rightarrow> 'e machine" where
  "AddEngine m platform engine =
     (if platform = ProcessPlatformQuorum
      then m\<lparr>m_engines := AList.update platform engine (m_engines m)\<rparr> else m)"

definition AddProcess ::
  "'e engine_ops \<Rightarrow> 'e machine \<Rightarrow> string \<Rightarrow> string \<Rightarrow> string \<Rightarrow> mtg_output \<Rightarrow> bytes \<Rightarrow> (bool \<times> 'e machine) res" where
  "AddProcess E m pid platform address out extra =
     (if pid \<noteq> out_Sender out then Ok (False, m)
      else if out_AssetID out \<noteq> m_feeAssetId m then Ok (False, m)
      else if out_Amount out < m_feeAmount m then Ok (False, m)
      else case map_of (m_engines m) platform of
        None \<Rightarrow> Ok (False, m)
      | Some engine \<Rightarrow>
          if list_ex (\<lambda>(_, old). p_Identifier old = out_Sender out \<or> p_Address old = address) (m_processes m)
          then Ok (False, m)
          else (case VerifyAddress E engine address extra of
              Panic e \<Rightarrow> Panic e
            | Err e \<Rightarrow> Ok (False, m)
            | Ok _ \<Rightarrow> (case SetupNotifier E engine address of
                Panic e \<Rightarrow> Panic e
              | Err e \<Rightarrow> Ok (False, m)
              | Ok engine \<Rightarrow>
                  let m = m\<lparr>m_engines := AList.update platform engine (m_engines m)\<rparr>;
                      proc = \<lparr>p_Identifier = out_Sender out, p_Platform = platform, p_Address = address,
                              p_Credit = 0, p_Nonce = 0, p_Asset = str_contains extra ''META''\<rparr>
                  in rbind (must (WriteProcess (m_store m) proc)) (\<lambda>s.
                     Ok (True, Spawn (add_process (m\<lparr>m_store := s\<rparr>) proc) proc)))))"

text \<open>Booting: what the key material's parsers of other modules do is the record \<open>keylib\<close>.\<close>

record configuration =
  conf_Poly :: string
  conf_Share :: string
  conf_ProcessFeeAsset :: string
  conf_ProcessFeeAmount :: string

record keylib =
  decimalFromString :: "string \<Rightarrow> rat res"
  pubKeyFromBytes :: "bytes \<Rightarrow> bytes res"
  scalarSetBytes :: "bytes \<Rightarrow> bytes"
  polyCheck :: "bytes list \<Rightarrow> int \<times> bytes \<Rightarrow> bool"

definition unmarshalPrivShare :: "keylib \<Rightarrow> bytes \<Rightarrow> (int \<times> bytes) res" where
  "unmarshalPrivShare K b = (if length b < 4 then Panic ''slice bounds out of range''
     else Ok (int (be_nat (take 4 b)), scalarSetBytes K (drop 4 b)))"

definition unmarshalCommitments :: "keylib \<Rightarrow> bytes \<Rightarrow> bytes list res" where
  "unmarshalCommitments K b =
     rmap (\<lambda>i. must (pubKeyFromBytes K (take 128 (drop (i * 128) b)))) [0..<length b div 128]"

text \<open>The error of \<open>decimal.NewFromString\<close> is dropped; the decimal is then zero. The log of \<open>poly.Commit()\<close> takes the
  first commitment.\<close>

definition Boot :: "keylib \<Rightarrow> configuration \<Rightarrow> store \<Rightarrow> 'e machine res" where
  "Boot K conf s =
     rbind (hexDecode (conf_Poly conf)) (\<lambda>pb.
     let feeAmount = (case decimalFromString K (conf_ProcessFeeAmount conf) of Ok d \<Rightarrow> d | _ \<Rightarrow> 0) in
     if feeAmount \<le> 0 then Err (''invalid process fee amount '' @ conf_ProcessFeeAmount conf)
     else rbind (unmarshalCommitments K pb) (\<lambda>poly.
     rbind (hexDecode (conf_Share conf)) (\<lambda>sb.
     rbind (unmarshalPrivShare K sb) (\<lambda>share.
     if poly = [] then Panic ''index out of range''
     else if \<not> polyCheck K poly share then Panic ''invalid machine.share: poly check failed''
     else Ok \<lparr>m_store = s, m_feeAssetId = conf_ProcessFeeAsset conf, m_feeAmount = feeAmount,
              m_engines = [], m_processes = [], m_spawned = [], m_outbox = [], m_warnings = [],
              m_txs = []\<rparr>))))"

section \<open>Accounts and metadata (account.go, receiver.go, collectible.go)\<close>

definition buildAccountSnapshot :: "process \<Rightarrow> event \<Rightarrow> bool \<Rightarrow> account_snapshot res" where
  "buildAccountSnapshot p e credit =
     (if p_Identifier p \<noteq> e_Process e then Panic (e_Process e)
      else Ok \<lparr>as_Process = p_Identifier p, as_Nonce = e_Nonce e, as_Asset = e_Asset e,
               as_Amount = e_Amount e, as_Credit = credit\<rparr>)"

definition encodeAssetMeta :: "'z lib_scheme \<Rightarrow> string \<Rightarrow> string \<Rightarrow> bytes res" where
  "encodeAssetMeta L symbol name =
     rbind (writeInt L [] (int (length symbol))) (\<lambda>enc.
     rbind (writeInt L (enc @ symbol) (int (length name))) (\<lambda>enc.
     Ok (enc @ name)))"

definition encodeCollectibleMeta :: "'z lib_scheme \<Rightarrow> string \<Rightarrow> string \<Rightarrow> bytes res" where
  "encodeCollectibleMeta L symbol name =
     (let symbol = ''NFT#'' @ symbol; name = ''Collectible '' @ name in
      rbind (writeInt L [] (int (length symbol))) (\<lambda>enc.
      rbind (writeInt L (enc @ symbol) (int (length name))) (\<lambda>enc.
      Ok (enc @ name))))"

text \<open>The metadata (nil is \<open>None\<close>), the error returned beside it, and the machine after.\<close>

definition fetchAssetMeta ::
  "'z world_scheme \<Rightarrow> 'e machine \<Rightarrow> string \<Rightarrow> (bytes option \<times> goerr option \<times> 'e machine) res" where
  "fetchAssetMeta W m i = (case ReadAsset (m_store m) i of
       Panic e \<Rightarrow> Panic e
     | Err e \<Rightarrow> Ok (None, Some e, m)
     | Ok (Some old) \<Rightarrow> rbind (encodeAssetMeta W (a_Symbol old) (a_Name old)) (\<lambda>b. Ok (Some b, None, m))
     | Ok None \<Rightarrow> (case mixinReadAsset W i of
         Panic e \<Rightarrow> Panic e
       | Err e \<Rightarrow> Ok (None, Some e, m)
       | Ok None \<Rightarrow> Ok (None, None, m)
       | Ok (Some ast) \<Rightarrow>
           (case WriteAsset (m_store m) \<lparr>a_Id = i, a_Symbol = ma_Symbol ast, a_Name = ma_Name ast\<rparr> of
              Panic e \<Rightarrow> Panic e
            | Err e \<Rightarrow> rbind (encodeAssetMeta W (ma_Symbol ast) (ma_Name ast)) (\<lambda>b. Ok (Some b, Some e, m))
            | Ok s \<Rightarrow> rbind (encodeAssetMeta W (ma_Symbol ast) (ma_Name ast)) (\<lambda>b.
                Ok (Some b, None, m\<lparr>m_store := s\<rparr>)))))"

definition fetchCollectibleToken ::
  "'z world_scheme \<Rightarrow> 'e machine \<Rightarrow> string \<Rightarrow> (bytes option \<times> goerr option \<times> 'e machine) res" where
  "fetchCollectibleToken W m i = (case ReadCollectibleToken (m_store m) i of
       Panic e \<Rightarrow> Panic e
     | Err e \<Rightarrow> Ok (None, Some e, m)
     | Ok (Some old) \<Rightarrow> rbind (encodeCollectibleMeta W (ct_Symbol old) (ct_Name old)) (\<lambda>b. Ok (Some b, None, m))
     | Ok None \<Rightarrow> (case mixinReadToken W i of
         Panic e \<Rightarrow> Panic e
       | Err e \<Rightarrow> Ok (None, Some e, m)
       | Ok token \<Rightarrow>
           if mt_TokenID token \<noteq> i then Panic (mt_TokenID token)
           else (case WriteCollectibleToken (m_store m)
                   \<lparr>ct_Id = i, ct_Symbol = mt_Token token, ct_Name = mt_Group token\<rparr> of
              Panic e \<Rightarrow> Panic e
            | Err e \<Rightarrow> rbind (encodeCollectibleMeta W (mt_Token token) (mt_Group token)) (\<lambda>b. Ok (Some b, Some e, m))
            | Ok s \<Rightarrow> rbind (encodeCollectibleMeta W (mt_Token token) (mt_Group token)) (\<lambda>b.
                Ok (Some b, None, m\<lparr>m_store := s\<rparr>)))))"

text \<open>The idiom \<open>meta, err := \<dots>; if err != nil { panic(err) }\<close>.\<close>

definition must_meta :: "(bytes option \<times> goerr option \<times> 'e machine) res \<Rightarrow> (bytes \<times> 'e machine) res" where
  "must_meta r = rbind r (\<lambda>(meta, err, m).
     case err of Some e \<Rightarrow> Panic e | None \<Rightarrow> Ok (slice_bytes meta, m))"

definition checkAssetOrCollectible :: "'z world_scheme \<Rightarrow> 'e machine \<Rightarrow> string \<Rightarrow> (string \<times> 'e machine) res" where
  "checkAssetOrCollectible W m i = rbind (ReadAssetOrCollectible (m_store m) i) (\<lambda>cat.
     if cat \<noteq> [] then Ok (cat, m)
     else rbind (fetchAssetMeta W m i) (\<lambda>(ast, err, m).
     let err = (case err of Some e \<Rightarrow> if isNotFound W e then None else Some e | None \<Rightarrow> None) in
     case err of
       Some e \<Rightarrow> Err e
     | None \<Rightarrow>
         if ast \<noteq> None
         then rbind (WriteAssetOrCollectible (m_store m) i ''ASSET'') (\<lambda>s. Ok (''ASSET'', m\<lparr>m_store := s\<rparr>))
         else rbind (fetchCollectibleToken W m i) (\<lambda>(token, err, m). case err of
             Some e \<Rightarrow> Err e
           | None \<Rightarrow>
               if token \<noteq> None
               then rbind (WriteAssetOrCollectible (m_store m) i ''COLLECTIBLE'') (\<lambda>s.
                      Ok (''COLLECTIBLE'', m\<lparr>m_store := s\<rparr>))
               else Panic i)))"

section \<open>Events from the group (machine.go, collectible.go, receiver.go)\<close>

text \<open>What the two writers of events share: the metadata put before the extra of a process that asks
  for it, then the credit, the pending event, then the nonce in memory.\<close>

definition with_meta ::
  "bool \<Rightarrow> (bytes option \<times> goerr option \<times> 'e machine) res \<Rightarrow> 'e machine \<Rightarrow> bytes \<Rightarrow> (bytes \<times> 'e machine) res" where
  "with_meta wanted fetched m extra =
     (if wanted then rbind (must_meta fetched) (\<lambda>(meta, m). Ok (meta @ extra, m)) else Ok (extra, m))"

definition record_event :: "'z world_scheme \<Rightarrow> 'e machine \<Rightarrow> process \<Rightarrow> event \<Rightarrow> string \<Rightarrow> 'e machine res" where
  "record_event W m proc evt i =
     rbind (buildAccountSnapshot proc evt True) (\<lambda>sn.
     rbind (must (WriteAccountSnapshot W (m_store m) sn)) (\<lambda>s.
     rbind (must (WritePendingGroupEventAndNonce s evt i)) (\<lambda>s.
     Ok (add_process (m\<lparr>m_store := s\<rparr>) (proc\<lparr>p_Nonce := p_Nonce proc + 1\<rparr>)))))"

definition WriteGroupEvent ::
  "'z world_scheme \<Rightarrow> 'e machine \<Rightarrow> string \<Rightarrow> mtg_output \<Rightarrow> bytes \<Rightarrow> 'e machine res" where
  "WriteGroupEvent W m pid out extra = (case map_of (m_processes m) pid of
       None \<Rightarrow> Ok m
     | Some proc \<Rightarrow>
         rbind (with_meta (p_Asset proc) (fetchAssetMeta W m (out_AssetID out)) m extra) (\<lambda>(extra, m).
         if EventExtraMaxSize < length extra then Ok m
         else rbind (must (CheckPendingGroupEventIdentifier (m_store m) (out_UTXOID out))) (\<lambda>done'.
         if done' then Ok m
         else rbind (integerFromDecimal W (out_Amount out)) (\<lambda>amount.
         record_event W m proc
           \<lparr>e_Process = p_Identifier proc, e_Asset = out_AssetID out, e_Members = [out_Sender out],
            e_Threshold = 1, e_Amount = amount, e_Extra = extra, e_Timestamp = out_CreatedAt out,
            e_Nonce = p_Nonce proc, e_Signature = None\<rparr> (out_UTXOID out)))))"

text \<open>\<open>common.NewInteger(1)\<close>, one whole unit.\<close>

definition integer_one :: int where
  "integer_one = 10 ^ 8"

definition WriteNFOGroupEvent ::
  "'z world_scheme \<Rightarrow> 'e machine \<Rightarrow> string \<Rightarrow> mtg_collectible_output \<Rightarrow> bytes \<Rightarrow> 'e machine res" where
  "WriteNFOGroupEvent W m pid out extra = (case map_of (m_processes m) pid of
       None \<Rightarrow> Ok m
     | Some proc \<Rightarrow>
         rbind (with_meta (p_Asset proc) (fetchCollectibleToken W m (co_TokenId out)) m extra) (\<lambda>(extra, m).
         if EventExtraMaxSize < length extra then Ok m
         else rbind (must (CheckPendingGroupEventIdentifier (m_store m) (co_OutputId out))) (\<lambda>done'.
         if done' then Ok m
         else rbind (integerFromDecimal W (co_Amount out)) (\<lambda>amount.
         if amount \<noteq> integer_one then Panic ''amount''
         else record_event W m proc
           \<lparr>e_Process = p_Identifier proc, e_Asset = co_TokenId out, e_Members = co_Senders out,
            e_Threshold = co_SendersThreshold out, e_Amount = amount, e_Extra = extra,
            e_Timestamp = co_CreatedAt out, e_Nonce = p_Nonce proc, e_Signature = None\<rparr> (co_OutputId out)))))"

definition parseOperation :: "'z lib_scheme \<Rightarrow> string \<Rightarrow> operation res" where
  "parseOperation L memo = rbind (b64Decode memo) (DecodeOperation L)"

definition OutputGrouper :: "'z lib_scheme \<Rightarrow> mtg_output \<Rightarrow> string res" where
  "OutputGrouper L out = (case parseOperation L (out_Memo out) of
       Ok op \<Rightarrow> Ok (o_Process op) | Err e \<Rightarrow> Ok [] | Panic e \<Rightarrow> Panic e)"

definition ProcessOutput ::
  "'z world_scheme \<Rightarrow> 'e engine_ops \<Rightarrow> 'e machine \<Rightarrow> mtg_output \<Rightarrow> 'e machine res" where
  "ProcessOutput W E m out = (case parseOperation W (out_Memo out) of
       Panic e \<Rightarrow> Panic e
     | Err e \<Rightarrow> Ok m
     | Ok op \<Rightarrow>
         if o_Purpose op = OperationPurposeAddProcess
         then rbind (AddProcess E m (o_Process op) (o_Platform op) (o_Address op) out (o_Extra op)) (\<lambda>(_, m). Ok m)
         else if o_Purpose op = OperationPurposeGroupEvent
         then WriteGroupEvent W m (o_Process op) out (o_Extra op)
         else Ok m)"

definition InvalidCollectibleOutputHackMap :: "string list" where
  "InvalidCollectibleOutputHackMap = [
     ''271d7ef5-6bf3-3b96-9c0c-701f7a989435'', ''8f96c027-fbf0-39dc-99b7-6ba6cdf9c66c'',
     ''5bb0997f-669a-3e65-8c2f-5cc15de4c9ca'', ''175620b8-f4b8-3e66-84bb-669c62d5140d'']"

definition ProcessCollectibleOutput ::
  "'z world_scheme \<Rightarrow> 'e machine \<Rightarrow> mtg_collectible_output \<Rightarrow> 'e machine res" where
  "ProcessCollectibleOutput W m out =
     (if co_OutputId out \<in> set InvalidCollectibleOutputHackMap then Ok m
      else case parseOperation W (co_Memo out) of
          Panic e \<Rightarrow> Panic e
        | Err e \<Rightarrow> Ok m
        | Ok op \<Rightarrow>
            if o_Purpose op = OperationPurposeGroupEvent
            then WriteNFOGroupEvent W m (o_Process op) out (o_Extra op)
            else Ok m)"

section \<open>Signing (signer.go)\<close>

definition getProcess :: "'e machine \<Rightarrow> string \<Rightarrow> process option" where
  "getProcess m pid = map_of (m_processes m) pid"

definition send_msg :: "'z world_scheme \<Rightarrow> bytes \<Rightarrow> 'e machine \<Rightarrow> string \<Rightarrow> 'e machine res" where
  "send_msg W b m p = rbind (queueMsg W p b) (\<lambda>_. Ok (m\<lparr>m_outbox := m_outbox m @ [(p, b)]\<rparr>))"

definition queueMessage :: "'z world_scheme \<Rightarrow> 'e machine \<Rightarrow> bytes \<Rightarrow> 'e machine res" where
  "queueMessage W m b = rfold (send_msg W b) m (groupMembers W)"

definition removeInvalidPartials :: "'z world_scheme \<Rightarrow> bytes \<Rightarrow> bytes list \<Rightarrow> bytes list" where
  "removeInvalidPartials W msg inputs = filter (\<lambda>p. tblsVerifyPartial W msg p) inputs"

definition checkSignedWith :: "bytes list \<Rightarrow> bytes \<Rightarrow> bool" where
  "checkSignedWith partials s = list_ex (\<lambda>p. p = s) partials"

definition recoverSignature :: "'z world_scheme \<Rightarrow> bytes \<Rightarrow> bytes list \<Rightarrow> bytes res" where
  "recoverSignature W msg partials =
     rbind (must (tblsRecover W msg partials (groupThreshold W) (int (length (groupMembers W))))) (\<lambda>sig.
     if cryptoVerify W msg sig then Ok sig else Panic ''verify'')"

definition writeSignedGroupEventAndExpirePending :: "'e machine \<Rightarrow> event \<Rightarrow> 'e machine res" where
  "writeSignedGroupEventAndExpirePending m e =
     rbind (WriteSignedGroupEventAndExpirePending (m_store m) e) (\<lambda>s. Ok (m\<lparr>m_store := s\<rparr>))"

definition appendPendingGroupEventSignature ::
  "'z world_scheme \<Rightarrow> 'e machine \<Rightarrow> event \<Rightarrow> bytes \<Rightarrow> bytes \<Rightarrow> 'e machine res" where
  "appendPendingGroupEventSignature W m e msg partial =
     rbind (ReadGroupEventSignatures (m_store m) (e_Process e) (e_Nonce e)) (\<lambda>(partials, fullSignature).
     if fullSignature then Ok m
     else let partials = removeInvalidPartials W msg partials in
       if checkSignedWith partials partial then Ok m
       else let partials = partials @ [partial] in
         if int (length partials) < groupThreshold W
         then rbind (WritePendingGroupEventSignatures (m_store m) (e_Process e) (e_Nonce e) partials) (\<lambda>s.
                Ok (m\<lparr>m_store := s\<rparr>))
         else rbind (recoverSignature W msg partials) (\<lambda>sig.
              writeSignedGroupEventAndExpirePending m (e\<lparr>e_Signature := Some sig\<rparr>)))"

text \<open>\<open>binary.BigEndian.PutUint64(threshold, uint64(time.Now().UnixNano()))\<close>.\<close>

definition now_bytes :: "'z world_scheme \<Rightarrow> bytes" where
  "now_bytes W = putUint64 (word_of_int (now W))"

definition sign_event ::
  "'z world_scheme \<Rightarrow> 'e machine \<times> sent_times \<Rightarrow> event \<Rightarrow> ('e machine \<times> sent_times) res" where
  "sign_event W st e = (case st of (m, sm) \<Rightarrow>
     if recently W sm (Event_ID e) then Ok (m, sm)
     else let sm = (Event_ID e, now W) # sm in
       if e_Signature e \<noteq> None then Panic ''signature''
       else rbind (Event_Encode W e) (\<lambda>msg.
       rbind (must (tblsSign W msg)) (\<lambda>partial.
       let e = e\<lparr>e_Signature := Some partial\<rparr> in
       rbind (Event_Encode W e) (\<lambda>b.
       rbind (must (queueMessage W m (b @ now_bytes W))) (\<lambda>m.
       rbind (must (appendPendingGroupEventSignature W m e msg partial)) (\<lambda>m.
       Ok (m, sm)))))))"

definition loopSignGroupEvents ::
  "'z world_scheme \<Rightarrow> 'e machine \<Rightarrow> sent_times \<Rightarrow> ('e machine \<times> sent_times) res" where
  "loopSignGroupEvents W m sm =
     rbind (must (ListPendingGroupEvents (m_store m) 100)) (\<lambda>events.
     rfold (sign_event W) (m, sm) events)"

text \<open>The \<open>switch\<close> over what a message carries: \<open>evt\<close> without its signature \<open>sig\<close>, and \<open>msg\<close>
  its encoding. The text of the warning is not kept, only whose message it is about.\<close>

definition handle_signature ::
  "'z world_scheme \<Rightarrow> 'e machine \<Rightarrow> sent_times \<Rightarrow> string \<Rightarrow> event \<Rightarrow> bytes \<Rightarrow> bytes \<Rightarrow>
   bytes list \<times> bool \<Rightarrow> ('e machine \<times> sent_times) res" where
  "handle_signature W m sm peer evt sig msg stored = (case stored of (partials, fullSignature) \<Rightarrow>
     if length sig = 64 then
       (if \<not> cryptoVerify W msg sig then Ok (m, sm)
        else rbind (must (writeSignedGroupEventAndExpirePending m (evt\<lparr>e_Signature := Some sig\<rparr>))) (\<lambda>m.
             Ok (m, sm)))
     else if fullSignature then
       (if recently W sm (Event_ID evt) then Ok (m, sm)
        else rbind (Event_Encode W (evt\<lparr>e_Signature := Some (hd partials)\<rparr>)) (\<lambda>b.
             Ok (case send_msg W (b @ now_bytes W) m peer of Ok m' \<Rightarrow> m' | _ \<Rightarrow> m,
                 (Event_ID evt, now W) # sm)))
     else if \<not> tblsVerifyPartial W msg sig then
       rbind (must (broadcastPlain W peer)) (\<lambda>_. Ok (m\<lparr>m_warnings := m_warnings m @ [peer]\<rparr>, sm))
     else rbind (must (appendPendingGroupEventSignature W m evt msg sig)) (\<lambda>m. Ok (m, sm)))"

text \<open>One message received from \<open>peer\<close>.\<close>

definition loopReceiveGroupMessages ::
  "'z world_scheme \<Rightarrow> 'e machine \<Rightarrow> sent_times \<Rightarrow> string \<Rightarrow> bytes \<Rightarrow> ('e machine \<times> sent_times) res" where
  "loopReceiveGroupMessages W m sm peer b =
     (if length b < 8 then Panic ''slice bounds out of range''
      else case DecodeEvent W (take (length b - 8) b) of
        Panic e \<Rightarrow> Panic e
      | Err e \<Rightarrow> Ok (m, sm)
      | Ok evt \<Rightarrow>
          if EventExtraMaxSize < length (e_Extra evt) then Ok (m, sm)
          else if getProcess m (e_Process evt) = None then Ok (m, sm)
          else rbind (Event_Encode W (evt\<lparr>e_Signature := None\<rparr>)) (\<lambda>msg.
            rbind (must (ReadGroupEventSignatures (m_store m) (e_Process evt) (e_Nonce evt)))
              (handle_signature W m sm peer (evt\<lparr>e_Signature := None\<rparr>) (slice_bytes (e_Signature evt)) msg)))"

section \<open>Sending and receiving (process.go)\<close>

definition loopSendEvents :: "'z world_scheme \<Rightarrow> 'e engine_ops \<Rightarrow> 'e machine \<Rightarrow> string \<Rightarrow> 'e machine res" where
  "loopSendEvents W E m pid = (case map_of (m_processes m) pid of
       None \<Rightarrow> Ok m
     | Some p \<Rightarrow>
         rbind (must (ListSignedGroupEvents (m_store m) (p_Identifier p) 100)) (\<lambda>events.
         if events = [] then Ok m
         else case map_of (m_engines m) (p_Platform p) of
           None \<Rightarrow> Panic ''nil pointer dereference''
         | Some engine \<Rightarrow>
             rbind (must (EstimateCost E engine events)) (\<lambda>cost.
             rbind (integerMul W cost ProcessCreditMulplifier) (\<lambda>needed.
             if p_Credit p < needed then Ok m
             else rbind (must (EnsureSendGroupEvents E engine (p_Address p) events)) (\<lambda>engine.
             rbind (must (ExpireGroupEventsWithCost W (m_store m) events cost)) (\<lambda>s.
             let m = m\<lparr>m_engines := AList.update (p_Platform p) engine (m_engines m), m_store := s\<rparr> in
             if 0 < cost
             then rbind (integerSub W (p_Credit p) cost) (\<lambda>c. Ok (add_process m (p\<lparr>p_Credit := c\<rparr>)))
             else Ok m))))))"

definition traceId :: "'z world_scheme \<Rightarrow> process \<Rightarrow> u64 \<Rightarrow> string" where
  "traceId W p nonce =
     uniqueConversationID W (genesisId W) (p_Identifier p @ '':EVENT#'' @ nat_digits (unat nonce))"

definition buildGroupTransaction ::
  "'z world_scheme \<Rightarrow> 'e machine \<Rightarrow> process \<Rightarrow> event \<Rightarrow> string \<Rightarrow> 'e machine res" where
  "buildGroupTransaction W m p evt category =
     (if p_Identifier p \<noteq> e_Process evt then Panic ''process''
      else let extra = (if 96 < length (e_Extra evt) then [] else e_Extra evt);
               memo = b64Encode extra
        in if category = ''ASSET''
           then let tx = AssetTx (e_Asset evt) (e_Members evt) (e_Threshold evt) (e_Amount evt) memo
                           (traceId W p (e_Nonce evt)) (p_Identifier p)
                in rbind (groupBuild W tx) (\<lambda>_. Ok (m\<lparr>m_txs := m_txs m @ [tx]\<rparr>))
           else if category = ''COLLECTIBLE''
           then let tx = CollectibleTx (e_Members evt) (e_Threshold evt) memo (e_Asset evt)
                           (traceId W p (e_Nonce evt))
                in rbind (groupBuild W tx) (\<lambda>_. Ok (m\<lparr>m_txs := m_txs m @ [tx]\<rparr>))
           else Panic category)"

text \<open>The body of the loop over the received events; \<open>pr\<close> is the map \<open>processed\<close>. The first
  component of the result tells whether the loop breaks here.\<close>

definition receive_event ::
  "'z world_scheme \<Rightarrow> process \<Rightarrow> 'e machine \<Rightarrow> u64 list \<Rightarrow> event \<Rightarrow> (bool \<times> 'e machine \<times> u64 list) res" where
  "receive_event W p m pr e =
     (if e_Process e \<noteq> p_Identifier p \<or> e_Nonce e \<in> set pr \<or> e_Amount e \<le> 0 then Ok (False, m, pr)
      else rbind (buildAccountSnapshot p e False) (\<lambda>sn.
        rbind (must (CheckAccountSnapshot W (m_store m) sn)) (\<lambda>enough.
        if \<not> enough then Ok (True, m, pr)
        else rbind (must (WriteAccountSnapshot W (m_store m) sn)) (\<lambda>s.
          rbind (must (checkAssetOrCollectible W (m\<lparr>m_store := s\<rparr>) (e_Asset e))) (\<lambda>(cat, m).
          case buildGroupTransaction W m p e cat of
            Panic x \<Rightarrow> Panic x
          | Err x \<Rightarrow> Ok (False, m, e_Nonce e # pr)
          | Ok m \<Rightarrow>
              rbind (must (WriteEngineGroupEventsOffset (m_store m) (p_Identifier p) (e_Nonce e))) (\<lambda>s.
              Ok (False, m\<lparr>m_store := s\<rparr>, e_Nonce e # pr)))))))"

fun receive_events ::
  "'z world_scheme \<Rightarrow> process \<Rightarrow> 'e machine \<Rightarrow> u64 list \<Rightarrow> event list \<Rightarrow> ('e machine \<times> u64 list) res" where
  "receive_events W p m pr [] = Ok (m, pr)"
| "receive_events W p m pr (e # es) = rbind (receive_event W p m pr e) (\<lambda>(stop, m, pr).
     if stop then Ok (m, pr) else receive_events W p m pr es)"

definition loopReceiveEvents ::
  "'z world_scheme \<Rightarrow> 'e engine_ops \<Rightarrow> 'e machine \<Rightarrow> string \<Rightarrow> u64 list \<Rightarrow> ('e machine \<times> u64 list) res" where
  "loopReceiveEvents W E m pid pr = (case map_of (m_processes m) pid of
       None \<Rightarrow> Ok (m, pr)
     | Some p \<Rightarrow>
         rbind (must (ReadEngineGroupEventsOffset (m_store m) (p_Identifier p))) (\<lambda>offset.
         case map_of (m_engines m) (p_Platform p) of
           None \<Rightarrow> Panic ''nil pointer dereference''
         | Some engine \<Rightarrow>
             (case ReceiveGroupEvents E engine (p_Address p) offset 100 of
                Panic e \<Rightarrow> Panic e
              | Err e \<Rightarrow> Ok (m, pr)
              | Ok events \<Rightarrow> receive_events W p m pr events)))"

end
