(* ===== verification/Machine_Laws.thy ===== *)
theory Machine_Laws
  imports Machine
begin

text \<open>
  The machine's promises. \<open>machine_step\<close> is one handler or one loop iteration of the machine under
  some answers of the outside world, and \<open>machine_reach\<close> any interleaving of them. Each handler's
  effect on the store is a path of store updates (\<open>op_path\<close>), so the invariants of the store carry
  over; what is added here is that memory and store agree on every process and that every event in a
  signed queue carries a verified signature over its own bytes.
\<close>

section \<open>Steps of the machine\<close>

text \<open>Two worlds that differ only in what changes from call to call.\<close>

definition same_group :: "world \<Rightarrow> world \<Rightarrow> bool" where
  "same_group W V \<longleftrightarrow> V = W\<lparr>now := now V, mixinReadAsset := mixinReadAsset V,
     mixinReadToken := mixinReadToken V, isNotFound := isNotFound V, queueMsg := queueMsg V,
     broadcastPlain := broadcastPlain V, groupBuild := groupBuild V\<rparr>"

inductive machine_step :: "world \<Rightarrow> 'e engine_ops \<Rightarrow> 'e machine \<Rightarrow> 'e machine \<Rightarrow> bool" for W E where
  ledger_output: "same_group W V \<Longrightarrow> ProcessOutput V E m out = Ok m' \<Longrightarrow> machine_step W E m m'"
| collectible: "same_group W V \<Longrightarrow> ProcessCollectibleOutput V m co = Ok m' \<Longrightarrow> machine_step W E m m'"
| sign: "same_group W V \<Longrightarrow> loopSignGroupEvents V m sm = Ok (m', sm') \<Longrightarrow> machine_step W E m m'"
| message: "same_group W V \<Longrightarrow> loopReceiveGroupMessages V m sm peer b = Ok (m', sm') \<Longrightarrow> machine_step W E m m'"
| send: "same_group W V \<Longrightarrow> loopSendEvents V E m pid = Ok m' \<Longrightarrow> machine_step W E m m'"
| receive: "same_group W V \<Longrightarrow> loopReceiveEvents V E m pid pr = Ok (m', pr') \<Longrightarrow> machine_step W E m m'"
| engine: "machine_step W E m (m\<lparr>m_engines := es\<rparr>)"

inductive machine_reach :: "world \<Rightarrow> 'e engine_ops \<Rightarrow> 'e machine \<Rightarrow> 'e machine \<Rightarrow> bool" for W E m where
  refl: "machine_reach W E m m"
| step: "machine_reach W E m m' \<Longrightarrow> machine_step W E m' m'' \<Longrightarrow> machine_reach W E m m''"

section \<open>Paths of store updates\<close>

inductive op_path :: "(store_op \<Rightarrow> bool) \<Rightarrow> 'z lib_scheme \<Rightarrow> store \<Rightarrow> store \<Rightarrow> bool" for P L s where
  refl: "op_path P L s s"
| step: "op_path P L s t \<Longrightarrow> P op \<Longrightarrow> apply_op L t op = Ok u \<Longrightarrow> op_path P L s u"

lemma op_path_trans: "op_path P L t u \<Longrightarrow> op_path P L s t \<Longrightarrow> op_path P L s u"
  by (induction rule: op_path.induct) (auto intro: op_path.step)

lemma op_path_single: "apply_op L s op = Ok t \<Longrightarrow> P op \<Longrightarrow> op_path P L s t"
  by (blast intro: op_path.intros)

lemma op_path_mono: "op_path P L s t \<Longrightarrow> (\<And>op. P op \<Longrightarrow> Q op) \<Longrightarrow> op_path Q L s t"
  by (induction rule: op_path.induct) (auto intro: op_path.intros)

lemma op_path_invariant:
  assumes "op_path P L s t" "I s" "\<And>s op t. P op \<Longrightarrow> I s \<Longrightarrow> apply_op L s op = Ok t \<Longrightarrow> I t"
  shows "I t"
  using assms(1,2) by (induction rule: op_path.induct) (auto dest: assms(3))

section \<open>Authentic events\<close>

definition authentic :: "world \<Rightarrow> event \<Rightarrow> bool" where
  "authentic W e \<longleftrightarrow> (\<exists>msg. Event_Encode W (e\<lparr>e_Signature := None\<rparr>) = Ok msg
     \<and> cryptoVerify W msg (slice_bytes (e_Signature e)))"

definition signed_authentic :: "world \<Rightarrow> store \<Rightarrow> bool" where
  "signed_authentic W s \<longleftrightarrow> (\<forall>pid n e. valid_pid pid \<longrightarrow> signed_event s pid n = Some e \<longrightarrow> authentic W e)"

text \<open>Updates that leave every process alone.\<close>

fun quiet :: "store_op \<Rightarrow> bool" where
  "quiet (OpProcess p) = False"
| "quiet (OpPending e i) = False"
| "quiet (OpExpire es c) = False"
| "quiet _ = True"

fun op_authentic :: "world \<Rightarrow> store_op \<Rightarrow> bool" where
  "op_authentic W (OpSigned e) = authentic W e"
| "op_authentic W _ = True"

definition good_op :: "world \<Rightarrow> store_op \<Rightarrow> bool" where
  "good_op W op \<longleftrightarrow> op_valid op \<and> op_authentic W op"

definition quiet_op :: "world \<Rightarrow> store_op \<Rightarrow> bool" where
  "quiet_op W op \<longleftrightarrow> good_op W op \<and> quiet op"

definition events_ok :: "store \<Rightarrow> bool" where
  "events_ok s \<longleftrightarrow> (\<forall>k e. db_lookup s k = Some (JEvent e) \<longrightarrow> valid_pid (e_Process e))"

lemma signed_event_kvs:
  "k \<noteq> buildSignedEventTimedKey p n \<Longrightarrow>
   signed_event (s\<lparr>kvs := kv_set k v (kvs s)\<rparr>) p n = signed_event s p n"
  "k \<noteq> buildSignedEventTimedKey p n \<Longrightarrow>
   signed_event (s\<lparr>kvs := kv_del k (kvs s)\<rparr>) p n = signed_event s p n"
  by (simp_all add: signed_event_def)

lemma expire_signed_event:
  "rfold (delete_signed pid) s es = Ok t \<Longrightarrow> signed_event t p n = Some e \<Longrightarrow> signed_event s p n = Some e"
proof -
  assume run: "rfold (delete_signed pid) s es = Ok t" and t: "signed_event t p n = Some e"
  have "signed_event t p n = Some e \<longrightarrow> signed_event s p n = Some e"
    using _ _ run
    by (rule rfold_invariant [where P = "\<lambda>t. signed_event t p n = Some e \<longrightarrow> signed_event s p n = Some e"])
      (auto simp: signed_event_def split: if_splits)
  with t show ?thesis by simp
qed

text \<open>Only \<open>WriteSignedGroupEventAndExpirePending\<close> adds to a signed queue.\<close>

lemma signed_event_step:
  assumes "apply_op L s op = Ok t" "op_valid op" "valid_pid p" "signed_event t p n = Some e"
  shows "signed_event s p n = Some e \<or> op = OpSigned e"
proof (cases op)
  case (OpPending f i)
  with assms(1) obtain q s' where "s' = s\<lparr>kvs := kv_set (processKey (p_Identifier q)) (JProcess (q\<lparr>p_Nonce := p_Nonce q + 1\<rparr>))
               (kv_set (identifierKey i) (Raw (putUint64 (e_Timestamp f))) (kvs s))\<rparr>"
    and "t = s' \<or> t = s'\<lparr>kvs := kv_set (buildPendingEventTimedKey f) (JEvent f) (kvs s')\<rparr>"
    using WritePending_Ok [of s f i t] by (metis apply_op.simps(3))
  with assms(4) show ?thesis by (auto simp: signed_event_def)
next
  case (OpExpire es c)
  with assms(1) have "ExpireGroupEventsWithCost L s es c = Ok t" by simp
  then show ?thesis using assms(4)
    by (cases rule: Expire_Ok) (auto simp: signed_event_kvs dest: expire_signed_event)
next
  case (OpSigned f)
  with assms show ?thesis
    by (auto simp: signed_event_def signed.key_inj dest!: WriteSigned_Ok split: if_splits)
next
  case (OpPartials pid m ps)
  with assms show ?thesis by (auto simp: signed_event_def dest!: WritePartials_Ok)
next
  case (OpSnapshot sn)
  with assms show ?thesis by (auto simp: signed_event_def dest!: WriteSnapshot_Ok)
next
  case (OpProcess p)
  with assms show ?thesis by (auto simp: signed_event_kvs dest!: WriteProcess_Ok)
qed (use assms in \<open>auto simp: signed_event_def key_defs prefix_defs dest!: WriteOther_Ok\<close>)

lemma signed_authentic_step:
  "apply_op L s op = Ok t \<Longrightarrow> good_op W op \<Longrightarrow> signed_authentic W s \<Longrightarrow> signed_authentic W t"
  using signed_event_step [of L s op t] by (fastforce simp: signed_authentic_def good_op_def)

lemma events_ok_kvs:
  "events_ok s \<Longrightarrow> (\<And>e. v = JEvent e \<Longrightarrow> valid_pid (e_Process e)) \<Longrightarrow> events_ok (s\<lparr>kvs := kv_set k v (kvs s)\<rparr>)"
  "events_ok s \<Longrightarrow> events_ok (s\<lparr>kvs := kv_del k (kvs s)\<rparr>)"
  by (auto simp: events_ok_def split: if_splits)

lemma expire_events_ok: "rfold (delete_signed pid) s es = Ok t \<Longrightarrow> events_ok s \<Longrightarrow> events_ok t"
  by (rule rfold_invariant [where P = events_ok]) (auto simp: events_ok_kvs)

lemma events_ok_step:
  assumes "apply_op L s op = Ok t" "op_valid op" "events_ok s"
  shows "events_ok t"
proof (cases op)
  case (OpPending f i)
  with assms(1) obtain q s' where "s' = s\<lparr>kvs := kv_set (processKey (p_Identifier q)) (JProcess (q\<lparr>p_Nonce := p_Nonce q + 1\<rparr>))
               (kv_set (identifierKey i) (Raw (putUint64 (e_Timestamp f))) (kvs s))\<rparr>"
    and "t = s' \<or> t = s'\<lparr>kvs := kv_set (buildPendingEventTimedKey f) (JEvent f) (kvs s')\<rparr>"
    using WritePending_Ok [of s f i t] by (metis apply_op.simps(3))
  with assms(2,3) OpPending show ?thesis by (auto simp: events_ok_def split: if_splits)
next
  case (OpExpire es c)
  with assms(1) have "ExpireGroupEventsWithCost L s es c = Ok t" by simp
  then show ?thesis using assms(3) expire_events_ok [of _ s es]
    by (cases rule: Expire_Ok) (auto intro!: events_ok_kvs(1))
next
  case (OpSigned f)
  with assms show ?thesis by (auto simp: events_ok_def dest!: WriteSigned_Ok split: if_splits)
next
  case (OpPartials pid m ps)
  with assms show ?thesis by (auto simp: events_ok_def dest!: WritePartials_Ok split: if_splits)
next
  case (OpSnapshot sn)
  with assms show ?thesis by (auto simp: events_ok_def dest!: WriteSnapshot_Ok split: if_splits)
next
  case (OpProcess p)
  with assms show ?thesis by (auto intro!: events_ok_kvs(1) dest!: WriteProcess_Ok)
qed (use assms in \<open>auto intro!: events_ok_kvs(1) dest!: WriteOther_Ok\<close>)

lemma quiet_process_step:
  assumes "apply_op L s op = Ok t" "quiet op"
  shows "stored_process t pid = stored_process s pid"
proof (cases op)
  case (OpSigned f)
  with assms show ?thesis by (auto simp: stored_process_def dest!: WriteSigned_Ok)
next
  case (OpPartials q m ps)
  with assms show ?thesis by (auto simp: stored_process_def dest!: WritePartials_Ok)
next
  case (OpSnapshot sn)
  with assms show ?thesis by (auto simp: stored_process_def dest!: WriteSnapshot_Ok)
qed (use assms in \<open>auto simp: stored_process_def key_defs prefix_defs dest!: WriteOther_Ok\<close>)

lemma quiet_path_process: "op_path (quiet_op W) L s t \<Longrightarrow> stored_process t pid = stored_process s pid"
  by (erule op_path_invariant) (auto simp: quiet_op_def quiet_process_step)

section \<open>The handlers as paths\<close>

text \<open>Nothing but the store and what was sent differs.\<close>

definition frame :: "'e machine \<Rightarrow> 'e machine \<Rightarrow> bool" where
  "frame m m' \<longleftrightarrow> m_processes m' = m_processes m \<and> m_engines m' = m_engines m"

definition quiet_run :: "world \<Rightarrow> 'e machine \<Rightarrow> 'e machine \<Rightarrow> bool" where
  "quiet_run W m m' \<longleftrightarrow> frame m m' \<and> op_path (quiet_op W) W (m_store m) (m_store m')"

lemma quiet_run_refl [simp]: "quiet_run W m m"
  by (simp add: quiet_run_def frame_def op_path.refl)

lemma quiet_run_trans: "quiet_run W m m' \<Longrightarrow> quiet_run W m' m'' \<Longrightarrow> quiet_run W m m''"
  by (auto simp: quiet_run_def frame_def intro: op_path_trans)

lemma quiet_run_store:
  "apply_op W (m_store m) op = Ok s \<Longrightarrow> quiet_op W op \<Longrightarrow> quiet_run W m (m\<lparr>m_store := s\<rparr>)"
  by (simp add: quiet_run_def frame_def op_path_single)

lemma quiet_run_sent [simp]:
  "quiet_run W m (m'\<lparr>m_outbox := x\<rparr>) = quiet_run W m m'" "quiet_run W m (m'\<lparr>m_warnings := y\<rparr>) = quiet_run W m m'"
  "quiet_run W m (m'\<lparr>m_txs := z\<rparr>) = quiet_run W m m'"
  by (simp_all add: quiet_run_def frame_def)

lemma quiet_op_simps [simp]:
  "quiet_op W (OpAsset a)" "quiet_op W (OpToken t)" "quiet_op W (OpCategory i c)"
  "quiet_op W (OpOffset pid n) = valid_pid pid" "quiet_op W (OpPartials pid n ps) = valid_pid pid"
  "quiet_op W (OpSigned e) = (valid_pid (e_Process e) \<and> authentic W e)"
  "quiet_op W (OpSnapshot sn) = valid_pid (as_Process sn)"
  by (simp_all add: quiet_op_def good_op_def)

lemma fetchAssetMeta_run: "fetchAssetMeta W m i = Ok (b, err, m') \<Longrightarrow> quiet_run W m m'"
  using quiet_run_store [of W m "OpAsset _"]
  by (auto simp: fetchAssetMeta_def split: res.splits option.splits)

lemma fetchCollectibleToken_run: "fetchCollectibleToken W m i = Ok (b, err, m') \<Longrightarrow> quiet_run W m m'"
  using quiet_run_store [of W m "OpToken _"]
  by (auto simp: fetchCollectibleToken_def split: res.splits option.splits if_splits)

lemma must_meta_Ok: "must_meta r = Ok (b, m) \<Longrightarrow> \<exists>x. r = Ok (x, None, m) \<and> b = slice_bytes x"
  by (auto simp: must_meta_def split: option.splits)

lemma category_run:
  "WriteAssetOrCollectible (m_store m) i x = Ok s \<Longrightarrow> quiet_run W m (m\<lparr>m_store := s\<rparr>)"
  using quiet_run_store [of W m "OpCategory i x"] by simp

text \<open>The three ways the category of an identifier is found.\<close>

lemma checkAssetOrCollectible_cases:
  assumes "checkAssetOrCollectible W m i = Ok (c, m')"
    and "P m"
    and "\<And>a err m1 s x. fetchAssetMeta W m i = Ok (a, err, m1) \<Longrightarrow>
       WriteAssetOrCollectible (m_store m1) i x = Ok s \<Longrightarrow> P (m1\<lparr>m_store := s\<rparr>)"
    and "\<And>a err m1 tk e m2 s x. fetchAssetMeta W m i = Ok (a, err, m1) \<Longrightarrow>
       fetchCollectibleToken W m1 i = Ok (tk, e, m2) \<Longrightarrow>
       WriteAssetOrCollectible (m_store m2) i x = Ok s \<Longrightarrow> P (m2\<lparr>m_store := s\<rparr>)"
  shows "P m'"
proof -
  from assms(1) obtain cat where cat: "ReadAssetOrCollectible (m_store m) i = Ok cat"
    by (auto simp: checkAssetOrCollectible_def)
  show ?thesis
  proof (cases "cat = []")
    case False
    with assms(1,2) cat show ?thesis by (simp add: checkAssetOrCollectible_def)
  next
    case True
    with assms(1) cat obtain a err m1 where f: "fetchAssetMeta W m i = Ok (a, err, m1)"
      by (auto simp: checkAssetOrCollectible_def)
    show ?thesis
    proof (cases a)
      case (Some b)
      with assms(1) cat True f show ?thesis
        by (auto simp: checkAssetOrCollectible_def Let_def split: option.splits if_splits
            intro: assms(3) [OF f])
    next
      case None
      with assms(1) cat True f obtain tk e m2 where g: "fetchCollectibleToken W m1 i = Ok (tk, e, m2)"
        by (auto simp: checkAssetOrCollectible_def Let_def split: option.splits if_splits)
      from assms(1) cat True f None g show ?thesis
        by (auto simp: checkAssetOrCollectible_def Let_def split: option.splits if_splits
            intro: assms(4) [OF f g])
    qed
  qed
qed

lemma checkAssetOrCollectible_run:
  assumes "checkAssetOrCollectible W m i = Ok (c, m')"
  shows "quiet_run W m m'"
  by (rule checkAssetOrCollectible_cases [OF assms])
    (auto intro: quiet_run_trans [OF _ category_run] quiet_run_trans [OF quiet_run_trans [OF _ _] category_run]
      dest: fetchAssetMeta_run fetchCollectibleToken_run)

lemma queueMessage_run: "queueMessage W m b = Ok m' \<Longrightarrow> quiet_run W m m'"
  unfolding queueMessage_def
  by (erule rfold_invariant [where P = "\<lambda>m'. quiet_run W m m'", rotated 2]) (auto simp: send_msg_def)

lemma writeSigned_run:
  "writeSignedGroupEventAndExpirePending m e = Ok m' \<Longrightarrow> valid_pid (e_Process e) \<Longrightarrow> authentic W e \<Longrightarrow>
   quiet_run W m m'"
  using quiet_run_store [of W m "OpSigned e"] by (auto simp: writeSignedGroupEventAndExpirePending_def)

lemma append_run:
  assumes "appendPendingGroupEventSignature W m e msg partial = Ok m'" "valid_pid (e_Process e)"
    "Event_Encode W (e\<lparr>e_Signature := None\<rparr>) = Ok msg"
  shows "quiet_run W m m'"
proof -
  have "authentic W (e\<lparr>e_Signature := Some sig\<rparr>)" if "recoverSignature W msg ps = Ok sig" for ps sig
    using that assms(3) by (auto simp: recoverSignature_def authentic_def slice_bytes_def split: if_splits)
  then show ?thesis using assms quiet_run_store [of W m "OpPartials (e_Process e) (e_Nonce e) _"]
    by (auto simp: appendPendingGroupEventSignature_def Let_def split: if_splits
        intro: writeSigned_run)
qed

lemma sign_event_run:
  assumes "sign_event W (m, sm) e = Ok (m', sm')" "valid_pid (e_Process e)"
  shows "quiet_run W m m'"
proof (cases "recently W sm (Event_ID e)")
  case True
  with assms show ?thesis by (simp add: sign_event_def)
next
  case False
  with assms(1) obtain msg partial b m1 where "e_Signature e = None" "Event_Encode W e = Ok msg"
    and q: "queueMessage W m b = Ok m1"
    and ap: "appendPendingGroupEventSignature W m1 (e\<lparr>e_Signature := Some partial\<rparr>) msg partial = Ok m'"
    by (auto simp: sign_event_def Let_def split: if_splits)
  then have "Event_Encode W ((e\<lparr>e_Signature := Some partial\<rparr>)\<lparr>e_Signature := None\<rparr>) = Ok msg"
    by (metis event.surjective event.update_convs(9))
  with append_run [OF ap] assms(2) have "quiet_run W m1 m'" by simp
  with queueMessage_run [OF q] show ?thesis by (rule quiet_run_trans)
qed

lemma list_loop_set:
  "list_loop s dec stop acc xs = Ok ys \<Longrightarrow>
   a \<in> set ys \<Longrightarrow> a \<in> set acc \<or> (\<exists>x \<in> set xs. dec (snd x) = Ok a)"
proof (induction xs arbitrary: acc)
  case (Cons x xs)
  obtain k v where x: "x = (k, v)" by force
  from Cons.prems(1) obtain b where b: "dec v = Ok b"
    and r: "(if stop (length acc + 1) then Ok (acc @ [b]) else list_loop s dec stop (acc @ [b]) xs) = Ok ys"
    by (auto simp: x)
  show ?case
  proof (cases "stop (length acc + 1)")
    case True
    with r Cons.prems(2) b show ?thesis by (auto simp: x)
  next
    case False
    with r have "list_loop s dec stop (acc @ [b]) xs = Ok ys" by simp
    from Cons.IH [OF this Cons.prems(2)] b show ?thesis by (auto simp: x)
  qed
qed simp

lemma iter_from_subset: "set (iter_from s p st) \<subseteq> set (kvs s)"
  unfolding iter_from_def using set_takeWhileD set_dropWhileD by fastforce

lemma ListPending_valid:
  assumes "ListPendingGroupEvents s limit = Ok es" "db_ok s" "events_ok s" "e \<in> set es"
  shows "valid_pid (e_Process e)"
proof -
  obtain x where x: "x \<in> set (kvs s)" "snd x = JEvent e"
    using list_loop_set [OF assms(1) [unfolded ListPendingGroupEvents_def] assms(4)] iter_from_subset
    by fastforce
  then have "db_lookup s (fst x) = Some (JEvent e)"
    by (metis assms(2) db_lookup_in prod.collapse)
  with assms(3) show ?thesis by (auto simp: events_ok_def)
qed

lemma loopSign_run:
  assumes "loopSignGroupEvents W m sm = Ok (m', sm')" "db_ok (m_store m)" "events_ok (m_store m)"
  shows "quiet_run W m m'"
proof -
  obtain es where es: "ListPendingGroupEvents (m_store m) 100 = Ok es"
    and run: "rfold (sign_event W) (m, sm) es = Ok (m', sm')"
    using assms(1) by (auto simp: loopSignGroupEvents_def)
  have "quiet_run W m (fst (m', sm'))"
    using _ _ run
  proof (rule rfold_invariant [where P = "\<lambda>st. quiet_run W m (fst st)"])
    fix st e st' assume e: "e \<in> set es" "quiet_run W m (fst st)" "sign_event W st e = Ok st'"
    have "quiet_run W (fst st) (fst st')"
      using sign_event_run [of W "fst st" "snd st" e "fst st'" "snd st'"] e(3)
        ListPending_valid [OF es assms(2,3) e(1)] by simp
    with e(2) show "quiet_run W m (fst st')" by (rule quiet_run_trans)
  qed simp
  then show ?thesis by simp
qed

lemma handle_signature_run:
  assumes "handle_signature W m sm peer evt sig msg st = Ok (m', sm')" "valid_pid (e_Process evt)"
    "Event_Encode W (evt\<lparr>e_Signature := None\<rparr>) = Ok msg"
  shows "quiet_run W m m'"
proof -
  have au: "authentic W (evt\<lparr>e_Signature := Some sig\<rparr>)" if "cryptoVerify W msg sig"
    using that assms(3) by (auto simp: authentic_def slice_bytes_def)
  have sent: "quiet_run W m (case send_msg W x m peer of Ok m' \<Rightarrow> m' | _ \<Rightarrow> m)" for x
    by (auto simp: send_msg_def split: res.splits)
  have ws: "quiet_run W m m'" if "cryptoVerify W msg sig"
    "writeSignedGroupEventAndExpirePending m (evt\<lparr>e_Signature := Some sig\<rparr>) = Ok m'"
    using writeSigned_run [OF that(2) _ au [OF that(1)]] assms(2) by simp
  show ?thesis using assms
    by (auto simp: handle_signature_def sent split: prod.splits if_splits dest!: ws dest: append_run)
qed

lemma message_run:
  assumes "loopReceiveGroupMessages W m sm peer b = Ok (m', sm')"
    "\<And>pid. map_of (m_processes m) pid \<noteq> None \<Longrightarrow> valid_pid pid"
  shows "quiet_run W m m'"
proof (cases "DecodeEvent W (take (length b - 8) b)")
  case (Ok evt)
  show ?thesis
  proof (cases "getProcess m (e_Process evt) = None \<or> EventExtraMaxSize < length (e_Extra evt)")
    case True
    with assms(1) Ok show ?thesis by (auto simp: loopReceiveGroupMessages_def split: if_splits)
  next
    case False
    then have pid: "valid_pid (e_Process evt)" using assms(2) by (auto simp: getProcess_def)
    from assms(1) Ok False obtain msg st where msg: "Event_Encode W (evt\<lparr>e_Signature := None\<rparr>) = Ok msg"
      and rest: "handle_signature W m sm peer (evt\<lparr>e_Signature := None\<rparr>) (slice_bytes (e_Signature evt)) msg st
           = Ok (m', sm')"
      by (auto simp: loopReceiveGroupMessages_def split: if_splits)
    show ?thesis using handle_signature_run [OF rest] pid msg by simp
  qed
qed (use assms(1) in \<open>auto simp: loopReceiveGroupMessages_def split: if_splits\<close>)

lemma buildGroupTransaction_run:
  "buildGroupTransaction W m p e c = Ok m' \<Longrightarrow> quiet_run W m m'"
  by (auto simp: buildGroupTransaction_def Let_def split: if_splits)

text \<open>What one received event does, if it is not skipped and the balance covers it.\<close>

lemma receive_event_cases:
  assumes "receive_event W p m pr e = Ok (stop, m', pr')"
  obtains (skip) "m' = m" "pr' = pr"
  | (fail) sn s cat x where "buildAccountSnapshot p e False = Ok sn"
      "WriteAccountSnapshot W (m_store m) sn = Ok s"
      "checkAssetOrCollectible W (m\<lparr>m_store := s\<rparr>) (e_Asset e) = Ok (cat, m')"
      "buildGroupTransaction W m' p e cat = Err x" "pr' = e_Nonce e # pr" "\<not> stop" "0 < e_Amount e"
  | (sent) sn s cat m1 m2 s2 where "buildAccountSnapshot p e False = Ok sn"
      "WriteAccountSnapshot W (m_store m) sn = Ok s"
      "checkAssetOrCollectible W (m\<lparr>m_store := s\<rparr>) (e_Asset e) = Ok (cat, m1)"
      "buildGroupTransaction W m1 p e cat = Ok m2"
      "WriteEngineGroupEventsOffset (m_store m2) (p_Identifier p) (e_Nonce e) = Ok s2"
      "m' = m2\<lparr>m_store := s2\<rparr>" "pr' = e_Nonce e # pr" "\<not> stop" "0 < e_Amount e"
proof (cases "m' = m \<and> pr' = pr")
  case True
  with skip show ?thesis by blast
next
  case False
  with assms have pos: "0 < e_Amount e" "\<not> (e_Process e \<noteq> p_Identifier p \<or> e_Nonce e \<in> set pr \<or> e_Amount e \<le> 0)"
    by (auto simp: receive_event_def split: if_splits)
  with assms False obtain sn where sn: "buildAccountSnapshot p e False = Ok sn"
    "CheckAccountSnapshot W (m_store m) sn = Ok True"
    by (auto simp: receive_event_def split: if_splits)
  with assms pos obtain s cat m1 where s: "WriteAccountSnapshot W (m_store m) sn = Ok s"
    "checkAssetOrCollectible W (m\<lparr>m_store := s\<rparr>) (e_Asset e) = Ok (cat, m1)"
    by (auto simp: receive_event_def)
  show ?thesis
  proof (cases "buildGroupTransaction W m1 p e cat")
    case (Ok m2)
    with assms pos sn s sent show ?thesis by (auto simp: receive_event_def)
  next
    case (Err x)
    with assms pos sn s fail show ?thesis by (auto simp: receive_event_def)
  next
    case (Panic x)
    with assms pos sn s show ?thesis by (auto simp: receive_event_def)
  qed
qed

lemma receive_event_run:
  assumes "receive_event W p m pr e = Ok (stop, m', pr')" "valid_pid (p_Identifier p)"
  shows "quiet_run W m m'"
  using assms(1)
proof (cases rule: receive_event_cases)
  case (fail sn s cat x)
  have "quiet_run W m (m\<lparr>m_store := s\<rparr>)"
    using quiet_run_store [of W m "OpSnapshot sn" s] fail(1,2) assms(2)
    by (auto simp: buildAccountSnapshot_def split: if_splits)
  with checkAssetOrCollectible_run [OF fail(3)] show ?thesis by (blast intro: quiet_run_trans)
next
  case (sent sn s cat m1 m2 s2)
  have "quiet_run W m (m\<lparr>m_store := s\<rparr>)"
    using quiet_run_store [of W m "OpSnapshot sn" s] sent(1,2) assms(2)
    by (auto simp: buildAccountSnapshot_def split: if_splits)
  moreover have "quiet_run W m2 (m2\<lparr>m_store := s2\<rparr>)"
    using quiet_run_store [of W m2 "OpOffset (p_Identifier p) (e_Nonce e)" s2] sent(5) assms(2) by simp
  ultimately show ?thesis
    using checkAssetOrCollectible_run [OF sent(3)] buildGroupTransaction_run [OF sent(4)]
    unfolding sent(6) by (blast intro: quiet_run_trans)
qed simp

lemma receive_events_run:
  "receive_events W p m pr es = Ok (m', pr') \<Longrightarrow> valid_pid (p_Identifier p) \<Longrightarrow> quiet_run W m m'"
proof (induction es arbitrary: m pr)
  case (Cons e es)
  then obtain stop m1 pr1 where "receive_event W p m pr e = Ok (stop, m1, pr1)"
    and r: "(if stop then Ok (m1, pr1) else receive_events W p m1 pr1 es) = Ok (m', pr')"
    by auto
  with Cons.prems(2) have "quiet_run W m m1" by (blast intro: receive_event_run)
  with r Cons show ?case by (cases stop) (auto intro: quiet_run_trans)
qed simp

section \<open>The invariant of the machine\<close>

definition machine_ok :: "world \<Rightarrow> 'e machine \<Rightarrow> bool" where
  "machine_ok W m \<longleftrightarrow> store_ok (m_store m) \<and> events_ok (m_store m) \<and> signed_authentic W (m_store m)
     \<and> (\<forall>pid. map_of (m_processes m) pid = stored_process (m_store m) pid)
     \<and> (\<forall>pid. map_of (m_processes m) pid \<noteq> None \<longrightarrow> valid_pid pid)"

lemma store_part_path:
  assumes "op_path (good_op W) W s t" "amounts W" "store_ok s \<and> events_ok s \<and> signed_authentic W s"
  shows "store_ok t \<and> events_ok t \<and> signed_authentic W t"
  using assms(1,3)
proof (rule op_path_invariant)
  fix s op t assume "good_op W op" "store_ok s \<and> events_ok s \<and> signed_authentic W s" "apply_op W s op = Ok t"
  then show "store_ok t \<and> events_ok t \<and> signed_authentic W t"
    using store_ok_step [OF assms(2)] events_ok_step signed_authentic_step
    unfolding good_op_def by blast
qed

lemma quiet_good: "op_path (quiet_op W) L s t \<Longrightarrow> op_path (good_op W) L s t"
  by (erule op_path_mono) (simp add: quiet_op_def)

lemma quiet_run_ok:
  assumes "quiet_run W m m'" "machine_ok W m" "amounts W"
  shows "machine_ok W m'"
proof -
  have path: "op_path (quiet_op W) W (m_store m) (m_store m')" and fr: "m_processes m' = m_processes m"
    using assms(1) by (auto simp: quiet_run_def frame_def)
  have "store_ok (m_store m') \<and> events_ok (m_store m') \<and> signed_authentic W (m_store m')"
    using store_part_path [OF quiet_good [OF path] assms(3)] assms(2) by (simp add: machine_ok_def)
  then show ?thesis using assms(2) quiet_path_process [OF path] by (simp add: machine_ok_def fr)
qed

lemma machine_ok_pid: "machine_ok W m \<Longrightarrow> map_of (m_processes m) pid = Some p \<Longrightarrow> p_Identifier p = pid \<and> valid_pid pid"
  unfolding machine_ok_def store_ok_def using process_ok_stored by (metis option.distinct(1))

lemma map_of_add_process [simp]:
  "map_of (m_processes (add_process m p)) = (map_of (m_processes m))(p_Identifier p \<mapsto> p)"
  "m_store (add_process m p) = m_store m" "m_engines (add_process m p) = m_engines m"
  by (simp_all add: add_process_def update_conv')

lemma Spawn_simps [simp]:
  "m_processes (Spawn m p) = m_processes m" "m_store (Spawn m p) = m_store m"
  by (simp_all add: Spawn_def)

lemma WritePending_process:
  assumes "WritePendingGroupEventAndNonce s e i = Ok t" "store_ok s"
  obtains p where "stored_process s (e_Process e) = Some p" "p_Nonce p = e_Nonce e"
    "\<And>pid. stored_process t pid = (if pid = e_Process e then Some (p\<lparr>p_Nonce := p_Nonce p + 1\<rparr>) else stored_process s pid)"
proof -
  obtain p s' where p: "stored_process s (e_Process e) = Some p" "p_Nonce p = e_Nonce e"
    and s': "s' = s\<lparr>kvs := kv_set (processKey (p_Identifier p)) (JProcess (p\<lparr>p_Nonce := p_Nonce p + 1\<rparr>))
               (kv_set (identifierKey i) (Raw (putUint64 (e_Timestamp e))) (kvs s))\<rparr>"
    and t: "t = s' \<or> t = s'\<lparr>kvs := kv_set (buildPendingEventTimedKey e) (JEvent e) (kvs s')\<rparr>"
    using WritePending_Ok [OF assms(1)] by metis
  have id: "p_Identifier p = e_Process e"
    using assms(2) p(1) by (auto simp: store_ok_def intro: process_ok_stored)
  have "stored_process t pid = (if pid = e_Process e then Some (p\<lparr>p_Nonce := p_Nonce p + 1\<rparr>) else stored_process s pid)" for pid
    using s' t id by (auto simp: stored_process_def)
  with that p show ?thesis by blast
qed

lemma record_event_ok:
  assumes "record_event W m p evt i = Ok m'" "machine_ok W m" "amounts W"
    "map_of (m_processes m) pid = Some p" "e_Process evt = p_Identifier p"
  shows "machine_ok W m'"
proof -
  have pid: "p_Identifier p = pid" "valid_pid pid" using machine_ok_pid [OF assms(2,4)] by auto
  obtain sn s1 s2 where sn: "buildAccountSnapshot p evt True = Ok sn"
    and s1: "WriteAccountSnapshot W (m_store m) sn = Ok s1"
    and s2: "WritePendingGroupEventAndNonce s1 evt i = Ok s2"
    and m': "m' = add_process (m\<lparr>m_store := s2\<rparr>) (p\<lparr>p_Nonce := p_Nonce p + 1\<rparr>)"
    using assms(1) by (auto simp: record_event_def)
  have snp: "as_Process sn = pid" using sn pid by (auto simp: buildAccountSnapshot_def split: if_splits)
  have q: "quiet_op W (OpSnapshot sn)" using snp pid(2) by simp
  have path: "op_path (good_op W) W (m_store m) s2"
  proof (rule op_path.step)
    show "op_path (good_op W) W (m_store m) s1"
      using op_path_single [of W "m_store m" "OpSnapshot sn" s1 "good_op W"] s1 q by (simp add: quiet_op_def)
    show "good_op W (OpPending evt i)" using assms(5) pid by (simp add: good_op_def)
    show "apply_op W s1 (OpPending evt i) = Ok s2" using s2 by simp
  qed
  have ok: "store_ok s2 \<and> events_ok s2 \<and> signed_authentic W s2"
    using store_part_path [OF path assms(3)] assms(2) by (simp add: machine_ok_def)
  have ok1: "store_ok s1"
    using store_ok_WriteSnapshot [OF assms(3) s1] assms(2) snp pid(2) by (simp add: machine_ok_def)
  have st1: "stored_process s1 x = stored_process (m_store m) x" for x
    using quiet_process_step [of W "m_store m" "OpSnapshot sn" s1] s1 by simp
  obtain p' where p': "stored_process s1 pid = Some p'"
    and st2: "\<And>x. stored_process s2 x = (if x = pid then Some (p'\<lparr>p_Nonce := p_Nonce p' + 1\<rparr>) else stored_process s1 x)"
    using WritePending_process [OF s2 ok1] assms(5) pid(1) by metis
  have mem: "map_of (m_processes m) x = stored_process (m_store m) x"
    "map_of (m_processes m) x \<noteq> None \<Longrightarrow> valid_pid x" for x
    using assms(2) by (auto simp: machine_ok_def)
  have "p' = p" using p' st1 mem(1) assms(4) by simp
  then have "map_of (m_processes m') x = stored_process (m_store m') x
     \<and> (map_of (m_processes m') x \<noteq> None \<longrightarrow> valid_pid x)" for x
    using st1 st2 mem pid by (simp add: m')
  with ok show ?thesis by (simp add: machine_ok_def m')
qed

lemma WriteGroupEvent_ok:
  assumes "WriteGroupEvent W m pid out extra = Ok m'" "machine_ok W m" "amounts W"
  shows "machine_ok W m'"
proof (cases "map_of (m_processes m) pid")
  case None
  with assms show ?thesis by (simp add: WriteGroupEvent_def)
next
  case (Some p)
  from assms(1) Some obtain x m1 where f: "with_meta (p_Asset p) (fetchAssetMeta W m (out_AssetID out)) m extra = Ok (x, m1)"
    by (auto simp: WriteGroupEvent_def)
  have run: "quiet_run W m m1"
    using f by (auto simp: with_meta_def split: if_splits dest!: must_meta_Ok fetchAssetMeta_run)
  have ok1: "machine_ok W m1" by (rule quiet_run_ok [OF run assms(2,3)])
  have p1: "map_of (m_processes m1) pid = Some p" using run Some by (simp add: quiet_run_def frame_def)
  from assms(1) Some f have r: "(if EventExtraMaxSize < length x then Ok m1
      else rbind (must (CheckPendingGroupEventIdentifier (m_store m1) (out_UTXOID out))) (\<lambda>done'. if done' then Ok m1
      else rbind (integerFromDecimal W (out_Amount out)) (\<lambda>amount. record_event W m1 p \<lparr>e_Process = p_Identifier p, e_Asset = out_AssetID out, e_Members = [out_Sender out],
            e_Threshold = 1, e_Amount = amount, e_Extra = x, e_Timestamp = out_CreatedAt out,
            e_Nonce = p_Nonce p, e_Signature = None\<rparr> (out_UTXOID out)))) = Ok m'"
    by (simp add: WriteGroupEvent_def del: rbind_Ok_iff)
  consider "m' = m1" | amount where "record_event W m1 p \<lparr>e_Process = p_Identifier p, e_Asset = out_AssetID out, e_Members = [out_Sender out],
            e_Threshold = 1, e_Amount = amount, e_Extra = x, e_Timestamp = out_CreatedAt out,
            e_Nonce = p_Nonce p, e_Signature = None\<rparr> (out_UTXOID out) = Ok m'"
  proof (cases "EventExtraMaxSize < length x")
    case True
    with r that(1) show ?thesis by simp
  next
    case False
    with r obtain d where "(if d then Ok m1 else rbind (integerFromDecimal W (out_Amount out)) (\<lambda>amount. record_event W m1 p \<lparr>e_Process = p_Identifier p, e_Asset = out_AssetID out, e_Members = [out_Sender out],
            e_Threshold = 1, e_Amount = amount, e_Extra = x, e_Timestamp = out_CreatedAt out,
            e_Nonce = p_Nonce p, e_Signature = None\<rparr> (out_UTXOID out))) = Ok m'"
      by (auto simp del: rbind_Ok_iff simp: rbind_Ok_iff [of "must _"])
    with that show ?thesis by (cases d) (auto split: if_splits)
  qed
  then show ?thesis
  proof cases
    case 2
    then show ?thesis by (rule record_event_ok [OF _ ok1 assms(3) p1]) simp
  qed (use ok1 in simp)
qed

lemma WriteNFOGroupEvent_ok:
  assumes "WriteNFOGroupEvent W m pid out extra = Ok m'" "machine_ok W m" "amounts W"
  shows "machine_ok W m'"
proof (cases "map_of (m_processes m) pid")
  case None
  with assms show ?thesis by (simp add: WriteNFOGroupEvent_def)
next
  case (Some p)
  from assms(1) Some obtain x m1 where f: "with_meta (p_Asset p) (fetchCollectibleToken W m (co_TokenId out)) m extra = Ok (x, m1)"
    by (auto simp: WriteNFOGroupEvent_def)
  have run: "quiet_run W m m1"
    using f by (auto simp: with_meta_def split: if_splits dest!: must_meta_Ok fetchCollectibleToken_run)
  have ok1: "machine_ok W m1" by (rule quiet_run_ok [OF run assms(2,3)])
  have p1: "map_of (m_processes m1) pid = Some p" using run Some by (simp add: quiet_run_def frame_def)
  from assms(1) Some f have r: "(if EventExtraMaxSize < length x then Ok m1
      else rbind (must (CheckPendingGroupEventIdentifier (m_store m1) (co_OutputId out))) (\<lambda>done'. if done' then Ok m1
      else rbind (integerFromDecimal W (co_Amount out)) (\<lambda>amount. if amount \<noteq> integer_one then Panic ''amount'' else record_event W m1 p \<lparr>e_Process = p_Identifier p, e_Asset = co_TokenId out, e_Members = co_Senders out,
            e_Threshold = co_SendersThreshold out, e_Amount = amount, e_Extra = x, e_Timestamp = co_CreatedAt out,
            e_Nonce = p_Nonce p, e_Signature = None\<rparr> (co_OutputId out)))) = Ok m'"
    by (simp add: WriteNFOGroupEvent_def del: rbind_Ok_iff)
  consider "m' = m1" | amount where "record_event W m1 p \<lparr>e_Process = p_Identifier p, e_Asset = co_TokenId out, e_Members = co_Senders out,
            e_Threshold = co_SendersThreshold out, e_Amount = amount, e_Extra = x, e_Timestamp = co_CreatedAt out,
            e_Nonce = p_Nonce p, e_Signature = None\<rparr> (co_OutputId out) = Ok m'"
  proof (cases "EventExtraMaxSize < length x")
    case True
    with r that(1) show ?thesis by simp
  next
    case False
    with r obtain d where "(if d then Ok m1 else rbind (integerFromDecimal W (co_Amount out)) (\<lambda>amount. if amount \<noteq> integer_one then Panic ''amount'' else record_event W m1 p \<lparr>e_Process = p_Identifier p, e_Asset = co_TokenId out, e_Members = co_Senders out,
            e_Threshold = co_SendersThreshold out, e_Amount = amount, e_Extra = x, e_Timestamp = co_CreatedAt out,
            e_Nonce = p_Nonce p, e_Signature = None\<rparr> (co_OutputId out))) = Ok m'"
      by (auto simp del: rbind_Ok_iff simp: rbind_Ok_iff [of "must _"])
    with that show ?thesis by (cases d) (auto split: if_splits)
  qed
  then show ?thesis
  proof cases
    case 2
    then show ?thesis by (rule record_event_ok [OF _ ok1 assms(3) p1]) simp
  qed (use ok1 in simp)
qed

lemma ListSigned_process:
  assumes "ListSignedGroupEvents s pid limit = Ok es" "store_ok s" "valid_pid pid" "e \<in> set es"
  shows "e_Process e = pid"
proof -
  let ?b = "prefixSignedEventQueue @ pid"
  have ok: "db_ok s" "queue_ok s"
    and qk: "only_queue_keys (\<lambda>pid. prefixSignedEventQueue @ pid) buildSignedEventTimedKey valid_pid s"
    using assms(2) by (auto simp: store_ok_def queue_ok_def)
  have pre: "has_prefix ?b ?b" by (simp add: has_prefix_def)
  obtain k where k: "(k, JEvent e) \<in> set (iter_from s ?b ?b)"
    using list_loop_set [OF assms(1) [unfolded ListSignedGroupEvents_def] assms(4)] by fastforce
  then have look: "db_lookup s k = Some (JEvent e)" "has_prefix ?b k"
    using set_iter_from [OF ok(1) pre] by auto
  then obtain q n where "valid_pid q" "k = buildSignedEventTimedKey q n"
    using qk assms(3) unfolding only_queue_keys_def by blast
  moreover from this look(2) assms(3) have "q = pid" using signed.prefix_free by metis
  ultimately show ?thesis using queue_okD [OF ok(2) assms(3)] look(1) by blast
qed

lemma loopSendEvents_cases:
  assumes "loopSendEvents W E m pid = Ok m'"
  obtains "m' = m"
  | p es engine cost engine' s where "map_of (m_processes m) pid = Some p" "es \<noteq> []"
      "ListSignedGroupEvents (m_store m) (p_Identifier p) 100 = Ok es"
      "map_of (m_engines m) (p_Platform p) = Some engine" "EstimateCost E engine es = Ok cost"
      "EnsureSendGroupEvents E engine (p_Address p) es = Ok engine'"
      "ExpireGroupEventsWithCost W (m_store m) es cost = Ok s"
      "(if 0 < cost then rbind (integerSub W (p_Credit p) cost) (\<lambda>c. Ok (add_process
          (m\<lparr>m_engines := AList.update (p_Platform p) engine' (m_engines m), m_store := s\<rparr>) (p\<lparr>p_Credit := c\<rparr>)))
        else Ok (m\<lparr>m_engines := AList.update (p_Platform p) engine' (m_engines m), m_store := s\<rparr>)) = Ok m'"
      "\<exists>needed. integerMul W cost ProcessCreditMulplifier = Ok needed \<and> needed \<le> p_Credit p"
proof (cases "map_of (m_processes m) pid")
  case None
  with assms that(1) show ?thesis by (simp add: loopSendEvents_def)
next
  case (Some p)
  with assms obtain es where es: "ListSignedGroupEvents (m_store m) (p_Identifier p) 100 = Ok es"
    by (auto simp: loopSendEvents_def)
  show ?thesis
  proof (cases "es = []")
    case True
    with assms Some es that(1) show ?thesis by (simp add: loopSendEvents_def)
  next
    case False
    with assms Some es obtain engine where en: "map_of (m_engines m) (p_Platform p) = Some engine"
      by (auto simp: loopSendEvents_def split: option.splits)
    with assms Some es False obtain cost needed where
      c: "EstimateCost E engine es = Ok cost" "integerMul W cost ProcessCreditMulplifier = Ok needed"
      by (auto simp: loopSendEvents_def)
    show ?thesis
    proof (cases "p_Credit p < needed")
      case True
      with assms Some es False en c that(1) show ?thesis by (simp add: loopSendEvents_def)
    next
      case enough: False
      from assms Some es False en c enough obtain engine' s where
        "EnsureSendGroupEvents E engine (p_Address p) es = Ok engine'"
        "ExpireGroupEventsWithCost W (m_store m) es cost = Ok s"
        "(if 0 < cost then rbind (integerSub W (p_Credit p) cost) (\<lambda>c. Ok (add_process
          (m\<lparr>m_engines := AList.update (p_Platform p) engine' (m_engines m), m_store := s\<rparr>) (p\<lparr>p_Credit := c\<rparr>)))
        else Ok (m\<lparr>m_engines := AList.update (p_Platform p) engine' (m_engines m), m_store := s\<rparr>)) = Ok m'"
        by (simp add: loopSendEvents_def Let_def) blast
      with that(2) Some False es en c enough show ?thesis by (metis not_less)
    qed
  qed
qed

lemma loopSendEvents_ok:
  assumes "loopSendEvents W E m pid = Ok m'" "machine_ok W m" "amounts W"
  shows "machine_ok W m'"
  using assms(1)
proof (cases rule: loopSendEvents_cases)
  case (2 p es engine cost engine' s)
  have pid: "p_Identifier p = pid" "valid_pid pid" using machine_ok_pid [OF assms(2) 2(1)] by auto
  have okm: "store_ok (m_store m)" using assms(2) by (simp add: machine_ok_def)
  have all: "e_Process e = pid" if "e \<in> set es" for e
    using ListSigned_process [OF 2(3) okm _ that] pid by simp
  then have hd: "e_Process (hd es) = pid" using 2(2) by simp
  have good: "good_op W (OpExpire es cost)" using all pid(2) by (auto simp: good_op_def list_all_iff)
  have ok: "store_ok s \<and> events_ok s \<and> signed_authentic W s"
    using store_part_path [OF op_path_single [of W "m_store m" "OpExpire es cost" s "good_op W"] assms(3)]
      2(7) good assms(2) by (simp add: machine_ok_def)
  have mem: "map_of (m_processes m) x = stored_process (m_store m) x"
    "map_of (m_processes m) x \<noteq> None \<Longrightarrow> valid_pid x" for x
    using assms(2) by (auto simp: machine_ok_def)
  have nn: "0 \<le> cost" using 2(9) amounts.mul_Ok [OF assms(3)] by blast
  from 2(7) have "map_of (m_processes m') x = stored_process s x \<and> m_store m' = s
     \<and> (map_of (m_processes m') x \<noteq> None \<longrightarrow> valid_pid x)" for x
  proof (cases rule: Expire_Ok)
    case 1
    with 2(2) show ?thesis by simp
  next
    case (2 s')
    then show ?thesis using \<open>(if 0 < cost then _ else _) = Ok m'\<close> mem expire_process [OF 2(2)] by auto
  next
    case (3 s' q c)
    have "store_ok s'" by (rule store_ok_expire [OF 3(2) okm])
    then have q: "q = p" using 3(4) hd expire_process [OF 3(2)] mem(1) [of pid] \<open>map_of (m_processes m) pid = Some p\<close>
      by simp
    have "0 < cost" using nn 3(3) by simp
    then have m': "m' = add_process (m\<lparr>m_engines := AList.update (p_Platform p) engine' (m_engines m), m_store := s\<rparr>)
        (p\<lparr>p_Credit := c\<rparr>)"
      using \<open>(if 0 < cost then _ else _) = Ok m'\<close> 3(5) q by simp
    have "stored_process s x = (if x = pid then Some (p\<lparr>p_Credit := c\<rparr>) else stored_process (m_store m) x)"
      unfolding 3(6) using q pid(1) expire_process [OF 3(2)] by (simp add: stored_process_kvs(3))
    then show ?thesis using mem [of x] pid by (simp add: m')
  qed
  with ok show ?thesis by (simp add: machine_ok_def)
qed (use assms(2) in simp)

lemma AddProcess_cases:
  assumes "AddProcess E m pid platform address out extra = Ok (b, m')"
  obtains "m' = m" "\<not> b"
  | engine engine' p s where "b" "pid = out_Sender out" "out_AssetID out = m_feeAssetId m"
      "m_feeAmount m \<le> out_Amount out" "map_of (m_engines m) platform = Some engine"
      "\<not> list_ex (\<lambda>(_, old). p_Identifier old = out_Sender out \<or> p_Address old = address) (m_processes m)"
      "VerifyAddress E engine address extra = Ok ()" "SetupNotifier E engine address = Ok engine'"
      "p = \<lparr>p_Identifier = out_Sender out, p_Platform = platform, p_Address = address,
            p_Credit = 0, p_Nonce = 0, p_Asset = str_contains extra ''META''\<rparr>"
      "WriteProcess (m_store m) p = Ok s"
      "m' = Spawn (add_process (m\<lparr>m_engines := AList.update platform engine' (m_engines m), m_store := s\<rparr>) p) p"
proof (cases "pid \<noteq> out_Sender out \<or> out_AssetID out \<noteq> m_feeAssetId m \<or> out_Amount out < m_feeAmount m
    \<or> map_of (m_engines m) platform = None
    \<or> list_ex (\<lambda>(_, old). p_Identifier old = out_Sender out \<or> p_Address old = address) (m_processes m)")
  case True
  with assms that(1) show ?thesis by (auto simp: AddProcess_def split: if_splits option.splits)
next
  case False
  then obtain engine where engine: "map_of (m_engines m) platform = Some engine" by auto
  show ?thesis
  proof (cases "VerifyAddress E engine address extra")
    case (Ok u)
    note V = Ok
    show ?thesis
    proof (cases "SetupNotifier E engine address")
      case (Ok engine')
      from assms False engine V Ok obtain s where
        "WriteProcess (m_store m) \<lparr>p_Identifier = out_Sender out, p_Platform = platform, p_Address = address,
            p_Credit = 0, p_Nonce = 0, p_Asset = str_contains extra ''META''\<rparr> = Ok s" "b"
        "m' = Spawn (add_process (m\<lparr>m_engines := AList.update platform engine' (m_engines m), m_store := s\<rparr>)
           \<lparr>p_Identifier = out_Sender out, p_Platform = platform, p_Address = address,
            p_Credit = 0, p_Nonce = 0, p_Asset = str_contains extra ''META''\<rparr>)
           \<lparr>p_Identifier = out_Sender out, p_Platform = platform, p_Address = address,
            p_Credit = 0, p_Nonce = 0, p_Asset = str_contains extra ''META''\<rparr>"
        by (simp add: AddProcess_def Let_def) blast
      with that(2) False engine V Ok show ?thesis by (auto simp: not_less)
    qed (use assms False engine V that(1) in \<open>auto simp: AddProcess_def\<close>)
  qed (use assms False engine that(1) in \<open>auto simp: AddProcess_def\<close>)
qed

lemma AddProcess_ok:
  assumes "AddProcess E m pid platform address out extra = Ok (b, m')" "machine_ok W m" "amounts W" "valid_pid pid"
  shows "machine_ok W m'"
  using assms(1)
proof (cases rule: AddProcess_cases)
  case (2 engine engine' p s)
  have id: "p_Identifier p = pid" by (simp add: 2(9) flip: 2(2))
  have mem: "map_of (m_processes m) x = stored_process (m_store m) x"
    "map_of (m_processes m) x \<noteq> None \<Longrightarrow> valid_pid x" for x
    using assms(2) by (auto simp: machine_ok_def)
  have none: "map_of (m_processes m) pid = None"
  proof (rule ccontr)
    assume "map_of (m_processes m) pid \<noteq> None"
    then obtain q where q: "map_of (m_processes m) pid = Some q" by blast
    have "p_Identifier q = pid" using machine_ok_pid [OF assms(2) q] by simp
    with map_of_SomeD [OF q] 2(2,6) show False by (auto simp: list_ex_iff)
  qed
  have pok: "process_ok (m_store m)" using assms(2) by (simp add: machine_ok_def store_ok_def)
  have "db_lookup (m_store m) (processKey pid) = None"
  proof (cases "db_lookup (m_store m) (processKey pid)")
    case (Some v)
    with pok obtain q where "v = JProcess q" unfolding process_ok_def by blast
    with Some none mem(1) [of pid] show ?thesis by (simp add: stored_process_def)
  qed
  with 2(10) id have s: "s = m_store m\<lparr>kvs := kv_set (processKey pid) (JProcess p) (kvs (m_store m))\<rparr>"
    by (auto simp: WriteProcess_def readProcess_def writeProcess_def split: if_splits)
  have good: "good_op W (OpProcess p)" using assms(4) id by (simp add: good_op_def)
  have "store_ok s \<and> events_ok s \<and> signed_authentic W s"
    using store_part_path [OF op_path_single [of W "m_store m" "OpProcess p" s "good_op W"] assms(3)]
      2(10) good assms(2) by (simp add: machine_ok_def)
  moreover have "map_of (m_processes m') x = stored_process (m_store m') x
     \<and> (map_of (m_processes m') x \<noteq> None \<longrightarrow> valid_pid x)" for x
    using mem [of x] assms(4) id by (simp add: 2(11) s stored_process_kvs(3))
  ultimately show ?thesis by (simp add: machine_ok_def 2(11))
qed (use assms(2) in simp)

text \<open>What the invariant speaks of does not depend on the part of the world that changes.\<close>

lemma same_group_facts:
  assumes "same_group W V"
  shows "Event_Encode V e = Event_Encode W e" "cryptoVerify V = cryptoVerify W"
    "codec W \<Longrightarrow> codec V" "amounts W \<Longrightarrow> amounts V"
proof -
  obtain n ra rt nf q bp gb where V: "V = W\<lparr>now := n, mixinReadAsset := ra, mixinReadToken := rt,
      isNotFound := nf, queueMsg := q, broadcastPlain := bp, groupBuild := gb\<rparr>"
    using assms unfolding same_group_def by blast
  have int: "writeInt V = writeInt W" by (simp add: V writeInt_def fun_eq_iff)
  have same: "writeUUID V = writeUUID W" "writeInteger V = writeInteger W" "writeBytes V = writeBytes W"
    "encUint64 V = encUint64 W"
    by (simp_all add: fun_eq_iff writeBytes_def int) (simp_all add: V writeUUID_def writeInteger_def)
  show "Event_Encode V e = Event_Encode W e" unfolding Event_Encode_def same int ..
  show "cryptoVerify V = cryptoVerify W" by (simp add: V)
  show "codec W \<Longrightarrow> codec V" by (simp add: V codec_def)
  show "amounts W \<Longrightarrow> amounts V" by (simp add: V amounts_def)
qed

lemma same_group_ok: "same_group W V \<Longrightarrow> machine_ok V m = machine_ok W m"
  by (simp add: machine_ok_def signed_authentic_def authentic_def same_group_facts)

lemma parseOperation_pid: "codec W \<Longrightarrow> parseOperation W memo = Ok op \<Longrightarrow> valid_pid (o_Process op)"
  by (auto simp: parseOperation_def valid_pid_def dest: codec.DecodeOperation_process)

lemma machine_ok_valid: "machine_ok W m \<Longrightarrow> map_of (m_processes m) pid \<noteq> None \<Longrightarrow> valid_pid pid"
  by (simp add: machine_ok_def)

lemma ProcessOutput_ok:
  assumes "ProcessOutput W E m out = Ok m'" "machine_ok W m" "amounts W" "codec W"
  shows "machine_ok W m'"
proof (cases "parseOperation W (out_Memo out)")
  case (Ok op)
  note pid = parseOperation_pid [OF assms(4) Ok]
  show ?thesis
  proof (cases "o_Purpose op = OperationPurposeAddProcess")
    case True
    with assms(1) Ok obtain b where "AddProcess E m (o_Process op) (o_Platform op) (o_Address op) out (o_Extra op) = Ok (b, m')"
      by (auto simp: ProcessOutput_def)
    from AddProcess_ok [OF this assms(2,3) pid] show ?thesis .
  next
    case False
    with assms(1) Ok have "m' = m \<or> WriteGroupEvent W m (o_Process op) out (o_Extra op) = Ok m'"
      by (simp add: ProcessOutput_def split: if_splits)
    with WriteGroupEvent_ok [OF _ assms(2,3)] assms(2) show ?thesis by blast
  qed
qed (use assms(1,2) in \<open>simp_all add: ProcessOutput_def\<close>)

lemma ProcessCollectibleOutput_ok:
  assumes "ProcessCollectibleOutput W m out = Ok m'" "machine_ok W m" "amounts W"
  shows "machine_ok W m'"
proof (cases "parseOperation W (co_Memo out)")
  case (Ok op)
  from assms(1) Ok have "m' = m \<or> WriteNFOGroupEvent W m (o_Process op) out (o_Extra op) = Ok m'"
    by (simp add: ProcessCollectibleOutput_def split: if_splits)
  with WriteNFOGroupEvent_ok [OF _ assms(2,3)] assms(2) show ?thesis by blast
qed (use assms(1,2) in \<open>simp_all add: ProcessCollectibleOutput_def split: if_splits\<close>)

lemma loopReceiveEvents_cases:
  assumes "loopReceiveEvents W E m pid pr = Ok (m', pr')"
  obtains "m' = m" "pr' = pr"
  | p engine offset es where "map_of (m_processes m) pid = Some p"
      "ReadEngineGroupEventsOffset (m_store m) (p_Identifier p) = Ok offset"
      "map_of (m_engines m) (p_Platform p) = Some engine"
      "ReceiveGroupEvents E engine (p_Address p) offset 100 = Ok es"
      "receive_events W p m pr es = Ok (m', pr')"
proof (cases "map_of (m_processes m) pid")
  case None
  with assms that(1) show ?thesis by (simp add: loopReceiveEvents_def)
next
  case (Some p)
  with assms obtain offset engine where 1: "ReadEngineGroupEventsOffset (m_store m) (p_Identifier p) = Ok offset"
    "map_of (m_engines m) (p_Platform p) = Some engine"
    by (auto simp: loopReceiveEvents_def split: option.splits)
  show ?thesis
  proof (cases "ReceiveGroupEvents E engine (p_Address p) offset 100")
    case (Ok es)
    with assms Some 1 that(2) show ?thesis by (simp add: loopReceiveEvents_def)
  qed (use assms Some 1 that(1) in \<open>auto simp: loopReceiveEvents_def\<close>)
qed

lemma loopReceiveEvents_ok:
  assumes "loopReceiveEvents W E m pid pr = Ok (m', pr')" "machine_ok W m" "amounts W"
  shows "machine_ok W m'"
  using assms(1)
proof (cases rule: loopReceiveEvents_cases)
  case (2 p engine offset es)
  have "valid_pid (p_Identifier p)" using machine_ok_pid [OF assms(2) 2(1)] by simp
  from quiet_run_ok [OF receive_events_run [OF 2(5) this] assms(2,3)] show ?thesis .
qed (use assms(2) in simp)

lemma machine_ok_step:
  assumes "machine_step W E m m'" "codec W" "amounts W" "machine_ok W m"
  shows "machine_ok W m'"
  using assms(1)
proof cases
  case (ledger_output V out)
  note sg = same_group_facts(3,4) [OF ledger_output(1)] same_group_ok [OF ledger_output(1)]
  show ?thesis using ProcessOutput_ok [OF ledger_output(2)] sg assms(2-4) by blast
next
  case (collectible V co)
  note sg = same_group_facts(3,4) [OF collectible(1)] same_group_ok [OF collectible(1)]
  show ?thesis using ProcessCollectibleOutput_ok [OF collectible(2)] sg assms(2-4) by blast
next
  case (sign V sm sm')
  note sg = same_group_facts(3,4) [OF sign(1)] same_group_ok [OF sign(1)]
  have "db_ok (m_store m)" "events_ok (m_store m)"
    using assms(4) by (auto simp: machine_ok_def store_ok_def)
  from quiet_run_ok [OF loopSign_run [OF sign(2) this]] sg assms(2-4) show ?thesis by blast
next
  case (message V sm peer b sm')
  note sg = same_group_facts(3,4) [OF message(1)] same_group_ok [OF message(1)]
  from quiet_run_ok [OF message_run [OF message(2)]] sg assms(2-4) machine_ok_valid [OF assms(4)]
  show ?thesis by blast
next
  case (send V pid)
  note sg = same_group_facts(3,4) [OF send(1)] same_group_ok [OF send(1)]
  show ?thesis using loopSendEvents_ok [OF send(2)] sg assms(2-4) by blast
next
  case (receive V pid pr pr')
  note sg = same_group_facts(3,4) [OF receive(1)] same_group_ok [OF receive(1)]
  show ?thesis using loopReceiveEvents_ok [OF receive(2)] sg assms(2-4) by blast
next
  case (engine es)
  with assms(4) show ?thesis by (simp add: machine_ok_def)
qed

lemma machine_ok_reach:
  "machine_reach W E m m' \<Longrightarrow> codec W \<Longrightarrow> amounts W \<Longrightarrow> machine_ok W m \<Longrightarrow> machine_ok W m'"
  by (induction rule: machine_reach.induct) (auto dest: machine_ok_step)

section \<open>What the machine relies on in an engine\<close>

text \<open>
  The contract behind the \<open>Engine\<close> interface: an engine keeps, for each address it verified, an
  outgoing and an incoming queue by nonce. Handing events over adds them and loses nothing; receiving
  lists the incoming queue from an offset in nonce order.
\<close>

locale event_engine =
  fixes E :: "'e engine_ops" and ok :: "'e \<Rightarrow> bool" and addr :: "string \<Rightarrow> bool"
    and outgoing :: "'e \<Rightarrow> string \<Rightarrow> u64 \<Rightarrow> event option"
    and incoming :: "'e \<Rightarrow> string \<Rightarrow> u64 \<Rightarrow> event option"
  assumes verified_addr: "VerifyAddress E e a x = Ok u \<Longrightarrow> addr a"
    and ensure_ok: "ok e \<Longrightarrow> addr a \<Longrightarrow> EnsureSendGroupEvents E e a es = Ok e' \<Longrightarrow> ok e'"
    and ensure_adds: "ok e \<Longrightarrow> addr a \<Longrightarrow> EnsureSendGroupEvents E e a es = Ok e' \<Longrightarrow> ev \<in> set es \<Longrightarrow>
        outgoing e' a (e_Nonce ev) \<noteq> None"
    and ensure_keeps: "ok e \<Longrightarrow> addr a \<Longrightarrow> EnsureSendGroupEvents E e a es = Ok e' \<Longrightarrow>
        outgoing e b n = Some ev \<Longrightarrow> outgoing e' b n = Some ev"
    and receive_listed: "ok e \<Longrightarrow> addr a \<Longrightarrow> 0 < mx \<Longrightarrow> ReceiveGroupEvents E e a off mx = Ok es \<Longrightarrow>
        sorted_wrt (<) (map e_Nonce es)
        \<and> (\<forall>ev \<in> set es. off \<le> e_Nonce ev \<and> incoming e a (e_Nonce ev) = Some ev)"
begin

text \<open>A signed event leaves the machine's queue only into the engine's outgoing queue.\<close>

lemma handed_over:
  assumes "machine_ok W m" "loopSendEvents W E m pid = Ok m'"
    "map_of (m_processes m) pid = Some p" "map_of (m_engines m) (p_Platform p) = Some eng"
    "ok eng" "addr (p_Address p)" "signed_event (m_store m) pid n = Some e"
  shows "signed_event (m_store m') pid n = Some e \<or>
     (\<exists>eng'. map_of (m_engines m') (p_Platform p) = Some eng' \<and> outgoing eng' (p_Address p) n \<noteq> None)"
  using assms(2)
proof (cases rule: loopSendEvents_cases)
  case (2 p' es eng1 cost eng' s)
  have pp: "p' = p" "eng1 = eng" using 2(1,4) assms(3,4) by auto
  have pid: "p_Identifier p = pid" "valid_pid pid" using machine_ok_pid [OF assms(1,3)] by auto
  have engines: "map_of (m_engines m') (p_Platform p) = Some eng'" "m_store m' = s"
    using 2(8) pp by (auto simp: update_conv' split: if_splits)
  have okm: "store_ok (m_store m)" using assms(1) by (simp add: machine_ok_def)
  have hd: "e_Process (hd es) = pid"
    using ListSigned_process [OF 2(3) okm, of "hd es"] 2(2) pid pp by simp
  show ?thesis
  proof (cases "n \<in> e_Nonce ` set es")
    case True
    then show ?thesis using ensure_adds [OF assms(5,6), of es eng'] 2(6) pp engines(1) by auto
  next
    case False
    have stays: "signed_event v pid n = Some e" if "rfold (delete_signed pid) (m_store m) es = Ok v" for v
      using _ assms(7) that
    proof (rule rfold_invariant)
      fix u x v assume "x \<in> set es" "signed_event u pid n = Some e" "delete_signed pid u x = Ok v"
      moreover have "buildSignedEventTimedKey pid (e_Nonce x) \<noteq> buildSignedEventTimedKey pid n"
        if "x \<in> set es" using that False signed.key_inj [OF pid(2) pid(2)] by auto
      ultimately show "signed_event v pid n = Some e" by (auto simp: signed_event_kvs)
    qed
    from 2(7) have "signed_event s pid n = Some e"
      by (cases rule: Expire_Ok) (use stays False assms(7) hd in \<open>auto simp: signed_event_kvs\<close>)
    with engines show ?thesis by simp
  qed
qed (use assms(7) in simp)

text \<open>One round of receiving handles events of this process with nonces from the offset on, each at most once.\<close>

lemma receive_order:
  assumes "loopReceiveEvents W E m pid pr = Ok (m', pr')" "map_of (m_processes m) pid = Some p"
    "map_of (m_engines m) (p_Platform p) = Some eng" "ok eng" "addr (p_Address p)"
    "ReadEngineGroupEventsOffset (m_store m) (p_Identifier p) = Ok off"
    "ReceiveGroupEvents E eng (p_Address p) off 100 = Ok es"
  shows "receive_events W p m pr es = Ok (m', pr') \<and> sorted_wrt (<) (map e_Nonce es)
    \<and> (\<forall>ev \<in> set es. off \<le> e_Nonce ev)"
  using assms(1-3,6,7) receive_listed [OF assms(4,5) _ assms(7)]
  by (simp add: loopReceiveEvents_def)

end

end
