(* ===== verification/Machine_Props.thy ===== *)
theory Machine_Props
  imports Machine_Laws
begin

text \<open>
  The properties of the machine: what holds in every reachable state, what the handlers do on each
  branch, and where an event or a withdrawal is applied exactly once.
\<close>

section \<open>Starting\<close>

lemma list_items_set:
  "list_items s dec xs = Ok ys \<Longrightarrow> a \<in> set ys \<longleftrightarrow> (\<exists>x \<in> set xs. dec (snd x) = Ok a)"
proof (induction xs arbitrary: ys)
  case (Cons x xs)
  obtain k v where x: "x = (k, v)" by force
  with Cons.prems obtain b bs where "dec v = Ok b" "list_items s dec xs = Ok bs" "ys = b # bs" by auto
  with Cons.IH [of bs] x show ?case by auto
qed simp

lemma ListProcesses_set:
  assumes "ListProcesses s = Ok ps" "db_ok s" "process_ok s"
  shows "p \<in> set ps \<longleftrightarrow> stored_process s (p_Identifier p) = Some p"
proof -
  let ?it = "iter_from s prefixProcessPayload prefixProcessPayload"
  have pre: "has_prefix prefixProcessPayload prefixProcessPayload" by (simp add: has_prefix_def)
  have it: "(k, v) \<in> set ?it \<longleftrightarrow> (\<exists>pid. k = processKey pid \<and> db_lookup s k = Some v)" for k v
    using set_iter_from [OF assms(2) pre, of k v] prefix_le [of prefixProcessPayload]
    by (auto simp: has_prefix_iff processKey_def)
  have "p \<in> set ps \<longleftrightarrow> (\<exists>x \<in> set ?it. as_process (snd x) = Ok p)"
    using list_items_set [OF assms(1) [unfolded ListProcesses_def]] .
  also have "\<dots> \<longleftrightarrow> (\<exists>k. (k, JProcess p) \<in> set ?it)" by force
  also have "\<dots> \<longleftrightarrow> (\<exists>pid. db_lookup s (processKey pid) = Some (JProcess p))" unfolding it by blast
  also have "\<dots> \<longleftrightarrow> stored_process s (p_Identifier p) = Some p"
  proof
    assume "\<exists>pid. db_lookup s (processKey pid) = Some (JProcess p)"
    then obtain pid where pid: "db_lookup s (processKey pid) = Some (JProcess p)" by blast
    with assms(3) have "p_Identifier p = pid" unfolding process_ok_def by blast
    with pid show "stored_process s (p_Identifier p) = Some p" by (simp add: stored_process_def)
  qed (auto simp: stored_process_def split: option.splits dbval.splits)
  finally show ?thesis .
qed

lemma add_all_store [simp]:
  "m_store (foldl (\<lambda>m p. Spawn (add_process m p) p) m ps) = m_store m"
  by (induction ps arbitrary: m) auto

lemma add_all_processes:
  "map_of (m_processes (foldl (\<lambda>m p. Spawn (add_process m p) p) m ps)) =
   map_of (m_processes m) ++ map_of (map (\<lambda>p. (p_Identifier p, p)) (rev ps))"
  by (induction ps arbitrary: m) auto

lemma Loop_start_ok:
  assumes "Loop_start m = Ok m'" "m_processes m = []"
    "store_ok (m_store m)" "events_ok (m_store m)" "signed_authentic W (m_store m)"
    "\<And>pid. stored_process (m_store m) pid \<noteq> None \<Longrightarrow> valid_pid pid"
  shows "machine_ok W m'"
proof -
  obtain ps where ps: "ListProcesses (m_store m) = Ok ps"
    and m': "m' = foldl (\<lambda>m p. Spawn (add_process m p) p) m ps"
    using assms(1) by (auto simp: Loop_start_def)
  have mem: "p \<in> set ps \<longleftrightarrow> stored_process (m_store m) (p_Identifier p) = Some p" for p
    using ListProcesses_set [OF ps] assms(3) by (simp add: store_ok_def)
  have procs: "map_of (m_processes m') pid = stored_process (m_store m) pid" for pid
  proof (cases "stored_process (m_store m) pid")
    case None
    then have "pid \<notin> fst ` set (map (\<lambda>p. (p_Identifier p, p)) (rev ps))" using mem by auto
    then show ?thesis using None by (simp add: m' add_all_processes assms(2) map_of_eq_None_iff [THEN iffD2])
  next
    case (Some p)
    have id: "p_Identifier p = pid" using assms(3) Some by (auto simp: store_ok_def intro: process_ok_stored)
    have "map_of (map (\<lambda>p. (p_Identifier p, p)) (rev ps)) pid = Some p"
    proof -
      have "pid \<in> fst ` set (map (\<lambda>p. (p_Identifier p, p)) (rev ps))" using mem [of p] Some id by force
      then obtain q where q: "map_of (map (\<lambda>p. (p_Identifier p, p)) (rev ps)) pid = Some q"
        by (metis map_of_eq_None_iff not_None_eq)
      then have "q \<in> set ps" "p_Identifier q = pid" by (auto dest!: map_of_SomeD)
      with mem [of q] Some q show ?thesis by simp
    qed
    then show ?thesis using Some by (simp add: m' add_all_processes assms(2))
  qed
  show ?thesis using assms(3-6) procs by (auto simp: machine_ok_def m')
qed

section \<open>What metadata writes leave alone\<close>

fun tx_trace :: "group_tx \<Rightarrow> string" where
  "tx_trace (AssetTx a ms t am memo tr g) = tr"
| "tx_trace (CollectibleTx ms t memo a tr) = tr"

fun meta_op :: "world \<Rightarrow> store_op \<Rightarrow> bool" where
  "meta_op W (OpAsset a) = True"
| "meta_op W (OpToken t) = True"
| "meta_op W (OpCategory i c) = True"
| "meta_op W (OpOffset pid n) = True"
| "meta_op W _ = False"

lemma meta_path_ledger:
  assumes "op_path (meta_op W) L s t"
  shows "db_lookup t (buildAccountSnapshotKey sn) = db_lookup s (buildAccountSnapshotKey sn)
     \<and> balance t q a = balance s q a"
proof (rule op_path_invariant [OF assms])
  fix u op v
  assume op: "meta_op W op" "apply_op L u op = Ok v"
  show "db_lookup v (buildAccountSnapshotKey sn) = db_lookup s (buildAccountSnapshotKey sn) \<and> balance v q a = balance s q a"
    if "db_lookup u (buildAccountSnapshotKey sn) = db_lookup s (buildAccountSnapshotKey sn) \<and> balance u q a = balance s q a"
  proof (cases op)
  qed (use op that in \<open>auto simp: balance_def dest!: WriteOther_Ok\<close>)
qed simp

definition meta_run :: "world \<Rightarrow> 'e machine \<Rightarrow> 'e machine \<Rightarrow> bool" where
  "meta_run W m m' \<longleftrightarrow> m_txs m' = m_txs m \<and> op_path (meta_op W) W (m_store m) (m_store m')"

lemma meta_run_refl [simp]: "meta_run W m m"
  by (simp add: meta_run_def op_path.refl)

lemma meta_run_trans: "meta_run W m m' \<Longrightarrow> meta_run W m' m'' \<Longrightarrow> meta_run W m m''"
  by (auto simp: meta_run_def intro: op_path_trans)

lemma meta_run_store:
  "apply_op W (m_store m) op = Ok s \<Longrightarrow> meta_op W op \<Longrightarrow> meta_run W m (m\<lparr>m_store := s\<rparr>)"
  by (simp add: meta_run_def op_path_single)

lemma fetchAssetMeta_meta: "fetchAssetMeta W m i = Ok (b, err, m') \<Longrightarrow> meta_run W m m'"
  using meta_run_store [of W m "OpAsset _"]
  by (auto simp: fetchAssetMeta_def split: res.splits option.splits)

lemma fetchCollectibleToken_meta: "fetchCollectibleToken W m i = Ok (b, err, m') \<Longrightarrow> meta_run W m m'"
  using meta_run_store [of W m "OpToken _"]
  by (auto simp: fetchCollectibleToken_def split: res.splits option.splits if_splits)

lemma checkAsset_meta:
  assumes "checkAssetOrCollectible W m i = Ok (c, m')"
  shows "meta_run W m m'"
proof (rule checkAssetOrCollectible_cases [OF assms])
  show "meta_run W m m" by simp
next
  fix a err m1 s x
  assume "fetchAssetMeta W m i = Ok (a, err, m1)" "WriteAssetOrCollectible (m_store m1) i x = Ok s"
  then show "meta_run W m (m1\<lparr>m_store := s\<rparr>)"
    using meta_run_store [of W m1 "OpCategory i x" s] by (auto intro: meta_run_trans dest: fetchAssetMeta_meta)
next
  fix a err m1 tk e m2 s x
  assume "fetchAssetMeta W m i = Ok (a, err, m1)" "fetchCollectibleToken W m1 i = Ok (tk, e, m2)"
    "WriteAssetOrCollectible (m_store m2) i x = Ok s"
  then show "meta_run W m (m2\<lparr>m_store := s\<rparr>)"
    using meta_run_store [of W m2 "OpCategory i x" s]
    by (auto intro: meta_run_trans dest: fetchAssetMeta_meta fetchCollectibleToken_meta)
qed

lemma checkAsset_txs:
  "checkAssetOrCollectible (W :: world) (m\<lparr>m_store := s\<rparr>) i = Ok (c, m') \<Longrightarrow> m_txs m' = m_txs m"
  by (drule checkAsset_meta) (simp add: meta_run_def)

lemma checkAsset_path:
  "checkAssetOrCollectible W (m\<lparr>m_store := s\<rparr>) i = Ok (c, m') \<Longrightarrow> op_path (meta_op W) W s (m_store m')"
  by (drule checkAsset_meta) (simp add: meta_run_def)

lemma buildGroupTransaction_tx:
  "buildGroupTransaction W m p e c = Ok m' \<Longrightarrow>
   \<exists>tx. m_txs m' = m_txs m @ [tx] \<and> tx_trace tx = traceId W p (e_Nonce e)"
  by (auto simp: buildGroupTransaction_def Let_def split: if_splits)

lemma buildGroupTransaction_store: "buildGroupTransaction W m p e c = Ok m' \<Longrightarrow> m_store m' = m_store m"
  by (auto simp: buildGroupTransaction_def Let_def split: if_splits)

section \<open>A concrete machine\<close>

text \<open>A group of one, whose signatures all verify, and a machine with the store of the concrete run.\<close>

definition demo_world :: world where
  "demo_world = lib.extend wire_lib (world.fields ''genesis'' [''m1''] 1
     (\<lambda>msg. Ok (replicate 66 (CHR ''p''))) (\<lambda>msg p. True) (\<lambda>msg ps k n. Ok (replicate 64 (CHR ''s'')))
     (\<lambda>msg sig. True) (\<lambda>a b. a @ b) 1000 (\<lambda>i. Ok (Some \<lparr>ma_Symbol = ''BTC'', ma_Name = ''Bitcoin''\<rparr>))
     (\<lambda>i. Err ''no token'') (\<lambda>e. False) (\<lambda>p b. Ok ()) (\<lambda>w. Ok ()) (\<lambda>tx. Ok ()))"

lemmas demo_world_simps = demo_world_def lib.defs world.defs

lemma demo_world_codec: "codec demo_world"
  using wire.codec_axioms by (simp add: demo_world_simps codec_def)

lemma demo_world_amounts: "amounts demo_world"
  using wire.amounts_axioms by (simp add: demo_world_simps amounts_def)

lemma demo_world_apply: "apply_op demo_world s op = apply_op wire_lib s op"
proof (cases op)
  case (OpSnapshot sn)
  have "as_decimal demo_world v = as_decimal wire_lib v" for v
    by (cases v) (simp_all add: as_decimal_def demo_world_simps)
  then have dec: "as_decimal demo_world = as_decimal wire_lib" by (rule ext)
  have sel: "integerAdd demo_world = integerAdd wire_lib" "integerSub demo_world = integerSub wire_lib"
    by (simp_all add: demo_world_simps)
  show ?thesis unfolding OpSnapshot apply_op.simps WriteAccountSnapshot_def readAccountBalance_def dec sel ..
next
  case (OpExpire es c)
  have sel: "integerSub demo_world = integerSub wire_lib" by (simp add: demo_world_simps)
  show ?thesis unfolding OpExpire apply_op.simps ExpireGroupEventsWithCost_def sel ..
qed simp_all

lemma demo_event_canonical: "canonical_event demo_world demo_event"
proof -
  have u: "uuidFromString demo_world = uuidFromString wire_lib" "uuidString demo_world = uuidString wire_lib"
    by (simp_all add: demo_world_simps)
  have can: "canonical_uuid demo_world x = canonical_uuid wire_lib x" for x
    unfolding canonical_uuid_def u ..
  show ?thesis
    by (simp add: canonical_event_def can demo_event_def demo_pid_def demo_asset_def canonical_uuid_text
        del: replicate.simps)
qed

lemma demo_event_encodes: "\<exists>b. Event_Encode demo_world demo_event = Ok b"
  by (rule codec.event_encode_total [OF demo_world_codec demo_event_canonical])
    (simp add: event_encodable_def demo_event_def slice_bytes_def)

lemma demo_signed_authentic: "authentic demo_world demo_signed"
proof -
  have "demo_signed\<lparr>e_Signature := None\<rparr> = demo_event" by (simp add: demo_signed_def demo_event_def)
  with demo_event_encodes show ?thesis by (auto simp: authentic_def demo_world_simps)
qed

lemma demo_store_good: "store_ok demo_store \<and> events_ok demo_store \<and> signed_authentic demo_world demo_store"
proof (rule store_part_path [OF _ demo_world_amounts])
  have "list_all (good_op demo_world) demo_ops"
    using demo_ops_valid demo_signed_authentic by (simp add: good_op_def demo_ops_def)
  moreover have "rfold (apply_op demo_world) db_empty demo_ops = Ok demo_store"
    using demo_run demo_world_apply by (metis ext)
  moreover have "rfold (apply_op demo_world) u ops = Ok v \<Longrightarrow> list_all (good_op demo_world) ops \<Longrightarrow>
      op_path (good_op demo_world) demo_world db_empty u \<Longrightarrow> op_path (good_op demo_world) demo_world db_empty v" for u v ops
    by (induction ops arbitrary: u) (auto intro: op_path.step)
  ultimately show "op_path (good_op demo_world) demo_world db_empty demo_store"
    by (blast intro: op_path.refl)
  show "store_ok db_empty \<and> events_ok db_empty \<and> signed_authentic demo_world db_empty"
    by (simp add: events_ok_def signed_authentic_def signed_event_def)
qed

definition demo_machine :: "unit machine" where
  "demo_machine = \<lparr>m_store = demo_store, m_feeAssetId = demo_asset, m_feeAmount = 1, m_engines = [(''quorum'', ())],
     m_processes = [(demo_pid, demo_process\<lparr>p_Nonce := 1\<rparr>)], m_spawned = [demo_pid], m_outbox = [],
     m_warnings = [], m_txs = []\<rparr>"

lemma demo_stored: "stored_process demo_store pid = (if pid = demo_pid then Some (demo_process\<lparr>p_Nonce := 1\<rparr>) else None)"
  by (simp add: stored_process_def demo_store_eq)

lemma demo_machine_ok: "machine_ok demo_world demo_machine"
  using demo_store_good by (simp add: machine_ok_def demo_machine_def demo_stored)

lemma demo_no_fault: "no_fault demo_store"
  by (simp add: no_fault_def fun_eq_iff demo_facts)

lemma ListProcesses_total:
  assumes "store_ok s" "no_fault s"
  shows "\<exists>ps. ListProcesses s = Ok ps"
proof -
  have "list_items s as_process (iter_from s prefixProcessPayload prefixProcessPayload) =
     Ok (map (\<lambda>x. case snd x of JProcess p \<Rightarrow> p | _ \<Rightarrow> demo_process) (iter_from s prefixProcessPayload prefixProcessPayload))"
  proof (rule list_items_map [OF assms(2)])
    fix x assume "x \<in> set (iter_from s prefixProcessPayload prefixProcessPayload)"
    then have "db_lookup s (fst x) = Some (snd x)" "has_prefix prefixProcessPayload (fst x)"
      using set_iter_from [of s prefixProcessPayload prefixProcessPayload "fst x" "snd x"] assms(1)
      by (auto simp: store_ok_def has_prefix_def)
    moreover have "process_ok s" using assms(1) by (simp add: store_ok_def)
    ultimately obtain p where "snd x = JProcess p"
      unfolding process_ok_def processKey_def has_prefix_iff by fastforce
    then show "as_process (snd x) = Ok (case snd x of JProcess p \<Rightarrow> p | _ \<Rightarrow> demo_process)" by simp
  qed
  then show ?thesis by (simp add: ListProcesses_def)
qed

lemma list_one_signed:
  assumes "store_ok s" "no_fault s" "\<And>n. signed_event s demo_pid n = (if n = 0 then Some demo_signed else None)"
  shows "ListSignedGroupEvents s demo_pid 100 = Ok [demo_signed]"
proof -
  obtain ns where ns: "set ns = {n. signed_event s demo_pid n \<noteq> None}" "sorted_wrt (<) ns"
    and es: "ListSignedGroupEvents s demo_pid 100 = Ok (take (nat 100) (map (\<lambda>n. the (signed_event s demo_pid n)) ns))"
    by (rule ListSigned_events [of s demo_pid 100]) (use assms(1,2) in auto)
  have zero: "set ns = {0}" unfolding ns(1) by (auto simp: assms(3))
  have "ns = [0]" by (rule sorted_wrt_single [OF ns(2) zero])
  then show ?thesis using es assms(3) by simp
qed

lemma demo_only_signed: "signed_event demo_store demo_pid n = (if n = 0 then Some demo_signed else None)"
  by (simp add: signed_event_def demo_store_eq signed.key_inj)

lemma demo_listed: "ListSignedGroupEvents demo_store demo_pid 100 = Ok [demo_signed]"
  by (rule list_one_signed) (use demo_store_good demo_no_fault demo_only_signed in auto)

section \<open>Properties\<close>

text \<open>C1: every event in a signed queue carries a signature that verifies under the group's public
  key over that event's own encoding without the signature, in every state the machine reaches.\<close>

theorem signed_events_verified:
  assumes "codec W" and "amounts W" and "machine_ok W m" and "machine_reach W E m m'"
    and "valid_pid pid" and "ListSignedGroupEvents (m_store m') pid limit = Ok es" and "e \<in> set es"
  shows "e_Process e = pid \<and> (\<exists>msg. Event_Encode W (e\<lparr>e_Signature := None\<rparr>) = Ok msg
           \<and> cryptoVerify W msg (slice_bytes (e_Signature e)))"
proof -
  have ok: "machine_ok W m'" by (rule machine_ok_reach [OF assms(4,1-3)])
  then have sok: "store_ok (m_store m')" by (simp add: machine_ok_def)
  have pid: "e_Process e = pid" by (rule ListSigned_process [OF assms(6) sok assms(5,7)])
  obtain k where k: "db_lookup (m_store m') k = Some (JEvent e)" "has_prefix (prefixSignedEventQueue @ pid) k"
    using list_loop_set [OF assms(6) [unfolded ListSignedGroupEvents_def] assms(7)]
      set_iter_from [of "m_store m'" "prefixSignedEventQueue @ pid" "prefixSignedEventQueue @ pid"] sok
    by (fastforce simp: store_ok_def has_prefix_def)
  then obtain q n where q: "valid_pid q" "k = buildSignedEventTimedKey q n"
    using sok assms(5) unfolding store_ok_def queue_ok_def only_queue_keys_def by blast
  then have "signed_event (m_store m') q n = Some e" using k(1) by (simp add: signed_event_def)
  then have "authentic W e" using ok q(1) by (auto simp: machine_ok_def signed_authentic_def)
  with pid show ?thesis by (auto simp: authentic_def)
qed

theorem signed_events_verified_witness:
  "\<exists>es. ListSignedGroupEvents (m_store demo_machine) demo_pid 100 = Ok es \<and> demo_signed \<in> set es
     \<and> (\<exists>msg. Event_Encode demo_world demo_event = Ok msg \<and> cryptoVerify demo_world msg (replicate 64 (CHR ''s'')))"
proof -
  have st: "m_store demo_machine = demo_store" by (simp add: demo_machine_def)
  from signed_events_verified [OF demo_world_codec demo_world_amounts demo_machine_ok machine_reach.refl
      valid_demo_pid demo_listed [folded st]] demo_listed st
  show ?thesis by (auto simp: demo_signed_def demo_event_def slice_bytes_def)
qed

text \<open>C4: memory and store agree. In every state the machine reaches after it loads its processes, the
  process the handlers see in memory, its nonce and its credit included, is the one in the store, so the
  nonce check of the store never fails.\<close>

theorem memory_matches_store:
  assumes "codec W" and "amounts W" and "Loop_start m = Ok m'" and "m_processes m = []"
    and "store_ok (m_store m)" and "events_ok (m_store m)" and "signed_authentic W (m_store m)"
    and "\<And>pid. stored_process (m_store m) pid \<noteq> None \<Longrightarrow> valid_pid pid"
    and "machine_reach W E m' m''"
  shows "getProcess m'' pid = stored_process (m_store m'') pid"
  using machine_ok_reach [OF assms(9,1,2) Loop_start_ok [OF assms(3-8)]]
  by (simp add: getProcess_def machine_ok_def)

theorem memory_matches_store_witness:
  "\<exists>m'. Loop_start (demo_machine\<lparr>m_processes := []\<rparr>) = Ok m'
     \<and> getProcess m' demo_pid = Some (demo_process\<lparr>p_Nonce := 1\<rparr>)"
proof -
  let ?m = "demo_machine\<lparr>m_processes := []\<rparr>"
  have st: "m_store ?m = demo_store" by (simp add: demo_machine_def)
  obtain ps where "ListProcesses demo_store = Ok ps" using ListProcesses_total demo_store_good demo_no_fault by blast
  then obtain m' where m': "Loop_start ?m = Ok m'" by (auto simp: Loop_start_def st)
  have "getProcess m' demo_pid = stored_process (m_store m') demo_pid"
    by (rule memory_matches_store [OF demo_world_codec demo_world_amounts m' _ _ _ _ _ machine_reach.refl])
      (use demo_store_good in \<open>auto simp: st demo_stored split: if_splits\<close>)
  moreover have "m_store m' = demo_store" using m' by (auto simp: Loop_start_def st)
  ultimately show ?thesis using m' by (simp add: demo_stored)
qed

text \<open>C38: a crash between the credit and the pending event is harmless. If the machine stops after the
  credit is written and handles the same output again from the store it left, the result is the same as
  without the crash: the credit is not applied twice.\<close>

theorem record_event_crash_safe:
  assumes "no_fault (m_store m)" and "buildAccountSnapshot p evt True = Ok sn"
    and "WriteAccountSnapshot W (m_store m) sn = Ok s1"
  shows "record_event W (m\<lparr>m_store := s1\<rparr>) p evt i = record_event W m p evt i"
proof -
  have nf: "no_fault s1"
    using WriteSnapshot_Ok [OF assms(3)] assms(1) by auto
  have "db_lookup s1 (buildAccountSnapshotKey sn) \<noteq> None"
    using WriteSnapshot_Ok [OF assms(3)] by auto
  then have "WriteAccountSnapshot W s1 sn = Ok s1"
    using nf by (auto simp: WriteAccountSnapshot_def store_eval no_fault_def simp del: rbind_Ok_iff)
  then show ?thesis using assms(2,3) by (simp add: record_event_def del: rbind_Ok_iff)
qed

theorem record_event_crash_safe_witness:
  "\<exists>s1. WriteAccountSnapshot demo_world demo_start \<lparr>as_Process = demo_pid, as_Nonce = 0, as_Asset = demo_asset,
        as_Amount = 5, as_Credit = True\<rparr> = Ok s1
     \<and> record_event demo_world (demo_machine\<lparr>m_store := s1\<rparr>) demo_process demo_event ''u1''
       = record_event demo_world (demo_machine\<lparr>m_store := demo_start\<rparr>) demo_process demo_event ''u1''"
proof -
  let ?sn = "\<lparr>as_Process = demo_pid, as_Nonce = 0, as_Asset = demo_asset, as_Amount = 5, as_Credit = True\<rparr>"
  have nf: "no_fault demo_start" by (simp add: demo_start_def)
  have "WriteAccountSnapshot demo_world demo_start ?sn = WriteAccountSnapshot wire_lib demo_start ?sn"
    using demo_world_apply [of demo_start "OpSnapshot ?sn"] by simp
  moreover obtain s1 where "WriteAccountSnapshot wire_lib demo_start ?sn = Ok s1"
    by (simp add: store_eval demo_start_def wire_lib_def del: rbind_Ok_iff)
  ultimately have s1: "WriteAccountSnapshot demo_world demo_start ?sn = Ok s1" by simp
  have sn: "buildAccountSnapshot demo_process demo_event True = Ok ?sn"
    by (simp add: buildAccountSnapshot_def demo_process_def demo_event_def)
  from record_event_crash_safe [of "demo_machine\<lparr>m_store := demo_start\<rparr>", OF _ sn] nf s1 show ?thesis by auto
qed

text \<open>A memo built from an operation is parsed back to that operation.\<close>

theorem memo_roundtrip:
  assumes "codec L" and "canonical_uuid L (o_Process op)" and "Operation_Encode L op = Ok b"
  shows "parseOperation L (b64Encode b) = Ok op"
  using codec.operation_rt [OF assms, of "[]"] by (simp add: parseOperation_def)

theorem memo_roundtrip_witness:
  "\<exists>b. Operation_Encode wire_lib \<lparr>o_Purpose = 1, o_Process = demo_pid, o_Platform = ''quorum'',
        o_Address = ''addr'', o_Extra = ''x''\<rparr> = Ok b
     \<and> parseOperation wire_lib (b64Encode b) = Ok \<lparr>o_Purpose = 1, o_Process = demo_pid,
        o_Platform = ''quorum'', o_Address = ''addr'', o_Extra = ''x''\<rparr>"
proof -
  let ?op = "\<lparr>o_Purpose = 1, o_Process = demo_pid, o_Platform = ''quorum'', o_Address = ''addr'', o_Extra = ''x''\<rparr>"
  have "uuidFromString wire_lib demo_pid = Ok (replicate 16 (CHR ''p''))"
    using uuid_parse_text [of "replicate 16 (CHR ''p'')"] by (simp add: demo_pid_def wire_lib_def del: replicate.simps)
  then obtain b where b: "Operation_Encode wire_lib ?op = Ok b"
    by (simp add: Operation_Encode_def writeUUID_def writeInt_def writeBytes_def EventExtraMaxSize_def)
      (simp add: wire_lib_def wire_encInt_def)
  have "canonical_uuid wire_lib (o_Process ?op)"
    using canonical_uuid_text [of "replicate 16 (CHR ''p'')"] by (simp add: demo_pid_def del: replicate.simps)
  from memo_roundtrip [OF wire.codec_axioms this b] b show ?thesis by blast
qed

text \<open>A member that receives what another member sent for an event checks the partial signature
  against the very bytes that were signed: the event it decodes, with the signature removed, encodes to
  the signer's message.\<close>

theorem received_message_is_signed_message:
  assumes "codec W" and "canonical_event W e" and "e_Signature e = None"
    and "Event_Encode W e = Ok msg" and "Event_Encode W (e\<lparr>e_Signature := Some partial\<rparr>) = Ok b"
    and "getProcess m (e_Process e) \<noteq> None" and "length ts = 8"
  shows "loopReceiveGroupMessages W m sm peer (b @ ts) =
     rbind (must (ReadGroupEventSignatures (m_store m) (e_Process e) (e_Nonce e)))
       (handle_signature W m sm peer e partial msg)"
proof -
  have can: "canonical_event W (e\<lparr>e_Signature := Some partial\<rparr>)"
    using assms(2) by (simp add: canonical_event_def)
  obtain s where s: "DecodeEvent W b = Ok (e\<lparr>e_Signature := s\<rparr>)" "slice_bytes s = partial"
    using codec.event_rt [OF assms(1) can assms(5), of "[]"] by (auto simp: slice_bytes_def)
  have e: "e\<lparr>e_Signature := None\<rparr> = e" using assms(3) by (metis event.surjective event.update_convs(9))
  have "length (e_Extra e) \<le> 256"
    using codec.event_encode_Ok_bounds [OF assms(1,4)] by simp
  moreover obtain y where "getProcess m (e_Process e) = Some y" using assms(6) by blast
  ultimately show ?thesis using assms(4,7) s e
    by (simp add: loopReceiveGroupMessages_def EventExtraMaxSize_def del: rbind_Ok_iff)
qed

theorem received_message_is_signed_message_witness:
  "\<exists>msg b. Event_Encode demo_world demo_event = Ok msg
     \<and> Event_Encode demo_world (demo_event\<lparr>e_Signature := Some ''partial''\<rparr>) = Ok b
     \<and> loopReceiveGroupMessages demo_world demo_machine [] ''m1'' (b @ replicate 8 (CHR ''t''))
       = rbind (must (ReadGroupEventSignatures demo_store demo_pid 0))
           (handle_signature demo_world demo_machine [] ''m1'' demo_event ''partial'' msg)"
proof -
  have can: "canonical_event demo_world (demo_event\<lparr>e_Signature := x\<rparr>)" for x
    using demo_event_canonical by (simp add: canonical_event_def)
  obtain msg where msg: "Event_Encode demo_world demo_event = Ok msg" using demo_event_encodes by blast
  obtain b where b: "Event_Encode demo_world (demo_event\<lparr>e_Signature := Some ''partial''\<rparr>) = Ok b"
    using codec.event_encode_total [OF demo_world_codec can, of "Some ''partial''"]
    by (auto simp: event_encodable_def demo_event_def slice_bytes_def)
  have "getProcess demo_machine (e_Process demo_event) \<noteq> None" "e_Signature demo_event = None"
    "m_store demo_machine = demo_store" "e_Process demo_event = demo_pid" "e_Nonce demo_event = 0"
    by (simp_all add: getProcess_def demo_machine_def demo_event_def)
  with received_message_is_signed_message [OF demo_world_codec demo_event_canonical _ msg b,
      of demo_machine "replicate 8 (CHR ''t'')" "[]" "''m1''"] msg b
  show ?thesis by auto
qed

text \<open>A debit that was not on record takes its amount from the balance.\<close>

lemma debit_balance:
  assumes "amounts W" "WriteAccountSnapshot W s0 sn = Ok s" "\<not> as_Credit sn" "db_lookup s0 (buildAccountSnapshotKey sn) = None"
  shows "balance s (as_Process sn) (as_Asset sn) = balance s0 (as_Process sn) (as_Asset sn) - as_Amount sn"
proof -
  from WriteSnapshot_Ok [OF assms(2)] assms(3,4) obtain b bal where
    b: "readAccountBalance W s0 (as_Process sn) (as_Asset sn) = Ok b"
    and bal: "integerSub W b (as_Amount sn) = Ok bal"
    and sv: "s = s0\<lparr>kvs := kv_set (buildAccountSnapshotKey sn) (JSnapshot sn)
     (kv_set (buildAccountBalanceKey (as_Process sn) (as_Asset sn)) (Dec bal) (kvs s0))\<rparr>"
    by auto
  have "bal = b - as_Amount sn" using bal amounts.sub_Ok [OF assms(1)] by simp
  then show ?thesis using readAccountBalance_Ok [OF assms(1) b] sv by (simp add: balance_def)
qed

text \<open>C3: a transaction leaves the group only for a debited event. When handling an event of the engine
  adds a transaction, exactly one is added, under the trace identifier of that event's nonce, and the
  debit of the process and nonce is on record; if it was not on record before, the balance goes down by
  the event's amount and stays non-negative.\<close>

theorem transaction_only_if_debited:
  assumes "amounts W" and "machine_ok W m" and "map_of (m_processes m) (p_Identifier p) = Some p"
    and "receive_event W p m pr e = Ok (stop, m', pr')" and "m_txs m' \<noteq> m_txs m"
    and "sn = \<lparr>as_Process = p_Identifier p, as_Nonce = e_Nonce e, as_Asset = e_Asset e,
               as_Amount = e_Amount e, as_Credit = False\<rparr>"
  shows "(\<exists>tx. m_txs m' = m_txs m @ [tx] \<and> tx_trace tx = traceId W p (e_Nonce e))
     \<and> db_lookup (m_store m') (buildAccountSnapshotKey sn) \<noteq> None
     \<and> (db_lookup (m_store m) (buildAccountSnapshotKey sn) = None \<longrightarrow>
          balance (m_store m') (p_Identifier p) (e_Asset e)
            = balance (m_store m) (p_Identifier p) (e_Asset e) - e_Amount e
          \<and> 0 \<le> balance (m_store m') (p_Identifier p) (e_Asset e))"
proof -
  have pid: "valid_pid (p_Identifier p)" using machine_ok_pid [OF assms(2,3)] by simp
  have ok': "machine_ok W m'" by (rule quiet_run_ok [OF receive_event_run [OF assms(4) pid] assms(2,1)])
  then have nn: "0 \<le> balance (m_store m') (p_Identifier p) (e_Asset e)"
    using pid unfolding machine_ok_def store_ok_def ledger_ok_def by blast
  from assms(4) show ?thesis
  proof (cases rule: receive_event_cases)
    case (sent x s cat m1 m2 s2)
    have x: "x = sn" using sent(1) by (auto simp: buildAccountSnapshot_def assms(6) split: if_splits)
    have s: "db_lookup s (buildAccountSnapshotKey sn) \<noteq> None"
      using WriteSnapshot_Ok [OF sent(2)] x by auto
    have "m_txs m1 = m_txs m" using checkAsset_txs [OF sent(3)] by simp
    then have tx: "\<exists>tx. m_txs m' = m_txs m @ [tx] \<and> tx_trace tx = traceId W p (e_Nonce e)"
      using buildGroupTransaction_tx [OF sent(4)] sent(6) by auto
    have later: "op_path (meta_op W) W s (m_store m')"
      using checkAsset_path [OF sent(3)] buildGroupTransaction_store [OF sent(4)]
        op_path_single [of W "m_store m2" "OpOffset (p_Identifier p) (e_Nonce e)" s2 "meta_op W"] sent(5,6)
      by (auto intro: op_path_trans)
    have keep: "db_lookup (m_store m') (buildAccountSnapshotKey sn) = db_lookup s (buildAccountSnapshotKey sn)"
      "balance (m_store m') q a = balance s q a" for q a
      using meta_path_ledger [OF later] by auto
    have "balance s (p_Identifier p) (e_Asset e) = balance (m_store m) (p_Identifier p) (e_Asset e) - e_Amount e"
      if "db_lookup (m_store m) (buildAccountSnapshotKey sn) = None"
      using debit_balance [OF assms(1) sent(2)] that by (simp add: x assms(6))
    with tx s keep nn show ?thesis by auto
  next
    case (fail x s cat y)
    with assms(5) checkAsset_txs [OF fail(3)] show ?thesis by simp
  qed (use assms(5) in simp)
qed

definition demo_withdrawal :: event where
  "demo_withdrawal = demo_event\<lparr>e_Amount := 3, e_Members := [''u''], e_Threshold := 1\<rparr>"

text \<open>The concrete machine up to the transaction, whatever the group answers to it.\<close>

lemma demo_withdrawal_run:
  fixes g :: "group_tx \<Rightarrow> unit res"
  defines "W \<equiv> demo_world\<lparr>groupBuild := g\<rparr>"
  obtains s m1 where "CheckAccountSnapshot W demo_store \<lparr>as_Process = demo_pid, as_Nonce = 0, as_Asset = demo_asset,
      as_Amount = 3, as_Credit = False\<rparr> = Ok True"
    "WriteAccountSnapshot W demo_store \<lparr>as_Process = demo_pid, as_Nonce = 0, as_Asset = demo_asset,
      as_Amount = 3, as_Credit = False\<rparr> = Ok s"
    "checkAssetOrCollectible W (demo_machine\<lparr>m_store := s\<rparr>) demo_asset = Ok (''ASSET'', m1)"
    "io (m_store m1) = (\<lambda>_. None)" "m_txs m1 = []"
proof -
  let ?sn = "\<lparr>as_Process = demo_pid, as_Nonce = 0, as_Asset = demo_asset, as_Amount = 3, as_Credit = False\<rparr>"
  have none: "db_lookup demo_store (buildAccountSnapshotKey ?sn) = None"
    by (simp add: demo_store_eq snapshot_key_inj)
  have io: "io demo_store = (\<lambda>_. None)" using demo_no_fault by (simp add: no_fault_def)
  have sel: "integerReadBack W 5 = Ok 5" "integerSub W 5 3 = Ok 2"
    "mixinReadAsset W i = Ok (Some \<lparr>ma_Symbol = ''BTC'', ma_Name = ''Bitcoin''\<rparr>)" for i
    by (simp_all add: W_def demo_world_simps wire_lib_def)
  obtain meta where meta: "encodeAssetMeta W ''BTC'' ''Bitcoin'' = Ok meta"
    by (simp add: encodeAssetMeta_def writeInt_def W_def demo_world_simps wire_lib_def wire_encInt_def)
  have check: "CheckAccountSnapshot W demo_store ?sn = Ok True"
    using io none demo_facts(2) sel
    by (simp add: CheckAccountSnapshot_def readAccountBalance_def read_opt_def as_decimal_def txn_get_def
        txn_value_def io_check_def del: rbind_Ok_iff)
  obtain s where s: "WriteAccountSnapshot W demo_store ?sn = Ok s" "io s = (\<lambda>_. None)"
    "db_lookup s (categoryKey demo_asset) = None" "db_lookup s (buildAssetMetaKey demo_asset) = None"
    using io none demo_facts(2) sel
    by (simp add: WriteAccountSnapshot_def store_eval del: rbind_Ok_iff)
      (simp add: demo_store_eq key_defs prefix_defs)
  obtain m1 where "checkAssetOrCollectible W (demo_machine\<lparr>m_store := s\<rparr>) demo_asset = Ok (''ASSET'', m1)"
    "io (m_store m1) = (\<lambda>_. None)" "m_txs m1 = []"
    using s(2-4) by (simp add: checkAssetOrCollectible_def ReadAssetOrCollectible_def fetchAssetMeta_def ReadAsset_def
        readAssetMeta_def WriteAsset_def WriteAssetOrCollectible_def store_eval sel meta demo_machine_def del: rbind_Ok_iff)
  with that check s(1) show ?thesis by blast
qed

lemma demo_withdrawal_simps:
  "e_Process demo_withdrawal = demo_pid" "e_Asset demo_withdrawal = demo_asset" "e_Nonce demo_withdrawal = 0"
  "e_Amount demo_withdrawal = 3" "e_Extra demo_withdrawal = []" "p_Identifier demo_process = demo_pid"
  "m_store demo_machine = demo_store" "m_txs demo_machine = []"
  by (simp_all add: demo_withdrawal_def demo_event_def demo_process_def demo_machine_def)

theorem transaction_only_if_debited_witness:
  "\<exists>m' pr'. receive_event demo_world (demo_process\<lparr>p_Nonce := 1\<rparr>) demo_machine [] demo_withdrawal = Ok (False, m', pr')
     \<and> balance (m_store m') demo_pid demo_asset = 2"
proof -
  let ?p = "demo_process\<lparr>p_Nonce := 1\<rparr>"
  have none: "db_lookup demo_store (buildAccountSnapshotKey \<lparr>as_Process = demo_pid, as_Nonce = 0,
      as_Asset = demo_asset, as_Amount = 3, as_Credit = False\<rparr>) = None"
    by (simp add: demo_store_eq snapshot_key_inj)
  have W: "demo_world\<lparr>groupBuild := \<lambda>tx. Ok ()\<rparr> = demo_world" "groupBuild demo_world = (\<lambda>tx. Ok ())"
    by (simp_all add: demo_world_simps)
  obtain m' where run: "receive_event demo_world ?p demo_machine [] demo_withdrawal = Ok (False, m', [0])"
    and tx: "m_txs m' \<noteq> m_txs demo_machine"
  proof (rule demo_withdrawal_run [of "\<lambda>tx. Ok ()", unfolded W])
    fix s m1
    assume "CheckAccountSnapshot demo_world demo_store \<lparr>as_Process = demo_pid, as_Nonce = 0, as_Asset = demo_asset,
      as_Amount = 3, as_Credit = False\<rparr> = Ok True"
    "WriteAccountSnapshot demo_world demo_store \<lparr>as_Process = demo_pid, as_Nonce = 0, as_Asset = demo_asset,
      as_Amount = 3, as_Credit = False\<rparr> = Ok s"
    "checkAssetOrCollectible demo_world (demo_machine\<lparr>m_store := s\<rparr>) demo_asset = Ok (''ASSET'', m1)"
    "io (m_store m1) = (\<lambda>_. None)" "m_txs m1 = []"
    with that show thesis
      by (simp add: receive_event_def buildAccountSnapshot_def demo_withdrawal_simps buildGroupTransaction_def Let_def
        W(2) WriteEngineGroupEventsOffset_def db_update_def txn_set_def io_check_def del: rbind_Ok_iff)
  qed
  have mp: "map_of (m_processes demo_machine) (p_Identifier ?p) = Some ?p"
    by (simp add: demo_machine_def demo_process_def)
  have "balance demo_store demo_pid demo_asset = 5" by (simp add: balance_def demo_facts)
  with transaction_only_if_debited [OF demo_world_amounts demo_machine_ok mp run tx HOL.refl] run none show ?thesis
    by (auto simp: demo_withdrawal_simps)
qed

text \<open>C39: a withdrawal whose transaction fails to build is debited and then skipped. When the loop takes up an event of the
  process that the balance covers, and the group never builds the transaction for it, the loop goes on: the debit is on
  record, and was taken from the balance if it was not before, no transaction is added, the nonce is marked as processed,
  and while the machine runs the event is never tried again, whatever the state and the answers of the group.\<close>

theorem failed_build_is_skipped:
  assumes "amounts W" and "receive_event (W :: world) p (m :: 'e machine) pr e = Ok (stop, m', pr')"
    and "sn = \<lparr>as_Process = p_Identifier p, as_Nonce = e_Nonce e, as_Asset = e_Asset e,
               as_Amount = e_Amount e, as_Credit = False\<rparr>"
    and "e_Process e = p_Identifier p" and "e_Nonce e \<notin> set pr" and "0 < e_Amount e"
    and "CheckAccountSnapshot W (m_store m) sn = Ok True"
    and "\<And>n cat n'. buildGroupTransaction W n p e cat \<noteq> Ok (n' :: 'e machine)"
  shows "\<not> stop \<and> m_txs m' = m_txs m \<and> pr' = e_Nonce e # pr
     \<and> db_lookup (m_store m') (buildAccountSnapshotKey sn) \<noteq> None
     \<and> (db_lookup (m_store m) (buildAccountSnapshotKey sn) = None \<longrightarrow>
          balance (m_store m') (p_Identifier p) (e_Asset e) = balance (m_store m) (p_Identifier p) (e_Asset e) - e_Amount e)
     \<and> (\<forall>V n qr. receive_event (V :: world) p (n :: 'e machine) (qr @ pr') e = Ok (False, n, qr @ pr'))"
proof -
  have sn: "buildAccountSnapshot p e False = Ok sn" using assms(4) by (simp add: buildAccountSnapshot_def assms(3))
  have "\<not> (e_Process e \<noteq> p_Identifier p \<or> e_Nonce e \<in> set pr \<or> e_Amount e \<le> 0)" using assms(4-6) by simp
  with sn assms(2,7) obtain s cat m1 where s: "WriteAccountSnapshot W (m_store m) sn = Ok s"
    and c1: "checkAssetOrCollectible W (m\<lparr>m_store := s\<rparr>) (e_Asset e) = Ok (cat, m1)"
    by (auto simp: receive_event_def)
  with sn assms(2,4-8) have "m1 = m' \<and> \<not> stop \<and> pr' = e_Nonce e # pr"
    by (cases "buildGroupTransaction W m1 p e cat") (auto simp: receive_event_def assms(8))
  with c1 have c: "checkAssetOrCollectible W (m\<lparr>m_store := s\<rparr>) (e_Asset e) = Ok (cat, m')"
    and r: "\<not> stop" "pr' = e_Nonce e # pr" by simp_all
  have keep: "db_lookup (m_store m') (buildAccountSnapshotKey sn) = db_lookup s (buildAccountSnapshotKey sn)"
    "balance (m_store m') q a = balance s q a" for q a
    using meta_path_ledger [OF checkAsset_path [OF c]] by simp_all
  have "db_lookup s (buildAccountSnapshotKey sn) \<noteq> None" using WriteSnapshot_Ok [OF s] by auto
  moreover have "db_lookup (m_store m) (buildAccountSnapshotKey sn) = None \<longrightarrow>
      balance s (p_Identifier p) (e_Asset e) = balance (m_store m) (p_Identifier p) (e_Asset e) - e_Amount e"
    using debit_balance [OF assms(1) s] by (simp add: assms(3))
  moreover have "receive_event V p n (qr @ pr') e = Ok (False, n, qr @ pr')" for V :: world and n :: "'e machine" and qr
    by (simp add: receive_event_def r(2))
  ultimately show ?thesis using r checkAsset_txs [OF c] by (simp add: keep)
qed

theorem failed_build_is_skipped_witness:
  "\<exists>m'. receive_event (demo_world\<lparr>groupBuild := \<lambda>tx. Err ''down''\<rparr>) demo_process demo_machine [] demo_withdrawal
       = Ok (False, m', [0]) \<and> m_txs m' = [] \<and> balance (m_store m') demo_pid demo_asset = 2
     \<and> receive_event demo_world demo_process m' [0] demo_withdrawal = Ok (False, m', [0])"
proof (rule demo_withdrawal_run [of "\<lambda>tx. Err ''down''"])
  fix s and m1 :: "unit machine"
  let ?W = "demo_world\<lparr>groupBuild := \<lambda>tx. Err ''down''\<rparr>"
  let ?sn = "\<lparr>as_Process = demo_pid, as_Nonce = 0, as_Asset = demo_asset, as_Amount = 3, as_Credit = False\<rparr>"
  assume 1: "CheckAccountSnapshot ?W demo_store ?sn = Ok True" "WriteAccountSnapshot ?W demo_store ?sn = Ok s"
    "checkAssetOrCollectible ?W (demo_machine\<lparr>m_store := s\<rparr>) demo_asset = Ok (''ASSET'', m1)"
    "m_txs m1 = []"
  have run: "receive_event ?W demo_process demo_machine [] demo_withdrawal = Ok (False, m1, [0])"
    using 1 by (simp add: receive_event_def buildAccountSnapshot_def demo_withdrawal_simps buildGroupTransaction_def
        Let_def del: rbind_Ok_iff)
  have W: "amounts ?W" using demo_world_amounts by (simp add: amounts_def)
  have sn: "?sn = \<lparr>as_Process = p_Identifier demo_process, as_Nonce = e_Nonce demo_withdrawal, as_Asset = e_Asset demo_withdrawal,
      as_Amount = e_Amount demo_withdrawal, as_Credit = False\<rparr>" by (simp add: demo_withdrawal_simps)
  have fails: "buildGroupTransaction ?W n demo_process demo_withdrawal cat \<noteq> Ok n'" for n n' :: "unit machine" and cat
    by (simp add: buildGroupTransaction_def Let_def)
  have check: "CheckAccountSnapshot ?W (m_store demo_machine) ?sn = Ok True" using 1(1) by (simp add: demo_withdrawal_simps)
  have none: "db_lookup demo_store (buildAccountSnapshotKey ?sn) = None" by (simp add: demo_store_eq snapshot_key_inj)
  have "balance demo_store demo_pid demo_asset = 5" by (simp add: balance_def demo_facts)
  moreover note th = failed_build_is_skipped [OF W run sn _ _ _ check fails]
  then have "\<forall>V n qr. receive_event (V :: world) demo_process (n :: unit machine) (qr @ [0]) demo_withdrawal = Ok (False, n, qr @ [0])"
    by (simp add: demo_withdrawal_simps)
  from this [THEN spec, of demo_world, THEN spec, of m1, THEN spec, of "[]"]
  have "receive_event demo_world demo_process m1 [0] demo_withdrawal = Ok (False, m1, [0])" by simp
  moreover have "balance (m_store m1) demo_pid demo_asset = balance demo_store demo_pid demo_asset - 3"
    using th none by (simp add: demo_withdrawal_simps)
  ultimately show ?thesis using run 1(4) by simp
qed

text \<open>A process is added only on payment and only once. \<open>AddProcess\<close> answers true only for an
  output that its own sender made, in the fee asset and of at least the fee, whose address no process
  has; then the process is stored with nonce and credit zero.\<close>

theorem process_added_once:
  assumes "machine_ok W m" and "AddProcess E m pid platform address out extra = Ok (True, m')"
  shows "out_Sender out = pid \<and> out_AssetID out = m_feeAssetId m \<and> m_feeAmount m \<le> out_Amount out
     \<and> getProcess m pid = None \<and> (\<forall>q p. getProcess m q = Some p \<longrightarrow> p_Address p \<noteq> address)
     \<and> getProcess m' pid = Some \<lparr>p_Identifier = pid, p_Platform = platform, p_Address = address,
            p_Credit = 0, p_Nonce = 0, p_Asset = str_contains extra ''META''\<rparr>"
  using assms(2)
proof (cases rule: AddProcess_cases)
  case (2 engine engine' p s)
  have old: "p_Identifier q \<noteq> pid \<and> p_Address q \<noteq> address" if "map_of (m_processes m) k = Some q" for k q
    using map_of_SomeD [OF that] 2(2,6) by (auto simp: list_ex_iff)
  then have "map_of (m_processes m) pid = None"
    using machine_ok_pid [OF assms(1)] by (metis not_None_eq)
  with old 2 show ?thesis by (auto simp: getProcess_def)
qed simp

definition demo_engine :: "unit engine_ops" where
  "demo_engine = \<lparr>VerifyAddress = (\<lambda>_ _ _. Ok ()), SetupNotifier = (\<lambda>e _. Ok e), EstimateCost = (\<lambda>_ _. Ok 0),
     EnsureSendGroupEvents = (\<lambda>e _ _. Ok e), ReceiveGroupEvents = (\<lambda>_ _ _ _. Ok [])\<rparr>"

theorem process_added_once_witness:
  "\<exists>m'. AddProcess demo_engine demo_machine demo_asset ''quorum'' ''new'' \<lparr>out_UTXOID = ''u9'',
        out_Sender = demo_asset, out_AssetID = demo_asset, out_Amount = 2, out_Memo = [], out_CreatedAt = 9\<rparr> []
       = Ok (True, m') \<and> getProcess demo_machine demo_asset = None"
proof -
  let ?out = "\<lparr>out_UTXOID = ''u9'', out_Sender = demo_asset, out_AssetID = demo_asset, out_Amount = 2,
    out_Memo = [], out_CreatedAt = 9\<rparr>"
  have ne: "demo_pid \<noteq> demo_asset"
  proof
    assume "demo_pid = demo_asset"
    then have "uuid_parse (uuid_text (replicate 16 (CHR ''p''))) = uuid_parse (uuid_text (replicate 16 (CHR ''c'')))"
      by (simp only: demo_pid_def demo_asset_def)
    then have "replicate 16 (CHR ''p'') = replicate 16 (CHR ''c'')"
      by (simp only: uuid_parse_text length_replicate res.inject)
    then show False by (simp only: replicate_eq_replicate) simp
  qed
  have none: "db_lookup demo_store (processKey demo_asset) = None" using ne by (simp add: demo_store_eq)
  have io: "io demo_store = (\<lambda>_. None)" using demo_no_fault by (simp add: no_fault_def)
  obtain m' where m': "AddProcess demo_engine demo_machine demo_asset ''quorum'' ''new'' ?out [] = Ok (True, m')"
    using ne none io by (simp add: AddProcess_def demo_machine_def demo_engine_def demo_process_def store_eval Let_def
        del: rbind_Ok_iff)
  from process_added_once [OF demo_machine_ok m'] m' show ?thesis by blast
qed

end
