(* ===== verification/Quorum.thy ===== *)
theory Quorum
  imports Machine
begin

text \<open>
  mvm/quorum: the engine for an Ethereum-style chain. Its state is a database of queues and notifiers;
  the chain's node answers through \<open>rpc_reply\<close>s, and go-ethereum's functions are fields of \<open>qlib\<close>.
  Each endless loop is the body of one iteration; the raw transactions given to the node are appended to
  \<open>q_sent\<close> and the goroutines started for contracts to \<open>q_contracts\<close>.
\<close>

section \<open>Outside the engine\<close>

record qlib = lib +
  keccak256 :: "bytes \<Rightarrow> bytes"
  ethVerifyAddress :: "string \<Rightarrow> unit res"
  hexToECDSA :: "string \<Rightarrow> string res"
  toECDSA :: "bytes \<Rightarrow> string res"
  pubkeyToAddress :: "string \<Rightarrow> string"
  addressHex :: "bytes \<Rightarrow> string"
  ethSignTx :: "string \<Rightarrow> int \<Rightarrow> u64 \<Rightarrow> bytes \<Rightarrow> int \<Rightarrow> bytes option \<Rightarrow> (string \<times> bytes) res"
  hexSpare :: "string \<Rightarrow> bytes"
  decimalDiv :: "rat \<Rightarrow> rat \<Rightarrow> rat"

text \<open>\<open>hexToECDSA\<close> and \<open>toECDSA\<close> give the private key as the hexadecimal text of \<open>crypto.FromECDSA\<close>;
  \<open>hexSpare\<close> the bytes between the length and the capacity of the slice \<open>hex.DecodeString\<close> returns;
  \<open>decimalDiv\<close> is \<open>decimal.Decimal.Div\<close>, which rounds.

  The outcome of a call to the node: \<open>chain.call\<close> or the JSON decoding failed, the node answered
  with an error object, or with a result.\<close>

datatype 'a rpc_reply = RpcFail goerr | RpcError int string | RpcResult 'a

record rpc_node =
  rpc_blockNumber :: "string rpc_reply"
  rpc_transactionCount :: "string \<Rightarrow> string rpc_reply"
  rpc_balance :: "string \<Rightarrow> string rpc_reply"
  rpc_logs :: "u64 \<Rightarrow> u64 \<Rightarrow> (string \<times> string) list rpc_reply"
  rpc_send :: "string \<Rightarrow> string rpc_reply"

section \<open>RPC (rpc.go)\<close>

definition quorumMinimumHeight :: u64 where
  "quorumMinimumHeight = 256"

definition etherPrecision :: nat where
  "etherPrecision = 18"

definition EthereumError_Error :: "int \<Rightarrow> string \<Rightarrow> goerr" where
  "EthereumError_Error code msg = ''RPC ERROR Ethereum '' @ (if code < 0 then ''-'' else [])
     @ nat_digits (nat \<bar>code\<bar>) @ '' '' @ msg"

text \<open>\<open>big.Int.SetString(s, 0)\<close> on a text that starts with \<open>0x\<close>: hexadecimal digits, with single
  underscores allowed before each digit.\<close>

fun go_hex :: "nat \<Rightarrow> string \<Rightarrow> nat option" where
  "go_hex acc [] = Some acc"
| "go_hex acc (c # cs) =
     (if c = CHR ''_'' then
        (case cs of [] \<Rightarrow> None
         | d # ds \<Rightarrow> (case hexval d of None \<Rightarrow> None | Some v \<Rightarrow> go_hex (16 * acc + v) ds))
      else (case hexval c of None \<Rightarrow> None | Some v \<Rightarrow> go_hex (16 * acc + v) cs))"

definition big_SetString :: "string \<Rightarrow> nat option" where
  "big_SetString s = (if length s \<le> 2 then None else go_hex 0 (drop 2 s))"

definition ethereumNumberToUint64 :: "string \<Rightarrow> u64 res" where
  "ethereumNumberToUint64 hex =
     (if \<not> has_prefix ''0x'' hex then Err (''invalid hex '' @ hex)
      else case big_SetString hex of
        None \<Rightarrow> Err (''invalid hex '' @ hex)
      | Some v \<Rightarrow> if 2 ^ 64 \<le> v then Err (''invalid uint64 '' @ hex) else Ok (word_of_nat v))"

definition ethereumNumberToDecimal :: "'z qlib_scheme \<Rightarrow> string \<Rightarrow> rat res" where
  "ethereumNumberToDecimal Q hex =
     (if \<not> has_prefix ''0x'' hex then Err (''invalid hex '' @ hex)
      else case big_SetString hex of
        None \<Rightarrow> Err (''invalid hex '' @ hex)
      | Some v \<Rightarrow> Ok (decimalDiv Q (of_nat v) (10 ^ etherPrecision)))"

definition GetBlockHeight :: "rpc_node \<Rightarrow> u64 res" where
  "GetBlockHeight N = (case rpc_blockNumber N of
       RpcFail e \<Rightarrow> Err e | RpcError c m \<Rightarrow> Err (EthereumError_Error c m)
     | RpcResult r \<Rightarrow> ethereumNumberToUint64 r)"

definition GetAddressNonce :: "rpc_node \<Rightarrow> string \<Rightarrow> u64 res" where
  "GetAddressNonce N address = (case rpc_transactionCount N address of
       RpcFail e \<Rightarrow> Err e | RpcError c m \<Rightarrow> Err (EthereumError_Error c m)
     | RpcResult r \<Rightarrow> ethereumNumberToUint64 r)"

text \<open>On an error object the code returns the variable \<open>err\<close>, which is nil there.\<close>

definition GetAddressBalance :: "'z qlib_scheme \<Rightarrow> rpc_node \<Rightarrow> string \<Rightarrow> rat res" where
  "GetAddressBalance Q N address = (case rpc_balance N address of
       RpcFail e \<Rightarrow> Err e | RpcError c m \<Rightarrow> Ok 0
     | RpcResult r \<Rightarrow> ethereumNumberToDecimal Q r)"

definition SendRawTransaction :: "rpc_node \<Rightarrow> string \<Rightarrow> string res" where
  "SendRawTransaction N raw = (case rpc_send N raw of
       RpcFail e \<Rightarrow> Err e | RpcError c m \<Rightarrow> Err (EthereumError_Error c m) | RpcResult r \<Rightarrow> Ok r)"

definition NewRPC :: "rpc_node \<Rightarrow> u64 \<Rightarrow> unit res" where
  "NewRPC N base = rbind (GetBlockHeight N) (\<lambda>height.
     if base < quorumMinimumHeight then Err ''block base too small''
     else if height < base then Err ''block height too small'' else Ok ())"

text \<open>The slice expression \<open>b[64 : 64+n]\<close> is bounded by the capacity of \<open>b\<close>, not by its length.\<close>

definition parseTransactionLog :: "'z qlib_scheme \<Rightarrow> string \<Rightarrow> bytes res" where
  "parseTransactionLog Q data = rbind (hexDecode data) (\<lambda>b.
     if length b mod 32 \<noteq> 0 then Err ''invalid log length''
     else if length b < 128 then Err ''invalid log length''
     else if 2 ^ 63 \<le> be_nat (take 32 b) then Err ''invalid log data''
     else if be_nat (take 32 b) \<noteq> 32 then Err ''invalid log data''
     else let n = be_nat (take 32 (drop 32 b)) in
       if 2 ^ 63 \<le> n then Err ''invalid log size''
       else if 512 < n then Err ''invalid log size''
       else if length b + length (hexSpare Q data) < 64 + n then Panic ''slice bounds out of range''
       else Ok (take n (drop 64 (b @ hexSpare Q data))))"

text \<open>\<open>copy(address[:], ab)\<close> into twenty zero bytes.\<close>

definition to_address :: "bytes \<Rightarrow> bytes" where
  "to_address ab = take 20 (ab @ replicate 20 (CHR 0x00))"

definition formatAddress :: "'z qlib_scheme \<Rightarrow> string \<Rightarrow> string res" where
  "formatAddress Q to = (if length to < 2 then Panic ''slice bounds out of range''
     else rbind (must (hexDecode (drop 2 to))) (\<lambda>ab. Ok (addressHex Q (to_address ab))))"

fun parse_logs :: "'z qlib_scheme \<Rightarrow> (string \<times> string) list \<Rightarrow> (string \<times> bytes) list res" where
  "parse_logs Q [] = Ok []"
| "parse_logs Q ((address, data) # rs) =
     (if length data < 2 then Panic ''slice bounds out of range''
      else case parseTransactionLog Q (drop 2 data) of
        Panic e \<Rightarrow> Panic e
      | Err e \<Rightarrow> parse_logs Q rs
      | Ok b \<Rightarrow> rbind (formatAddress Q address) (\<lambda>a. rbind (parse_logs Q rs) (\<lambda>ls. Ok ((a, b) # ls))))"

definition GetLogs :: "'z qlib_scheme \<Rightarrow> rpc_node \<Rightarrow> u64 \<Rightarrow> u64 \<Rightarrow> (string \<times> bytes) list res" where
  "GetLogs Q N from to = (case rpc_logs N from to of
       RpcFail e \<Rightarrow> Err e | RpcError c m \<Rightarrow> Err (EthereumError_Error c m)
     | RpcResult rs \<Rightarrow> parse_logs Q rs)"

section \<open>The engine's database (store.go)\<close>

record qengine =
  q_db :: store
  q_chainId :: int
  q_key :: string
  q_contracts :: "string list"
  q_sent :: "string list"

definition prefixQuorumContractNotifier :: string where
  "prefixQuorumContractNotifier = ''QUORUM:CONTRACT:NOTIFIER:''"

definition prefixQuorumContractLogOffset :: string where
  "prefixQuorumContractLogOffset = ''QUORUM:CONTRACT:LOG:OFFSET:ALL''"

definition prefixQuorumContractEventQueue :: string where
  "prefixQuorumContractEventQueue = ''QUORUM:CONTRACT:EVENT:QUEUE:''"

definition prefixQuorumGroupEventQueue :: string where
  "prefixQuorumGroupEventQueue = ''QUORUM:GROUP:EVENT:QUEUE:''"

definition contractEventKey :: "string \<Rightarrow> u64 \<Rightarrow> bytes" where
  "contractEventKey address nonce = (prefixQuorumContractEventQueue @ address) @ uint64Bytes nonce"

definition groupEventKey :: "string \<Rightarrow> u64 \<Rightarrow> bytes" where
  "groupEventKey address nonce = (prefixQuorumGroupEventQueue @ address) @ uint64Bytes nonce"

definition notifierKey :: "string \<Rightarrow> bytes" where
  "notifierKey address = prefixQuorumContractNotifier @ address"

definition storeWriteContractNotifier :: "store \<Rightarrow> string \<Rightarrow> string \<Rightarrow> store res" where
  "storeWriteContractNotifier s address notifier = db_update s (\<lambda>s.
     rbind (txn_get s (notifierKey address)) (\<lambda>item.
     if item \<noteq> None then Panic address else txn_set s (notifierKey address) (Raw notifier)))"

definition storeReadContractNotifier :: "store \<Rightarrow> string \<Rightarrow> string res" where
  "storeReadContractNotifier s address = rbind (must (read_opt s as_bytes (notifierKey address))) (\<lambda>v.
     Ok (case v of None \<Rightarrow> [] | Some b \<Rightarrow> b))"

definition storeListContractAddresses :: "store \<Rightarrow> string list res" where
  "storeListContractAddresses s =
     Ok (map (\<lambda>x. drop (length prefixQuorumContractNotifier) (fst x))
          (iter_from s prefixQuorumContractNotifier prefixQuorumContractNotifier))"

definition storeReadContractLogsOffset :: "store \<Rightarrow> u64 res" where
  "storeReadContractLogsOffset s = rbind (must (read_opt s as_bytes prefixQuorumContractLogOffset)) (\<lambda>v.
     case v of None \<Rightarrow> Ok 0 | Some b \<Rightarrow> getUint64 b)"

definition storeWriteContractLogsOffset :: "store \<Rightarrow> u64 \<Rightarrow> store res" where
  "storeWriteContractLogsOffset s offset =
     db_update s (\<lambda>s. txn_set s prefixQuorumContractLogOffset (Raw (uint64Bytes offset)))"

definition storeReadLastContractEventNonce :: "store \<Rightarrow> string \<Rightarrow> u64 res" where
  "storeReadLastContractEventNonce s address =
     (case iter_rev_from s (prefixQuorumContractEventQueue @ address) (contractEventKey address (- 1)) of
        [] \<Rightarrow> Ok 0
      | (k, v) # _ \<Rightarrow> rbind (must (txn_value s k v)) (\<lambda>w. rbind (must (as_event w)) (\<lambda>evt. Ok (e_Nonce evt))))"

definition storeWriteContractEvent :: "store \<Rightarrow> string \<Rightarrow> event \<Rightarrow> store res" where
  "storeWriteContractEvent s address evt = db_update s (\<lambda>s.
     rbind (txn_get s (contractEventKey address (e_Nonce evt))) (\<lambda>item.
     if item \<noteq> None then Ok s else txn_set s (contractEventKey address (e_Nonce evt)) (JEvent evt)))"

definition storeListContractEvents :: "store \<Rightarrow> string \<Rightarrow> u64 \<Rightarrow> int \<Rightarrow> event list res" where
  "storeListContractEvents s address offset limit =
     list_loop s (\<lambda>v. must (as_event v)) (\<lambda>n. limit \<le> int n) []
       (iter_from s (prefixQuorumContractEventQueue @ address) (contractEventKey address offset))"

definition write_group_event :: "string \<Rightarrow> store \<Rightarrow> event \<Rightarrow> store res" where
  "write_group_event address s evt =
     rbind (txn_get s (groupEventKey address (e_Nonce evt))) (\<lambda>item.
     if item \<noteq> None then Ok s else txn_set s (groupEventKey address (e_Nonce evt)) (JEvent evt))"

definition storeWriteGroupEvents :: "store \<Rightarrow> string \<Rightarrow> event list \<Rightarrow> store res" where
  "storeWriteGroupEvents s address events = db_update s (\<lambda>s. rfold (write_group_event address) s events)"

definition storeListGroupEvents :: "store \<Rightarrow> string \<Rightarrow> u64 \<Rightarrow> int \<Rightarrow> event list res" where
  "storeListGroupEvents s address offset limit =
     list_loop s (\<lambda>v. must (as_event v)) (\<lambda>n. limit \<le> int n) []
       (iter_from s (prefixQuorumGroupEventQueue @ address) (groupEventKey address offset))"

section \<open>Transactions (transaction.go)\<close>

definition EventMethod :: string where
  "EventMethod = ''0x5cae8005''"

definition signTransaction ::
  "'z qlib_scheme \<Rightarrow> qengine \<Rightarrow> string \<Rightarrow> string \<Rightarrow> rat \<Rightarrow> bytes option \<Rightarrow> u64 \<Rightarrow> (string \<times> string) res" where
  "signTransaction Q e to key amount data nonce =
     rbind (must (hexToECDSA Q key)) (\<lambda>priv.
     if length to < 2 then Panic ''slice bounds out of range''
     else rbind (must (hexDecode (drop 2 to))) (\<lambda>cb.
     rbind (must (ethSignTx Q priv (q_chainId e) nonce (to_address cb) \<lfloor>amount * 10 ^ etherPrecision\<rfloor> data)) (\<lambda>(i, rb).
     Ok (i, ''0x'' @ hexEncode rb))))"

definition signContractNotifierDepositTransaction ::
  "'z qlib_scheme \<Rightarrow> qengine \<Rightarrow> string \<Rightarrow> string \<Rightarrow> rat \<Rightarrow> u64 \<Rightarrow> (string \<times> string) res" where
  "signContractNotifierDepositTransaction Q e to key amount nonce = signTransaction Q e to key amount None nonce"

text \<open>The call data as text: the selector, the offset, the length, the bytes, and \<open>00\<close> up to a word.\<close>

definition group_event_data :: "bytes \<Rightarrow> string" where
  "group_event_data b =
     EventMethod @ pad_left (CHR ''0'') 64 (nat_hex 32) @ pad_left (CHR ''0'') 64 (nat_hex (length b))
       @ hexEncode b
       @ concat (replicate (if length b mod 32 = 0 then 0 else 32 - length b mod 32) ''00'')"

definition signGroupEventTransaction ::
  "'z qlib_scheme \<Rightarrow> qengine \<Rightarrow> string \<Rightarrow> event \<Rightarrow> string \<Rightarrow> (string \<times> string) res" where
  "signGroupEventTransaction Q e contract evt notifier =
     rbind (Event_Encode Q evt) (\<lambda>b.
     rbind (must (hexDecode (drop 2 (group_event_data b)))) (\<lambda>db.
     signTransaction Q e contract notifier 0 (Some db) (e_Nonce evt)))"

section \<open>The engine (engine.go)\<close>

definition NotifierMinimumBalance :: rat where
  "NotifierMinimumBalance = 1 / 10"

definition NotifierMaximumBalance :: rat where
  "NotifierMaximumBalance = 1"

definition pub :: "'z qlib_scheme \<Rightarrow> string \<Rightarrow> string res" where
  "pub Q priv = rbind (must (hexToECDSA Q priv)) (\<lambda>k. Ok (pubkeyToAddress Q k))"

definition quorum_Boot :: "'z qlib_scheme \<Rightarrow> rpc_node \<Rightarrow> store \<Rightarrow> int \<Rightarrow> u64 \<Rightarrow> string \<Rightarrow> qengine res" where
  "quorum_Boot Q N db chainId base privateKey =
     rbind (NewRPC N base) (\<lambda>_.
     rbind (if privateKey \<noteq> [] then must (hexToECDSA Q privateKey) else Ok []) (\<lambda>key.
     Ok \<lparr>q_db = db, q_chainId = chainId, q_key = key, q_contracts = [], q_sent = []\<rparr>))"

definition IsPublisher :: "qengine \<Rightarrow> bool" where
  "IsPublisher e \<longleftrightarrow> q_key e \<noteq> []"

definition Quorum_VerifyAddress :: "'z qlib_scheme \<Rightarrow> qengine \<Rightarrow> string \<Rightarrow> bytes \<Rightarrow> unit res" where
  "Quorum_VerifyAddress Q e address extra = ethVerifyAddress Q address"

definition Quorum_SetupNotifier :: "'z qlib_scheme \<Rightarrow> rpc_node \<Rightarrow> qengine \<Rightarrow> string \<Rightarrow> qengine res" where
  "Quorum_SetupNotifier Q N e address =
     rbind (must (toECDSA Q (keccak256 Q (q_key e @ address)))) (\<lambda>notifier.
     rbind (pub Q notifier) (\<lambda>a.
     rbind (must (GetAddressNonce N a)) (\<lambda>_.
     rbind (storeReadContractNotifier (q_db e) address) (\<lambda>old.
     if old = notifier then Ok e
     else if old \<noteq> [] then Panic old
     else rbind (storeWriteContractNotifier (q_db e) address notifier) (\<lambda>s. Ok (e\<lparr>q_db := s\<rparr>))))))"

definition Quorum_EstimateCost :: "qengine \<Rightarrow> event list \<Rightarrow> int res" where
  "Quorum_EstimateCost e events = Ok 0"

definition Quorum_EnsureSendGroupEvents :: "qengine \<Rightarrow> string \<Rightarrow> event list \<Rightarrow> qengine res" where
  "Quorum_EnsureSendGroupEvents e address events =
     rbind (storeWriteGroupEvents (q_db e) address events) (\<lambda>s. Ok (e\<lparr>q_db := s\<rparr>))"

definition Quorum_ReceiveGroupEvents :: "qengine \<Rightarrow> string \<Rightarrow> u64 \<Rightarrow> int \<Rightarrow> event list res" where
  "Quorum_ReceiveGroupEvents e address offset limit = storeListContractEvents (q_db e) address offset limit"

definition quorum_ops :: "'z qlib_scheme \<Rightarrow> rpc_node \<Rightarrow> qengine engine_ops" where
  "quorum_ops Q N = \<lparr>VerifyAddress = Quorum_VerifyAddress Q, SetupNotifier = Quorum_SetupNotifier Q N,
     EstimateCost = Quorum_EstimateCost, EnsureSendGroupEvents = Quorum_EnsureSendGroupEvents,
     ReceiveGroupEvents = Quorum_ReceiveGroupEvents\<rparr>"

text \<open>The loop over the logs of one range of blocks.\<close>

definition store_log :: "'z qlib_scheme \<Rightarrow> qengine \<Rightarrow> string \<times> bytes \<Rightarrow> qengine res" where
  "store_log Q e l = (case l of (address, data) \<Rightarrow>
     (case DecodeEvent Q data of
        Panic x \<Rightarrow> Panic x
      | Err x \<Rightarrow> Ok e
      | Ok evt \<Rightarrow> rbind (must (storeWriteContractEvent (q_db e) address evt)) (\<lambda>s. Ok (e\<lparr>q_db := s\<rparr>))))"

text \<open>\<open>N\<close> answers the call of \<open>GetLogs\<close>, \<open>N'\<close> the later one of \<open>GetBlockHeight\<close>.\<close>

definition loopGetLogs :: "'z qlib_scheme \<Rightarrow> rpc_node \<Rightarrow> rpc_node \<Rightarrow> qengine \<Rightarrow> u64 \<Rightarrow> qengine res" where
  "loopGetLogs Q N N' e base =
     rbind (storeReadContractLogsOffset (q_db e)) (\<lambda>offset.
     let offset = (if offset < base then base else offset) in
     case GetLogs Q N offset (offset + 10) of
       Panic x \<Rightarrow> Panic x
     | Err x \<Rightarrow> Ok e
     | Ok logs \<Rightarrow>
         rbind (rfold (store_log Q) e logs) (\<lambda>e.
         case GetBlockHeight N' of
           Panic x \<Rightarrow> Panic x
         | Err x \<Rightarrow> Ok e
         | Ok height \<Rightarrow>
             if height < offset + 10 then Ok e
             else rbind (must (storeWriteContractLogsOffset (q_db e) (offset + 10))) (\<lambda>s. Ok (e\<lparr>q_db := s\<rparr>))))"

definition send_group_event :: "'z qlib_scheme \<Rightarrow> string \<Rightarrow> string \<Rightarrow> qengine \<Rightarrow> event \<Rightarrow> qengine res" where
  "send_group_event Q address notifier e evt =
     rbind (signGroupEventTransaction Q e address evt notifier) (\<lambda>(_, raw).
     Ok (e\<lparr>q_sent := q_sent e @ [raw]\<rparr>))"

definition loopSendGroupEvents :: "'z qlib_scheme \<Rightarrow> rpc_node \<Rightarrow> qengine \<Rightarrow> string \<Rightarrow> qengine res" where
  "loopSendGroupEvents Q N e address =
     rbind (storeReadContractNotifier (q_db e) address) (\<lambda>notifier.
     if \<not> IsPublisher e then Ok e
     else rbind (pub Q notifier) (\<lambda>a.
     case GetAddressBalance Q N a of
       Panic x \<Rightarrow> Panic x
     | Err x \<Rightarrow> Ok e
     | Ok bal \<Rightarrow>
         if bal < NotifierMinimumBalance / 2 then Ok e
         else (case GetAddressNonce N a of
             Panic x \<Rightarrow> Panic x
           | Err x \<Rightarrow> Ok e
           | Ok nonce \<Rightarrow>
               rbind (must (storeListGroupEvents (q_db e) address nonce 100)) (\<lambda>evts.
               rfold (send_group_event Q address notifier) e evts))))"

text \<open>The deposits of one round; \<open>nonce\<close> counts the transactions sent.\<close>

fun deposit_notifiers :: "'z qlib_scheme \<Rightarrow> rpc_node \<Rightarrow> qengine \<Rightarrow> u64 \<Rightarrow> string list \<Rightarrow> qengine res" where
  "deposit_notifiers Q N e nonce [] = Ok e"
| "deposit_notifiers Q N e nonce (c # cs) =
     rbind (storeReadContractNotifier (q_db e) c) (\<lambda>notifier.
     rbind (pub Q notifier) (\<lambda>a.
     case GetAddressBalance Q N a of
       Panic x \<Rightarrow> Panic x
     | Err x \<Rightarrow> Ok e
     | Ok bal \<Rightarrow>
         if NotifierMinimumBalance < bal then deposit_notifiers Q N e nonce cs
         else rbind (signContractNotifierDepositTransaction Q e a (q_key e) NotifierMaximumBalance nonce) (\<lambda>(_, raw).
              deposit_notifiers Q N (e\<lparr>q_sent := q_sent e @ [raw]\<rparr>) (nonce + 1) cs)))"

definition loopHandleContracts :: "'z qlib_scheme \<Rightarrow> rpc_node \<Rightarrow> qengine \<Rightarrow> qengine res" where
  "loopHandleContracts Q N e =
     rbind (must (storeListContractAddresses (q_db e))) (\<lambda>all.
     let e = foldl (\<lambda>e c. if c \<in> set (q_contracts e) then e
                          else e\<lparr>q_contracts := q_contracts e @ [c]\<rparr>) e all in
     if \<not> IsPublisher e then Ok e
     else rbind (pub Q (q_key e)) (\<lambda>a.
     case GetAddressNonce N a of
       Panic x \<Rightarrow> Panic x
     | Err x \<Rightarrow> Ok e
     | Ok nonce \<Rightarrow> deposit_notifiers Q N e nonce all))"

end
