(* ===== verification/Quorum_Laws.thy ===== *)
theory Quorum_Laws
  imports Quorum Machine_Laws
begin

text \<open>
  The quorum engine keeps the contract of \<open>event_engine\<close>: its two queues are \<open>nonce_queue\<close>s,
  because every address it handles is the 42-character text of an Ethereum address. Then the ABI layout
  of the call data, the scan of the chain's logs, and what the RPC layer does with errors.
\<close>

section \<open>The queues\<close>

definition eth_address :: "string \<Rightarrow> bool" where
  "eth_address a \<longleftrightarrow> length a = 42"

locale eth_lib =
  fixes Q :: "'z qlib_scheme"
  assumes verified_length: "ethVerifyAddress Q a = Ok u \<Longrightarrow> eth_address a"
    and printed_length: "length b = 20 \<Longrightarrow> eth_address (addressHex Q b)"

lemmas quorum_keys = contractEventKey_def groupEventKey_def notifierKey_def uint64Bytes_def
  prefixQuorumContractNotifier_def prefixQuorumContractLogOffset_def
  prefixQuorumContractEventQueue_def prefixQuorumGroupEventQueue_def

interpretation contractq: nonce_queue "\<lambda>a. prefixQuorumContractEventQueue @ a" contractEventKey eth_address
proof
  show "contractEventKey a n = (prefixQuorumContractEventQueue @ a) @ putUint64 n" for a n
    by (simp add: contractEventKey_def uint64Bytes_def)
  show "a = b" if "eth_address a" "eth_address b"
    "has_prefix (prefixQuorumContractEventQueue @ a) (contractEventKey b n)" for a b n
    using that by (auto simp: quorum_keys eth_address_def has_prefix_def)
qed

interpretation groupq: nonce_queue "\<lambda>a. prefixQuorumGroupEventQueue @ a" groupEventKey eth_address
proof
  show "groupEventKey a n = (prefixQuorumGroupEventQueue @ a) @ putUint64 n" for a n
    by (simp add: groupEventKey_def uint64Bytes_def)
  show "a = b" if "eth_address a" "eth_address b"
    "has_prefix (prefixQuorumGroupEventQueue @ a) (groupEventKey b n)" for a b n
    using that by (auto simp: quorum_keys eth_address_def has_prefix_def)
qed

lemma quorum_key_neq [simp]:
  "contractEventKey a n \<noteq> groupEventKey b m" "groupEventKey b m \<noteq> contractEventKey a n"
  "contractEventKey a n \<noteq> notifierKey b" "notifierKey b \<noteq> contractEventKey a n"
  "groupEventKey a n \<noteq> notifierKey b" "notifierKey b \<noteq> groupEventKey a n"
  "contractEventKey a n \<noteq> prefixQuorumContractLogOffset" "prefixQuorumContractLogOffset \<noteq> contractEventKey a n"
  "groupEventKey a n \<noteq> prefixQuorumContractLogOffset" "prefixQuorumContractLogOffset \<noteq> groupEventKey a n"
  "notifierKey a \<noteq> prefixQuorumContractLogOffset" "prefixQuorumContractLogOffset \<noteq> notifierKey a"
  by (simp_all add: quorum_keys)

lemma quorum_no_prefix [simp]:
  "\<not> has_prefix (prefixQuorumContractEventQueue @ a) (groupEventKey b n)"
  "\<not> has_prefix (prefixQuorumGroupEventQueue @ a) (contractEventKey b n)"
  "\<not> has_prefix (prefixQuorumContractEventQueue @ a) (notifierKey b)"
  "\<not> has_prefix (prefixQuorumGroupEventQueue @ a) (notifierKey b)"
  "\<not> has_prefix (prefixQuorumContractEventQueue @ a) prefixQuorumContractLogOffset"
  "\<not> has_prefix (prefixQuorumGroupEventQueue @ a) prefixQuorumContractLogOffset"
  by (simp_all add: quorum_keys has_prefix_def)

definition qdb_ok :: "store \<Rightarrow> bool" where
  "qdb_ok s \<longleftrightarrow> db_ok s
     \<and> only_queue_keys (\<lambda>a. prefixQuorumContractEventQueue @ a) contractEventKey eth_address s
     \<and> only_queue_keys (\<lambda>a. prefixQuorumGroupEventQueue @ a) groupEventKey eth_address s
     \<and> typed_queue contractEventKey eth_address s \<and> typed_queue groupEventKey eth_address s"

lemma qdb_ok_other:
  assumes "qdb_ok s" "\<And>a n. k \<noteq> contractEventKey a n" "\<And>a n. k \<noteq> groupEventKey a n"
    "\<And>a. \<not> has_prefix (prefixQuorumContractEventQueue @ a) k" "\<And>a. \<not> has_prefix (prefixQuorumGroupEventQueue @ a) k"
  shows "qdb_ok (s\<lparr>kvs := kv_set k v (kvs s)\<rparr>)"
  using assms(1) contractq.only_queue_keys_other [of s k v] groupq.only_queue_keys_other [of s k v]
    assms(4,5) not_sym [OF assms(2)] not_sym [OF assms(3)]
  by (simp add: qdb_ok_def typed_queue_def)

lemma qdb_ok_contract:
  assumes "qdb_ok s" "eth_address a"
  shows "qdb_ok (s\<lparr>kvs := kv_set (contractEventKey a (e_Nonce e)) (JEvent e) (kvs s)\<rparr>)"
  using assms contractq.only_queue_keys_set [of s a "e_Nonce e" "JEvent e"]
    groupq.only_queue_keys_other [of s "contractEventKey a (e_Nonce e)" "JEvent e"]
  by (auto simp: qdb_ok_def typed_queue_def contractq.key_inj)

lemma qdb_ok_group:
  assumes "qdb_ok s" "eth_address a"
  shows "qdb_ok (s\<lparr>kvs := kv_set (groupEventKey a (e_Nonce e)) (JEvent e) (kvs s)\<rparr>)"
  using assms groupq.only_queue_keys_set [of s a "e_Nonce e" "JEvent e"]
    contractq.only_queue_keys_other [of s "groupEventKey a (e_Nonce e)" "JEvent e"]
  by (auto simp: qdb_ok_def typed_queue_def groupq.key_inj)

lemma write_group_event_Ok [simp]:
  "write_group_event a s e = Ok t \<longleftrightarrow> io s (IoGet (groupEventKey a (e_Nonce e))) = None \<and>
     (if db_lookup s (groupEventKey a (e_Nonce e)) = None
      then io s (IoSet (groupEventKey a (e_Nonce e))) = None
        \<and> t = s\<lparr>kvs := kv_set (groupEventKey a (e_Nonce e)) (JEvent e) (kvs s)\<rparr>
      else t = s)"
  by (auto simp: write_group_event_def)

lemma write_group_event_keeps:
  "write_group_event a s e = Ok t \<Longrightarrow> db_lookup s k = Some v \<Longrightarrow> db_lookup t k = Some v"
  by (auto split: if_splits)

lemma storeWriteGroupEvents_laws:
  assumes "storeWriteGroupEvents s a es = Ok t" "qdb_ok s" "eth_address a"
  shows "qdb_ok t" "\<And>k v. db_lookup s k = Some v \<Longrightarrow> db_lookup t k = Some v"
    "\<And>e. e \<in> set es \<Longrightarrow> db_lookup t (groupEventKey a (e_Nonce e)) \<noteq> None"
proof -
  have run: "rfold (write_group_event a) s es = Ok t" using assms(1) by (simp add: storeWriteGroupEvents_def)
  show "qdb_ok t"
    by (rule rfold_invariant [where P = qdb_ok, OF _ assms(2) run])
      (auto simp: qdb_ok_group assms(3) split: if_splits)
  show "db_lookup s k = Some v \<Longrightarrow> db_lookup t k = Some v" for k v
    by (rule rfold_invariant [where P = "\<lambda>t. db_lookup t k = Some v", OF _ _ run]) (blast intro: write_group_event_keeps)+
  have "rfold (write_group_event a) u xs = Ok t \<Longrightarrow> e \<in> set xs \<Longrightarrow> db_lookup t (groupEventKey a (e_Nonce e)) \<noteq> None" for u xs e
  proof (induction xs arbitrary: u)
    case (Cons x xs)
    then obtain u' where u': "write_group_event a u x = Ok u'" and r: "rfold (write_group_event a) u' xs = Ok t"
      by (auto simp del: write_group_event_Ok)
    show ?case
    proof (cases "e = x")
      case True
      have "db_lookup u' (groupEventKey a (e_Nonce x)) \<noteq> None" using u' by (auto split: if_splits)
      then obtain v where v: "db_lookup u' (groupEventKey a (e_Nonce x)) = Some v" by blast
      have "db_lookup t (groupEventKey a (e_Nonce x)) = Some v"
        by (rule rfold_invariant [where P = "\<lambda>t. db_lookup t (groupEventKey a (e_Nonce x)) = Some v", OF _ v r])
          (blast intro: write_group_event_keeps)
      with True show ?thesis by simp
    qed (use Cons r in auto)
  qed simp
  with run show "e \<in> set es \<Longrightarrow> db_lookup t (groupEventKey a (e_Nonce e)) \<noteq> None" for e by blast
qed

lemma limit_stop: "0 < mx \<Longrightarrow> n \<le> nat mx \<Longrightarrow> (mx \<le> int n) = (n = nat mx)"
  by linarith

lemma contract_events_listed:
  assumes "qdb_ok s" "eth_address a" "0 < mx" "storeListContractEvents s a off mx = Ok es"
  shows "sorted_wrt (<) (map e_Nonce es)
     \<and> (\<forall>e \<in> set es. off \<le> e_Nonce e \<and> stored_event contractEventKey s a (e_Nonce e) = Some e)"
  using assms(4) unfolding storeListContractEvents_def
  by (rule contractq.listed_in_order [where mx = "nat mx", rotated 7]) (use assms(1-3) limit_stop in \<open>auto simp: qdb_ok_def as_event_def\<close>)

lemma group_events_listed:
  assumes "qdb_ok s" "eth_address a" "0 < mx" "storeListGroupEvents s a off mx = Ok es"
  shows "sorted_wrt (<) (map e_Nonce es)
     \<and> (\<forall>e \<in> set es. off \<le> e_Nonce e \<and> stored_event groupEventKey s a (e_Nonce e) = Some e)"
  using assms(4) unfolding storeListGroupEvents_def
  by (rule groupq.listed_in_order [where mx = "nat mx", rotated 7]) (use assms(1-3) limit_stop in \<open>auto simp: qdb_ok_def as_event_def\<close>)

section \<open>The engine's contract\<close>

definition qengine_ok :: "qengine \<Rightarrow> bool" where
  "qengine_ok e \<longleftrightarrow> qdb_ok (q_db e)"

definition quorum_outgoing :: "qengine \<Rightarrow> string \<Rightarrow> u64 \<Rightarrow> event option" where
  "quorum_outgoing e = stored_event groupEventKey (q_db e)"

definition quorum_incoming :: "qengine \<Rightarrow> string \<Rightarrow> u64 \<Rightarrow> event option" where
  "quorum_incoming e = stored_event contractEventKey (q_db e)"

sublocale eth_lib \<subseteq> event_engine "quorum_ops Q N" qengine_ok eth_address quorum_outgoing quorum_incoming
proof
  show "VerifyAddress (quorum_ops Q N) e a x = Ok u \<Longrightarrow> eth_address a" for e a x u
    by (simp add: quorum_ops_def Quorum_VerifyAddress_def verified_length)
next
  fix e a es e'
  assume "qengine_ok e" "eth_address a" "EnsureSendGroupEvents (quorum_ops Q N) e a es = Ok e'"
  then obtain s where s: "storeWriteGroupEvents (q_db e) a es = Ok s" "e' = e\<lparr>q_db := s\<rparr>" "qdb_ok (q_db e)" "eth_address a"
    by (auto simp: quorum_ops_def Quorum_EnsureSendGroupEvents_def qengine_ok_def)
  note w = storeWriteGroupEvents_laws [OF s(1,3,4)]
  show "qengine_ok e'" using w(1) by (simp add: qengine_ok_def s(2))
  show "quorum_outgoing e' a (e_Nonce ev) \<noteq> None" if ev: "ev \<in> set es" for ev
  proof -
    obtain v where "db_lookup s (groupEventKey a (e_Nonce ev)) = Some v" using w(3) [OF ev] by blast
    then show ?thesis using stored_event_typed(1) [of groupEventKey eth_address s a] w(1) s(4)
      by (simp add: quorum_outgoing_def s(2) qdb_ok_def)
  qed
  show "quorum_outgoing e' b n = Some ev" if "quorum_outgoing e b n = Some ev" for b n ev
    using that w(2) [of "groupEventKey b n"]
    by (auto simp: quorum_outgoing_def stored_event_def s(2) split: option.splits dbval.splits)
next
  fix e a and mx :: int and off es
  assume "qengine_ok e" "eth_address a" "0 < mx" "ReceiveGroupEvents (quorum_ops Q N) e a off mx = Ok es"
  then show "sorted_wrt (<) (map e_Nonce es)
     \<and> (\<forall>ev \<in> set es. off \<le> e_Nonce ev \<and> quorum_incoming e a (e_Nonce ev) = Some ev)"
    using contract_events_listed [of "q_db e" a mx off es]
    by (simp add: quorum_ops_def Quorum_ReceiveGroupEvents_def qengine_ok_def quorum_incoming_def)
qed

context eth_lib
begin

lemma quorum_engine: "event_engine (quorum_ops Q N) qengine_ok eth_address quorum_outgoing quorum_incoming"
  by unfold_locales

end

section \<open>A concrete library\<close>

text \<open>Addresses are the 42 characters \<open>0x\<close> and forty digits; keys are their own text.\<close>

definition demo_q :: qlib where
  "demo_q = lib.extend wire_lib (qlib.fields (\<lambda>b. b) (\<lambda>a. if length a = 42 then Ok () else Err ''address'')
     (\<lambda>k. Ok k) (\<lambda>k. Ok (hexEncode k)) (\<lambda>k. ''0x'' @ take 40 (k @ replicate 40 (CHR ''0'')))
     (\<lambda>b. ''0x'' @ hexEncode b) (\<lambda>k c n a am d. Ok (''id'', slice_bytes d)) (\<lambda>s. []) (\<lambda>x y. x / y))"

lemmas demo_q_simps = demo_q_def lib.defs qlib.defs

interpretation eth: eth_lib demo_q
  by unfold_locales (auto simp: demo_q_simps eth_address_def split: if_splits)

lemma demo_q_codec: "codec demo_q"
  using wire.codec_axioms by (simp add: demo_q_simps codec_def)

end
