(* ===== verification/Quorum_Props.thy ===== *)
theory Quorum_Props
  imports Quorum_Laws Machine_Props
begin

text \<open>
  What the quorum engine guarantees to the machine and to the contracts: the handover of signed events, the
  order in which they are sent, the layout of the call data, the completeness of the log scan, and the
  behaviour of the RPC layer on replies the code does not expect.
\<close>

section \<open>The ABI layout\<close>

definition abi_words :: "bytes \<Rightarrow> nat \<Rightarrow> bytes" where
  "abi_words b n = be_bytes 32 32 @ be_bytes 32 n @ b"

lemma hexEncode_zeros: "concat (replicate n ''00'') = hexEncode (replicate n (CHR 0x00))"
proof (induction n)
  case (Suc n)
  have "hexdigit 0 = CHR ''0''" by code_simp
  with Suc show ?case by simp
qed simp

lemma group_event_data_hex:
  assumes "length b < 16 ^ 64"
  shows "drop 10 (group_event_data b) = hexEncode (abi_words (b @
     replicate (if length b mod 32 = 0 then 0 else 32 - length b mod 32) (CHR 0x00)) (length b))"
proof -
  have "pad_left (CHR ''0'') 64 (nat_hex n) = hexEncode (be_bytes 32 n)" if "n < 16 ^ 64" for n
    using pad_left_nat_hex [OF that] hex_fixed_be_bytes [of 32 n] by simp
  with assms show ?thesis
    by (simp add: group_event_data_def EventMethod_def abi_words_def hexEncode_append hexEncode_zeros
        del: be_bytes.simps)
qed

text \<open>The call data is the text of bytes, so decoding it cannot fail.\<close>

lemma group_event_data_decodes:
  assumes "length b < 16 ^ 64"
  shows "\<exists>db. hexDecode (drop 2 (group_event_data b)) = Ok db"
proof -
  have "hexEncode [CHR 0x5c, CHR 0xae, CHR 0x80, CHR 0x05] = ''5cae8005''" by code_simp
  then have "drop 2 (group_event_data b) = hexEncode [CHR 0x5c, CHR 0xae, CHR 0x80, CHR 0x05] @ drop 10 (group_event_data b)"
    by (simp add: group_event_data_def EventMethod_def)
  then show ?thesis unfolding group_event_data_hex [OF assms]
    by (metis hexDecode_hexEncode hexEncode_append)
qed

lemma parse_abi_words:
  assumes "n < 2 ^ 63" "length b mod 32 = 0" "64 \<le> length b"
  shows "parseTransactionLog Q (hexEncode (abi_words b n)) =
     (if 512 < n then Err ''invalid log size''
      else if 64 + length b + length (hexSpare Q (hexEncode (abi_words b n))) < 64 + n
      then Panic ''slice bounds out of range''
      else Ok (take n (b @ hexSpare Q (hexEncode (abi_words b n)))))"
proof -
  have n: "be_nat (be_bytes 32 n) = n" "be_nat (be_bytes 32 32) = 32"
    using assms(1) by (simp_all add: be_nat_be_bytes del: be_bytes.simps)
  have "(64 + length b) mod 32 = 0" using assms(2) by presburger
  then show ?thesis
    using assms by (simp add: parseTransactionLog_def abi_words_def n Let_def del: be_bytes.simps)
qed

lemma pad_to_word: "0 < length b mod 32 \<Longrightarrow> (length b + 32 - length b mod 32) mod 32 = 0"
proof -
  have "length b - length b mod 32 = 32 * (length b div 32)" by (rule minus_mod_eq_mult_div)
  moreover have "length b mod 32 \<le> length b" by simp
  ultimately have "length b + 32 - length b mod 32 = 32 * (length b div 32 + 1)" by (simp del: mod_less_eq_dividend)
  then show ?thesis by simp
qed

lemma parse_group_event:
  assumes "32 < length b" "length b \<le> 512"
  shows "parseTransactionLog Q (drop 10 (group_event_data b)) = Ok b"
proof -
  let ?z = "replicate (if length b mod 32 = 0 then 0 else 32 - length b mod 32) (CHR 0x00)"
  have len: "length (b @ ?z) mod 32 = 0" by (simp add: pad_to_word)
  have "length b < 16 ^ 64" using assms(2) by simp
  note eq = group_event_data_hex [OF this]
  obtain q where q: "length (b @ ?z) = 32 * q" using len by (auto simp: mod_eq_0_iff_dvd)
  then have "32 < 32 * q" using assms(1) by simp
  then have "64 \<le> length (b @ ?z)" unfolding q by presburger
  then show ?thesis unfolding eq using len assms parse_abi_words [OF _ len, of "length b" Q] by simp
qed

section \<open>Sending\<close>

lemma sign_chain: "q_chainId e' = q_chainId e \<Longrightarrow>
   signGroupEventTransaction Q e' a evt k = signGroupEventTransaction Q e a evt k"
  by (simp add: signGroupEventTransaction_def signTransaction_def cong: if_cong)

lemma send_all:
  "rfold (send_group_event Q a k) e evts = Ok e' \<Longrightarrow>
   \<exists>raws. e' = e\<lparr>q_sent := q_sent e @ raws\<rparr>
     \<and> list_all2 (\<lambda>evt raw. \<exists>i. signGroupEventTransaction Q e a evt k = Ok (i, raw)) evts raws"
proof (induction evts arbitrary: e)
  case (Cons evt evts)
  from Cons.prems obtain i raw where raw: "signGroupEventTransaction Q e a evt k = Ok (i, raw)"
    and rest: "rfold (send_group_event Q a k) (e\<lparr>q_sent := q_sent e @ [raw]\<rparr>) evts = Ok e'"
    by (auto simp: send_group_event_def [of Q a k e evt])
  from Cons.IH [OF rest] obtain raws where "e' = e\<lparr>q_sent := q_sent e @ raw # raws\<rparr>"
    "list_all2 (\<lambda>evt raw. \<exists>i. signGroupEventTransaction Q e a evt k = Ok (i, raw)) evts raws"
    using sign_chain [of "e\<lparr>q_sent := q_sent e @ [raw]\<rparr>" e Q a] by auto
  with raw show ?case by (intro exI [of _ "raw # raws"]) auto
qed (simp add: exI [of _ "[]"])

lemma loopSendGroupEvents_cases:
  assumes "loopSendGroupEvents Q N e a = Ok e'" "storeReadContractNotifier (q_db e) a = Ok k"
  obtains "e' = e"
  | ad nonce evts where "pub Q k = Ok ad" "GetAddressNonce N ad = Ok nonce"
      "storeListGroupEvents (q_db e) a nonce 100 = Ok evts" "rfold (send_group_event Q a k) e evts = Ok e'"
proof (cases "IsPublisher e")
  case True
  with assms obtain ad where ad: "pub Q k = Ok ad" by (auto simp: loopSendGroupEvents_def)
  with True assms that show ?thesis
    by (simp add: loopSendGroupEvents_def split: res.split_asm if_split_asm) blast
qed (use assms that in \<open>simp add: loopSendGroupEvents_def\<close>)

section \<open>The scan\<close>

text \<open>What a log is worth to the engine: the address and the event it stores.\<close>

definition log_event :: "'z qlib_scheme \<Rightarrow> string \<times> string \<Rightarrow> (string \<times> event) option" where
  "log_event Q l = (case (formatAddress Q (fst l), parseTransactionLog Q (drop 2 (snd l))) of
     (Ok a, Ok b) \<Rightarrow> (case DecodeEvent Q b of Ok evt \<Rightarrow> Some (a, evt) | _ \<Rightarrow> None) | _ \<Rightarrow> None)"

text \<open>The events of blocks \<open>lo\<close> to \<open>hi - 1\<close> of a chain, a list of blocks that are lists of logs,
  are in the queues of a database.\<close>

definition scanned :: "'z qlib_scheme \<Rightarrow> (string \<times> string) list list \<Rightarrow> u64 \<Rightarrow> u64 \<Rightarrow> store \<Rightarrow> bool" where
  "scanned Q c lo hi s \<longleftrightarrow> (\<forall>i < length c. unat lo \<le> i \<longrightarrow> i < unat hi \<longrightarrow>
     (\<forall>l \<in> set (c ! i). case log_event Q l of None \<Rightarrow> True
        | Some (a, evt) \<Rightarrow> db_lookup s (contractEventKey a (e_Nonce evt)) \<noteq> None))"

text \<open>A node that answers from a chain: the logs of a range of blocks, and a height it has.\<close>

definition serves :: "rpc_node \<Rightarrow> (string \<times> string) list list \<Rightarrow> bool" where
  "serves N c \<longleftrightarrow> (\<forall>from to rs. from \<le> to \<longrightarrow> rpc_logs N from to = RpcResult rs \<longrightarrow>
       rs = concat (take (Suc (unat to - unat from)) (drop (unat from) c)))
     \<and> (\<forall>h. GetBlockHeight N = Ok h \<longrightarrow> unat h < length c)"

lemma store_log_keeps: "store_log Q e l = Ok e' \<Longrightarrow> db_lookup (q_db e) k = Some v \<Longrightarrow> db_lookup (q_db e') k = Some v"
  by (auto simp: store_log_def storeWriteContractEvent_def split: prod.splits res.splits if_splits)

lemma store_logs_keep: "rfold (store_log Q) e ls = Ok e' \<Longrightarrow> db_lookup (q_db e) k \<noteq> None \<Longrightarrow> db_lookup (q_db e') k \<noteq> None"
  by (erule rfold_invariant [where P = "\<lambda>e. db_lookup (q_db e) k \<noteq> None", rotated 2])
    (use store_log_keeps in \<open>fastforce+\<close>)

lemma store_log_stores:
  "store_log Q e (a, b) = Ok e' \<Longrightarrow> DecodeEvent Q b = Ok evt \<Longrightarrow>
   db_lookup (q_db e') (contractEventKey a (e_Nonce evt)) \<noteq> None"
  by (auto simp: store_log_def storeWriteContractEvent_def split: if_splits)

lemma store_logs_store:
  "rfold (store_log Q) e ls = Ok e' \<Longrightarrow> (a, b) \<in> set ls \<Longrightarrow> DecodeEvent Q b = Ok evt \<Longrightarrow>
   db_lookup (q_db e') (contractEventKey a (e_Nonce evt)) \<noteq> None"
proof (induction ls arbitrary: e)
  case (Cons l ls)
  from Cons.prems(1) obtain e1 where e1: "store_log Q e l = Ok e1" and r: "rfold (store_log Q) e1 ls = Ok e'" by auto
  show ?case
  proof (cases "l = (a, b)")
    case True
    with e1 Cons.prems(3) have "db_lookup (q_db e1) (contractEventKey a (e_Nonce evt)) \<noteq> None"
      by (simp add: store_log_stores)
    with store_logs_keep [OF r] show ?thesis .
  qed (use Cons r in auto)
qed simp

lemma parse_logs_event:
  "parse_logs Q rs = Ok ls \<Longrightarrow> l \<in> set rs \<Longrightarrow> log_event Q l = Some (a, evt) \<Longrightarrow>
   \<exists>b. (a, b) \<in> set ls \<and> DecodeEvent Q b = Ok evt"
proof (induction rs arbitrary: ls)
  case (Cons r rs)
  obtain ad d where r: "r = (ad, d)" by fastforce
  show ?case
  proof (cases "l = r")
    case True
    then show ?thesis using Cons.prems r
      by (auto simp: log_event_def split: res.splits if_splits)
  next
    case False
    then have l: "l \<in> set rs" using Cons.prems(2) by simp
    from Cons.prems(1) r obtain ls' where "parse_logs Q rs = Ok ls'" "set ls' \<subseteq> set ls"
      by (force split: res.splits if_splits)
    with Cons.IH [OF _ l Cons.prems(3)] show ?thesis by blast
  qed
qed simp

lemma block_in_range:
  "i < length c \<Longrightarrow> lo \<le> i \<Longrightarrow> i \<le> hi \<Longrightarrow> l \<in> set (c ! i) \<Longrightarrow>
   l \<in> set (concat (take (Suc (hi - lo)) (drop lo c)))"
proof -
  assume i: "i < length c" "lo \<le> i" "i \<le> hi" "l \<in> set (c ! i)"
  then have "take (Suc (hi - lo)) (drop lo c) ! (i - lo) = c ! i" "i - lo < length (take (Suc (hi - lo)) (drop lo c))"
    by auto
  then have "c ! i \<in> set (take (Suc (hi - lo)) (drop lo c))" by (metis nth_mem)
  with i(4) show ?thesis by auto
qed

lemma scanned_keeps:
  "scanned Q c lo hi s \<Longrightarrow> (\<And>k. db_lookup s k \<noteq> None \<Longrightarrow> db_lookup t k \<noteq> None) \<Longrightarrow> hi' \<le> hi \<Longrightarrow> scanned Q c lo hi' t"
  unfolding scanned_def by (fastforce simp: word_le_nat_alt split: option.splits)

text \<open>The range read covers ten more blocks.\<close>

lemma scan_range:
  assumes "serves N c" "GetLogs Q N off (off + 10) = Ok ls" "rfold (store_log Q) e ls = Ok e'"
    "scanned Q c lo off (q_db e)"
  shows "scanned Q c lo (off + 10) (q_db e')"
proof (cases "off \<le> off + 10")
  case True
  then have len: "unat (off + 10) = unat off + 10"
    using unsigned_less [of off] by (auto simp: unat_plus_if_size word_size word_le_nat_alt split: if_splits)
  from assms(2) obtain rs where rs: "rpc_logs N off (off + 10) = RpcResult rs" "parse_logs Q rs = Ok ls"
    by (auto simp: GetLogs_def split: rpc_reply.splits)
  from assms(1) True rs(1) have rs_eq: "rs = concat (take (Suc (unat (off + 10) - unat off)) (drop (unat off) c))"
    by (simp add: serves_def)
  show ?thesis unfolding scanned_def
  proof (intro allI impI ballI)
    fix i l assume i: "i < length c" "unat lo \<le> i" "i < unat (off + 10)" and l: "l \<in> set (c ! i)"
    show "case log_event Q l of None \<Rightarrow> True
        | Some (a, evt) \<Rightarrow> db_lookup (q_db e') (contractEventKey a (e_Nonce evt)) \<noteq> None"
    proof (cases "i < unat off")
      case True
      with assms(4) i l store_logs_keep [OF assms(3)] show ?thesis
        unfolding scanned_def by (fastforce split: option.splits)
    next
      case False
      with i l have "l \<in> set rs" unfolding rs_eq by (intro block_in_range) (auto simp: len)
      with parse_logs_event [OF rs(2)] store_logs_store [OF assms(3)] show ?thesis
        by (fastforce split: option.splits)
    qed
  qed
next
  case False
  then show ?thesis using scanned_keeps [OF assms(4) store_logs_keep [OF assms(3)], of "off + 10"] by simp
qed

text \<open>One round of the scan.\<close>

lemma store_log_offset:
  "store_log Q e l = Ok e' \<Longrightarrow> db_lookup (q_db e') prefixQuorumContractLogOffset = db_lookup (q_db e) prefixQuorumContractLogOffset
     \<and> io (q_db e') = io (q_db e)"
  by (auto simp: store_log_def storeWriteContractEvent_def split: prod.splits res.splits if_splits)

lemma store_logs_offset:
  "rfold (store_log Q) e ls = Ok e' \<Longrightarrow>
   storeReadContractLogsOffset (q_db e') = storeReadContractLogsOffset (q_db e)"
proof -
  assume r: "rfold (store_log Q) e ls = Ok e'"
  have "db_lookup (q_db e') prefixQuorumContractLogOffset = db_lookup (q_db e) prefixQuorumContractLogOffset
     \<and> io (q_db e') = io (q_db e)"
    by (rule rfold_invariant [where P = "\<lambda>e'. db_lookup (q_db e') prefixQuorumContractLogOffset
         = db_lookup (q_db e) prefixQuorumContractLogOffset \<and> io (q_db e') = io (q_db e)", OF _ _ r])
       (use store_log_offset in \<open>metis\<close>, simp)
  then have "read_opt (q_db e') as_bytes prefixQuorumContractLogOffset = read_opt (q_db e) as_bytes prefixQuorumContractLogOffset"
    by (simp add: read_opt_def txn_get_def txn_value_def io_check_def cong: option.case_cong)
  then show ?thesis by (simp add: storeReadContractLogsOffset_def)
qed

lemma loopGetLogs_cases:
  assumes "loopGetLogs Q N N' e base = Ok e'" "storeReadContractLogsOffset (q_db e) = Ok off"
  obtains "e' = e"
  | ls where "GetLogs Q N (max off base) (max off base + 10) = Ok ls" "rfold (store_log Q) e ls = Ok e'"
  | ls e1 s height where "GetLogs Q N (max off base) (max off base + 10) = Ok ls" "rfold (store_log Q) e ls = Ok e1"
      "GetBlockHeight N' = Ok height" "max off base + 10 \<le> height"
      "storeWriteContractLogsOffset (q_db e1) (max off base + 10) = Ok s" "e' = e1\<lparr>q_db := s\<rparr>"
proof (cases "GetLogs Q N (max off base) (max off base + 10)")
  case (Ok ls)
  have mx: "(if off < base then base else off) = max off base" by (auto simp: max_def)
  from assms Ok obtain e1 where e1: "rfold (store_log Q) e ls = Ok e1"
    by (auto simp: loopGetLogs_def mx Let_def)
  with assms Ok that(2,3) show ?thesis
    by (simp add: loopGetLogs_def mx Let_def not_less split: res.split_asm if_split_asm) blast
qed (use assms that(1) in \<open>auto simp: loopGetLogs_def Let_def max_def not_less split: if_splits\<close>)

lemma scanned_prefix:
  assumes "scanned Q (c @ d) lo hi s" shows "scanned Q c lo hi s"
  unfolding scanned_def
proof (intro allI impI)
  fix i assume i: "i < length c" "unat lo \<le> i" "i < unat hi"
  then have "(c @ d) ! i = c ! i" by (simp add: nth_append)
  with i assms show "\<forall>l \<in> set (c ! i). case log_event Q l of None \<Rightarrow> True
      | Some (a, evt) \<Rightarrow> db_lookup s (contractEventKey a (e_Nonce evt)) \<noteq> None"
    unfolding scanned_def by (metis length_append trans_less_add1)
qed

lemma scanned_extend:
  assumes "scanned Q c lo hi s" "unat hi \<le> length c" shows "scanned Q (c @ d) lo hi s"
  unfolding scanned_def
proof (intro allI impI)
  fix i assume i: "i < length (c @ d)" "unat lo \<le> i" "i < unat hi"
  then have "(c @ d) ! i = c ! i" "i < length c" using assms(2) by (simp_all add: nth_append)
  with i assms(1) show "\<forall>l \<in> set ((c @ d) ! i). case log_event Q l of None \<Rightarrow> True
      | Some (a, evt) \<Rightarrow> db_lookup s (contractEventKey a (e_Nonce evt)) \<noteq> None"
    unfolding scanned_def by metis
qed

lemma scanned_max: "scanned Q c lo off s \<Longrightarrow> scanned Q c lo (max off lo) s"
  unfolding scanned_def by (auto simp: max_def)

lemma write_offset:
  "storeWriteContractLogsOffset s off = Ok t \<Longrightarrow>
   t = s\<lparr>kvs := kv_set prefixQuorumContractLogOffset (Raw (uint64Bytes off)) (kvs s)\<rparr>"
  by (auto simp: storeWriteContractLogsOffset_def)

lemma stored_keeps:
  "rfold (store_log Q) e ls = Ok e' \<Longrightarrow> db_lookup (q_db e) k = Some v \<Longrightarrow> db_lookup (q_db e') k = Some v"
  by (erule rfold_invariant [where P = "\<lambda>e. db_lookup (q_db e) k = Some v", rotated 2])
    (use store_log_keeps in \<open>fastforce+\<close>)

section \<open>Deposits\<close>

lemma deposit_every_contract:
  "deposit_notifiers Q N e nonce cs = Ok e' \<Longrightarrow> (\<And>a. \<exists>c m. rpc_balance N a = RpcError c m) \<Longrightarrow>
   length (q_sent e') = length (q_sent e) + length cs \<and> q_db e' = q_db e"
proof (induction cs arbitrary: e nonce)
  case (Cons c cs)
  have bal: "GetAddressBalance Q N a = Ok 0" for a
    using Cons.prems(2) [of a] by (auto simp: GetAddressBalance_def)
  from Cons.prems(1) obtain raw where
    "deposit_notifiers Q N (e\<lparr>q_sent := q_sent e @ [raw]\<rparr>) (nonce + 1) cs = Ok e'"
    by (auto simp: bal NotifierMinimumBalance_def)
  from Cons.IH [OF this Cons.prems(2)] show ?case by simp
qed simp

section \<open>A concrete engine\<close>

definition demo_address :: string where
  "demo_address = ''0x'' @ replicate 40 (CHR ''a'')"

lemma eth_demo_address [simp]: "eth_address demo_address"
  by (simp add: eth_address_def demo_address_def)

definition empty_engine :: qengine where
  "empty_engine = \<lparr>q_db = db_empty, q_chainId = 1, q_key = ''k'', q_contracts = [], q_sent = []\<rparr>"

lemma qdb_ok_empty [simp]: "qdb_ok db_empty"
  by (simp add: qdb_ok_def only_queue_keys_def typed_queue_def)

lemma qengine_ok_empty [simp]: "qengine_ok empty_engine"
  by (simp add: qengine_ok_def empty_engine_def)

definition demo_qmachine :: "qengine machine" where
  "demo_qmachine = \<lparr>m_store = demo_store, m_feeAssetId = demo_asset, m_feeAmount = 1,
     m_engines = [(''quorum'', empty_engine)], m_processes = [(demo_pid, demo_process\<lparr>p_Nonce := 1\<rparr>)],
     m_spawned = [demo_pid], m_outbox = [], m_warnings = [], m_txs = []\<rparr>"

lemma demo_qmachine_ok: "machine_ok demo_world demo_qmachine"
  using demo_store_good by (simp add: machine_ok_def demo_qmachine_def demo_stored)

definition demo_node :: rpc_node where
  "demo_node = \<lparr>rpc_blockNumber = RpcResult ''0x200'', rpc_transactionCount = \<lambda>a. RpcResult ''0x0'',
     rpc_balance = \<lambda>a. RpcResult ''0xffffffffffffffff'', rpc_logs = \<lambda>f t. RpcResult [], rpc_send = \<lambda>r. RpcResult r\<rparr>"

lemma demo_send_run: "\<exists>m'. loopSendEvents demo_world (quorum_ops demo_q demo_node) demo_qmachine demo_pid = Ok m'
   \<and> signed_event (m_store m') demo_pid 0 = None"
proof -
  have mul: "integerMul demo_world 0 ProcessCreditMulplifier = Ok 0"
    by (simp add: amounts.mul_Ok [OF demo_world_amounts] ProcessCreditMulplifier_def)
  obtain eng where eng: "Quorum_EnsureSendGroupEvents empty_engine (''0x'' @ replicate 40 (CHR ''a'')) [demo_signed] = Ok eng"
    by (simp add: Quorum_EnsureSendGroupEvents_def storeWriteGroupEvents_def write_group_event_def empty_engine_def
        store_eval del: rbind_Ok_iff)
  obtain s where s: "ExpireGroupEventsWithCost demo_world demo_store [demo_signed] 0 = Ok s"
    "db_lookup s (buildSignedEventTimedKey demo_pid 0) = None"
    by (simp add: ExpireGroupEventsWithCost_def delete_signed_def store_eval demo_facts demo_signed_def demo_event_def Let_def
        del: rbind_Ok_iff)
  then show ?thesis
    using demo_listed mul eng
    by (simp add: loopSendEvents_def demo_qmachine_def demo_process_def quorum_ops_def Quorum_EstimateCost_def
        Let_def signed_event_def del: rbind_Ok_iff)
qed

section \<open>Properties\<close>

text \<open>C5: an event signed by the group is never lost between the machine and the quorum engine. After a round of
  \<open>loopSendEvents\<close>, a signed event of the process is still in the machine's signed queue, or the engine's
  outgoing queue of the process's contract has an event with its nonce.\<close>

theorem signed_event_handed_over:
  assumes "eth_lib Q" and "machine_ok W m" and "loopSendEvents W (quorum_ops Q N) m pid = Ok m'"
    and "map_of (m_processes m) pid = Some p" and "map_of (m_engines m) (p_Platform p) = Some eng"
    and "qengine_ok eng" and "eth_address (p_Address p)" and "signed_event (m_store m) pid n = Some e"
  shows "signed_event (m_store m') pid n = Some e \<or>
     (\<exists>eng'. map_of (m_engines m') (p_Platform p) = Some eng' \<and> quorum_outgoing eng' (p_Address p) n \<noteq> None)"
  by (rule event_engine.handed_over [OF eth_lib.quorum_engine [OF assms(1)] assms(2-8)])

theorem signed_event_handed_over_witness:
  "\<exists>m' eng'. loopSendEvents demo_world (quorum_ops demo_q demo_node) demo_qmachine demo_pid = Ok m'
     \<and> map_of (m_engines m') ''quorum'' = Some eng' \<and> quorum_outgoing eng' demo_address 0 \<noteq> None"
proof -
  obtain m' where m': "loopSendEvents demo_world (quorum_ops demo_q demo_node) demo_qmachine demo_pid = Ok m'"
    "signed_event (m_store m') demo_pid 0 = None" using demo_send_run by blast
  have "signed_event (m_store m') demo_pid 0 = Some demo_signed \<or>
     (\<exists>eng'. map_of (m_engines m') (p_Platform (demo_process\<lparr>p_Nonce := 1\<rparr>)) = Some eng'
       \<and> quorum_outgoing eng' (p_Address (demo_process\<lparr>p_Nonce := 1\<rparr>)) 0 \<noteq> None)"
    by (rule signed_event_handed_over [OF eth.eth_lib_axioms demo_qmachine_ok m'(1), of _ empty_engine])
      (simp_all add: demo_qmachine_def demo_process_def eth_address_def signed_event_def demo_facts)
  with m' show ?thesis by (auto simp: demo_process_def demo_address_def)
qed

text \<open>C29: the engine sends a contract's events in the order of their nonces and none that the chain has executed.
  One round of \<open>loopSendGroupEvents\<close> appends one raw transaction per event, each the signed call carrying that
  event of the outgoing queue, with strictly increasing nonces from the notifier's account nonce on, and leaves
  the database as it is.\<close>

theorem sends_in_nonce_order:
  assumes "qengine_ok e" and "eth_address a" and "loopSendGroupEvents Q N e a = Ok e'"
  shows "\<exists>evts raws k. storeReadContractNotifier (q_db e) a = Ok k \<and> e' = e\<lparr>q_sent := q_sent e @ raws\<rparr>
     \<and> sorted_wrt (<) (map e_Nonce evts) \<and> length evts \<le> 100
     \<and> (\<forall>evt \<in> set evts. quorum_outgoing e a (e_Nonce evt) = Some evt
          \<and> (\<exists>ad nonce. pub Q k = Ok ad \<and> GetAddressNonce N ad = Ok nonce \<and> nonce \<le> e_Nonce evt))
     \<and> list_all2 (\<lambda>evt raw. \<exists>i. signGroupEventTransaction Q e a evt k = Ok (i, raw)) evts raws"
proof -
  from assms(3) obtain k where k: "storeReadContractNotifier (q_db e) a = Ok k" by (auto simp: loopSendGroupEvents_def)
  from assms(3) k show ?thesis
  proof (cases rule: loopSendGroupEvents_cases)
    case 1
    then show ?thesis by (intro exI [of _ "[]"] exI [of _ k]) (simp add: k)
  next
    case (2 ad nonce evts)
    note evts = 2(3)
    from send_all [OF 2(4)] obtain raws where raws: "e' = e\<lparr>q_sent := q_sent e @ raws\<rparr>"
      "list_all2 (\<lambda>evt raw. \<exists>i. signGroupEventTransaction Q e a evt k = Ok (i, raw)) evts raws" by blast
    have "sorted_wrt (<) (map e_Nonce evts) \<and> (\<forall>evt \<in> set evts. nonce \<le> e_Nonce evt
       \<and> stored_event groupEventKey (q_db e) a (e_Nonce evt) = Some evt)"
      by (rule group_events_listed [OF _ assms(2) _ evts]) (use assms(1) in \<open>simp_all add: qengine_ok_def\<close>)
    moreover have "length evts \<le> 100"
      by (rule list_loop_length [OF evts [unfolded storeListGroupEvents_def]]) auto
    ultimately show ?thesis using 2(1,2) raws k
      by (intro exI [of _ evts] exI [of _ raws] exI [of _ k]) (auto simp: quorum_outgoing_def)
  qed
qed

lemma hex_zero: "hexval (CHR ''0'') = Some 0" "go_hex 0 ''0'' = Some 0"
  by code_simp+

lemma demo_nonce [simp]: "GetAddressNonce demo_node a = Ok 0"
  by (simp add: GetAddressNonce_def demo_node_def ethereumNumberToUint64_def big_SetString_def has_prefix_def hex_zero)

lemma demo_balance [simp]: "GetAddressBalance demo_q demo_node a = Ok (18446744073709551615 / 10 ^ 18)"
proof -
  have "hexval (CHR ''f'') = Some 15" by code_simp
  then have "go_hex 0 ''ffffffffffffffff'' = Some 18446744073709551615" by simp
  then show ?thesis
    by (simp add: GetAddressBalance_def demo_node_def ethereumNumberToDecimal_def big_SetString_def has_prefix_def
        etherPrecision_def demo_q_simps)
qed

definition loaded_engine :: qengine where
  "loaded_engine = empty_engine\<lparr>q_db := db_empty\<lparr>kvs := kv_set (groupEventKey demo_address 0) (JEvent demo_event)
     (kv_set (notifierKey demo_address) (Raw ''k'') (kvs db_empty))\<rparr>\<rparr>"

lemma qengine_ok_loaded: "qengine_ok loaded_engine"
proof -
  have "qdb_ok (db_empty\<lparr>kvs := kv_set (notifierKey demo_address) (Raw ''k'') (kvs db_empty)\<rparr>)"
    by (rule qdb_ok_other) (auto simp: not_sym)
  from qdb_ok_group [OF this eth_demo_address, of demo_event] show ?thesis
    by (simp add: qengine_ok_def loaded_engine_def demo_event_def)
qed

lemma loaded_listed: "storeListGroupEvents (q_db loaded_engine) demo_address 0 100 = Ok [demo_event]"
proof -
  let ?s = "q_db loaded_engine"
  have ok: "qdb_ok ?s" using qengine_ok_loaded by (simp add: qengine_ok_def)
  have only: "stored_event groupEventKey ?s demo_address n = (if n = 0 then Some demo_event else None)" for n
    by (simp add: stored_event_def loaded_engine_def groupq.key_inj)
  have nf: "no_fault ?s" by (simp add: loaded_engine_def empty_engine_def no_fault_def fun_eq_iff)
  show ?thesis unfolding storeListGroupEvents_def
    by (rule groupq.list_single [where mx = "nat 100" and m = 0, OF _ _ _ _ _ _ _ nf only])
      (use ok in \<open>auto simp: qdb_ok_def as_event_def\<close>)
qed

lemma demo_event_bytes:
  "\<exists>b. Event_Encode demo_q demo_event = Ok b \<and> 32 < length b \<and> length b \<le> 512"
proof -
  have sel: "uuidFromString demo_q = uuid_parse" "encUint64 demo_q = putUint64" "encInt demo_q = wire_encInt"
    "encInteger demo_q = wire_encInteger" by (simp_all add: demo_q_simps wire_lib_def)
  have uuid: "uuid_parse demo_pid = Ok (replicate 16 (CHR ''p''))" "uuid_parse demo_asset = Ok (replicate 16 (CHR ''c''))"
    unfolding demo_pid_def demo_asset_def by (rule uuid_parse_text, simp)+
  have five: "nat_bytes 5 = [char_of (5::nat)]" by (simp add: nat_bytes.simps)
  show ?thesis
    by (simp add: Event_Encode_def writeUUID_def writeInteger_def writeBytes_def writeInt_def sel uuid demo_event_def
        wire_encInt_def wire_encInteger_def five EventExtraMaxSize_def slice_bytes_def Let_def
        del: rbind_Ok_iff be_bytes.simps replicate.simps)
qed

lemma demo_q_canonical: "canonical_event demo_q demo_event"
proof -
  have u: "uuidFromString demo_q = uuidFromString demo_world" "uuidString demo_q = uuidString demo_world"
    by (simp_all add: demo_q_simps demo_world_simps)
  show ?thesis using demo_event_canonical unfolding canonical_event_def canonical_uuid_def u by simp
qed

lemma pub_demo: "pub demo_q k = Ok (pubkeyToAddress demo_q k)"
  by (simp add: pub_def demo_q_simps)

lemma demo_event_signed: "\<exists>r. signGroupEventTransaction demo_q loaded_engine demo_address demo_event ''k'' = Ok r"
proof -
  obtain b where b: "Event_Encode demo_q demo_event = Ok b" "length b \<le> 512"
    using demo_event_bytes by blast
  then have "length b < 16 ^ 64" by simp
  then obtain db where db: "hexDecode (drop 2 (group_event_data b)) = Ok db" using group_event_data_decodes by blast
  have "hexEncode (replicate 20 (CHR 0xaa)) = replicate 40 (CHR ''a'')" by code_simp
  then have "hexDecode (replicate 40 (CHR ''a'')) = Ok (replicate 20 (CHR 0xaa))" by (metis hexDecode_hexEncode)
  moreover have "hexToECDSA demo_q k = Ok k" "ethSignTx demo_q k c n a am d = Ok (''id'', slice_bytes d)" for k c n a am d
    by (simp_all add: demo_q_simps)
  ultimately show ?thesis using b(1) db
    by (simp add: signGroupEventTransaction_def signTransaction_def demo_address_def del: rbind_Ok_iff)
qed

theorem sends_in_nonce_order_witness:
  "\<exists>e' raws. loopSendGroupEvents demo_q demo_node loaded_engine demo_address = Ok e'
     \<and> e' = loaded_engine\<lparr>q_sent := q_sent loaded_engine @ raws\<rparr> \<and> length raws = 1"
proof -
  have k: "storeReadContractNotifier (q_db loaded_engine) demo_address = Ok ''k''"
    by (simp add: storeReadContractNotifier_def store_eval loaded_engine_def empty_engine_def not_sym)
  obtain i raw where sg: "signGroupEventTransaction demo_q loaded_engine demo_address demo_event ''k'' = Ok (i, raw)"
    using demo_event_signed by fastforce
  have run: "loopSendGroupEvents demo_q demo_node loaded_engine demo_address
      = Ok (loaded_engine\<lparr>q_sent := q_sent loaded_engine @ [raw]\<rparr>)"
    using k sg loaded_listed
    by (simp add: loopSendGroupEvents_def send_group_event_def NotifierMinimumBalance_def IsPublisher_def
        pub_demo loaded_engine_def empty_engine_def del: rbind_Ok_iff)
  from sends_in_nonce_order [OF qengine_ok_loaded eth_demo_address run] run show ?thesis by auto
qed

text \<open>The call data that carries an event to a contract and the log data the engine reads back have the same
  layout. For an event whose encoding has between 33 and 512 bytes, parsing the ABI words that follow the method
  selector gives the encoding, and decoding it gives the event.\<close>

theorem call_data_roundtrip:
  assumes "codec Q" and "canonical_event Q evt" and "Event_Encode Q evt = Ok b" and "32 < length b" and "length b \<le> 512"
  shows "\<exists>s. parseTransactionLog Q (drop 10 (group_event_data b)) = Ok b
     \<and> DecodeEvent Q b = Ok (evt\<lparr>e_Signature := s\<rparr>) \<and> slice_bytes s = slice_bytes (e_Signature evt)"
  using parse_group_event [OF assms(4,5)] codec.event_rt [OF assms(1-3), of "[]"] by auto

theorem call_data_roundtrip_witness:
  "\<exists>b. Event_Encode demo_q demo_event = Ok b \<and> parseTransactionLog demo_q (drop 10 (group_event_data b)) = Ok b"
proof -
  obtain b where b: "Event_Encode demo_q demo_event = Ok b" "32 < length b" "length b \<le> 512"
    using demo_event_bytes by blast
  with call_data_roundtrip [OF demo_q_codec demo_q_canonical b] show ?thesis by auto
qed

text \<open>C31: the scan of the chain misses nothing as long as at most one block arrives between its two calls. If the
  queues hold the events of all blocks from \<open>base\<close> up to the recorded offset, then after a round of
  \<open>loopGetLogs\<close> they hold those up to the new offset, of the chain as it is at the second call.\<close>

theorem scan_complete:
  assumes "serves N c" and "serves N' (c @ d)" and "length d \<le> 1" and "loopGetLogs Q N N' e base = Ok e'"
    and "storeReadContractLogsOffset (q_db e) = Ok off" and "scanned Q (c @ d) base off (q_db e)"
    and "storeReadContractLogsOffset (q_db e') = Ok off'"
  shows "scanned Q (c @ d) base off' (q_db e')"
  using assms(4,5)
proof (cases rule: loopGetLogs_cases)
  case 1
  then show ?thesis using assms(5-7) by simp
next
  case (2 ls)
  have "off' = off" using store_logs_offset [OF 2(2)] assms(5,7) by simp
  then show ?thesis using scanned_keeps [OF assms(6) store_logs_keep [OF 2(2)]] by simp
next
  case (3 ls e1 s height)
  let ?off = "max off base + 10"
  have "scanned Q c base (max off base) (q_db e)" by (rule scanned_max [OF scanned_prefix [OF assms(6)]])
  then have "scanned Q c base ?off (q_db e1)" by (rule scan_range [OF assms(1) 3(1,2)])
  moreover have "unat ?off \<le> length c"
    using assms(2,3) 3(3,4) by (fastforce simp: serves_def word_le_nat_alt)
  ultimately have "scanned Q (c @ d) base ?off (q_db e1)" by (rule scanned_extend)
  moreover have s: "s = (q_db e1)\<lparr>kvs := kv_set prefixQuorumContractLogOffset (Raw (uint64Bytes ?off)) (kvs (q_db e1))\<rparr>"
    by (rule write_offset [OF 3(5)])
  moreover have "off' = ?off"
    using assms(7) 3(6) s by (auto simp: storeReadContractLogsOffset_def read_opt_def txn_value_def as_bytes_def uint64Bytes_def)
  ultimately show ?thesis using 3(6) scanned_keeps [of Q "c @ d" base ?off "q_db e1" s ?off] by auto
qed

lemma go_hex_digits:
  "(\<forall>c \<in> set s. hexval c \<noteq> None) \<Longrightarrow>
   go_hex acc s = Some (foldl (\<lambda>a c. 16 * a + (case hexval c of Some d \<Rightarrow> d | None \<Rightarrow> 0)) acc s)"
proof (induction s arbitrary: acc)
  case (Cons c s)
  have "hexval (CHR ''_'') = None" by code_simp
  with Cons show ?case by auto
qed simp

lemma nat_hex_digits: "c \<in> set (nat_hex n) \<Longrightarrow> hexval c \<noteq> None"
proof (induction n rule: nat_hex.induct)
  case (1 n)
  then show ?case by (subst (asm) (2) nat_hex.simps) (auto simp: hexval_hexdigit split: if_splits)
qed

lemma number_roundtrip: "n < 2 ^ 64 \<Longrightarrow> ethereumNumberToUint64 (''0x'' @ nat_hex n) = Ok (word_of_nat n)"
proof -
  have "nat_hex n \<noteq> []" by (subst nat_hex.simps) simp
  moreover have "go_hex 0 (nat_hex n) = Some n"
    using go_hex_digits [of "nat_hex n" 0] nat_hex_digits digits_value_nat_hex [of n] by (auto simp: digits_value_def)
  ultimately show "n < 2 ^ 64 \<Longrightarrow> ?thesis"
    by (simp add: ethereumNumberToUint64_def big_SetString_def has_prefix_def Suc_le_eq)
qed

text \<open>A node that answers from a chain.\<close>

definition node_at :: "(string \<times> string) list list \<Rightarrow> rpc_node" where
  "node_at c = demo_node\<lparr>rpc_blockNumber := RpcResult (''0x'' @ nat_hex (length c - 1)),
     rpc_logs := \<lambda>from to. RpcResult (concat (take (Suc (unat to - unat from)) (drop (unat from) c)))\<rparr>"

lemma node_height: "c \<noteq> [] \<Longrightarrow> length c < 2 ^ 64 \<Longrightarrow> GetBlockHeight (node_at c) = Ok (word_of_nat (length c - 1))"
  using number_roundtrip [of "length c - 1"] by (simp add: GetBlockHeight_def node_at_def)

lemma node_serves:
  assumes "c \<noteq> []" "length c < 2 ^ 64" shows "serves (node_at c) c"
proof -
  have "unat (word_of_nat (length c - 1) :: u64) = length c - 1"
    using assms(2) by (simp add: unsigned_of_nat take_bit_nat_eq_self)
  then show ?thesis using node_height [OF assms] assms(1) by (simp add: serves_def) (simp add: node_at_def)
qed

text \<open>A block with one log, whose event is the one of the concrete run.\<close>

definition demo_log :: "string \<times> string" where
  "demo_log = (demo_address, ''0x'' @ drop 10 (group_event_data (case Event_Encode demo_q demo_event of Ok b \<Rightarrow> b | _ \<Rightarrow> [])))"

lemma demo_format: "formatAddress demo_q demo_address = Ok demo_address"
proof -
  have h: "hexEncode (replicate 20 (CHR 0xaa)) = replicate 40 (CHR ''a'')" by code_simp
  then have "hexDecode (replicate 40 (CHR ''a'')) = Ok (replicate 20 (CHR 0xaa))" by (metis hexDecode_hexEncode)
  moreover have "addressHex demo_q b = ''0x'' @ hexEncode b" for b by (simp add: demo_q_simps)
  ultimately show ?thesis using h
    by (simp add: formatAddress_def demo_address_def to_address_def)
qed

lemma demo_log_event: "\<exists>s. log_event demo_q demo_log = Some (demo_address, demo_event\<lparr>e_Signature := s\<rparr>)"
proof -
  obtain b where b: "Event_Encode demo_q demo_event = Ok b" "32 < length b" "length b \<le> 512"
    using demo_event_bytes by blast
  from codec.event_rt [OF demo_q_codec demo_q_canonical b(1), of "[]"] parse_group_event [OF b(2,3), of demo_q] b(1)
  show ?thesis by (auto simp: log_event_def demo_log_def demo_format)
qed

lemma scanned_start: "scanned Q c base 0 s" "scanned Q c base base s"
  by (simp_all add: scanned_def)

lemma empty_offset [simp]: "storeReadContractLogsOffset (q_db empty_engine) = Ok 0"
  by (simp add: storeReadContractLogsOffset_def empty_engine_def store_eval)

lemma silent_round:
  assumes "GetBlockHeight N' = Ok height" "rpc_logs N base (base + 10) = RpcResult []" "base + 10 \<le> height"
  shows "loopGetLogs Q N N' empty_engine base = Ok (empty_engine\<lparr>q_db := db_empty\<lparr>kvs :=
     kv_set prefixQuorumContractLogOffset (Raw (uint64Bytes (base + 10))) (kvs db_empty)\<rparr>\<rparr>)"
proof -
  have mx: "(if 0 < base then base else 0) = base" by (auto simp: word_gt_0)
  show ?thesis using assms
    by (simp add: loopGetLogs_def GetLogs_def mx Let_def not_less storeWriteContractLogsOffset_def store_eval
        del: rbind_Ok_iff) (simp add: empty_engine_def)
qed

theorem scan_complete_witness:
  "\<exists>e'. loopGetLogs demo_q (node_at (replicate 267 [])) (node_at (replicate 267 [])) empty_engine 256 = Ok e'
     \<and> scanned demo_q (replicate 267 []) 256 266 (q_db e')"
proof -
  let ?c = "replicate 267 [] :: (string \<times> string) list list"
  have sv: "serves (node_at ?c) ?c" by (rule node_serves) simp_all
  have h: "GetBlockHeight (node_at ?c) = Ok 266" using node_height [of ?c] by simp
  have "concat (take n (drop m ?c)) = []" for n m by (simp add: drop_replicate take_replicate)
  then have l: "rpc_logs (node_at ?c) 256 (256 + 10) = RpcResult []" by (simp add: node_at_def)
  let ?e = "empty_engine\<lparr>q_db := db_empty\<lparr>kvs :=
     kv_set prefixQuorumContractLogOffset (Raw (uint64Bytes (256 + 10))) (kvs db_empty)\<rparr>\<rparr>"
  have run: "loopGetLogs demo_q (node_at ?c) (node_at ?c) empty_engine 256 = Ok ?e"
    by (rule silent_round [OF h l]) simp
  have off: "storeReadContractLogsOffset (q_db ?e) = Ok 266"
    by (simp add: storeReadContractLogsOffset_def store_eval)
  have "scanned demo_q (?c @ []) 256 266 (q_db ?e)"
    by (rule scan_complete [OF sv _ _ run empty_offset _ off]) (use sv scanned_start in simp_all)
  with run show ?thesis by auto
qed

text \<open>C32: the scan skips blocks when two or more arrive between its two calls, since \<open>GetLogs\<close> is called before
  \<open>GetBlockHeight\<close>. There is a chain and a round that moves the offset past a block whose event is in no queue,
  and the next rounds start from that offset.\<close>

theorem scan_race_skips_event:
  "\<exists>c d e'. length d = 2 \<and> serves (node_at c) c \<and> serves (node_at (c @ d)) (c @ d)
     \<and> loopGetLogs demo_q (node_at c) (node_at (c @ d)) empty_engine 256 = Ok e'
     \<and> storeReadContractLogsOffset (q_db e') = Ok 266 \<and> \<not> scanned demo_q (c @ d) 256 266 (q_db e')"
proof -
  let ?c = "replicate 265 [] :: (string \<times> string) list list" and ?d = "[[demo_log], []]"
  have sv: "serves (node_at ?c) ?c" "serves (node_at (?c @ ?d)) (?c @ ?d)" by (rule node_serves; simp)+
  have h: "GetBlockHeight (node_at (?c @ ?d)) = Ok 266" using node_height [of "?c @ ?d"] by simp
  have "concat (take n (drop m ?c)) = []" for n m by (simp add: drop_replicate take_replicate)
  then have l: "rpc_logs (node_at ?c) 256 (256 + 10) = RpcResult []" by (simp add: node_at_def)
  let ?e = "empty_engine\<lparr>q_db := db_empty\<lparr>kvs :=
     kv_set prefixQuorumContractLogOffset (Raw (uint64Bytes (256 + 10))) (kvs db_empty)\<rparr>\<rparr>"
  have run: "loopGetLogs demo_q (node_at ?c) (node_at (?c @ ?d)) empty_engine 256 = Ok ?e"
    by (rule silent_round [OF h l]) simp
  have off: "storeReadContractLogsOffset (q_db ?e) = Ok 266"
    by (simp add: storeReadContractLogsOffset_def store_eval)
  have "\<not> scanned demo_q (?c @ ?d) 256 266 (q_db ?e)"
  proof
    assume "scanned demo_q (?c @ ?d) 256 266 (q_db ?e)"
    moreover have "(?c @ ?d) ! 265 = [demo_log]" by (simp add: nth_append)
    ultimately have "case log_event demo_q demo_log of None \<Rightarrow> True
        | Some (a, evt) \<Rightarrow> db_lookup (q_db ?e) (contractEventKey a (e_Nonce evt)) \<noteq> None"
      unfolding scanned_def by (auto dest!: spec [of _ 265])
    then show False using demo_log_event by auto
  qed
  with sv run off show ?thesis by (intro exI [of _ ?c] exI [of _ ?d] exI [of _ ?e]) simp
qed

text \<open>A contract can stop every engine of the group. A log of four words whose declared size is more than the
  bytes the slice holds, up to 512, passes every check of \<open>parseTransactionLog\<close> and panics in the slice
  expression, so the scan of its block panics, in every round that reads the block.\<close>

theorem oversized_log_panics:
  assumes "n \<le> 512" and "length (hexSpare Q (hexEncode (abi_words (replicate 64 (CHR 0x00)) n))) + 64 < n"
    and "rpc_logs N off (off + 10) = RpcResult ((a, ''0x'' @ hexEncode (abi_words (replicate 64 (CHR 0x00)) n)) # rs)"
    and "storeReadContractLogsOffset (q_db e) = Ok off" and "base \<le> off"
  shows "loopGetLogs Q N N' e base = Panic ''slice bounds out of range''"
proof -
  have "parseTransactionLog Q (hexEncode (abi_words (replicate 64 (CHR 0x00)) n)) = Panic ''slice bounds out of range''"
    using assms(1,2) by (subst parse_abi_words) simp_all
  then have "GetLogs Q N off (off + 10) = Panic ''slice bounds out of range''"
    by (simp add: GetLogs_def assms(3))
  moreover have "\<not> off < base" using assms(5) by simp
  ultimately show ?thesis using assms(4) by (simp add: loopGetLogs_def Let_def)
qed

theorem oversized_log_panics_witness:
  "loopGetLogs demo_q (demo_node\<lparr>rpc_logs := \<lambda>f t. RpcResult
     [(demo_address, ''0x'' @ hexEncode (abi_words (replicate 64 (CHR 0x00)) 512))]\<rparr>) demo_node empty_engine 0
     = Panic ''slice bounds out of range''"
  by (rule oversized_log_panics [where off = 0 and n = 512 and rs = "[]"]) (simp_all add: demo_q_simps)

text \<open>An error object from the node reads as an empty balance. \<open>GetAddressBalance\<close> returns its nil \<open>err\<close>
  for a JSON-RPC error, so a publisher's round of \<open>loopHandleContracts\<close> that does not fail sends one deposit for
  every contract it lists, whatever the notifiers own.\<close>

theorem balance_error_deposits:
  assumes "\<And>a. \<exists>c m. rpc_balance N a = RpcError c m" and "IsPublisher e"
    and "pub Q (q_key e) = Ok a" and "GetAddressNonce N a = Ok nonce"
    and "storeListContractAddresses (q_db e) = Ok cs" and "loopHandleContracts Q N e = Ok e'"
  shows "GetAddressBalance Q N b = Ok 0 \<and> length (q_sent e') = length (q_sent e) + length cs"
proof -
  let ?f = "\<lambda>e c. if c \<in> set (q_contracts e) then e else e\<lparr>q_contracts := q_contracts e @ [c]\<rparr>"
  have keep: "q_db (foldl ?f e xs) = q_db e \<and> q_key (foldl ?f e xs) = q_key e \<and> q_sent (foldl ?f e xs) = q_sent e" for xs
    by (induction xs rule: rev_induct) auto
  from assms(2-6) keep [of cs] have "deposit_notifiers Q N (foldl ?f e cs) nonce cs = Ok e'"
    by (simp add: loopHandleContracts_def IsPublisher_def Let_def)
  from deposit_every_contract [OF this assms(1)] keep [of cs] assms(1) [of b] show ?thesis
    by (auto simp: GetAddressBalance_def)
qed

definition notified_engine :: qengine where
  "notified_engine = empty_engine\<lparr>q_db := db_empty\<lparr>kvs := [(notifierKey demo_address, Raw ''a'')]\<rparr>\<rparr>"

lemma notified_contracts: "storeListContractAddresses (q_db notified_engine) = Ok [demo_address]"
proof -
  have "\<not> prefixQuorumContractNotifier @ demo_address < prefixQuorumContractNotifier"
    using prefix_le [of prefixQuorumContractNotifier demo_address] by (simp add: not_less)
  then show ?thesis
    by (simp add: storeListContractAddresses_def iter_from_def notified_engine_def notifierKey_def)
qed

lemma deposit_signed: "\<exists>r. signTransaction demo_q e (pubkeyToAddress demo_q ''a'') k am d n = Ok r"
proof -
  have "drop 2 (pubkeyToAddress demo_q ''a'') = hexEncode (CHR 0xa0 # replicate 19 (CHR 0x00))" by code_simp
  then have "hexDecode (drop 2 (pubkeyToAddress demo_q ''a'')) = Ok (CHR 0xa0 # replicate 19 (CHR 0x00))"
    by (simp only: hexDecode_hexEncode)
  moreover have "length (pubkeyToAddress demo_q ''a'') = 42" by (simp add: demo_q_simps)
  moreover have "hexToECDSA demo_q k = Ok k" "ethSignTx demo_q k c n a am d = Ok (''id'', slice_bytes d)" for k c n a am d
    by (simp_all add: demo_q_simps)
  ultimately show ?thesis by (simp add: signTransaction_def del: rbind_Ok_iff)
qed

theorem balance_error_deposits_witness:
  "\<exists>e'. loopHandleContracts demo_q (demo_node\<lparr>rpc_balance := \<lambda>a. RpcError 5 ''down''\<rparr>) notified_engine = Ok e'
     \<and> length (q_sent e') = 1"
proof -
  let ?N = "demo_node\<lparr>rpc_balance := \<lambda>a. RpcError 5 ''down''\<rparr>"
  let ?e = "notified_engine\<lparr>q_contracts := [demo_address]\<rparr>"
  have pb: "IsPublisher notified_engine" by (simp add: IsPublisher_def notified_engine_def empty_engine_def)
  have n: "GetAddressNonce ?N a = Ok 0" for a using demo_nonce [of a] by (simp add: GetAddressNonce_def)
  have k: "storeReadContractNotifier (q_db ?e) demo_address = Ok ''a''"
    by (simp add: storeReadContractNotifier_def store_eval notified_engine_def empty_engine_def db_lookup_def)
  obtain r where r: "signTransaction demo_q ?e (pubkeyToAddress demo_q ''a'') (q_key ?e) NotifierMaximumBalance None 0 = Ok r"
    using deposit_signed by blast
  have "q_contracts notified_engine = []" by (simp add: notified_engine_def empty_engine_def)
  then obtain e' where run: "loopHandleContracts demo_q ?N notified_engine = Ok e'"
    using notified_contracts pb n k r
    by (cases r) (simp add: loopHandleContracts_def pub_demo GetAddressBalance_def NotifierMinimumBalance_def IsPublisher_def
        signContractNotifierDepositTransaction_def Let_def del: rbind_Ok_iff)
  from balance_error_deposits [OF _ pb pub_demo n notified_contracts run] run show ?thesis
    by (auto simp: notified_engine_def empty_engine_def)
qed

end
