(* ===== verification/Eos_Chain.thy ===== *)
theory Eos_Chain
  imports Text_Codecs
begin

text \<open>
  What the EOS contracts under mvm/eos/contracts share: the tables and intrinsics of the chain they run on, and
  the records they exchange. A contract's action is a function from its tables to a result; \<open>Err\<close> is a failed
  \<open>chain.Check\<close> or \<open>chain.Assert\<close>, which aborts the transaction, so the caller keeps the old tables.
  Inline actions are appended to a list in the order they are sent.

  A table is the list of its rows with their primary keys, ascending, which is the order of an iterator from
  \<open>Lowerbound(0)\<close>. Names and symbols are the 64-bit integers they wrap, amounts of assets are the integers of
  an \<open>int64\<close> with its wrap-around written out.
\<close>

type_synonym name = u64
type_synonym u128 = "128 word"

section \<open>Tables\<close>

fun tbl_put :: "'k :: linorder \<Rightarrow> 'r \<Rightarrow> ('k \<times> 'r) list \<Rightarrow> ('k \<times> 'r) list" where
  "tbl_put k r [] = [(k, r)]"
| "tbl_put k r ((k', r') # t) =
     (if k < k' then (k, r) # (k', r') # t else if k = k' then (k, r) # t else (k', r') # tbl_put k r t)"

text \<open>\<open>Find\<close> and \<open>GetByKey\<close>; \<open>Store\<close>, which the chain refuses for a key in use; \<open>Update\<close>; \<open>Remove\<close>.\<close>

definition tbl_find :: "('k \<times> 'r) list \<Rightarrow> 'k \<Rightarrow> 'r option" where
  "tbl_find t k = map_of t k"

definition tbl_store :: "('k :: linorder \<times> 'r) list \<Rightarrow> 'k \<Rightarrow> 'r \<Rightarrow> ('k \<times> 'r) list res" where
  "tbl_store t k r = (if tbl_find t k \<noteq> None then Err ''could not insert object, most likely a uniqueness constraint was violated''
     else Ok (tbl_put k r t))"

definition tbl_update :: "('k :: linorder \<times> 'r) list \<Rightarrow> 'k \<Rightarrow> 'r \<Rightarrow> ('k \<times> 'r) list" where
  "tbl_update t k r = tbl_put k r t"

definition tbl_remove :: "('k \<times> 'r) list \<Rightarrow> 'k \<Rightarrow> ('k \<times> 'r) list" where
  "tbl_remove t k = filter (\<lambda>x. fst x \<noteq> k) t"

definition tbl_ok :: "('k :: linorder \<times> 'r) list \<Rightarrow> bool" where
  "tbl_ok t \<longleftrightarrow> sorted_wrt (<) (map fst t)"

section \<open>The chain's library\<close>

text \<open>\<open>chain.Check\<close> and \<open>chain.Assert\<close>.\<close>

definition check :: "bool \<Rightarrow> string \<Rightarrow> unit res" where
  "check b msg = (if b then Ok () else Err msg)"

definition wrap64 :: "int \<Rightarrow> int" where
  "wrap64 x = (x + 2 ^ 63) mod 2 ^ 64 - 2 ^ 63"

record eos_asset =
  q_Amount :: int
  q_Symbol :: u64

text \<open>The event a contract receives and the request it answers with.\<close>

record tx_event =
  t_nonce :: u64
  t_process :: u128
  t_asset :: u128
  t_members :: "u128 list"
  t_threshold :: int
  t_amount :: u128
  t_extra :: bytes
  t_timestamp :: u64
  t_signatures :: "bytes list"

record tx_request =
  r_nonce :: u64
  r_contract :: name
  r_process :: u128
  r_asset :: u128
  r_members :: "u128 list"
  r_threshold :: int
  r_amount :: u128
  r_extra :: bytes
  r_timestamp :: u64

record tx_log =
  l_id :: u64
  l_nonce :: u64
  l_contract :: name
  l_process :: u128
  l_asset :: u128
  l_members :: "u128 list"
  l_threshold :: int
  l_amount :: u128
  l_extra :: bytes
  l_timestamp :: u64

record permission_level =
  pl_Actor :: name
  pl_Permission :: name

record permission_level_weight =
  pw_Permission :: permission_level
  pw_Weight :: nat

record authority =
  au_Threshold :: u32
  au_Keys :: "(bytes \<times> nat) list"
  au_Accounts :: "permission_level_weight list"
  au_Waits :: "(u32 \<times> nat) list"

record new_account =
  na_Creator :: name
  na_Name :: name
  na_Owner :: authority
  na_Active :: authority

text \<open>The arguments packed into an inline action.\<close>

datatype arg = ANameArg name | AAsset eos_asset | AString string | ALog tx_log | ARequest tx_request
  | AAccount new_account | AAuthority authority | ANat nat | ARaw bytes

record inline_action =
  act_Account :: name
  act_Name :: name
  act_Authorization :: "permission_level list"
  act_Data :: "arg list"

text \<open>The intrinsics and library functions of \<open>github.com/uuosio/chain\<close> that the contracts call, for one
  transaction: \<open>unpackEvent\<close> and \<open>unpackString\<close> are the generated decoders, with the number of bytes read.\<close>

record chainlib =
  isAccount :: "name \<Rightarrow> bool"
  hasAuth :: "name \<Rightarrow> bool"
  sha256 :: "bytes \<Rightarrow> bytes"
  recoverKey :: "bytes \<Rightarrow> bytes \<Rightarrow> bytes res"
  currentTime :: u64
  currentTimeSeconds :: u32
  activeName :: name
  ownerName :: name
  eosioContractName :: name
  newName :: "string \<Rightarrow> name"
  newSymbol :: "string \<Rightarrow> nat \<Rightarrow> u64"
  symbolCode :: "u64 \<Rightarrow> u64"
  symbolValid :: "u64 \<Rightarrow> bool"
  assetValid :: "eos_asset \<Rightarrow> bool"
  assetAdd :: "eos_asset \<Rightarrow> eos_asset \<Rightarrow> eos_asset res"
  assetSub :: "eos_asset \<Rightarrow> eos_asset \<Rightarrow> eos_asset res"
  maxAmount :: u64
  packName :: "name \<Rightarrow> bytes"
  packUint128 :: "u128 \<Rightarrow> bytes"
  uint128OfBytes :: "bytes \<Rightarrow> u128"
  hexDecodeString :: "string \<Rightarrow> bytes res"
  unpackEvent :: "bytes \<Rightarrow> (tx_event \<times> nat) res"
  unpackString :: "bytes \<Rightarrow> string res"

definition requireAuth :: "'z chainlib_scheme \<Rightarrow> name \<Rightarrow> unit res" where
  "requireAuth C n = check (hasAuth C n) ''missing required authority''"

definition new_action :: "permission_level list \<Rightarrow> name \<Rightarrow> name \<Rightarrow> arg list \<Rightarrow> inline_action" where
  "new_action auth account nm args =
     \<lparr>act_Account = account, act_Name = nm, act_Authorization = auth, act_Data = args\<rparr>"

section \<open>Lemmas on tables\<close>

lemma tbl_put_find [simp]: "tbl_find (tbl_put k r t) j = (if j = k then Some r else tbl_find t j)"
  by (induction k r t rule: tbl_put.induct) (auto simp: tbl_find_def)

lemma tbl_put_mem: "x \<in> set (tbl_put k r t) \<Longrightarrow> x = (k, r) \<or> x \<in> set t"
  by (induction k r t rule: tbl_put.induct) (auto split: if_splits)

lemma tbl_put_ok: "tbl_ok t \<Longrightarrow> tbl_ok (tbl_put k r t)"
  unfolding tbl_ok_def by (induction k r t rule: tbl_put.induct) (auto dest!: tbl_put_mem)

lemma tbl_find_Nil [simp]: "tbl_find [] k = None"
  by (simp add: tbl_find_def)

lemma tbl_remove_find [simp]: "tbl_find (tbl_remove t k) j = (if j = k then None else tbl_find t j)"
  by (induction t) (auto simp: tbl_find_def tbl_remove_def)

lemma tbl_remove_ok: "tbl_ok t \<Longrightarrow> tbl_ok (tbl_remove t k)"
  unfolding tbl_ok_def tbl_remove_def by (induction t) auto

lemma tbl_store_Ok [simp]: "tbl_store t k r = Ok t' \<longleftrightarrow> tbl_find t k = None \<and> t' = tbl_put k r t"
  by (auto simp: tbl_store_def)

lemma tbl_update_find [simp]: "tbl_find (tbl_update t k r) j = (if j = k then Some r else tbl_find t j)"
  by (simp add: tbl_update_def)

lemma tbl_update_ok: "tbl_ok t \<Longrightarrow> tbl_ok (tbl_update t k r)"
  by (simp add: tbl_update_def tbl_put_ok)

lemma tbl_remove_length: "tbl_find t k \<noteq> None \<Longrightarrow> length (tbl_remove t k) < length t"
proof (induction t)
  case (Cons x t)
  have "length (filter P t) < Suc (length t)" for P by (simp add: le_imp_less_Suc)
  with Cons show ?case by (auto simp: tbl_find_def tbl_remove_def split: if_splits)
qed simp

lemma tbl_ok_distinct: "tbl_ok t \<Longrightarrow> distinct (map fst t)"
  unfolding tbl_ok_def by (metis strict_sorted_iff)

lemma tbl_find_in: "tbl_ok t \<Longrightarrow> tbl_find t k = Some r \<longleftrightarrow> (k, r) \<in> set t"
  by (simp add: tbl_find_def tbl_ok_distinct map_of_eq_Some_iff)

lemma check_Ok [simp]: "check b msg = Ok u \<longleftrightarrow> b"
  by (simp add: check_def)

lemma check_simps: "check True msg = Ok ()" "check False msg = Err msg"
  by (simp_all add: check_def)

lemma requireAuth_Ok [simp]: "requireAuth C n = Ok u \<longleftrightarrow> hasAuth C n"
  by (simp add: requireAuth_def)

lemma wrap64_id: "- (2 ^ 63) \<le> x \<Longrightarrow> x < 2 ^ 63 \<Longrightarrow> wrap64 x = x"
  by (simp add: wrap64_def)

end
