(* ===== verification/Eos_Token.thy ===== *)
theory Eos_Token
  imports Eos_Chain
begin

text \<open>
  mvm/eos/contracts/mixinproxy/token: the contract of the wrapped tokens. \<open>k_stats\<close> is the table \<open>stat\<close>, one row
  per symbol code under its own scope; \<open>k_accounts\<close> the tables \<open>accounts\<close>, keyed by owner and symbol code;
  \<open>k_recipients\<close> the accounts notified. \<open>bound\<close> is the table of accounts that the proxy keeps under
  \<open>MASTER_ACCOUNT\<close>.
\<close>

section \<open>State\<close>

record currency_stats =
  st_supply :: eos_asset
  st_max_supply :: eos_asset
  st_issuer :: name

record token_state =
  k_stats :: "(u64 \<times> currency_stats) list"
  k_accounts :: "((name \<times> u64) \<times> eos_asset) list"
  k_recipients :: "name list"
  k_sent :: "inline_action list"

definition MASTER_ACCOUNT :: "'z chainlib_scheme \<Rightarrow> name" where
  "MASTER_ACCOUNT C = newName C ''mixincrossss''"

section \<open>Balances\<close>

text \<open>Rows of one owner's table; the keys of different owners are in different scopes.\<close>

definition bal_find :: "token_state \<Rightarrow> name \<Rightarrow> u64 \<Rightarrow> eos_asset option" where
  "bal_find k owner code = map_of (k_accounts k) (owner, code)"

definition bal_set :: "token_state \<Rightarrow> name \<Rightarrow> u64 \<Rightarrow> eos_asset \<Rightarrow> token_state" where
  "bal_set k owner code v = k\<lparr>k_accounts := ((owner, code), v) # filter (\<lambda>x. fst x \<noteq> (owner, code)) (k_accounts k)\<rparr>"

definition bal_del :: "token_state \<Rightarrow> name \<Rightarrow> u64 \<Rightarrow> token_state" where
  "bal_del k owner code = k\<lparr>k_accounts := filter (\<lambda>x. fst x \<noteq> (owner, code)) (k_accounts k)\<rparr>"

definition subBalance :: "'z chainlib_scheme \<Rightarrow> token_state \<Rightarrow> name \<Rightarrow> eos_asset \<Rightarrow> token_state res" where
  "subBalance C k owner v = (case bal_find k owner (symbolCode C (q_Symbol v)) of
       None \<Rightarrow> Err ''no balance object found''
     | Some from \<Rightarrow>
         rbind (check (q_Amount v \<le> q_Amount from) ''overdrawn balance'') (\<lambda>_.
         rbind (assetSub C from v) (\<lambda>b. Ok (bal_set k owner (symbolCode C (q_Symbol v)) b))))"

definition addBalance :: "'z chainlib_scheme \<Rightarrow> token_state \<Rightarrow> name \<Rightarrow> eos_asset \<Rightarrow> token_state res" where
  "addBalance C k owner v = (case bal_find k owner (symbolCode C (q_Symbol v)) of
       None \<Rightarrow> Ok (bal_set k owner (symbolCode C (q_Symbol v)) v)
     | Some to \<Rightarrow> rbind (assetAdd C to v) (\<lambda>b. Ok (bal_set k owner (symbolCode C (q_Symbol v)) b)))"

section \<open>Actions (token.go)\<close>

definition Token_Create :: "'z chainlib_scheme \<Rightarrow> name \<Rightarrow> token_state \<Rightarrow> name \<Rightarrow> eos_asset \<Rightarrow> token_state res" where
  "Token_Create C receiver k issuer maximum_supply =
     rbind (requireAuth C receiver) (\<lambda>_.
     rbind (check (symbolValid C (q_Symbol maximum_supply)) ''invalid symbol name'') (\<lambda>_.
     rbind (check (assetValid C maximum_supply) ''invalid supply'') (\<lambda>_.
     rbind (check (0 < q_Amount maximum_supply) ''max-supply must be positive'') (\<lambda>_.
     let code = symbolCode C (q_Symbol maximum_supply) in
     rbind (check (tbl_find (k_stats k) code = None) ''token with symbol already exists'') (\<lambda>_.
     rbind (tbl_store (k_stats k) code \<lparr>st_supply = \<lparr>q_Amount = 0, q_Symbol = q_Symbol maximum_supply\<rparr>,
         st_max_supply = maximum_supply, st_issuer = issuer\<rparr>) (\<lambda>t.
     Ok (k\<lparr>k_stats := t\<rparr>)))))))"

definition Token_Issue ::
  "'z chainlib_scheme \<Rightarrow> token_state \<Rightarrow> name \<Rightarrow> eos_asset \<Rightarrow> string \<Rightarrow> token_state res" where
  "Token_Issue C k to quantity memo =
     rbind (check (symbolValid C (q_Symbol quantity)) ''invalid symbol name'') (\<lambda>_.
     rbind (check (length memo \<le> 256) ''memo has more than 256 bytes'') (\<lambda>_.
     let code = symbolCode C (q_Symbol quantity) in
     case tbl_find (k_stats k) code of
       None \<Rightarrow> Err ''token with symbol does not exist, create token before issue''
     | Some item \<Rightarrow>
         rbind (check (to = st_issuer item) ''tokens can only be issued to issuer account'') (\<lambda>_.
         rbind (requireAuth C (st_issuer item)) (\<lambda>_.
         rbind (check (assetValid C quantity) ''invalid quantity'') (\<lambda>_.
         rbind (check (0 < q_Amount quantity) ''must issue positive quantity'') (\<lambda>_.
         rbind (check (q_Symbol quantity = q_Symbol (st_supply item)) ''symbol precision mismatch'') (\<lambda>_.
         rbind (check (q_Amount quantity \<le> wrap64 (q_Amount (st_max_supply item) - q_Amount (st_supply item)))
                  ''quantity exceeds available supply'') (\<lambda>_.
         rbind (assetAdd C (st_supply item) quantity) (\<lambda>supply.
         addBalance C (k\<lparr>k_stats := tbl_update (k_stats k) code (item\<lparr>st_supply := supply\<rparr>)\<rparr>) to quantity)))))))))"

text \<open>What \<open>Retire\<close> and \<open>RetireEx\<close> check of the row and the quantity, and the reduced supply.\<close>

definition reduce_supply :: "'z chainlib_scheme \<Rightarrow> token_state \<Rightarrow> currency_stats \<Rightarrow> eos_asset \<Rightarrow> token_state res" where
  "reduce_supply C k item quantity =
     rbind (check (assetValid C quantity) ''invalid quantity'') (\<lambda>_.
     rbind (check (0 < q_Amount quantity) ''must retire positive quantity'') (\<lambda>_.
     rbind (check (q_Symbol quantity = q_Symbol (st_supply item)) ''symbol precision mismatch'') (\<lambda>_.
     rbind (assetSub C (st_supply item) quantity) (\<lambda>supply.
     Ok (k\<lparr>k_stats := tbl_update (k_stats k) (symbolCode C (q_Symbol quantity)) (item\<lparr>st_supply := supply\<rparr>)\<rparr>)))))"

definition Token_Retire :: "'z chainlib_scheme \<Rightarrow> token_state \<Rightarrow> eos_asset \<Rightarrow> string \<Rightarrow> token_state res" where
  "Token_Retire C k quantity memo =
     rbind (check (symbolValid C (q_Symbol quantity)) ''invalid symbol name'') (\<lambda>_.
     rbind (check (length memo \<le> 256) ''memo has more than 256 bytes'') (\<lambda>_.
     case tbl_find (k_stats k) (symbolCode C (q_Symbol quantity)) of
       None \<Rightarrow> Err ''token with symbol does not exist''
     | Some item \<Rightarrow>
         rbind (requireAuth C (st_issuer item)) (\<lambda>_.
         rbind (reduce_supply C k item quantity) (\<lambda>k. subBalance C k (st_issuer item) quantity))))"

definition Token_RetireEx ::
  "'z chainlib_scheme \<Rightarrow> name \<Rightarrow> token_state \<Rightarrow> name \<Rightarrow> eos_asset \<Rightarrow> string \<Rightarrow> token_state res" where
  "Token_RetireEx C receiver k account quantity memo =
     rbind (requireAuth C receiver) (\<lambda>_.
     rbind (check (symbolValid C (q_Symbol quantity)) ''invalid symbol name'') (\<lambda>_.
     rbind (check (length memo \<le> 256) ''memo has more than 256 bytes'') (\<lambda>_.
     case tbl_find (k_stats k) (symbolCode C (q_Symbol quantity)) of
       None \<Rightarrow> Err ''token with symbol does not exist''
     | Some item \<Rightarrow> reduce_supply C k item quantity)))"

definition Token_TxRequest ::
  "'z chainlib_scheme \<Rightarrow> name \<Rightarrow> token_state \<Rightarrow> name \<Rightarrow> name \<Rightarrow> eos_asset \<Rightarrow> string \<Rightarrow> token_state" where
  "Token_TxRequest C receiver k from to quantity memo = k\<lparr>k_sent := k_sent k @
     [new_action [\<lparr>pl_Actor = receiver, pl_Permission = activeName C\<rparr>] (MASTER_ACCOUNT C) (newName C ''ontransfer'')
        [ANameArg from, ANameArg to, AAsset quantity, AString memo]]\<rparr>"

definition move_balance :: "'z chainlib_scheme \<Rightarrow> token_state \<Rightarrow> name \<Rightarrow> name \<Rightarrow> eos_asset \<Rightarrow> token_state res" where
  "move_balance C k from to quantity =
     rbind (subBalance C k from quantity) (\<lambda>k. addBalance C k to quantity)"

text \<open>The RAM payer that the code picks is not part of the tables' contents.\<close>

definition Token_Transfer ::
  "'z chainlib_scheme \<Rightarrow> name \<Rightarrow> (name \<times> u128) list \<Rightarrow> token_state \<Rightarrow> name \<Rightarrow> name \<Rightarrow> eos_asset \<Rightarrow> string \<Rightarrow>
   token_state res" where
  "Token_Transfer C receiver bound k from to quantity memo =
     rbind (check (from \<noteq> to) ''cannot transfer to self'') (\<lambda>_.
     rbind (requireAuth C from) (\<lambda>_.
     rbind (check (isAccount C to) ''to account does not exist'') (\<lambda>_.
     case tbl_find (k_stats k) (symbolCode C (q_Symbol quantity)) of
       None \<Rightarrow> Err ''token with symbol does not exist''
     | Some st \<Rightarrow>
         let k = k\<lparr>k_recipients := k_recipients k @ [to]\<rparr> in
         rbind (check (assetValid C quantity) ''invalid quantity'') (\<lambda>_.
         rbind (check (0 < q_Amount quantity) ''must transfer positive quantity'') (\<lambda>_.
         rbind (check (q_Symbol quantity = q_Symbol (st_supply st)) ''symbol precision mismatch'') (\<lambda>_.
         rbind (check (length memo \<le> 256) ''memo has more than 256 bytes'') (\<lambda>_.
         if from = MASTER_ACCOUNT C then move_balance C k from to quantity
         else if tbl_find bound to = None then move_balance C k from to quantity
         else rbind (subBalance C k from quantity) (\<lambda>k.
           Ok (Token_TxRequest C receiver (k\<lparr>k_sent := k_sent k @
             [new_action [\<lparr>pl_Actor = receiver, pl_Permission = activeName C\<rparr>] receiver (newName C ''retireex'')
                [ANameArg from, AAsset quantity, AString ''retire for transfer out'']]\<rparr>) from to quantity memo)))))))))"

definition Token_Open :: "'z chainlib_scheme \<Rightarrow> token_state \<Rightarrow> name \<Rightarrow> u64 \<Rightarrow> name \<Rightarrow> token_state res" where
  "Token_Open C k owner symb ram_payer =
     rbind (requireAuth C ram_payer) (\<lambda>_.
     rbind (check (isAccount C owner) ''owner account does not exist'') (\<lambda>_.
     case tbl_find (k_stats k) (symbolCode C symb) of
       None \<Rightarrow> Err ''symbol does not exist''
     | Some st \<Rightarrow>
         rbind (check (q_Symbol (st_supply st) = symb) ''symbol precision mismatch'') (\<lambda>_.
         if bal_find k owner (symbolCode C symb) = None
         then Ok (bal_set k owner (symbolCode C symb) \<lparr>q_Amount = 0, q_Symbol = symb\<rparr>)
         else Ok k)))"

definition Token_Close :: "'z chainlib_scheme \<Rightarrow> token_state \<Rightarrow> name \<Rightarrow> u64 \<Rightarrow> token_state res" where
  "Token_Close C k owner symb =
     rbind (requireAuth C owner) (\<lambda>_.
     case bal_find k owner (symbolCode C symb) of
       None \<Rightarrow> Err ''Balance row already deleted or never existed. Action won't have any effect.''
     | Some b \<Rightarrow>
         rbind (check (q_Amount b = 0) ''Cannot close because the balance is not zero.'') (\<lambda>_.
         Ok (bal_del k owner (symbolCode C symb))))"

end
