(* ===== verification/Mtg_Xin.thy ===== *)
theory Mtg_Xin
  imports Eos_Chain
begin

text \<open>
  mvm/eos/contracts/mtg.xin: the contract that keeps the group's signers and the processes, and turns the
  requests of the contracts into logs. Its tables are the fields of \<open>mtg_state\<close>; \<open>mx_sent\<close> collects the
  inline actions.
\<close>

section \<open>State\<close>

record mtg_state =
  mx_processes :: "(name \<times> u128) list"
  mx_signers :: "(name \<times> bytes) list"
  mx_counters :: "(u64 \<times> u64) list"
  mx_sent :: "inline_action list"

definition KEY_TX_REQUEST_SEQ :: u64 where
  "KEY_TX_REQUEST_SEQ = 1"

section \<open>Signatures (utils.go)\<close>

definition CheckDuplicatedSignature :: "bytes list \<Rightarrow> bytes \<Rightarrow> unit res" where
  "CheckDuplicatedSignature sigs sig = check (sig \<notin> set sigs) ''duplicated signature''"

text \<open>The number of signers a signature stands for: the inner loop stops at the first signer with its key.\<close>

definition signer_hit :: "(name \<times> bytes) list \<Rightarrow> bytes \<Rightarrow> nat" where
  "signer_hit signers key = (if list_ex (\<lambda>s. snd s = key) signers then 1 else 0)"

text \<open>The loop over the signatures, shared by the three contracts: \<open>seen\<close> are the signatures before, \<open>valid\<close>
  the count so far.\<close>

fun verify_loop ::
  "'z chainlib_scheme \<Rightarrow> bytes \<Rightarrow> (name \<times> bytes) list \<Rightarrow> nat \<Rightarrow> bytes list \<Rightarrow> nat \<Rightarrow> bytes list \<Rightarrow> bool res" where
  "verify_loop C digest signers threshold seen valid [] =
     rbind (check False ''Not enough valid signatures'') (\<lambda>_. Ok False)"
| "verify_loop C digest signers threshold seen valid (sig # sigs) =
     rbind (CheckDuplicatedSignature seen sig) (\<lambda>_.
     rbind (recoverKey C digest sig) (\<lambda>key.
     let valid = valid + signer_hit signers key in
     if threshold \<le> valid then Ok True
     else verify_loop C digest signers threshold (seen @ [sig]) valid sigs))"

definition mtg_threshold :: "nat \<Rightarrow> nat" where
  "mtg_threshold n = n * 2 div 3 + 1"

definition VerifySignatures :: "'z chainlib_scheme \<Rightarrow> mtg_state \<Rightarrow> bytes \<Rightarrow> bytes list \<Rightarrow> bool res" where
  "VerifySignatures C mx data sigs =
     verify_loop C (sha256 C data) (mx_signers mx) (mtg_threshold (length (mx_signers mx))) [] 0 sigs"

section \<open>Actions (mtg.xin.go)\<close>

definition store_signer :: "'z chainlib_scheme \<Rightarrow> (name \<times> bytes) list \<Rightarrow> name \<times> bytes \<Rightarrow> (name \<times> bytes) list res" where
  "store_signer C t s = rbind (check (isAccount C (fst s)) ''contract account does not exists!'') (\<lambda>_.
     tbl_store t (fst s) (snd s))"

text \<open>The loop that removes the first row until there is none leaves an empty table.\<close>

fun clear_table :: "('k \<times> 'r) list \<Rightarrow> ('k \<times> 'r) list" where
  "clear_table [] = []"
| "clear_table (r # t) = clear_table t"

definition Setup :: "'z chainlib_scheme \<Rightarrow> mtg_state \<Rightarrow> (name \<times> bytes) list \<Rightarrow> mtg_state res" where
  "Setup C mx signers =
     rbind (rfold (store_signer C) (clear_table (mx_signers mx)) signers) (\<lambda>t. Ok (mx\<lparr>mx_signers := t\<rparr>))"

definition Mtg_AddProcess ::
  "'z chainlib_scheme \<Rightarrow> mtg_state \<Rightarrow> name \<Rightarrow> u128 \<Rightarrow> bytes list \<Rightarrow> mtg_state res" where
  "Mtg_AddProcess C mx contract process sigs =
     rbind (check (isAccount C contract) ''contract account does not exists!'') (\<lambda>_.
     rbind (VerifySignatures C mx (packName C contract @ packUint128 C process) sigs) (\<lambda>_.
     rbind (check (tbl_find (mx_processes mx) contract = None) ''process already exists!'') (\<lambda>_.
     rbind (tbl_store (mx_processes mx) contract process) (\<lambda>t. Ok (mx\<lparr>mx_processes := t\<rparr>)))))"

definition Mtg_GetNextIndex :: "mtg_state \<Rightarrow> u64 \<Rightarrow> (u64 \<times> mtg_state) res" where
  "Mtg_GetNextIndex mx key = (case tbl_find (mx_counters mx) key of
       Some count \<Rightarrow> Ok (count, mx\<lparr>mx_counters := tbl_update (mx_counters mx) key (count + 1)\<rparr>)
     | None \<Rightarrow> rbind (tbl_store (mx_counters mx) key 1) (\<lambda>t. Ok (0, mx\<lparr>mx_counters := t\<rparr>)))"

definition GetNextSeq :: "mtg_state \<Rightarrow> (u64 \<times> mtg_state) res" where
  "GetNextSeq mx = Mtg_GetNextIndex mx KEY_TX_REQUEST_SEQ"

definition Mtg_TxRequest :: "'z chainlib_scheme \<Rightarrow> name \<Rightarrow> mtg_state \<Rightarrow> tx_request \<Rightarrow> mtg_state res" where
  "Mtg_TxRequest C self mx r =
     rbind (requireAuth C (r_contract r)) (\<lambda>_.
     case tbl_find (mx_processes mx) (r_contract r) of
       None \<Rightarrow> Err ''process not found!''
     | Some process \<Rightarrow>
         rbind (check (process = r_process r) ''invalid process!'') (\<lambda>_.
         rbind (GetNextSeq mx) (\<lambda>(seq, mx).
         let l = \<lparr>l_id = seq, l_nonce = r_nonce r, l_contract = r_contract r, l_process = r_process r,
                  l_asset = r_asset r, l_members = r_members r, l_threshold = r_threshold r, l_amount = r_amount r,
                  l_extra = r_extra r, l_timestamp = currentTime C * 1000\<rparr> in
         Ok (mx\<lparr>mx_sent := mx_sent mx @
           [new_action [\<lparr>pl_Actor = self, pl_Permission = activeName C\<rparr>] self (newName C ''ontxlog'') [ALog l]]\<rparr>))))"

definition OnTxLog :: "'z chainlib_scheme \<Rightarrow> name \<Rightarrow> tx_log \<Rightarrow> unit res" where
  "OnTxLog C self l = requireAuth C self"

text \<open>The debug build's \<open>clear\<close>.\<close>

definition Mtg_clear :: "'z chainlib_scheme \<Rightarrow> name \<Rightarrow> mtg_state \<Rightarrow> mtg_state res" where
  "Mtg_clear C self mx = rbind (requireAuth C self) (\<lambda>_.
     Ok (mx\<lparr>mx_processes := clear_table (mx_processes mx), mx_counters := clear_table (mx_counters mx)\<rparr>))"

end
