(* ===== verification/Dappdemo.thy ===== *)
theory Dappdemo
  imports Mtg_Xin
begin

text \<open>
  mvm/eos/contracts/dappdemo: a contract that stores the group's events and executes them one nonce at a time,
  asking the group to pay each one back. It reads the signers and processes of mtg.xin from \<open>mtg_state\<close>.
\<close>

section \<open>State\<close>

record contract_ctx =
  c_self :: name
  c_firstReceiver :: name
  c_process :: u128

record dapp_state =
  d_events :: "(u64 \<times> tx_event) list"
  d_counters :: "(u64 \<times> u64) list"
  d_sent :: "inline_action list"

definition KEY_NONCE :: u64 where
  "KEY_NONCE = 1"

definition KEY_TX_REQUEST_INDEX :: u64 where
  "KEY_TX_REQUEST_INDEX = 2"

definition MTG_XIN :: "'z chainlib_scheme \<Rightarrow> name" where
  "MTG_XIN C = newName C ''mtgxinmtgxin''"

section \<open>Counters\<close>

definition Dapp_GetNextIndex :: "dapp_state \<Rightarrow> u64 \<Rightarrow> u64 \<Rightarrow> (u64 \<times> dapp_state) res" where
  "Dapp_GetNextIndex d key initialValue = (case tbl_find (d_counters d) key of
       Some count \<Rightarrow> Ok (count + 1, d\<lparr>d_counters := tbl_update (d_counters d) key (count + 1)\<rparr>)
     | None \<Rightarrow> rbind (tbl_store (d_counters d) key initialValue) (\<lambda>t. Ok (initialValue, d\<lparr>d_counters := t\<rparr>)))"

definition Dapp_IncNonce :: "dapp_state \<Rightarrow> dapp_state res" where
  "Dapp_IncNonce d = (case tbl_find (d_counters d) KEY_NONCE of
       Some count \<Rightarrow> Ok (d\<lparr>d_counters := tbl_update (d_counters d) KEY_NONCE (count + 1)\<rparr>)
     | None \<Rightarrow> rbind (tbl_store (d_counters d) KEY_NONCE 2) (\<lambda>t. Ok (d\<lparr>d_counters := t\<rparr>)))"

definition Dapp_GetNonce :: "dapp_state \<Rightarrow> (u64 \<times> dapp_state) res" where
  "Dapp_GetNonce d = (case tbl_find (d_counters d) KEY_NONCE of
       Some count \<Rightarrow> Ok (count, d)
     | None \<Rightarrow> rbind (tbl_store (d_counters d) KEY_NONCE 1) (\<lambda>t. Ok (1, d\<lparr>d_counters := t\<rparr>)))"

definition Dapp_CheckAndIncNonce :: "dapp_state \<Rightarrow> u64 \<Rightarrow> dapp_state res" where
  "Dapp_CheckAndIncNonce d oldNonce = (case tbl_find (d_counters d) KEY_NONCE of
       Some count \<Rightarrow> rbind (check (count = oldNonce) ''Invalid nonce'') (\<lambda>_.
         Ok (d\<lparr>d_counters := tbl_update (d_counters d) KEY_NONCE (oldNonce + 1)\<rparr>))
     | None \<Rightarrow> rbind (tbl_store (d_counters d) KEY_NONCE (oldNonce + 1)) (\<lambda>t. Ok (d\<lparr>d_counters := t\<rparr>)))"

definition Dapp_GetNextTxRequestNonce :: "dapp_state \<Rightarrow> (u64 \<times> dapp_state) res" where
  "Dapp_GetNextTxRequestNonce d = Dapp_GetNextIndex d KEY_TX_REQUEST_INDEX 1"

section \<open>Verification (utils.go)\<close>

definition dapp_threshold :: "nat \<Rightarrow> nat" where
  "dapp_threshold n = n div 3 * 2 + 1"

definition Dapp_VerifySignatures :: "'z chainlib_scheme \<Rightarrow> mtg_state \<Rightarrow> bytes \<Rightarrow> bytes list \<Rightarrow> bool res" where
  "Dapp_VerifySignatures C mx data sigs =
     verify_loop C (sha256 C data) (mx_signers mx) (dapp_threshold (length (mx_signers mx))) [] 0 sigs"

definition VerifyProcess :: "mtg_state \<Rightarrow> name \<Rightarrow> u128 \<Rightarrow> unit res" where
  "VerifyProcess mx contract process = (case tbl_find (mx_processes mx) contract of
       None \<Rightarrow> Err ''process not found!''
     | Some p \<Rightarrow> check (p = process) ''invalid process!'')"

section \<open>Actions (dappdemo.go)\<close>

definition Dapp_NewContract :: "mtg_state \<Rightarrow> name \<Rightarrow> name \<Rightarrow> contract_ctx res" where
  "Dapp_NewContract mx receiver firstReceiver = (case tbl_find (mx_processes mx) receiver of
       None \<Rightarrow> Err ''process not found!''
     | Some p \<Rightarrow> Ok \<lparr>c_self = receiver, c_firstReceiver = firstReceiver, c_process = p\<rparr>)"

text \<open>The bytes signed: the action's data without the signatures, 66 bytes each, and their one-byte count.\<close>

definition signed_part :: "bytes \<Rightarrow> nat \<Rightarrow> nat \<Rightarrow> bytes res" where
  "signed_part data sz nsigs =
     (if sz < 1 + nsigs * 66 \<or> length data < sz - 1 - nsigs * 66 then Panic ''slice bounds out of range''
      else Ok (take (sz - 1 - nsigs * 66) data))"

definition Dapp_OnEvent ::
  "'z chainlib_scheme \<Rightarrow> mtg_state \<Rightarrow> contract_ctx \<Rightarrow> dapp_state \<Rightarrow> bytes \<Rightarrow> dapp_state res" where
  "Dapp_OnEvent C mx c d data =
     rbind (unpackEvent C data) (\<lambda>(event, _).
     rbind (signed_part data (length data) (length (t_signatures event))) (\<lambda>msg.
     rbind (Dapp_VerifySignatures C mx msg (t_signatures event)) (\<lambda>_.
     rbind (VerifyProcess mx (c_self c) (t_process event)) (\<lambda>_.
     rbind (check (t_process event = c_process c) ''Invalid process id'') (\<lambda>_.
     rbind (Dapp_GetNonce d) (\<lambda>(nonce, d).
     rbind (check (nonce \<le> t_nonce event) ''bad nonce!'') (\<lambda>_.
     rbind (check (tbl_find (d_events d) (t_nonce event) = None) ''event already exists!'') (\<lambda>_.
     rbind (tbl_store (d_events d) (t_nonce event) event) (\<lambda>t. Ok (d\<lparr>d_events := t\<rparr>))))))))))"

text \<open>The loop of \<open>Exec\<close> runs \<open>txRequestCount\<close> = 1 times.\<close>

definition Dapp_Exec :: "'z chainlib_scheme \<Rightarrow> contract_ctx \<Rightarrow> dapp_state \<Rightarrow> name \<Rightarrow> dapp_state res" where
  "Dapp_Exec C c d executor =
     rbind (requireAuth C executor) (\<lambda>_.
     rbind (Dapp_GetNonce d) (\<lambda>(nonce, d).
     case tbl_find (d_events d) nonce of
       None \<Rightarrow> Err ''event not found!''
     | Some event \<Rightarrow>
         rbind (Dapp_GetNextTxRequestNonce (d\<lparr>d_events := tbl_remove (d_events d) nonce\<rparr>)) (\<lambda>(i, d).
         rbind (check (unat (t_amount event) < unat (maxAmount C)) ''Invalid amount'') (\<lambda>_.
         let notify = \<lparr>r_nonce = i, r_contract = c_self c, r_process = c_process c, r_asset = t_asset event,
                       r_members = t_members event, r_threshold = t_threshold event,
                       r_amount = ucast (ucast (t_amount event) :: u64), r_extra = t_extra event, r_timestamp = 0\<rparr> in
         Dapp_IncNonce (d\<lparr>d_sent := d_sent d @
           [new_action [\<lparr>pl_Actor = c_self c, pl_Permission = activeName C\<rparr>] (MTG_XIN C)
              (newName C ''txrequest'') [ARequest notify]]\<rparr>)))))"

text \<open>The debug build's \<open>clear\<close>.\<close>

definition Dapp_clear :: "'z chainlib_scheme \<Rightarrow> contract_ctx \<Rightarrow> dapp_state \<Rightarrow> dapp_state res" where
  "Dapp_clear C c d = rbind (requireAuth C (c_self c)) (\<lambda>_. Ok (d\<lparr>d_counters := clear_table (d_counters d)\<rparr>))"

end
