(* ===== verification/Contract_Laws.thy ===== *)
theory Contract_Laws
  imports Dappdemo
begin

text \<open>
  The signature check the contracts share, the sequence of logs of mtg.xin and the order in which dappdemo executes
  events. The locale \<open>two_thirds\<close> states what a threshold has to satisfy for two quorums to share more than a
  third of the signers; mtg.xin's threshold is an instance and dappdemo's is not.
\<close>

section \<open>Thresholds\<close>

locale two_thirds =
  fixes thr :: "nat \<Rightarrow> nat"
  assumes above: "2 * n < 3 * thr n"
begin

lemma quorums_meet:
  assumes "finite S" "A \<subseteq> S" "B \<subseteq> S" "thr (card S) \<le> card A" "thr (card S) \<le> card B"
  shows "card S < 3 * card (A \<inter> B)"
proof -
  have fin: "finite A" "finite B" using assms(1-3) finite_subset by blast+
  have "card A + card B = card (A \<union> B) + card (A \<inter> B)" by (rule card_Un_Int [OF fin])
  moreover have "card (A \<union> B) \<le> card S" using assms(1-3) by (intro card_mono) auto
  ultimately show ?thesis using assms(4,5) above [of "card S"] by linarith
qed

end

interpretation mtg: two_thirds mtg_threshold
  by unfold_locales (unfold mtg_threshold_def, presburger)

section \<open>The signature loop\<close>

text \<open>The signatures of a list whose recovered key belongs to a signer.\<close>

definition good_sig :: "'z chainlib_scheme \<Rightarrow> bytes \<Rightarrow> (name \<times> bytes) list \<Rightarrow> bytes \<Rightarrow> bool" where
  "good_sig C digest signers sig \<longleftrightarrow> (\<exists>key. recoverKey C digest sig = Ok key \<and> key \<in> snd ` set signers)"

lemma signer_hit_good: "recoverKey C digest sig = Ok key \<Longrightarrow>
   signer_hit signers key = (if good_sig C digest signers sig then 1 else 0)"
  by (auto simp: signer_hit_def good_sig_def list_ex_iff)

lemma verify_loop_true: "verify_loop C digest signers thr seen valid sigs = Ok b \<Longrightarrow> b"
  by (induction sigs arbitrary: seen valid) (auto simp: Let_def split: if_splits)

lemma verify_loop_quorum:
  "verify_loop C digest signers thr seen valid sigs = Ok b \<Longrightarrow> distinct seen \<Longrightarrow>
   \<exists>used. distinct used \<and> set used \<subseteq> set sigs \<and> set used \<inter> set seen = {} \<and>
     (\<forall>sig \<in> set used. good_sig C digest signers sig) \<and> thr \<le> valid + length used"
proof (induction sigs arbitrary: seen valid)
  case (Cons sig sigs)
  from Cons.prems obtain key where new: "sig \<notin> set seen" and key: "recoverKey C digest sig = Ok key"
    by (auto simp: CheckDuplicatedSignature_def)
  let ?used = "if good_sig C digest signers sig then [sig] else []"
  have hit: "signer_hit signers key = length ?used" using signer_hit_good [OF key] by simp
  show ?case
  proof (cases "thr \<le> valid + length ?used")
    case True
    with new show ?thesis by (intro exI [of _ ?used]) auto
  next
    case False
    with Cons.prems(1) key hit have "verify_loop C digest signers thr (seen @ [sig]) (valid + length ?used) sigs = Ok b"
      by (auto simp: Let_def)
    from Cons.IH [OF this] Cons.prems(2) new obtain used where u: "distinct used" "set used \<subseteq> set sigs"
      "set used \<inter> set (seen @ [sig]) = {}" "\<forall>sig \<in> set used. good_sig C digest signers sig"
      "thr \<le> valid + length ?used + length used" by auto
    then show ?thesis using new by (intro exI [of _ "?used @ used"]) auto
  qed
qed simp

lemma verify_loop_all_good:
  "\<forall>sig \<in> set sigs. good_sig C digest signers sig \<Longrightarrow> distinct (seen @ sigs) \<Longrightarrow> valid < thr \<Longrightarrow> thr \<le> valid + length sigs \<Longrightarrow>
    verify_loop C digest signers thr seen valid sigs = Ok True"
proof (induction sigs arbitrary: seen valid)
  case (Cons sig sigs)
  then obtain key where key: "recoverKey C digest sig = Ok key" by (auto simp: good_sig_def)
  have "signer_hit signers key = 1" using signer_hit_good [OF key] Cons.prems(1) by simp
  moreover have "verify_loop C digest signers thr (seen @ [sig]) (valid + 1) sigs = Ok True" if "valid + 1 < thr"
    using Cons.IH [of "seen @ [sig]" "valid + 1"] Cons.prems that by auto
  ultimately show ?case using Cons.prems key by (auto simp: CheckDuplicatedSignature_def check_simps Let_def)
qed simp

section \<open>The sequence of mtg.xin\<close>

definition next_seq :: "mtg_state \<Rightarrow> u64" where
  "next_seq mx = (case tbl_find (mx_counters mx) KEY_TX_REQUEST_SEQ of None \<Rightarrow> 0 | Some n \<Rightarrow> n)"

lemma GetNextSeq_Ok: "GetNextSeq mx = Ok (seq, mx') \<Longrightarrow> seq = next_seq mx \<and> next_seq mx' = seq + 1
   \<and> mx_sent mx' = mx_sent mx \<and> mx_processes mx' = mx_processes mx \<and> mx_signers mx' = mx_signers mx"
  by (auto simp: GetNextSeq_def Mtg_GetNextIndex_def next_seq_def split: option.splits)

definition log_of :: "inline_action \<Rightarrow> tx_log option" where
  "log_of a = (case act_Data a of [ALog l] \<Rightarrow> Some l | _ \<Rightarrow> None)"

lemma TxRequest_Ok:
  assumes "Mtg_TxRequest C self mx r = Ok mx'"
  shows "hasAuth C (r_contract r) \<and> tbl_find (mx_processes mx) (r_contract r) = Some (r_process r)
    \<and> next_seq mx' = next_seq mx + 1 \<and> mx_processes mx' = mx_processes mx
    \<and> (\<exists>a l. mx_sent mx' = mx_sent mx @ [a] \<and> log_of a = Some l \<and> l_id l = next_seq mx
         \<and> l_contract l = r_contract r \<and> l_amount l = r_amount r \<and> l_nonce l = r_nonce r)"
  using assms
  by (auto simp: Mtg_TxRequest_def Let_def new_action_def log_of_def next_seq_def split: option.splits prod.splits
      dest!: GetNextSeq_Ok)

lemma TxRequests_Ok:
  "rfold (Mtg_TxRequest C self) mx rs = Ok mx' \<Longrightarrow>
   \<exists>as ls. mx_sent mx' = mx_sent mx @ as \<and> map log_of as = map Some ls
     \<and> map l_id ls = map (\<lambda>i. next_seq mx + of_nat i) [0..<length rs] \<and> map l_contract ls = map r_contract rs
     \<and> map l_amount ls = map r_amount rs
     \<and> (\<forall>r \<in> set rs. hasAuth C (r_contract r) \<and> tbl_find (mx_processes mx) (r_contract r) = Some (r_process r))"
proof (induction rs arbitrary: mx)
  case (Cons r rs)
  from Cons.prems obtain m1 where m1: "Mtg_TxRequest C self mx r = Ok m1" and rest: "rfold (Mtg_TxRequest C self) m1 rs = Ok mx'"
    by auto
  from TxRequest_Ok [OF m1] obtain a l where a: "mx_sent m1 = mx_sent mx @ [a]" "log_of a = Some l" "l_id l = next_seq mx"
    "l_contract l = r_contract r" "l_amount l = r_amount r" "next_seq m1 = next_seq mx + 1" "mx_processes m1 = mx_processes mx"
    "hasAuth C (r_contract r)" "tbl_find (mx_processes mx) (r_contract r) = Some (r_process r)" by blast
  from Cons.IH [OF rest] a(6,7) obtain as ls where as: "mx_sent mx' = mx_sent m1 @ as" "map log_of as = map Some ls"
    "map l_id ls = map (\<lambda>i. next_seq mx + 1 + of_nat i) [0..<length rs]" "map l_contract ls = map r_contract rs"
    "map l_amount ls = map r_amount rs"
    "\<forall>r \<in> set rs. hasAuth C (r_contract r) \<and> tbl_find (mx_processes mx) (r_contract r) = Some (r_process r)" by auto
  have "map (\<lambda>i. next_seq mx + of_nat i) [0..<length (r # rs)]
      = next_seq mx # map (\<lambda>i. next_seq mx + 1 + of_nat i) [0..<length rs]"
    by (simp add: upt_conv_Cons map_Suc_upt [symmetric] add.assoc del: upt_Suc)
  with a as show ?case by (intro exI [of _ "a # as"] exI [of _ "l # ls"]) (simp del: upt_Suc)
qed simp

lemma clear_table_Nil [simp]: "clear_table t = []"
  by (induction t) auto

lemma store_signers:
  "distinct (map fst ss) \<Longrightarrow> (\<And>s. s \<in> set ss \<Longrightarrow> isAccount C (fst s) \<and> tbl_find t (fst s) = None) \<Longrightarrow>
   \<exists>t'. rfold (store_signer C) t ss = Ok t' \<and>
     (\<forall>a. tbl_find t' a = (case map_of ss a of Some k \<Rightarrow> Some k | None \<Rightarrow> tbl_find t a))"
proof (induction ss arbitrary: t)
  case (Cons s ss)
  have st: "store_signer C t s = Ok (tbl_put (fst s) (snd s) t)"
    using Cons.prems(2) [of s] by (auto simp: store_signer_def tbl_store_def check_simps)
  have "\<exists>t'. rfold (store_signer C) (tbl_put (fst s) (snd s) t) ss = Ok t' \<and>
     (\<forall>a. tbl_find t' a = (case map_of ss a of Some k \<Rightarrow> Some k | None \<Rightarrow> tbl_find (tbl_put (fst s) (snd s) t) a))"
  proof (rule Cons.IH)
    fix sa assume sa: "sa \<in> set ss"
    then have "fst sa \<noteq> fst s" using Cons.prems(1) by (auto simp: image_iff)
    with Cons.prems(2) [of sa] sa show "isAccount C (fst sa) \<and> tbl_find (tbl_put (fst s) (snd s) t) (fst sa) = None" by simp
  qed (use Cons.prems(1) in simp)
  then obtain t' where t': "rfold (store_signer C) (tbl_put (fst s) (snd s) t) ss = Ok t'"
    "\<And>a. tbl_find t' a = (case map_of ss a of Some k \<Rightarrow> Some k | None \<Rightarrow> tbl_find (tbl_put (fst s) (snd s) t) a)"
    by blast
  have "map_of ss (fst s) = None" using Cons.prems(1) by (simp add: map_of_eq_None_iff)
  with st t' show ?case by (auto split: option.split)
qed simp

lemma Setup_stores:
  assumes "distinct (map fst signers)" and "\<And>s. s \<in> set signers \<Longrightarrow> isAccount C (fst s)"
  shows "\<exists>mx'. Setup C mx signers = Ok mx' \<and> (\<forall>account. tbl_find (mx_signers mx') account = map_of signers account)"
proof -
  obtain t' where t': "rfold (store_signer C) [] signers = Ok t'"
    "\<And>a. tbl_find t' a = (case map_of signers a of Some k \<Rightarrow> Some k | None \<Rightarrow> tbl_find [] a)"
    using store_signers [of signers C "[]"] assms by auto
  have "tbl_find t' a = map_of signers a" for a using t'(2) [of a] by (cases "map_of signers a") simp_all
  with t'(1) show ?thesis by (simp add: Setup_def del: rbind_Ok_iff)
qed

section \<open>Runs of dappdemo\<close>

definition dapp_nonce :: "dapp_state \<Rightarrow> u64" where
  "dapp_nonce d = (case tbl_find (d_counters d) KEY_NONCE of None \<Rightarrow> 1 | Some n \<Rightarrow> n)"

definition request_of :: "inline_action \<Rightarrow> tx_request option" where
  "request_of a = (case act_Data a of [ARequest r] \<Rightarrow> Some r | _ \<Rightarrow> None)"

lemma Dapp_GetNonce_Ok: "Dapp_GetNonce d = Ok (n, d') \<Longrightarrow>
   n = dapp_nonce d \<and> dapp_nonce d' = n \<and> d_events d' = d_events d \<and> d_sent d' = d_sent d
   \<and> tbl_find (d_counters d') KEY_NONCE = Some n"
  by (auto simp: Dapp_GetNonce_def dapp_nonce_def split: option.splits)

lemma Dapp_GetNonce_total: "\<exists>d'. Dapp_GetNonce d = Ok (dapp_nonce d, d')"
  by (cases "tbl_find (d_counters d) KEY_NONCE") (auto simp: Dapp_GetNonce_def dapp_nonce_def tbl_store_def)

lemma Dapp_NextTx_Ok: "Dapp_GetNextTxRequestNonce d = Ok (i, d') \<Longrightarrow>
   d_events d' = d_events d \<and> d_sent d' = d_sent d
   \<and> tbl_find (d_counters d') KEY_NONCE = tbl_find (d_counters d) KEY_NONCE"
  by (auto simp: Dapp_GetNextTxRequestNonce_def Dapp_GetNextIndex_def KEY_NONCE_def KEY_TX_REQUEST_INDEX_def
      split: option.splits)

text \<open>The trace is the list of the events executed. Every action has the chain and the signers of its own transaction.\<close>

inductive dapp_run :: "contract_ctx \<Rightarrow> dapp_state \<Rightarrow> tx_event list \<Rightarrow> bool" for c :: contract_ctx where
  start: "dapp_run c \<lparr>d_events = [], d_counters = [], d_sent = []\<rparr> []"
| event: "dapp_run c d tr \<Longrightarrow> Dapp_OnEvent (C :: chainlib) mx c d data = Ok d' \<Longrightarrow> dapp_run c d' tr"
| exec: "dapp_run c d tr \<Longrightarrow> Dapp_Exec (C :: chainlib) c d executor = Ok d' \<Longrightarrow>
    tbl_find (d_events d) (dapp_nonce d) = Some e \<Longrightarrow> dapp_run c d' (tr @ [e])"

definition keyed :: "dapp_state \<Rightarrow> bool" where
  "keyed d \<longleftrightarrow> (\<forall>n e. tbl_find (d_events d) n = Some e \<longrightarrow> t_nonce e = n)"

lemma OnEvent_Ok:
  assumes "Dapp_OnEvent C mx c d data = Ok d'"
  shows "dapp_nonce d' = dapp_nonce d \<and> d_sent d' = d_sent d \<and> (keyed d \<longrightarrow> keyed d')
    \<and> (\<exists>e. d_events d' = tbl_put (t_nonce e) e (d_events d) \<and> tbl_find (d_events d) (t_nonce e) = None
         \<and> dapp_nonce d \<le> t_nonce e \<and> t_process e = c_process c)"
proof -
  from assms obtain e d1 where g: "Dapp_GetNonce d = Ok (dapp_nonce d, d1)" and le: "dapp_nonce d \<le> t_nonce e"
    and new: "tbl_find (d_events d1) (t_nonce e) = None" and p: "t_process e = c_process c"
    and d': "d' = d1\<lparr>d_events := tbl_put (t_nonce e) e (d_events d1)\<rparr>"
    using Dapp_GetNonce_total [of d] by (auto simp: Dapp_OnEvent_def)
  show ?thesis using Dapp_GetNonce_Ok [OF g] le new p d' by (auto simp: dapp_nonce_def keyed_def)
qed

lemma Exec_Ok:
  assumes "Dapp_Exec C c d executor = Ok d'"
  obtains e a r where "tbl_find (d_events d) (dapp_nonce d) = Some e" "dapp_nonce d' = dapp_nonce d + 1"
    "d_events d' = tbl_remove (d_events d) (dapp_nonce d)" "d_sent d' = d_sent d @ [a]" "request_of a = Some r"
    "r_asset r = t_asset e" "r_members r = t_members e" "r_threshold r = t_threshold e" "r_extra r = t_extra e"
    "r_amount r = ucast (ucast (t_amount e) :: u64)" "unat (t_amount e) < unat (maxAmount C)"
    "r_contract r = c_self c" "r_process r = c_process c" "hasAuth C executor"
proof -
  from assms obtain d1 where g: "Dapp_GetNonce d = Ok (dapp_nonce d, d1)" and au: "hasAuth C executor"
    using Dapp_GetNonce_total [of d] by (auto simp: Dapp_Exec_def)
  note g1 = Dapp_GetNonce_Ok [OF g]
  from assms g g1 au obtain e i d2 where e: "tbl_find (d_events d) (dapp_nonce d) = Some e"
    and nx: "Dapp_GetNextTxRequestNonce (d1\<lparr>d_events := tbl_remove (d_events d) (dapp_nonce d)\<rparr>) = Ok (i, d2)"
    and am: "unat (t_amount e) < unat (maxAmount C)"
    by (auto simp: Dapp_Exec_def split: option.splits)
  note n2 = Dapp_NextTx_Ok [OF nx]
  from assms g e nx am au g1 n2 show ?thesis
    by (intro that [of e]) (auto simp: Dapp_Exec_def Let_def Dapp_IncNonce_def dapp_nonce_def new_action_def request_of_def
        split: option.splits)
qed

lemma Exec_total:
  assumes "hasAuth C executor" "tbl_find (d_events d) (dapp_nonce d) = Some e" "unat (t_amount e) < unat (maxAmount C)"
  shows "\<exists>d'. Dapp_Exec C c d executor = Ok d'"
proof -
  obtain d1 where d1: "Dapp_GetNonce d = Ok (dapp_nonce d, d1)" using Dapp_GetNonce_total by blast
  note g = Dapp_GetNonce_Ok [OF d1]
  have nx: "\<exists>i d'. Dapp_GetNextTxRequestNonce d0 = Ok (i, d')" for d0
    by (cases "tbl_find (d_counters d0) KEY_TX_REQUEST_INDEX")
      (auto simp: Dapp_GetNextTxRequestNonce_def Dapp_GetNextIndex_def tbl_store_def)
  obtain i d2 where d2: "Dapp_GetNextTxRequestNonce (d1\<lparr>d_events := tbl_remove (d_events d1) (dapp_nonce d)\<rparr>) = Ok (i, d2)"
    using nx by blast
  have "\<exists>d'. Dapp_IncNonce d0 = Ok d'" for d0
    by (cases "tbl_find (d_counters d0) KEY_NONCE") (auto simp: Dapp_IncNonce_def tbl_store_def)
  with assms d1 d2 g show ?thesis by (simp add: Dapp_Exec_def requireAuth_def check_simps Let_def del: rbind_Ok_iff)
qed

lemma unat_ucast_amount:
  assumes "unat (a :: u128) < 2 ^ 64"
  shows "unat (ucast (ucast a :: u64) :: u128) = unat a"
  using assms by (simp add: unsigned_ucast_eq unsigned_take_bit_eq take_bit_nat_eq_self)

lemma dapp_run_inv:
  "dapp_run c d tr \<Longrightarrow> keyed d \<and> dapp_nonce d = 1 + of_nat (length tr) \<and> length (d_sent d) = length tr
     \<and> map t_nonce tr = map (\<lambda>i. of_nat (Suc i)) [0..<length tr]
     \<and> list_all2 (\<lambda>a e. \<exists>r. request_of a = Some r \<and> r_asset r = t_asset e \<and> r_members r = t_members e
          \<and> r_threshold r = t_threshold e \<and> unat (r_amount r) = unat (t_amount e)) (d_sent d) tr"
proof (induction rule: dapp_run.induct)
  case start
  then show ?case by (simp add: keyed_def dapp_nonce_def)
next
  case (event d tr C mx data d')
  from OnEvent_Ok [OF event.hyps(2)] event.IH show ?case by simp
next
  case (exec d tr C executor d' e)
  from exec.hyps(2) show ?case
  proof (cases rule: Exec_Ok)
    case (1 e' a r)
    have e: "e' = e" using 1(1) exec.hyps(3) by simp
    have nonce: "t_nonce e = 1 + of_nat (length tr)" using exec.IH exec.hyps(3) by (auto simp: keyed_def)
    have "unat (t_amount e) < 2 ^ 64" using 1(11) e unat_u64_less [of "maxAmount C"] by simp
    then have "unat (r_amount r) = unat (t_amount e)" using 1(10) e by (simp add: unat_ucast_amount)
    moreover have "keyed d'" using exec.IH 1(3) by (auto simp: keyed_def)
    ultimately show ?thesis using exec.IH 1 e nonce
      by (auto simp: list_all2_append)
  qed
qed

section \<open>A concrete chain\<close>

text \<open>Every account exists and authorizes, a signature's key is its first byte, and a name is read as a number.\<close>

definition demo_tx :: tx_event where
  "demo_tx = \<lparr>t_nonce = 1, t_process = 7, t_asset = 9, t_members = [11], t_threshold = 1, t_amount = 500, t_extra = [],
     t_timestamp = 0, t_signatures = [replicate 66 (CHR ''s'')]\<rparr>"

definition demo_chain :: chainlib where
  "demo_chain = \<lparr>isAccount = \<lambda>n. True, hasAuth = \<lambda>n. True, sha256 = \<lambda>b. b, recoverKey = \<lambda>d s. Ok (take 1 s),
     currentTime = 1000, currentTimeSeconds = 10, activeName = 3, ownerName = 2, eosioContractName = 4,
     newName = \<lambda>s. word_of_nat (be_nat s), newSymbol = \<lambda>s n. word_of_nat (be_nat s * 256 + n),
     symbolCode = \<lambda>s. drop_bit 8 s, symbolValid = \<lambda>s. True, assetValid = \<lambda>a. \<bar>q_Amount a\<bar> < 2 ^ 62,
     assetAdd = \<lambda>a b. if \<bar>q_Amount a + q_Amount b\<bar> < 2 ^ 62 then Ok (a\<lparr>q_Amount := q_Amount a + q_Amount b\<rparr>) else Err ''overflow'',
     assetSub = \<lambda>a b. if \<bar>q_Amount a - q_Amount b\<bar> < 2 ^ 62 then Ok (a\<lparr>q_Amount := q_Amount a - q_Amount b\<rparr>) else Err ''overflow'',
     maxAmount = 4611686018427387903, packName = putUint64, packUint128 = \<lambda>n. be_bytes 16 (unat n),
     uint128OfBytes = \<lambda>b. word_of_nat (be_nat b), hexDecodeString = hexDecode,
     unpackEvent = \<lambda>b. Ok (demo_tx, 67), unpackString = \<lambda>b. Ok b\<rparr>"

definition demo_mtg :: mtg_state where
  "demo_mtg = \<lparr>mx_processes = [(5, 7)], mx_signers = [(1, ''s''), (2, ''t''), (3, ''u''), (4, ''v'')], mx_counters = [], mx_sent = []\<rparr>"

section \<open>Properties\<close>

text \<open>C6: an action passes the signature check of mtg.xin only with a quorum of signatures. When \<open>VerifySignatures\<close>
  returns, at least \<open>len*2/3+1\<close> different signatures of the list recover, on the digest of the data, to the key
  of some signer.\<close>

theorem verified_by_quorum:
  assumes "VerifySignatures C mx data sigs = Ok b"
  shows "b \<and> (\<exists>used. distinct used \<and> set used \<subseteq> set sigs \<and> mtg_threshold (length (mx_signers mx)) \<le> length used
     \<and> (\<forall>sig \<in> set used. \<exists>key. recoverKey C (sha256 C data) sig = Ok key \<and> key \<in> snd ` set (mx_signers mx)))"
proof -
  note run = assms [unfolded VerifySignatures_def]
  from verify_loop_quorum [OF run] obtain used where "distinct used" "set used \<subseteq> set sigs"
    "\<forall>sig \<in> set used. good_sig C (sha256 C data) (mx_signers mx) sig"
    "mtg_threshold (length (mx_signers mx)) \<le> 0 + length used" by auto
  then have "\<exists>used. distinct used \<and> set used \<subseteq> set sigs \<and> mtg_threshold (length (mx_signers mx)) \<le> length used
     \<and> (\<forall>sig \<in> set used. \<exists>key. recoverKey C (sha256 C data) sig = Ok key \<and> key \<in> snd ` set (mx_signers mx))"
    unfolding good_sig_def by (intro exI [of _ used]) simp
  with verify_loop_true [OF run] show ?thesis by simp
qed

theorem verified_by_quorum_witness:
  "VerifySignatures demo_chain demo_mtg ''data'' [''s1'', ''t1'', ''u1''] = Ok True \<and> mtg_threshold 4 = 3"
proof -
  have run: "VerifySignatures demo_chain demo_mtg ''data'' [''s1'', ''t1'', ''u1''] = Ok True"
    by (simp add: VerifySignatures_def demo_chain_def demo_mtg_def CheckDuplicatedSignature_def check_simps signer_hit_def
        mtg_threshold_def)
  from verified_by_quorum [OF run] run show ?thesis by (simp add: mtg_threshold_def)
qed

text \<open>C34: the check counts signatures, not signers. One signer with as many different signatures of its own as the
  threshold passes the check of mtg.xin alone, because only repeated signature bytes are refused.\<close>

theorem single_signer_quorum:
  assumes "(account, key) \<in> set (mx_signers mx)" and "distinct sigs"
    and "mtg_threshold (length (mx_signers mx)) \<le> length sigs"
    and "\<And>sig. sig \<in> set sigs \<Longrightarrow> recoverKey C (sha256 C data) sig = Ok key"
  shows "VerifySignatures C mx data sigs = Ok True"
  unfolding VerifySignatures_def
  by (rule verify_loop_all_good) (use assms in \<open>force simp: mtg_threshold_def good_sig_def\<close>)+

theorem single_signer_quorum_witness:
  "VerifySignatures demo_chain demo_mtg ''data'' [''s1'', ''s2'', ''s3''] = Ok True"
  by (rule single_signer_quorum [where account = 1 and key = "''s''"])
    (auto simp: demo_mtg_def demo_chain_def mtg_threshold_def)

text \<open>Two quorums of the threshold of mtg.xin and mixinproxy share more than a third of the signers.\<close>

theorem quorums_share_a_third:
  assumes "finite S" and "A \<subseteq> S" and "B \<subseteq> S" and "mtg_threshold (card S) \<le> card A" and "mtg_threshold (card S) \<le> card B"
  shows "card S < 3 * card (A \<inter> B)"
  using assms by (rule mtg.quorums_meet)

theorem quorums_share_a_third_witness:
  "card {1 :: nat, 2, 3, 4, 5} < 3 * card ({1 :: nat, 2, 3, 4} \<inter> {2, 3, 4, 5})"
  by (rule quorums_share_a_third) (simp_all add: mtg_threshold_def)

text \<open>The threshold of dappdemo rounds the other way, \<open>len/3*2+1\<close>, and loses this: of five signers, two sets
  that each pass it have a single signer in common, while mtg.xin asks for four signatures.\<close>

theorem dapp_threshold_too_low:
  "\<exists>S A B :: nat set. finite S \<and> A \<subseteq> S \<and> B \<subseteq> S \<and> card S = 5 \<and> dapp_threshold (card S) \<le> card A
     \<and> dapp_threshold (card S) \<le> card B \<and> 3 * card (A \<inter> B) \<le> card S \<and> dapp_threshold (card S) < mtg_threshold (card S)"
  by (intro exI [of _ "{1, 2, 3, 4, 5}"] exI [of _ "{1, 2, 3}"] exI [of _ "{3, 4, 5}"])
    (simp add: dapp_threshold_def mtg_threshold_def)

text \<open>Anyone can replace the signers. \<open>Setup\<close> asks for no authority: for every transaction, whoever authorizes it,
  a list of existing, different accounts becomes the table of signers.\<close>

theorem setup_needs_no_authority:
  assumes "distinct (map fst signers)" and "\<And>s. s \<in> set signers \<Longrightarrow> isAccount C (fst s)"
  shows "\<exists>mx'. Setup (C\<lparr>hasAuth := \<lambda>n. False\<rparr>) mx signers = Ok mx' \<and>
     (\<forall>account. tbl_find (mx_signers mx') account = map_of signers account)"
  using Setup_stores [OF assms(1), of "C\<lparr>hasAuth := \<lambda>n. False\<rparr>" mx] assms(2) by simp

theorem setup_needs_no_authority_witness:
  "\<exists>mx'. Setup (demo_chain\<lparr>hasAuth := \<lambda>n. False\<rparr>) demo_mtg [(6, ''x'')] = Ok mx' \<and> tbl_find (mx_signers mx') 6 = Some ''x''"
  using setup_needs_no_authority [of "[(6, ''x'')]" demo_chain demo_mtg] by (auto simp: demo_chain_def)

text \<open>The logs of mtg.xin are numbered without gaps. Any number of requests that succeed one after the other give
  one log each, with identifiers that continue the sequence, each for a contract that authorized the request and
  whose registered process it names.\<close>

theorem log_ids_consecutive:
  assumes "rfold (Mtg_TxRequest C self) mx rs = Ok mx'"
  shows "\<exists>as ls. mx_sent mx' = mx_sent mx @ as \<and> map log_of as = map Some ls
     \<and> map l_id ls = map (\<lambda>i. next_seq mx + of_nat i) [0..<length rs] \<and> map l_contract ls = map r_contract rs
     \<and> map l_amount ls = map r_amount rs
     \<and> (\<forall>r \<in> set rs. hasAuth C (r_contract r) \<and> tbl_find (mx_processes mx) (r_contract r) = Some (r_process r))"
  using TxRequests_Ok [OF assms] by blast

theorem log_ids_consecutive_witness:
  "\<exists>mx'. rfold (Mtg_TxRequest demo_chain 8) demo_mtg
      [\<lparr>r_nonce = 1, r_contract = 5, r_process = 7, r_asset = 9, r_members = [11], r_threshold = 1, r_amount = 5, r_extra = [], r_timestamp = 0\<rparr>,
       \<lparr>r_nonce = 2, r_contract = 5, r_process = 7, r_asset = 9, r_members = [11], r_threshold = 1, r_amount = 6, r_extra = [], r_timestamp = 0\<rparr>]
    = Ok mx' \<and> (\<exists>a b l l'. mx_sent mx' = [a, b] \<and> log_of a = Some l \<and> log_of b = Some l' \<and> l_id l = 0 \<and> l_id l' = 1)"
    (is "\<exists>mx'. ?run = Ok mx' \<and> _")
proof -
  obtain mx' where run: "?run = Ok mx'"
    by (simp add: Mtg_TxRequest_def demo_chain_def demo_mtg_def GetNextSeq_def Mtg_GetNextIndex_def tbl_store_def requireAuth_def
        check_simps tbl_update_def KEY_TX_REQUEST_SEQ_def Let_def tbl_find_def del: rbind_Ok_iff)
  from log_ids_consecutive [OF run] run show ?thesis
    by (auto simp: demo_mtg_def next_seq_def Cons_eq_append_conv map_eq_Cons_conv)
qed

text \<open>C10: dappdemo executes every nonce once and in order. In every run, the events executed have the nonces 1, 2, 3
  and so on, and each sent one request that pays its own amount, asset and members back.\<close>

theorem dapp_executes_in_order:
  assumes "dapp_run c d tr"
  shows "map t_nonce tr = map (\<lambda>i. of_nat (Suc i)) [0..<length tr] \<and>
     list_all2 (\<lambda>a e. \<exists>r. request_of a = Some r \<and> r_asset r = t_asset e \<and> r_members r = t_members e
       \<and> r_threshold r = t_threshold e \<and> unat (r_amount r) = unat (t_amount e)) (d_sent d) tr"
  using dapp_run_inv [OF assms] by blast

definition demo_ctx :: contract_ctx where
  "demo_ctx = \<lparr>c_self = 5, c_firstReceiver = 5, c_process = 7\<rparr>"

definition demo_signers :: mtg_state where
  "demo_signers = demo_mtg\<lparr>mx_signers := [(1, ''s'')]\<rparr>"

lemma demo_dapp_run: "\<exists>d. dapp_run demo_ctx d [demo_tx]"
proof -
  let ?d0 = "\<lparr>d_events = [], d_counters = [], d_sent = []\<rparr>"
  have sp: "signed_part (replicate 100 (CHR ''x'')) 100 1 = Ok (replicate 33 (CHR ''x''))"
    by (simp add: signed_part_def)
  obtain d1 where d1: "Dapp_OnEvent demo_chain demo_signers demo_ctx ?d0 (replicate 100 (CHR ''x'')) = Ok d1"
    "tbl_find (d_events d1) 1 = Some demo_tx" "tbl_find (d_counters d1) KEY_NONCE = Some 1"
    using sp by (simp add: Dapp_OnEvent_def Dapp_VerifySignatures_def demo_chain_def demo_tx_def demo_signers_def demo_mtg_def
        demo_ctx_def VerifyProcess_def Dapp_GetNonce_def tbl_store_def check_simps CheckDuplicatedSignature_def signer_hit_def
        dapp_threshold_def tbl_find_def del: rbind_Ok_iff)
  then have n: "dapp_nonce d1 = 1" by (simp add: dapp_nonce_def)
  have "\<exists>d2. Dapp_Exec demo_chain demo_ctx d1 5 = Ok d2"
    by (rule Exec_total [where e = demo_tx]) (use d1(2) n in \<open>simp_all add: demo_chain_def demo_tx_def\<close>)
  then obtain d2 where d2: "Dapp_Exec demo_chain demo_ctx d1 5 = Ok d2" by blast
  have "dapp_run demo_ctx d1 []" by (rule dapp_run.event [OF dapp_run.start d1(1)])
  from dapp_run.exec [OF this d2] d1(2) n show ?thesis by auto
qed

theorem dapp_executes_in_order_witness:
  "\<exists>d. dapp_run demo_ctx d [demo_tx] \<and> length (d_sent d) = 1"
proof -
  obtain d where d: "dapp_run demo_ctx d [demo_tx]" using demo_dapp_run by blast
  from dapp_executes_in_order [OF d] have "length (d_sent d) = length [demo_tx]" by (blast dest: list_all2_lengthD)
  with d show ?thesis by (intro exI [of _ d]) simp
qed

end
