(* ===== verification/Token_Laws.thy ===== *)
theory Token_Laws
  imports Eos_Token Contract_Laws
begin

text \<open>
  The wrapped tokens: in every state the token contract reaches, the supply of a symbol is what its holders own
  plus what the inline \<open>retireex\<close> actions not yet executed will take out, less what the contract's account retired by
  calling \<open>retireex\<close> itself, no balance is negative and no supply is above its maximum. The locale \<open>asset_lib\<close> states
  what this relies on in the chain's library.
\<close>

section \<open>The chain's arithmetic\<close>

locale asset_lib =
  fixes C :: "'z chainlib_scheme"
  assumes add: "assetAdd C a b = Ok z \<Longrightarrow> q_Amount z = q_Amount a + q_Amount b"
    and sub: "assetSub C a b = Ok z \<Longrightarrow> q_Amount z = q_Amount a - q_Amount b"
    and floor: "assetSub C a b = Ok z \<Longrightarrow> - (2 ^ 62) < q_Amount z"
    and valid: "assetValid C a \<Longrightarrow> \<bar>q_Amount a\<bar> < 2 ^ 62"
    and names: "newName C ''retireex'' \<noteq> newName C ''ontransfer''"

section \<open>What is held and what is pending\<close>

definition held :: "token_state \<Rightarrow> u64 \<Rightarrow> int" where
  "held k code = sum_list (map (\<lambda>x. if snd (fst x) = code then q_Amount (snd x) else 0) (k_accounts k))"

definition supply_of :: "token_state \<Rightarrow> u64 \<Rightarrow> int" where
  "supply_of k code = (case tbl_find (k_stats k) code of None \<Rightarrow> 0 | Some s \<Rightarrow> q_Amount (st_supply s))"

text \<open>The quantity that an inline action will retire.\<close>

definition retires :: "'z chainlib_scheme \<Rightarrow> inline_action \<Rightarrow> (name \<times> eos_asset \<times> string) option" where
  "retires C a = (if act_Name a \<noteq> newName C ''retireex'' then None else case act_Data a of
       [ANameArg account, AAsset q, AString memo] \<Rightarrow> Some (account, q, memo) | _ \<Rightarrow> None)"

definition retire_amount :: "'z chainlib_scheme \<Rightarrow> u64 \<Rightarrow> inline_action \<Rightarrow> int" where
  "retire_amount C code a = (case retires C a of None \<Rightarrow> 0
     | Some (_, q, _) \<Rightarrow> if symbolCode C (q_Symbol q) = code then q_Amount q else 0)"

definition pending :: "'z chainlib_scheme \<Rightarrow> token_state \<Rightarrow> u64 \<Rightarrow> int" where
  "pending C k code = sum_list (map (retire_amount C code) (k_sent k))"

text \<open>What the quantities of one symbol in a list add up to.\<close>

definition amount_of :: "'z chainlib_scheme \<Rightarrow> u64 \<Rightarrow> eos_asset list \<Rightarrow> int" where
  "amount_of C code ds = sum_list (map (\<lambda>q. if symbolCode C (q_Symbol q) = code then q_Amount q else 0) ds)"

section \<open>Runs\<close>

text \<open>Each action is executed in a transaction of its own, with the accounts and the authorities there are then: the
  library is the same in all of them.\<close>

abbreviation in_tx :: "'z chainlib_scheme \<Rightarrow> (name \<Rightarrow> bool) \<Rightarrow> (name \<Rightarrow> bool) \<Rightarrow> 'z chainlib_scheme" where
  "in_tx C accounts auth \<equiv> C\<lparr>isAccount := accounts, hasAuth := auth\<rparr>"

text \<open>Every action of the contract may be called, \<open>retireex\<close> too: the second index holds the quantities that it
  retired when it was called and not sent by \<open>transfer\<close>. \<open>deliver\<close> executes the oldest inline action: \<open>retireex\<close> here,
  any other in another contract. The accounts bound to members are those of the proxy at that time.\<close>

inductive token_run :: "'z chainlib_scheme \<Rightarrow> name \<Rightarrow> token_state \<Rightarrow> eos_asset list \<Rightarrow> bool"
  for C :: "'z chainlib_scheme" and receiver :: name where
  start: "token_run C receiver \<lparr>k_stats = [], k_accounts = [], k_recipients = [], k_sent = []\<rparr> []"
| create: "token_run C receiver k ds \<Longrightarrow> Token_Create (in_tx C g h) receiver k issuer m = Ok k' \<Longrightarrow> token_run C receiver k' ds"
| issue: "token_run C receiver k ds \<Longrightarrow> Token_Issue (in_tx C g h) k to q memo = Ok k' \<Longrightarrow> token_run C receiver k' ds"
| retire: "token_run C receiver k ds \<Longrightarrow> Token_Retire (in_tx C g h) k q memo = Ok k' \<Longrightarrow> token_run C receiver k' ds"
| retireex: "token_run C receiver k ds \<Longrightarrow> Token_RetireEx (in_tx C g h) receiver k account q memo = Ok k' \<Longrightarrow>
    token_run C receiver k' (ds @ [q])"
| transfer: "token_run C receiver k ds \<Longrightarrow> Token_Transfer (in_tx C g h) receiver bound k from to q memo = Ok k' \<Longrightarrow>
    token_run C receiver k' ds"
| opn: "token_run C receiver k ds \<Longrightarrow> Token_Open (in_tx C g h) k owner symb payer = Ok k' \<Longrightarrow> token_run C receiver k' ds"
| cls: "token_run C receiver k ds \<Longrightarrow> Token_Close (in_tx C g h) k owner symb = Ok k' \<Longrightarrow> token_run C receiver k' ds"
| deliver: "token_run C receiver k ds \<Longrightarrow> k_sent k = a # rest \<Longrightarrow>
    (case retires C a of None \<Rightarrow> k' = k\<lparr>k_sent := rest\<rparr>
     | Some (account, q, memo) \<Rightarrow> Token_RetireEx (in_tx C g h) receiver (k\<lparr>k_sent := rest\<rparr>) account q memo = Ok k') \<Longrightarrow>
    token_run C receiver k' ds"

definition token_ok :: "'z chainlib_scheme \<Rightarrow> token_state \<Rightarrow> eos_asset list \<Rightarrow> bool" where
  "token_ok C k ds \<longleftrightarrow> distinct (map fst (k_accounts k)) \<and> (\<forall>x \<in> set (k_accounts k). 0 \<le> q_Amount (snd x))
     \<and> (\<forall>a \<in> set (k_sent k). \<forall>code. 0 \<le> retire_amount C code a)
     \<and> (\<forall>code. supply_of k code = held k code + pending C k code - amount_of C code ds)
     \<and> (\<forall>code s. tbl_find (k_stats k) code = Some s \<longrightarrow> q_Amount (st_supply s) \<le> q_Amount (st_max_supply s)
          \<and> - (2 ^ 62) < q_Amount (st_supply s) \<and> q_Amount (st_max_supply s) < 2 ^ 62)
     \<and> (\<forall>q \<in> set ds. 0 < q_Amount q)"

lemma in_tx_keeps [simp]: "retires (in_tx C g h) = retires C" "retire_amount (in_tx C g h) = retire_amount C"
  "pending (in_tx C g h) = pending C" "amount_of (in_tx C g h) = amount_of C"
proof -
  show r: "retires (in_tx C g h) = retires C" by (simp add: fun_eq_iff retires_def)
  show a: "retire_amount (in_tx C g h) = retire_amount C" by (auto simp: fun_eq_iff retire_amount_def r split: option.splits)
  show "pending (in_tx C g h) = pending C" by (simp add: fun_eq_iff pending_def a)
  show "amount_of (in_tx C g h) = amount_of C" by (simp add: fun_eq_iff amount_of_def)
qed

lemma in_tx_ok [simp]: "token_ok (in_tx C g h) = token_ok C"
  by (simp add: fun_eq_iff token_ok_def)

lemma amount_of_simps [simp]: "amount_of C code [] = 0"
  "amount_of C code (ds @ [q]) = amount_of C code ds + (if symbolCode C (q_Symbol q) = code then q_Amount q else 0)"
  by (simp_all add: amount_of_def)

lemma amount_of_nonneg: "\<forall>q \<in> set ds. 0 < q_Amount q \<Longrightarrow> 0 \<le> amount_of C code ds"
  unfolding amount_of_def by (rule sum_list_nonneg) auto

section \<open>Balances\<close>

lemma sum_list_filter_key:
  fixes f :: "'a \<times> 'b \<Rightarrow> int"
  assumes "distinct (map fst xs)"
  shows "sum_list (map f (filter (\<lambda>x. fst x \<noteq> k) xs)) =
    sum_list (map f xs) - (case map_of xs k of None \<Rightarrow> 0 | Some v \<Rightarrow> f (k, v))"
  using assms
proof (induction xs)
  case (Cons x xs)
  obtain j v where x: "x = (j, v)" by fastforce
  show ?case
  proof (cases "j = k")
    case True
    have "map_of xs k = None" using Cons.prems True x by (simp add: map_of_eq_None_iff)
    with Cons True x show ?thesis by simp
  qed (use Cons x in simp)
qed simp

lemma bal_set_laws:
  assumes "distinct (map fst (k_accounts k))"
  shows "distinct (map fst (k_accounts (bal_set k owner code v)))"
    "held (bal_set k owner code v) c = held k c +
      (if c = code then q_Amount v - (case bal_find k owner code of None \<Rightarrow> 0 | Some b \<Rightarrow> q_Amount b) else 0)"
    "x \<in> set (k_accounts (bal_set k owner code v)) \<Longrightarrow> x = ((owner, code), v) \<or> x \<in> set (k_accounts k)"
    "k_stats (bal_set k owner code v) = k_stats k" "k_sent (bal_set k owner code v) = k_sent k"
proof -
  show "distinct (map fst (k_accounts (bal_set k owner code v)))"
    using assms by (auto simp: bal_set_def distinct_map_filter)
  show "held (bal_set k owner code v) c = held k c +
      (if c = code then q_Amount v - (case bal_find k owner code of None \<Rightarrow> 0 | Some b \<Rightarrow> q_Amount b) else 0)"
    using sum_list_filter_key [OF assms, of "\<lambda>x. if snd (fst x) = c then q_Amount (snd x) else 0" "(owner, code)"]
    by (auto simp: held_def bal_set_def bal_find_def split: option.splits)
qed (auto simp: bal_set_def)

lemma bal_set_nonneg:
  "\<forall>x \<in> set (k_accounts k). 0 \<le> q_Amount (snd x) \<Longrightarrow> 0 \<le> q_Amount v \<Longrightarrow>
   \<forall>x \<in> set (k_accounts (bal_set k owner code v)). 0 \<le> q_Amount (snd x)"
  by (auto simp: bal_set_def)

lemma bal_del_laws:
  assumes "distinct (map fst (k_accounts k))" "bal_find k owner code = Some b" "q_Amount b = 0"
  shows "distinct (map fst (k_accounts (bal_del k owner code)))" "held (bal_del k owner code) c = held k c"
    "x \<in> set (k_accounts (bal_del k owner code)) \<Longrightarrow> x \<in> set (k_accounts k)"
    "k_stats (bal_del k owner code) = k_stats k" "k_sent (bal_del k owner code) = k_sent k"
proof -
  show "held (bal_del k owner code) c = held k c"
    using sum_list_filter_key [OF assms(1), of "\<lambda>x. if snd (fst x) = c then q_Amount (snd x) else 0" "(owner, code)"] assms(2,3)
    by (simp add: held_def bal_del_def bal_find_def)
qed (use assms(1) in \<open>auto simp: bal_del_def distinct_map_filter\<close>)

section \<open>Every action keeps the invariant\<close>

lemma find_in_accounts: "bal_find k owner code = Some b \<Longrightarrow> ((owner, code), b) \<in> set (k_accounts k)"
  by (simp add: bal_find_def map_of_SomeD)

context asset_lib
begin

text \<open>What adding to and taking from a balance do to the parts of the invariant.\<close>

lemma addBalance_laws:
  assumes "addBalance C k owner v = Ok k'" "distinct (map fst (k_accounts k))"
    "\<forall>x \<in> set (k_accounts k). 0 \<le> q_Amount (snd x)" "0 \<le> q_Amount v"
  shows "distinct (map fst (k_accounts k')) \<and> (\<forall>x \<in> set (k_accounts k'). 0 \<le> q_Amount (snd x))
    \<and> (\<forall>c. held k' c = held k c + (if c = symbolCode C (q_Symbol v) then q_Amount v else 0))
    \<and> k_stats k' = k_stats k \<and> k_sent k' = k_sent k"
proof -
  let ?code = "symbolCode C (q_Symbol v)"
  obtain b where b: "k' = bal_set k owner ?code b"
    "q_Amount b = q_Amount v + (case bal_find k owner ?code of None \<Rightarrow> 0 | Some t \<Rightarrow> q_Amount t)"
    using assms(1) by (auto simp: addBalance_def split: option.splits dest: add)
  have "0 \<le> q_Amount b" using b(2) assms(3,4) by (auto split: option.splits dest!: find_in_accounts)
  with bal_set_laws(1,2,4,5) [OF assms(2), where owner = owner and code = ?code and v = b] bal_set_nonneg [OF assms(3), of b] b
  show ?thesis by auto
qed

lemma subBalance_laws:
  assumes "subBalance C k owner v = Ok k'" "distinct (map fst (k_accounts k))"
    "\<forall>x \<in> set (k_accounts k). 0 \<le> q_Amount (snd x)"
  shows "distinct (map fst (k_accounts k')) \<and> (\<forall>x \<in> set (k_accounts k'). 0 \<le> q_Amount (snd x))
    \<and> (\<forall>c. held k' c = held k c - (if c = symbolCode C (q_Symbol v) then q_Amount v else 0))
    \<and> k_stats k' = k_stats k \<and> k_sent k' = k_sent k"
proof -
  let ?code = "symbolCode C (q_Symbol v)"
  obtain f b where b: "bal_find k owner ?code = Some f" "q_Amount v \<le> q_Amount f" "k' = bal_set k owner ?code b"
    "q_Amount b = q_Amount f - q_Amount v"
    using assms(1) by (auto simp: subBalance_def split: option.splits dest: sub)
  with bal_set_laws(1,2,4,5) [OF assms(2), where owner = owner and code = ?code and v = b] bal_set_nonneg [OF assms(3), of b]
  show ?thesis by auto
qed

lemma reduce_supply_laws:
  assumes "reduce_supply C k item q = Ok k'" "tbl_find (k_stats k) (symbolCode C (q_Symbol q)) = Some item"
  shows "0 < q_Amount q \<and> k_accounts k' = k_accounts k \<and> k_sent k' = k_sent k
    \<and> (\<forall>c. supply_of k' c = supply_of k c - (if c = symbolCode C (q_Symbol q) then q_Amount q else 0))
    \<and> (\<forall>c s'. tbl_find (k_stats k') c = Some s' \<longrightarrow> (\<exists>s. tbl_find (k_stats k) c = Some s
         \<and> q_Amount (st_supply s') \<le> q_Amount (st_supply s) \<and> st_max_supply s' = st_max_supply s
         \<and> (s' = s \<or> - (2 ^ 62) < q_Amount (st_supply s'))))"
proof -
  from assms(1) obtain x where x: "assetSub C (st_supply item) q = Ok x" "0 < q_Amount q"
    "k' = k\<lparr>k_stats := tbl_update (k_stats k) (symbolCode C (q_Symbol q)) (item\<lparr>st_supply := x\<rparr>)\<rparr>"
    by (auto simp: reduce_supply_def)
  show ?thesis using assms(2) x(2) sub [OF x(1)] floor [OF x(1)] by (simp add: x(3) supply_of_def)
qed

text \<open>The parts of the invariant that do not mention the balances' sum.\<close>

lemma token_okI:
  assumes "distinct (map fst (k_accounts k))" "\<forall>x \<in> set (k_accounts k). 0 \<le> q_Amount (snd x)"
    "\<forall>a \<in> set (k_sent k). \<forall>code. 0 \<le> retire_amount C code a"
    "\<And>code. supply_of k code = held k code + pending C k code - amount_of C code ds"
    "\<And>code s. tbl_find (k_stats k) code = Some s \<Longrightarrow> q_Amount (st_supply s) \<le> q_Amount (st_max_supply s)
       \<and> - (2 ^ 62) < q_Amount (st_supply s) \<and> q_Amount (st_max_supply s) < 2 ^ 62"
    "\<forall>q \<in> set ds. 0 < q_Amount q"
  shows "token_ok C k ds"
  using assms unfolding token_ok_def by blast

lemma held_nonneg: "\<forall>x \<in> set (k_accounts k). 0 \<le> q_Amount (snd x) \<Longrightarrow> 0 \<le> held k code"
  unfolding held_def by (rule sum_list_nonneg) auto

lemma create_ok:
  assumes "token_ok C k ds" "Token_Create C receiver k issuer m = Ok k'"
  shows "token_ok C k' ds"
proof -
  let ?code = "symbolCode C (q_Symbol m)"
  from assms(2) obtain t where t: "assetValid C m" "0 < q_Amount m" "tbl_find (k_stats k) ?code = None"
    "t = \<lparr>st_supply = \<lparr>q_Amount = 0, q_Symbol = q_Symbol m\<rparr>, st_max_supply = m, st_issuer = issuer\<rparr>"
    "k' = k\<lparr>k_stats := tbl_put ?code t (k_stats k)\<rparr>"
    by (auto simp: Token_Create_def Let_def)
  have m: "q_Amount m < 2 ^ 62" using valid [OF t(1)] by simp
  have "supply_of k' c = supply_of k c" "held k' c = held k c" "pending C k' c = pending C k c" for c
    using t(3,4) by (simp_all add: t(5) supply_of_def held_def pending_def)
  then show ?thesis using assms(1) t(2,4) m unfolding token_ok_def by (simp add: t(5))
qed

lemma issue_ok:
  assumes "token_ok C k ds" "Token_Issue C k to q memo = Ok k'"
  shows "token_ok C k' ds"
proof -
  let ?code = "symbolCode C (q_Symbol q)"
  from assms(2) obtain item sup where i: "tbl_find (k_stats k) ?code = Some item" "0 < q_Amount q"
    "q_Amount q \<le> wrap64 (q_Amount (st_max_supply item) - q_Amount (st_supply item))" "assetAdd C (st_supply item) q = Ok sup"
    "addBalance C (k\<lparr>k_stats := tbl_update (k_stats k) ?code (item\<lparr>st_supply := sup\<rparr>)\<rparr>) to q = Ok k'"
    by (auto simp: Token_Issue_def Let_def split: option.splits)
  have sup: "q_Amount sup = q_Amount (st_supply item) + q_Amount q" by (rule add [OF i(4)])
  have k: "distinct (map fst (k_accounts k))" "\<forall>x \<in> set (k_accounts k). 0 \<le> q_Amount (snd x)"
    "q_Amount (st_max_supply item) < 2 ^ 62" "q_Amount (st_supply item) \<le> q_Amount (st_max_supply item)"
    "- (2 ^ 62) < q_Amount (st_supply item)"
    using assms(1) i(1) by (auto simp: token_ok_def)
  have "wrap64 (q_Amount (st_max_supply item) - q_Amount (st_supply item)) = q_Amount (st_max_supply item) - q_Amount (st_supply item)"
    using k(3,4,5) by (intro wrap64_id) simp_all
  then have le: "q_Amount sup \<le> q_Amount (st_max_supply item)" using i(3) sup by simp
  have lb: "- (2 ^ 62) < q_Amount sup" using k(5) i(2) sup by simp
  note b = addBalance_laws [OF i(5), simplified, OF k(1,2) less_imp_le [OF i(2)]]
  have h: "held (k\<lparr>k_stats := t\<rparr>) c = held k c" for t c by (simp add: held_def)
  show ?thesis
  proof (rule token_okI)
    fix code
    have "supply_of k code = held k code + pending C k code - amount_of C code ds" using assms(1) by (simp add: token_ok_def)
    moreover have "supply_of k' code = supply_of k code + (if code = ?code then q_Amount q else 0)"
      using b i(1) sup by (simp add: supply_of_def)
    ultimately show "supply_of k' code = held k' code + pending C k' code - amount_of C code ds" using b i(2) by (simp add: pending_def h)
  qed (use assms(1) i(2) b le lb k(3) in \<open>auto simp: token_ok_def split: if_splits\<close>)
qed

text \<open>An action that takes the same amount out of the supply, the balances and the queue together, or out of the
  supply alone when that is recorded.\<close>

lemma token_ok_balance:
  assumes "token_ok C k ds" "distinct (map fst (k_accounts k'))" "\<forall>x \<in> set (k_accounts k'). 0 \<le> q_Amount (snd x)"
    "\<forall>a \<in> set (k_sent k'). \<forall>code. 0 \<le> retire_amount C code a"
    "\<And>c. supply_of k' c - held k' c - pending C k' c + amount_of C c ds' =
       supply_of k c - held k c - pending C k c + amount_of C c ds"
    "\<And>c s'. tbl_find (k_stats k') c = Some s' \<Longrightarrow> \<exists>s. tbl_find (k_stats k) c = Some s
         \<and> q_Amount (st_supply s') \<le> q_Amount (st_supply s) \<and> st_max_supply s' = st_max_supply s
         \<and> (s' = s \<or> - (2 ^ 62) < q_Amount (st_supply s'))"
    "\<forall>q \<in> set ds'. 0 < q_Amount q"
  shows "token_ok C k' ds'"
proof (rule token_okI [OF assms(2-4) _ _ assms(7)])
  show "supply_of k' code = held k' code + pending C k' code - amount_of C code ds'" for code
    using assms(1) assms(5) [of code] by (simp add: token_ok_def)
  show "tbl_find (k_stats k') code = Some s \<Longrightarrow> q_Amount (st_supply s) \<le> q_Amount (st_max_supply s)
       \<and> - (2 ^ 62) < q_Amount (st_supply s) \<and> q_Amount (st_max_supply s) < 2 ^ 62" for code s
    using assms(1) assms(6) [of code s] unfolding token_ok_def by fastforce
qed

lemma held_stats [simp]: "held (k\<lparr>k_stats := t\<rparr>) c = held k c" "held (k\<lparr>k_sent := u\<rparr>) c = held k c"
  "held (k\<lparr>k_recipients := v\<rparr>) c = held k c"
  by (simp_all add: held_def)

lemma retire_ok:
  assumes "token_ok C k ds" "Token_Retire C k q memo = Ok k'"
  shows "token_ok C k' ds"
proof -
  from assms(2) obtain item k1 where i: "tbl_find (k_stats k) (symbolCode C (q_Symbol q)) = Some item"
    "reduce_supply C k item q = Ok k1" "subBalance C k1 (st_issuer item) q = Ok k'"
    by (auto simp: Token_Retire_def split: option.splits)
  note r = reduce_supply_laws [OF i(2,1)]
  have k: "distinct (map fst (k_accounts k1))" "\<forall>x \<in> set (k_accounts k1). 0 \<le> q_Amount (snd x)"
    using assms(1) r by (auto simp: token_ok_def)
  note s = subBalance_laws [OF i(3) k]
  have h: "held k1 c = held k c" for c using r by (simp add: held_def)
  show ?thesis
    by (rule token_ok_balance [OF assms(1)])
      (use s r h assms(1) in \<open>auto simp: token_ok_def supply_of_def pending_def split: if_splits\<close>)
qed

text \<open>\<open>retireex\<close> takes the quantity out of the supply and touches no balance.\<close>

lemma retireex_supply:
  assumes "Token_RetireEx C receiver k account q memo = Ok k'"
  shows "0 < q_Amount q \<and> k_accounts k' = k_accounts k \<and> k_sent k' = k_sent k
    \<and> (\<forall>c. supply_of k' c = supply_of k c - (if c = symbolCode C (q_Symbol q) then q_Amount q else 0))
    \<and> (\<forall>c s'. tbl_find (k_stats k') c = Some s' \<longrightarrow> (\<exists>s. tbl_find (k_stats k) c = Some s
         \<and> q_Amount (st_supply s') \<le> q_Amount (st_supply s) \<and> st_max_supply s' = st_max_supply s
         \<and> (s' = s \<or> - (2 ^ 62) < q_Amount (st_supply s'))))"
proof -
  from assms obtain item where "tbl_find (k_stats k) (symbolCode C (q_Symbol q)) = Some item"
    "reduce_supply C k item q = Ok k'"
    by (auto simp: Token_RetireEx_def split: option.splits)
  then show ?thesis by (rule reduce_supply_laws [rotated])
qed

lemma retireex_ok:
  assumes "token_ok C k ds" "Token_RetireEx C receiver k account q memo = Ok k'"
  shows "token_ok C k' (ds @ [q])"
proof -
  note r = retireex_supply [OF assms(2)]
  have h: "held k' c = held k c" "pending C k' c = pending C k c" for c using r by (simp_all add: held_def pending_def)
  show ?thesis
    by (rule token_ok_balance [OF assms(1)]) (use r h assms(1) in \<open>auto simp: token_ok_def\<close>)
qed

lemma deliver_ok:
  assumes "token_ok C k ds" "k_sent k = a # rest"
    "case retires C a of None \<Rightarrow> k' = k\<lparr>k_sent := rest\<rparr>
     | Some (account, q, memo) \<Rightarrow> Token_RetireEx C receiver (k\<lparr>k_sent := rest\<rparr>) account q memo = Ok k'"
  shows "token_ok C k' ds"
proof (cases "retires C a")
  case None
  have "retire_amount C code a = 0" for code by (simp add: retire_amount_def None)
  with None assms show ?thesis by (simp add: token_ok_def supply_of_def pending_def)
next
  case (Some z)
  obtain account q memo where z: "z = (account, q, memo)" by (cases z)
  let ?k = "k\<lparr>k_sent := rest\<rparr>"
  from assms(3) Some z have "Token_RetireEx C receiver ?k account q memo = Ok k'" by simp
  note r = retireex_supply [OF this]
  have h: "held k' c = held k c" for c using r by (simp add: held_def)
  have am: "retire_amount C c a = (if symbolCode C (q_Symbol q) = c then q_Amount q else 0)" for c
    by (simp add: retire_amount_def Some z)
  have su: "supply_of ?k c = supply_of k c" for c by (simp add: supply_of_def)
  show ?thesis
  proof (rule token_ok_balance [OF assms(1)])
    show "supply_of k' c - held k' c - pending C k' c + amount_of C c ds = supply_of k c - held k c - pending C k c + amount_of C c ds" for c
      using r h am [of c] su assms(2) by (auto simp: pending_def)
  qed (use r assms(1,2) in \<open>auto simp: token_ok_def\<close>)
qed

lemma move_ok:
  assumes "token_ok C k ds" "move_balance C k from to q = Ok k'" "0 < q_Amount q"
  shows "token_ok C k' ds"
proof -
  from assms(2) obtain k1 where m: "subBalance C k from q = Ok k1" "addBalance C k1 to q = Ok k'"
    by (auto simp: move_balance_def)
  have k: "distinct (map fst (k_accounts k))" "\<forall>x \<in> set (k_accounts k). 0 \<le> q_Amount (snd x)"
    using assms(1) by (auto simp: token_ok_def)
  note s = subBalance_laws [OF m(1) k]
  note b = addBalance_laws [OF m(2)]
  show ?thesis
    by (rule token_ok_balance [OF assms(1)])
      (use s b assms in \<open>auto simp: token_ok_def supply_of_def pending_def split: if_splits\<close>)
qed

lemma transfer_ok:
  assumes "token_ok C k ds" "Token_Transfer C receiver bound k from to q memo = Ok k'"
  shows "token_ok C k' ds"
proof -
  let ?k = "k\<lparr>k_recipients := k_recipients k @ [to]\<rparr>"
  have ok: "token_ok C ?k ds" using assms(1) by (simp add: token_ok_def supply_of_def pending_def)
  from assms(2) have pos: "0 < q_Amount q" by (auto simp: Token_Transfer_def Let_def split: option.splits)
  from assms(2) consider "move_balance C ?k from to q = Ok k'"
    | k1 where "subBalance C ?k from q = Ok k1" "k' = Token_TxRequest C receiver (k1\<lparr>k_sent := k_sent k1 @
       [new_action [\<lparr>pl_Actor = receiver, pl_Permission = activeName C\<rparr>] receiver (newName C ''retireex'')
          [ANameArg from, AAsset q, AString ''retire for transfer out'']]\<rparr>) from to q memo"
    by (auto simp: Token_Transfer_def Let_def split: option.splits if_splits)
  then show ?thesis
  proof cases
    case 1
    then show ?thesis using move_ok [OF ok _ pos] by blast
  next
    case (2 k1)
    have k: "distinct (map fst (k_accounts ?k))" "\<forall>x \<in> set (k_accounts ?k). 0 \<le> q_Amount (snd x)"
      using assms(1) by (auto simp: token_ok_def)
    note s = subBalance_laws [OF 2(1) k]
    have sent: "k_sent k' = k_sent k @ [new_action [\<lparr>pl_Actor = receiver, pl_Permission = activeName C\<rparr>] receiver
        (newName C ''retireex'') [ANameArg from, AAsset q, AString ''retire for transfer out''],
       new_action [\<lparr>pl_Actor = receiver, pl_Permission = activeName C\<rparr>] (MASTER_ACCOUNT C) (newName C ''ontransfer'')
        [ANameArg from, ANameArg to, AAsset q, AString memo]]"
      using s by (simp add: 2(2) Token_TxRequest_def)
    have am: "retire_amount C c (new_action p a (newName C ''retireex'') [ANameArg from, AAsset q, AString m])
        = (if symbolCode C (q_Symbol q) = c then q_Amount q else 0)"
      "retire_amount C c (new_action p a (newName C ''ontransfer'') as) = 0" for c p a m as
      using names by (auto simp: retire_amount_def retires_def new_action_def)
    have acc: "k_accounts k' = k_accounts k1" "k_stats k' = k_stats k" using s by (simp_all add: 2(2) Token_TxRequest_def)
    have h: "held k' c = held k1 c" for c by (simp add: held_def acc)
    show ?thesis
    proof (rule token_ok_balance [OF assms(1)])
      show "supply_of k' c - held k' c - pending C k' c + amount_of C c ds = supply_of k c - held k c - pending C k c + amount_of C c ds" for c
        using s by (simp add: supply_of_def acc h pending_def sent am)
    qed (use s pos assms(1) in \<open>auto simp: acc sent am token_ok_def\<close>)
  qed
qed

lemma open_ok:
  assumes "token_ok C k ds" "Token_Open C k owner symb payer = Ok k'"
  shows "token_ok C k' ds"
proof (cases "k' = k")
  case False
  with assms(2) have b: "bal_find k owner (symbolCode C symb) = None"
    "k' = bal_set k owner (symbolCode C symb) \<lparr>q_Amount = 0, q_Symbol = symb\<rparr>"
    by (auto simp: Token_Open_def split: option.splits if_splits)
  have k: "distinct (map fst (k_accounts k))" "\<forall>x \<in> set (k_accounts k). 0 \<le> q_Amount (snd x)"
    using assms(1) by (auto simp: token_ok_def)
  have "\<forall>x \<in> set (k_accounts k'). 0 \<le> q_Amount (snd x)" unfolding b(2) by (rule bal_set_nonneg [OF k(2)]) simp
  then show ?thesis
    by (rule token_ok_balance [OF assms(1), rotated])
      (use b bal_set_laws(1,2,4,5) [OF k(1)] assms(1) in \<open>auto simp: token_ok_def supply_of_def pending_def\<close>)
qed (use assms in simp)

lemma close_ok:
  assumes "token_ok C k ds" "Token_Close C k owner symb = Ok k'"
  shows "token_ok C k' ds"
proof -
  from assms(2) obtain b where b: "bal_find k owner (symbolCode C symb) = Some b" "q_Amount b = 0"
    "k' = bal_del k owner (symbolCode C symb)"
    by (auto simp: Token_Close_def split: option.splits)
  have k: "distinct (map fst (k_accounts k))" using assms(1) by (simp add: token_ok_def)
  show ?thesis
    by (rule token_ok_balance [OF assms(1)])
      (use b(3) bal_del_laws [OF k b(1,2)] assms(1) in \<open>auto simp: token_ok_def supply_of_def pending_def\<close>)
qed

lemma in_tx_lib: "asset_lib (in_tx C g h)"
proof -
  have "assetAdd (in_tx C g h) = assetAdd C" "assetSub (in_tx C g h) = assetSub C" "assetValid (in_tx C g h) = assetValid C"
    "newName (in_tx C g h) = newName C" by simp_all
  note same = this
  show ?thesis using asset_lib_axioms unfolding asset_lib_def same .
qed

lemmas tx_ok = create_ok issue_ok retire_ok retireex_ok transfer_ok open_ok close_ok deliver_ok

end

lemma run_ok:
  assumes "asset_lib C" "token_run C receiver k ds"
  shows "token_ok C k ds"
proof -
  note keeps = asset_lib.tx_ok [OF asset_lib.in_tx_lib [OF assms(1)], unfolded in_tx_ok in_tx_keeps]
  from assms(2) show ?thesis
  proof (induction rule: token_run.induct)
    case start
    then show ?case by (simp add: token_ok_def supply_of_def held_def pending_def)
  next
    case create
    show ?case by (rule keeps(1) [OF create.IH create.hyps(2)])
  next
    case issue
    show ?case by (rule keeps(2) [OF issue.IH issue.hyps(2)])
  next
    case retire
    show ?case by (rule keeps(3) [OF retire.IH retire.hyps(2)])
  next
    case retireex
    show ?case by (rule keeps(4) [OF retireex.IH retireex.hyps(2)])
  next
    case transfer
    show ?case by (rule keeps(5) [OF transfer.IH transfer.hyps(2)])
  next
    case opn
    show ?case by (rule keeps(6) [OF opn.IH opn.hyps(2)])
  next
    case cls
    show ?case by (rule keeps(7) [OF cls.IH cls.hyps(2)])
  next
    case deliver
    show ?case by (rule keeps(8) [OF deliver.IH deliver.hyps(2,3)])
  qed
qed

interpretation demo: asset_lib demo_chain
proof
  have "be_nat ''retireex'' mod 2 ^ 64 \<noteq> be_nat ''ontransfer'' mod 2 ^ 64" by simp
  then show "newName demo_chain ''retireex'' \<noteq> newName demo_chain ''ontransfer''"
    by (simp add: demo_chain_def word_of_nat_eq_iff take_bit_eq_mod del: be_nat.simps)
qed (auto simp: demo_chain_def split: if_splits)

section \<open>Properties\<close>

text \<open>C9: the supply of a wrapped token is accounted for. In every state that any sequence of the contract's actions reaches,
  with no inline action left to execute, the recorded supply of a symbol is the sum of its balances less what direct calls
  of \<open>retireex\<close> retired, which takes from the supply and from no balance: without such calls it is what the holders own.
  The supply is at most the maximum supply, no balance is negative, and a direct call retires a positive quantity.\<close>

theorem supply_is_held:
  assumes "asset_lib C" and "token_run C receiver k ds" and "k_sent k = []"
    and "tbl_find (k_stats k) code = Some s"
  shows "q_Amount (st_supply s) = held k code - amount_of C code ds \<and> q_Amount (st_supply s) \<le> q_Amount (st_max_supply s)
     \<and> (\<forall>x \<in> set (k_accounts k). 0 \<le> q_Amount (snd x)) \<and> 0 \<le> held k code \<and> (\<forall>q \<in> set ds. 0 < q_Amount q)"
proof -
  have ok: "token_ok C k ds" by (rule run_ok [OF assms(1,2)])
  then have "supply_of k code = held k code + pending C k code - amount_of C code ds" by (simp add: token_ok_def)
  then have "q_Amount (st_supply s) = held k code - amount_of C code ds" using assms(3,4) by (simp add: supply_of_def pending_def)
  moreover have "q_Amount (st_supply s) \<le> q_Amount (st_max_supply s)" "\<forall>x \<in> set (k_accounts k). 0 \<le> q_Amount (snd x)"
    "\<forall>q \<in> set ds. 0 < q_Amount q"
    using ok assms(4) unfolding token_ok_def by blast+
  ultimately show ?thesis using asset_lib.held_nonneg [OF assms(1)] by blast
qed

definition meos :: u64 where
  "meos = 2056"

definition meos_stats :: "int \<Rightarrow> currency_stats" where
  "meos_stats n = \<lparr>st_supply = \<lparr>q_Amount = n, q_Symbol = meos\<rparr>, st_max_supply = \<lparr>q_Amount = 100, q_Symbol = meos\<rparr>, st_issuer = 30\<rparr>"

text \<open>100 at most, 70 issued, 10 retired by a direct call: the supply is 60.\<close>

lemma demo_token_run: "\<exists>k. token_run demo_chain 20 k [\<lparr>q_Amount = 10, q_Symbol = meos\<rparr>] \<and> k_sent k = [] \<and>
   tbl_find (k_stats k) 8 = Some (meos_stats 60)"
proof -
  let ?k0 = "\<lparr>k_stats = [], k_accounts = [], k_recipients = [], k_sent = []\<rparr>"
  let ?C = "in_tx demo_chain (isAccount demo_chain) (hasAuth demo_chain)"
  note simps = requireAuth_def check_simps Let_def demo_chain_def meos_stats_def
  have code: "symbolCode demo_chain meos = 8" by (simp add: demo_chain_def meos_def drop_bit_eq_div)
  obtain k1 where k1: "Token_Create ?C 20 ?k0 30 \<lparr>q_Amount = 100, q_Symbol = meos\<rparr> = Ok k1"
    "k1 = ?k0\<lparr>k_stats := [(8, meos_stats 0)]\<rparr>"
    using code by (simp add: Token_Create_def simps tbl_store_def del: rbind_Ok_iff)
  obtain k2 where k2: "Token_Issue ?C k1 30 \<lparr>q_Amount = 70, q_Symbol = meos\<rparr> [] = Ok k2" "k_sent k2 = []"
    "tbl_find (k_stats k2) 8 = Some (meos_stats 70)"
    using code k1(2) by (simp add: Token_Issue_def simps tbl_find_def tbl_update_def
        wrap64_def addBalance_def bal_find_def bal_set_def del: rbind_Ok_iff)
  obtain k3 where k3: "Token_RetireEx ?C 20 k2 40 \<lparr>q_Amount = 10, q_Symbol = meos\<rparr> [] = Ok k3" "k_sent k3 = []"
    "tbl_find (k_stats k3) 8 = Some (meos_stats 60)"
    using code k2(2,3) by (simp add: Token_RetireEx_def reduce_supply_def simps del: rbind_Ok_iff)
  from token_run.retireex [OF token_run.issue [OF token_run.create [OF token_run.start k1(1)] k2(1)] k3(1)] k3(2,3)
  show ?thesis by auto
qed

theorem supply_is_held_witness: "\<exists>k ds. token_run demo_chain 20 k ds \<and> k_sent k = [] \<and> held k 8 = 70 \<and> amount_of demo_chain 8 ds = 10"
proof -
  obtain k where k: "token_run demo_chain 20 k [\<lparr>q_Amount = 10, q_Symbol = meos\<rparr>]" "k_sent k = []"
    "tbl_find (k_stats k) 8 = Some (meos_stats 60)" using demo_token_run by blast
  have a: "amount_of demo_chain 8 [\<lparr>q_Amount = 10, q_Symbol = meos\<rparr>] = 10"
    by (simp add: amount_of_def demo_chain_def meos_def drop_bit_eq_div)
  from supply_is_held [OF demo.asset_lib_axioms k] have "held k 8 = 70" by (simp add: a meos_stats_def)
  with k(1,2) a show ?thesis by blast
qed

end
