(* ===== verification/Mixinproxy.thy ===== *)
theory Mixinproxy
  imports Dappdemo
begin

text \<open>
  mvm/eos/contracts/mixinproxy: the contract that gives the members of the group accounts and wrapped tokens on
  the chain. It shares the context of a contract, the signed part of the action's data and the signature loop
  with the other contracts; its tables are the fields of \<open>proxy_state\<close>. \<open>wstat\<close> is the table \<open>stat\<close> of the
  token contract, which it reads.
\<close>

section \<open>Tables (tables.go)\<close>

record proxy_state =
  x_errorevents :: "(u64 \<times> tx_event \<times> string) list"
  x_submittedevs :: "(u64 \<times> unit) list"
  x_counters :: "(u64 \<times> u64) list"
  x_accountcache :: "(u64 \<times> name) option"
  x_bindaccounts :: "(name \<times> u128) list"
  x_mixinassets :: "(u64 \<times> u64 \<times> u128) list"
  x_transferfees :: "(u64 \<times> eos_asset) list"
  x_totalfees :: "(u64 \<times> eos_asset) list"
  x_createaccfee :: "eos_asset option"
  x_sent :: "inline_action list"

definition KEY_TX_OUT_INDEX :: u64 where
  "KEY_TX_OUT_INDEX = 2"

definition KEY_ACCOUNT_INDEX :: u64 where
  "KEY_ACCOUNT_INDEX = 5"

definition MTG_WORK_EXPIRATION_SECONDS :: u32 where
  "MTG_WORK_EXPIRATION_SECONDS = 3 * 60"

definition MAX_SUPPLY :: int where
  "MAX_SUPPLY = 100000000000000"

definition RAM_BYTES :: nat where
  "RAM_BYTES = 3 * 1024"

definition MIXIN_WTOKENS :: "'z chainlib_scheme \<Rightarrow> name" where
  "MIXIN_WTOKENS C = newName C ''mixinwtokens''"

definition ACCOUNT_OWNER :: "'z chainlib_scheme \<Rightarrow> name" where
  "ACCOUNT_OWNER C = newName C ''mtgxinmtgxin''"

definition send :: "proxy_state \<Rightarrow> inline_action \<Rightarrow> proxy_state" where
  "send x a = x\<lparr>x_sent := x_sent x @ [a]\<rparr>"

text \<open>The first row a secondary index gives for a value; rows of equal value are in the order of their primary keys.\<close>

definition idx_find :: "('k \<times> 'r) list \<Rightarrow> ('r \<Rightarrow> u128) \<Rightarrow> u128 \<Rightarrow> ('k \<times> 'r) option" where
  "idx_find t f v = find (\<lambda>x. f (snd x) = v) t"

section \<open>Counters and nonces\<close>

definition Proxy_GetNextIndex :: "proxy_state \<Rightarrow> u64 \<Rightarrow> u64 \<Rightarrow> (u64 \<times> proxy_state) res" where
  "Proxy_GetNextIndex x key initialValue = (case tbl_find (x_counters x) key of
       Some count \<Rightarrow> Ok (count + 1, x\<lparr>x_counters := tbl_update (x_counters x) key (count + 1)\<rparr>)
     | None \<Rightarrow> rbind (tbl_store (x_counters x) key initialValue) (\<lambda>t. Ok (initialValue, x\<lparr>x_counters := t\<rparr>)))"

definition Proxy_IncNonce :: "proxy_state \<Rightarrow> proxy_state res" where
  "Proxy_IncNonce x = (case tbl_find (x_counters x) KEY_NONCE of
       Some count \<Rightarrow> Ok (x\<lparr>x_counters := tbl_update (x_counters x) KEY_NONCE (count + 1)\<rparr>)
     | None \<Rightarrow> rbind (tbl_store (x_counters x) KEY_NONCE 2) (\<lambda>t. Ok (x\<lparr>x_counters := t\<rparr>)))"

definition Proxy_GetNonce :: "proxy_state \<Rightarrow> (u64 \<times> proxy_state) res" where
  "Proxy_GetNonce x = (case tbl_find (x_counters x) KEY_NONCE of
       Some count \<Rightarrow> Ok (count, x)
     | None \<Rightarrow> rbind (tbl_store (x_counters x) KEY_NONCE 1) (\<lambda>t. Ok (1, x\<lparr>x_counters := t\<rparr>)))"

definition Proxy_CheckAndIncNonce :: "proxy_state \<Rightarrow> u64 \<Rightarrow> proxy_state res" where
  "Proxy_CheckAndIncNonce x oldNonce = (case tbl_find (x_counters x) KEY_NONCE of
       Some count \<Rightarrow> rbind (check (count = oldNonce) ''Invalid nonce'') (\<lambda>_.
         Ok (x\<lparr>x_counters := tbl_update (x_counters x) KEY_NONCE (oldNonce + 1)\<rparr>))
     | None \<Rightarrow> rbind (tbl_store (x_counters x) KEY_NONCE (oldNonce + 1)) (\<lambda>t. Ok (x\<lparr>x_counters := t\<rparr>)))"

definition Proxy_GetNextTxRequestNonce :: "proxy_state \<Rightarrow> (u64 \<times> proxy_state) res" where
  "Proxy_GetNextTxRequestNonce x = Proxy_GetNextIndex x KEY_TX_OUT_INDEX 1"

definition GetNextAccountId :: "proxy_state \<Rightarrow> (u64 \<times> proxy_state) res" where
  "GetNextAccountId x = Proxy_GetNextIndex x KEY_ACCOUNT_INDEX 1"

lemma IncNonce_submitted: "Proxy_IncNonce x = Ok x' \<Longrightarrow> x_submittedevs x' = x_submittedevs x"
  by (auto simp: Proxy_IncNonce_def split: option.splits)

text \<open>The first loop of \<open>CheckNonce\<close>: while the nonce has been submitted, remove it and go on with the next.\<close>

function advance_nonce :: "proxy_state \<Rightarrow> u64 \<Rightarrow> (u64 \<times> proxy_state) res" where
  "advance_nonce x nonce =
     (if tbl_find (x_submittedevs x) nonce = None then Ok (nonce, x)
      else rbind (Proxy_IncNonce (x\<lparr>x_submittedevs := tbl_remove (x_submittedevs x) nonce\<rparr>)) (\<lambda>x.
           advance_nonce x (nonce + 1)))"
  by auto

termination
  by (relation "measure (\<lambda>(x, _). length (x_submittedevs x))")
    (auto dest!: IncNonce_submitted intro!: tbl_remove_length)

text \<open>The second: remove rows from the front while they are below the nonce.\<close>

fun remove_stale :: "(u64 \<times> unit) list \<Rightarrow> u64 \<Rightarrow> (u64 \<times> unit) list" where
  "remove_stale [] nonce = []"
| "remove_stale ((n, r) # t) nonce = (if nonce \<le> n then (n, r) # t else remove_stale t nonce)"

definition CheckNonce :: "proxy_state \<Rightarrow> u64 \<Rightarrow> proxy_state res" where
  "CheckNonce x eventNonce =
     rbind (Proxy_GetNonce x) (\<lambda>(nonce, x).
     rbind (check (nonce \<le> eventNonce) ''bad nonce!'') (\<lambda>_.
     rbind (check (tbl_find (x_submittedevs x) eventNonce = None) ''event already exists!'') (\<lambda>_.
     rbind (tbl_store (x_submittedevs x) eventNonce ()) (\<lambda>t.
     rbind (advance_nonce (x\<lparr>x_submittedevs := t\<rparr>) nonce) (\<lambda>(nonce, x).
     Ok (x\<lparr>x_submittedevs := remove_stale (x_submittedevs x) nonce\<rparr>))))))"

definition StoreNonce :: "proxy_state \<Rightarrow> u64 \<Rightarrow> proxy_state res" where
  "StoreNonce x eventNonce =
     rbind (check (tbl_find (x_submittedevs x) eventNonce = None) ''event already exists!'') (\<lambda>_.
     rbind (tbl_store (x_submittedevs x) eventNonce ()) (\<lambda>t. Ok (x\<lparr>x_submittedevs := t\<rparr>)))"

section \<open>Helpers (utils.go)\<close>

definition DEBUG :: bool where
  "DEBUG = False"

definition Proxy_VerifySignatures :: "'z chainlib_scheme \<Rightarrow> mtg_state \<Rightarrow> bytes \<Rightarrow> bytes list \<Rightarrow> bool res" where
  "Proxy_VerifySignatures C mx data sigs =
     verify_loop C (sha256 C data) (mx_signers mx) (mtg_threshold (length (mx_signers mx))) [] 0 sigs"

text \<open>A \<open>for range\<close> over a string visits its runes: UTF-8 sequences, and U+FFFD for each byte that starts none.\<close>

definition cont :: "nat \<Rightarrow> nat \<Rightarrow> nat \<Rightarrow> bool" where
  "cont lo hi b \<longleftrightarrow> lo \<le> b \<and> b \<le> hi"

fun go_runes :: "nat list \<Rightarrow> nat list" where
  "go_runes [] = []"
| "go_runes (a # bs) =
     (if a < 128 then a # go_runes bs
      else case bs of
        b # bs1 \<Rightarrow>
          if 194 \<le> a \<and> a \<le> 223 \<and> cont 128 191 b then (a mod 32 * 64 + b mod 64) # go_runes bs1
          else (case bs1 of
            c # bs2 \<Rightarrow>
              if 224 \<le> a \<and> a \<le> 239 \<and> cont (if a = 224 then 160 else 128) (if a = 237 then 159 else 191) b \<and> cont 128 191 c
              then (a mod 16 * 4096 + b mod 64 * 64 + c mod 64) # go_runes bs2
              else (case bs2 of
                d # bs3 \<Rightarrow>
                  if 240 \<le> a \<and> a \<le> 244 \<and> cont (if a = 240 then 144 else 128) (if a = 244 then 143 else 191) b
                     \<and> cont 128 191 c \<and> cont 128 191 d
                  then (a mod 8 * 262144 + b mod 64 * 4096 + c mod 64 * 64 + d mod 64) # go_runes bs3
                  else 65533 # go_runes bs
              | [] \<Rightarrow> 65533 # go_runes bs)
          | [] \<Rightarrow> 65533 # go_runes bs)
      | [] \<Rightarrow> 65533 # go_runes bs)"

text \<open>\<open>byte(c)\<close> keeps the low eight bits of a rune.\<close>

definition GetClientId :: "'z chainlib_scheme \<Rightarrow> string \<Rightarrow> u128 option" where
  "GetClientId C memo =
     (if length memo \<noteq> 36 then None
      else let client_id = map (\<lambda>c. char_of c :: char) (filter (\<lambda>c. c \<noteq> 45) (go_runes (map of_char memo))) in
        if length client_id \<noteq> 32 then None
        else case hexDecodeString C client_id of
            Ok h \<Rightarrow> Some (uint128OfBytes C (take 16 (h @ replicate 16 (CHR 0x00))))
          | _ \<Rightarrow> None)"

text \<open>The digits of the identifier in base 26, least significant first, in the first nine letters.\<close>

fun name_digits :: "nat \<Rightarrow> nat \<Rightarrow> string" where
  "name_digits 0 i = []"
| "name_digits (Suc k) i = (char_of (97 + i mod 26) :: char) #
     (if i div 26 = 0 then replicate k (CHR ''a'') else name_digits k (i div 26))"

definition account_name_text :: "u64 \<Rightarrow> string" where
  "account_name_text accountId = name_digits 9 (unat accountId) @ ''mvm''"

definition GetAccountNameFromId :: "'z chainlib_scheme \<Rightarrow> u64 \<Rightarrow> name res" where
  "GetAccountNameFromId C accountId =
     (let nm = newName C (account_name_text accountId) in
      if DEBUG then Ok nm
      else rbind (check (\<not> isAccount C nm) ''account name already exists'') (\<lambda>_. Ok nm))"

definition weight_one :: "name \<Rightarrow> name \<Rightarrow> permission_level_weight" where
  "weight_one a p = \<lparr>pw_Permission = \<lparr>pl_Actor = a, pl_Permission = p\<rparr>, pw_Weight = 1\<rparr>"

definition send_new_account :: "'z chainlib_scheme \<Rightarrow> proxy_state \<Rightarrow> name \<Rightarrow> name \<Rightarrow> name \<Rightarrow> proxy_state" where
  "send_new_account C x creator ownerAccount newAccount =
     (if DEBUG \<and> isAccount C newAccount then x
      else let account = \<lparr>na_Creator = creator, na_Name = newAccount,
             na_Owner = \<lparr>au_Threshold = 1, au_Keys = [], au_Accounts = [weight_one ownerAccount (newName C ''active'')],
                au_Waits = []\<rparr>,
             na_Active = \<lparr>au_Threshold = 1, au_Keys = [], au_Accounts = [weight_one creator (newName C ''active''),
                weight_one creator (newName C ''multisig'')], au_Waits = []\<rparr>\<rparr>;
             auth = [\<lparr>pl_Actor = creator, pl_Permission = activeName C\<rparr>] in
           send (send x (new_action auth (eosioContractName C) (newName C ''newaccount'') [AAccount account]))
             (new_action auth (eosioContractName C) (newName C ''buyrambytes'')
                [ANameArg creator, ANameArg newAccount, ANat RAM_BYTES]))"

section \<open>Assets, fees and accounts (mixinproxy.go)\<close>

definition Proxy_NewContract :: "mtg_state \<Rightarrow> name \<Rightarrow> name \<Rightarrow> contract_ctx res" where
  "Proxy_NewContract mx receiver firstReceiver = (case tbl_find (mx_processes mx) receiver of
       None \<Rightarrow> Err ''process not found!''
     | Some p \<Rightarrow> Ok \<lparr>c_self = receiver, c_firstReceiver = firstReceiver, c_process = p\<rparr>)"

definition self_auth :: "'z chainlib_scheme \<Rightarrow> contract_ctx \<Rightarrow> permission_level list" where
  "self_auth C c = [\<lparr>pl_Actor = c_self c, pl_Permission = activeName C\<rparr>]"

definition GetMixinAssetId :: "'z chainlib_scheme \<Rightarrow> proxy_state \<Rightarrow> u64 \<Rightarrow> u128 option" where
  "GetMixinAssetId C x symb = map_option snd (tbl_find (x_mixinassets x) (symbolCode C symb))"

definition GetTransferFee :: "'z chainlib_scheme \<Rightarrow> proxy_state \<Rightarrow> u64 \<Rightarrow> eos_asset" where
  "GetTransferFee C x symb = (case tbl_find (x_transferfees x) (symbolCode C symb) of
       None \<Rightarrow> \<lparr>q_Amount = 0, q_Symbol = symb\<rparr> | Some fee \<Rightarrow> fee)"

definition AddFee :: "'z chainlib_scheme \<Rightarrow> proxy_state \<Rightarrow> eos_asset \<Rightarrow> proxy_state res" where
  "AddFee C x fee = (let code = symbolCode C (q_Symbol fee) in
     case tbl_find (x_totalfees x) code of
       Some tot \<Rightarrow> Ok (x\<lparr>x_totalfees := tbl_update (x_totalfees x) code
          (tot\<lparr>q_Amount := wrap64 (q_Amount tot + q_Amount fee)\<rparr>)\<rparr>)
     | None \<Rightarrow> rbind (tbl_store (x_totalfees x) code fee) (\<lambda>t. Ok (x\<lparr>x_totalfees := t\<rparr>)))"

definition GetSymbol :: "proxy_state \<Rightarrow> u128 \<Rightarrow> u64 res" where
  "GetSymbol x assetId = (case idx_find (x_mixinassets x) snd assetId of
       None \<Rightarrow> Err ''asset id not found''
     | Some (k, _) \<Rightarrow> (case tbl_find (x_mixinassets x) k of
         None \<Rightarrow> Err ''asset not found'' | Some (symb, _) \<Rightarrow> Ok symb))"

definition ShowError :: "'z chainlib_scheme \<Rightarrow> contract_ctx \<Rightarrow> proxy_state \<Rightarrow> string \<Rightarrow> proxy_state" where
  "ShowError C c x e = send x (new_action (self_auth C c) (c_self c) (newName C ''error'') [AString e])"

definition GetCreateAccountFee :: "'z chainlib_scheme \<Rightarrow> proxy_state \<Rightarrow> eos_asset" where
  "GetCreateAccountFee C x = (case x_createaccfee x of
       None \<Rightarrow> \<lparr>q_Amount = 0, q_Symbol = newSymbol C ''MEOS'' 8\<rparr> | Some fee \<Rightarrow> fee)"

definition GetAccount :: "proxy_state \<Rightarrow> u128 \<Rightarrow> name option" where
  "GetAccount x userId = (case idx_find (x_bindaccounts x) (\<lambda>v. v) userId of
       None \<Rightarrow> None
     | Some (k, _) \<Rightarrow> (case tbl_find (x_bindaccounts x) k of None \<Rightarrow> None | Some _ \<Rightarrow> Some k))"

definition GetNextAvailableAccount :: "'z chainlib_scheme \<Rightarrow> contract_ctx \<Rightarrow> proxy_state \<Rightarrow> (name \<times> proxy_state) res" where
  "GetNextAvailableAccount C c x = (case x_accountcache x of
       None \<Rightarrow> Err ''No availabe account''
     | Some (i, account) \<Rightarrow>
         rbind (GetAccountNameFromId C (i + 1)) (\<lambda>nxt.
         Ok (account, (send_new_account C x (c_self c) (ACCOUNT_OWNER C) nxt)\<lparr>x_accountcache := Some (i + 1, nxt)\<rparr>)))"

definition Proxy_CreateNewAccount ::
  "'z chainlib_scheme \<Rightarrow> contract_ctx \<Rightarrow> proxy_state \<Rightarrow> u128 \<Rightarrow> (name \<times> proxy_state) res" where
  "Proxy_CreateNewAccount C c x from =
     rbind (check (idx_find (x_bindaccounts x) (\<lambda>v. v) from \<noteq> None) ''account already exists!'') (\<lambda>_.
     rbind (GetNextAvailableAccount C c x) (\<lambda>(fromAccount, x).
     rbind (tbl_store (x_bindaccounts x) fromAccount from) (\<lambda>t.
     Ok (fromAccount, x\<lparr>x_bindaccounts := t\<rparr>))))"

definition IssueAsset ::
  "'z chainlib_scheme \<Rightarrow> contract_ctx \<Rightarrow> (u64 \<times> 's) list \<Rightarrow> proxy_state \<Rightarrow> name \<Rightarrow> eos_asset \<Rightarrow> proxy_state" where
  "IssueAsset C c wstat x fromAccount quantity =
     (let x = (if tbl_find wstat (symbolCode C (q_Symbol quantity)) = None
        then send x (new_action [\<lparr>pl_Actor = MIXIN_WTOKENS C, pl_Permission = activeName C\<rparr>] (MIXIN_WTOKENS C)
          (newName C ''create'') [ANameArg (c_self c), AAsset \<lparr>q_Amount = MAX_SUPPLY, q_Symbol = q_Symbol quantity\<rparr>,
             AString ''create''])
        else x) in
      send (send x (new_action (self_auth C c) (MIXIN_WTOKENS C) (newName C ''issue'')
                      [ANameArg (c_self c), AAsset quantity, AString ''issue'']))
        (new_action (self_auth C c) (MIXIN_WTOKENS C) (newName C ''transfer'')
           [ANameArg (c_self c), ANameArg fromAccount, AAsset quantity, AString ''transfer'']))"

definition send_request ::
  "'z chainlib_scheme \<Rightarrow> contract_ctx \<Rightarrow> proxy_state \<Rightarrow> u128 \<Rightarrow> u128 list \<Rightarrow> int \<Rightarrow> u128 \<Rightarrow> bytes \<Rightarrow> proxy_state res" where
  "send_request C c x ast members threshold amount extra =
     rbind (Proxy_GetNextTxRequestNonce x) (\<lambda>(i, x).
     Ok (send x (new_action (self_auth C c) (MTG_XIN C) (newName C ''txrequest'')
       [ARequest \<lparr>r_nonce = i, r_contract = c_self c, r_process = c_process c, r_asset = ast, r_members = members,
          r_threshold = threshold, r_amount = amount, r_extra = extra, r_timestamp = 0\<rparr>])))"

definition Refund :: "'z chainlib_scheme \<Rightarrow> contract_ctx \<Rightarrow> proxy_state \<Rightarrow> tx_event \<Rightarrow> string \<Rightarrow> proxy_state res" where
  "Refund C c x event memo =
     send_request C c x (t_asset event) (t_members event) (t_threshold event) (t_amount event) memo"

definition HandleRefund ::
  "'z chainlib_scheme \<Rightarrow> contract_ctx \<Rightarrow> proxy_state \<Rightarrow> u128 \<Rightarrow> u128 \<Rightarrow> u128 \<Rightarrow> string \<Rightarrow> proxy_state res" where
  "HandleRefund C c x clientId assetId amount memo = send_request C c x assetId [clientId] 1 amount memo"

definition TransferOut ::
  "'z chainlib_scheme \<Rightarrow> contract_ctx \<Rightarrow> proxy_state \<Rightarrow> u128 \<Rightarrow> eos_asset \<Rightarrow> string \<Rightarrow> proxy_state res" where
  "TransferOut C c x member amount memo = (case GetMixinAssetId C x (q_Symbol amount) of
       None \<Rightarrow> Err ''unsupported asset id''
     | Some assetId \<Rightarrow>
         let x = (if c_firstReceiver c = MIXIN_WTOKENS C
           then send x (new_action (self_auth C c) (MIXIN_WTOKENS C) (newName C ''retire'') [AAsset amount, AString ''retire''])
           else x) in
         send_request C c x assetId [member] 1 (ucast (word_of_int (q_Amount amount) :: u64)) memo)"

definition SendAction :: "'z chainlib_scheme \<Rightarrow> proxy_state \<Rightarrow> name \<Rightarrow> inline_action \<Rightarrow> proxy_state" where
  "SendAction C x fromAccount action =
     send x (action\<lparr>act_Authorization := [\<lparr>pl_Actor = fromAccount, pl_Permission = activeName C\<rparr>]\<rparr>)"

section \<open>Handling an event\<close>

text \<open>What the extra of an event asks for: nothing, a transfer to an account, or a call of another contract.\<close>

definition event_action ::
  "'z chainlib_scheme \<Rightarrow> name \<Rightarrow> eos_asset \<Rightarrow> bytes \<Rightarrow> inline_action option + string" where
  "event_action C fromAccount quantity extra =
     (if extra = [] then Inl None
      else if length extra \<le> 12 then
        (let to = newName C extra in
         if \<not> isAccount C to then Inr ''account does not exists, refund''
         else Inl (Some (new_action [\<lparr>pl_Actor = fromAccount, pl_Permission = activeName C\<rparr>] (MIXIN_WTOKENS C)
                (newName C ''transfer'') [ANameArg fromAccount, ANameArg to, AAsset quantity, AString ''xtranfer''])))
      else if length extra < 8 * 2 then Inr ''invalid action data, refund!''
      else let account = word_of_nat (be_nat (rev (take 8 extra))) in
        if \<not> isAccount C account then Inr ''invalid account name, refund''
        else Inl (Some (new_action [] account (word_of_nat (be_nat (rev (take 8 (drop 8 extra))))) [ARaw (drop 16 extra)])))"

text \<open>The account of the sender, made when it has none: \<open>Inr\<close> is an error shown instead.\<close>

definition sender_account ::
  "'z chainlib_scheme \<Rightarrow> contract_ctx \<Rightarrow> proxy_state \<Rightarrow> u128 \<Rightarrow> eos_asset \<Rightarrow>
   ((name \<times> eos_asset \<times> proxy_state) + string) res" where
  "sender_account C c x from quantity = (case GetAccount x from of
       Some a \<Rightarrow> Ok (Inl (a, quantity, x))
     | None \<Rightarrow>
         let fee = GetCreateAccountFee C x in
         if q_Amount fee \<noteq> 0 \<and> q_Symbol quantity \<noteq> newSymbol C ''MEOS'' 8
         then Ok (Inr ''invalid asset for creating account'')
         else if q_Amount fee \<noteq> 0 \<and> q_Amount quantity < q_Amount fee
         then Ok (Inr ''not enough fee for creating account'')
         else let quantity = (if q_Amount fee \<noteq> 0 then quantity\<lparr>q_Amount := wrap64 (q_Amount quantity - q_Amount fee)\<rparr>
                              else quantity) in
           rbind (Proxy_CreateNewAccount C c x from) (\<lambda>(a, x). Ok (Inl (a, quantity, x))))"

text \<open>The part of the handler after the fees: \<open>event\<close> has its fee taken off.\<close>

definition pay_member ::
  "'z chainlib_scheme \<Rightarrow> contract_ctx \<Rightarrow> (u64 \<times> 's) list \<Rightarrow> tx_event \<Rightarrow> eos_asset \<Rightarrow> proxy_state \<Rightarrow> proxy_state res" where
  "pay_member C c wstat event quantity x = (case t_members event of
       [from] \<Rightarrow>
         rbind (sender_account C c x from quantity) (\<lambda>r. case r of
           Inr e \<Rightarrow> Ok (ShowError C c x e)
         | Inl (fromAccount, quantity, x) \<Rightarrow>
             (case event_action C fromAccount quantity (t_extra event) of
                Inr memo \<Rightarrow> Refund C c x event memo
              | Inl action \<Rightarrow>
                  let x = IssueAsset C c wstat x fromAccount quantity in
                  Ok (case action of None \<Rightarrow> x | Some a \<Rightarrow> SendAction C x fromAccount a)))
     | _ \<Rightarrow> Ok (ShowError C c x ''multisig event not supported currently''))"

definition HandleEventNoNonceChecking ::
  "'z chainlib_scheme \<Rightarrow> contract_ctx \<Rightarrow> (u64 \<times> 's) list \<Rightarrow> proxy_state \<Rightarrow> tx_event \<Rightarrow> proxy_state res" where
  "HandleEventNoNonceChecking C c wstat x event =
     (if idx_find (x_mixinassets x) snd (t_asset event) = None then Ok x
      else if unat (maxAmount C) < unat (t_amount event) then Ok (ShowError C c x ''amount too large'')
      else rbind (GetSymbol x (t_asset event)) (\<lambda>symb.
        let quantity = \<lparr>q_Amount = wrap64 (int (unat (ucast (t_amount event) :: u64))), q_Symbol = symb\<rparr>;
            fee = GetTransferFee C x symb in
        if q_Amount quantity \<le> q_Amount fee
        then rbind (AddFee C x quantity) (\<lambda>x. Ok (ShowError C c x ''transfer amount is less than fee''))
        else rbind (AddFee C x fee) (\<lambda>x.
          let quantity = quantity\<lparr>q_Amount := wrap64 (q_Amount quantity - q_Amount fee)\<rparr>;
              event = event\<lparr>t_amount := t_amount event - ucast (word_of_int (q_Amount fee) :: u64)\<rparr>;
              expiration = (ucast (t_timestamp event div 1000000000) :: u32) + MTG_WORK_EXPIRATION_SECONDS in
          rbind (if expiration < currentTimeSeconds C then Refund C c x event ''expired, refund'' else Ok x) (\<lambda>x.
          pay_member C c wstat event quantity x))))"

definition HandleErrorEvent ::
  "'z chainlib_scheme \<Rightarrow> contract_ctx \<Rightarrow> (u64 \<times> 's) list \<Rightarrow> proxy_state \<Rightarrow> tx_event \<Rightarrow> proxy_state res" where
  "HandleErrorEvent C c wstat x event = HandleEventNoNonceChecking C c wstat x event"

definition HandleNormalEvent ::
  "'z chainlib_scheme \<Rightarrow> contract_ctx \<Rightarrow> (u64 \<times> 's) list \<Rightarrow> proxy_state \<Rightarrow> tx_event \<Rightarrow> proxy_state res" where
  "HandleNormalEvent C c wstat x event = HandleEventNoNonceChecking C c wstat x event"

section \<open>Actions (actions.go)\<close>

definition Initialize :: "'z chainlib_scheme \<Rightarrow> contract_ctx \<Rightarrow> proxy_state \<Rightarrow> proxy_state res" where
  "Initialize C c x =
     rbind (requireAuth C (c_self c)) (\<lambda>_.
     rbind (check (x_accountcache x = None) ''Account cache already initialized'') (\<lambda>_.
     rbind (GetAccountNameFromId C 0) (\<lambda>account.
     Ok ((send_new_account C x (c_self c) (ACCOUNT_OWNER C) account)\<lparr>x_accountcache := Some (0, account)\<rparr>))))"

definition AddMixinAsset :: "'z chainlib_scheme \<Rightarrow> contract_ctx \<Rightarrow> proxy_state \<Rightarrow> u128 \<Rightarrow> u64 \<Rightarrow> proxy_state res" where
  "AddMixinAsset C c x asset_id symb =
     rbind (requireAuth C (c_self c)) (\<lambda>_.
     rbind (check (tbl_find (x_mixinassets x) (symbolCode C symb) = None) ''Asset already exists'') (\<lambda>_.
     rbind (tbl_store (x_mixinassets x) (symbolCode C symb) (symb, asset_id)) (\<lambda>t. Ok (x\<lparr>x_mixinassets := t\<rparr>))))"

definition RemoveMixinAsset :: "'z chainlib_scheme \<Rightarrow> contract_ctx \<Rightarrow> proxy_state \<Rightarrow> u64 \<Rightarrow> proxy_state res" where
  "RemoveMixinAsset C c x symb =
     rbind (requireAuth C (c_self c)) (\<lambda>_.
     rbind (check (tbl_find (x_mixinassets x) (symbolCode C symb) \<noteq> None) ''Asset does not exists'') (\<lambda>_.
     Ok (x\<lparr>x_mixinassets := tbl_remove (x_mixinassets x) (symbolCode C symb)\<rparr>)))"

definition Proxy_OnEvent ::
  "'z chainlib_scheme \<Rightarrow> mtg_state \<Rightarrow> contract_ctx \<Rightarrow> (u64 \<times> 's) list \<Rightarrow> proxy_state \<Rightarrow> bytes \<Rightarrow> proxy_state res" where
  "Proxy_OnEvent C mx c wstat x data =
     rbind (unpackEvent C data) (\<lambda>(event, _).
     rbind (signed_part data (length data) (length (t_signatures event))) (\<lambda>msg.
     rbind (Proxy_VerifySignatures C mx msg (t_signatures event)) (\<lambda>_.
     rbind (check (t_process event = c_process c) ''invalid process!'') (\<lambda>_.
     rbind (CheckNonce x (t_nonce event)) (\<lambda>x.
     HandleNormalEvent C c wstat x event)))))"

definition OnErrorEvent ::
  "'z chainlib_scheme \<Rightarrow> mtg_state \<Rightarrow> contract_ctx \<Rightarrow> proxy_state \<Rightarrow> bytes \<Rightarrow> proxy_state res" where
  "OnErrorEvent C mx c x data =
     rbind (unpackEvent C data) (\<lambda>(event, sz).
     rbind (signed_part data sz (length (t_signatures event))) (\<lambda>msg.
     rbind (Proxy_VerifySignatures C mx msg (t_signatures event)) (\<lambda>_.
     rbind (check (t_process event = c_process c) ''Invalid process id'') (\<lambda>_.
     rbind (unpackString C (drop sz data)) (\<lambda>reason.
     rbind (Proxy_GetNonce x) (\<lambda>(nonce, x).
     rbind (check (nonce \<le> t_nonce event) ''bad nonce!'') (\<lambda>_.
     rbind (StoreNonce x (t_nonce event)) (\<lambda>x.
     rbind (check (tbl_find (x_errorevents x) (t_nonce event) = None) ''event already exists!'') (\<lambda>_.
     rbind (tbl_store (x_errorevents x) (t_nonce event) (event, reason)) (\<lambda>t. Ok (x\<lparr>x_errorevents := t\<rparr>)))))))))))"

definition Proxy_Exec ::
  "'z chainlib_scheme \<Rightarrow> contract_ctx \<Rightarrow> (u64 \<times> 's) list \<Rightarrow> proxy_state \<Rightarrow> name \<Rightarrow> proxy_state res" where
  "Proxy_Exec C c wstat x executor =
     rbind (requireAuth C executor) (\<lambda>_.
     case x_errorevents x of
       [] \<Rightarrow> Err ''error event not found!''
     | (n, (event, _)) # _ \<Rightarrow>
         rbind (HandleErrorEvent C c wstat x event) (\<lambda>x.
         Ok (x\<lparr>x_errorevents := tbl_remove (x_errorevents x) n\<rparr>)))"

definition DoWork :: "name \<Rightarrow> u64 \<Rightarrow> proxy_state res" where
  "DoWork executor i = Err ''Not implemented''"

definition SetTransferFee :: "'z chainlib_scheme \<Rightarrow> contract_ctx \<Rightarrow> proxy_state \<Rightarrow> eos_asset \<Rightarrow> proxy_state res" where
  "SetTransferFee C c x fee =
     (let code = symbolCode C (q_Symbol fee) in
      rbind (requireAuth C (c_self c)) (\<lambda>_.
      rbind (check (0 < q_Amount fee) ''fee must be greater than 0'') (\<lambda>_.
      rbind (check (tbl_find (x_mixinassets x) code \<noteq> None) ''asset not found!'') (\<lambda>_.
      case tbl_find (x_transferfees x) code of
        Some _ \<Rightarrow> Ok (x\<lparr>x_transferfees := tbl_update (x_transferfees x) code fee\<rparr>)
      | None \<Rightarrow> rbind (tbl_store (x_transferfees x) code fee) (\<lambda>t. Ok (x\<lparr>x_transferfees := t\<rparr>))))))"

definition SetCreateAccountFee :: "'z chainlib_scheme \<Rightarrow> contract_ctx \<Rightarrow> proxy_state \<Rightarrow> eos_asset \<Rightarrow> proxy_state res" where
  "SetCreateAccountFee C c x fee =
     rbind (requireAuth C (c_self c)) (\<lambda>_.
     rbind (check (0 < q_Amount fee) ''fee must be greater than 0'') (\<lambda>_.
     Ok (x\<lparr>x_createaccfee := Some fee\<rparr>)))"

definition Proxy_Transfer ::
  "'z chainlib_scheme \<Rightarrow> contract_ctx \<Rightarrow> proxy_state \<Rightarrow> name \<Rightarrow> name \<Rightarrow> eos_asset \<Rightarrow> string \<Rightarrow> proxy_state res" where
  "Proxy_Transfer C c x from to quantity memo =
     (if to \<noteq> c_self c then Ok x
      else if c_firstReceiver c \<noteq> MIXIN_WTOKENS C then Ok x
      else case GetClientId C memo of
          None \<Rightarrow> Ok x
        | Some clientId \<Rightarrow> TransferOut C c x clientId quantity ''MTGWork'')"

definition OnTransfer ::
  "'z chainlib_scheme \<Rightarrow> contract_ctx \<Rightarrow> proxy_state \<Rightarrow> name \<Rightarrow> name \<Rightarrow> eos_asset \<Rightarrow> string \<Rightarrow> proxy_state res" where
  "OnTransfer C c x from to quantity memo =
     (if from = c_self c then Ok x
      else case tbl_find (x_bindaccounts x) to of
          None \<Rightarrow> Ok x
        | Some client_id \<Rightarrow> (case tbl_find (x_mixinassets x) (symbolCode C (q_Symbol quantity)) of
            None \<Rightarrow> Err ''invalid mixin asset''
          | Some (_, assetId) \<Rightarrow>
              send_request C c x assetId [client_id] 1 (ucast (word_of_int (q_Amount quantity) :: u64)) memo))"

definition Error :: "proxy_state \<Rightarrow> string \<Rightarrow> proxy_state res" where
  "Error x e = Ok x"

text \<open>\<open>accounts\<close> is the table of balances that the token contract keeps for the owner.\<close>

definition GetBalance :: "'z chainlib_scheme \<Rightarrow> (u64 \<times> eos_asset) list \<Rightarrow> u64 \<Rightarrow> eos_asset" where
  "GetBalance C accounts symb = (case tbl_find accounts (symbolCode C symb) of
       Some to \<Rightarrow> to | None \<Rightarrow> \<lparr>q_Amount = 0, q_Symbol = symb\<rparr>)"

section \<open>The debug build (debug.go)\<close>

definition KEY_COUNTER_TEST :: u64 where
  "KEY_COUNTER_TEST = 7"

definition UpdateAuth :: "'z chainlib_scheme \<Rightarrow> contract_ctx \<Rightarrow> proxy_state \<Rightarrow> name \<Rightarrow> proxy_state res" where
  "UpdateAuth C c x account =
     rbind (requireAuth C (c_self c)) (\<lambda>_.
     let auth = \<lparr>au_Threshold = 1, au_Keys = [],
        au_Accounts = [weight_one (c_self c) (activeName C), weight_one (c_self c) (newName C ''multisig'')], au_Waits = []\<rparr> in
     Ok (send x (new_action [\<lparr>pl_Actor = account, pl_Permission = activeName C\<rparr>] (newName C ''eosio'') (newName C ''updateauth'')
       [ANameArg account, ANameArg (activeName C), ANameArg (ownerName C), AAuthority auth])))"

text \<open>It also clears the table \<open>txevents\<close>, in which the contract stores nothing.\<close>

definition Proxy_clear :: "'z chainlib_scheme \<Rightarrow> contract_ctx \<Rightarrow> proxy_state \<Rightarrow> proxy_state res" where
  "Proxy_clear C c x =
     rbind (requireAuth C (c_self c)) (\<lambda>_.
     Ok (x\<lparr>x_accountcache := None, x_bindaccounts := clear_table (x_bindaccounts x), x_counters := clear_table (x_counters x)\<rparr>))"

definition Proxy_test :: "proxy_state \<Rightarrow> proxy_state res" where
  "Proxy_test x = rbind (Proxy_GetNextIndex x KEY_COUNTER_TEST 1) (\<lambda>(_, x). Ok x)"

end
