(* ===== verification/Proxy_Laws.thy ===== *)
theory Proxy_Laws
  imports Mixinproxy Contract_Laws Eos_Token Wire_Lib
begin

text \<open>
  mixinproxy: the nonce check refines a set of consumed nonces, so no event is handled twice; the names of new
  accounts do not collide; and what the handler does with new members, expired events and calls of
  \<open>ontransfer\<close>.
\<close>

section \<open>Nonces\<close>

definition proxy_nonce :: "proxy_state \<Rightarrow> u64" where
  "proxy_nonce x = (case tbl_find (x_counters x) KEY_NONCE of None \<Rightarrow> 1 | Some n \<Rightarrow> n)"

definition submitted :: "proxy_state \<Rightarrow> u64 set" where
  "submitted x = {n. tbl_find (x_submittedevs x) n \<noteq> None}"

text \<open>The abstract state: the nonces that were used.\<close>

definition consumed :: "proxy_state \<Rightarrow> u64 set" where
  "consumed x = {n. n < proxy_nonce x} \<union> submitted x"

definition nonce_inv :: "proxy_state \<Rightarrow> bool" where
  "nonce_inv x \<longleftrightarrow> tbl_ok (x_submittedevs x) \<and> (\<forall>n \<in> submitted x. proxy_nonce x \<le> n) \<and> - 1 \<notin> submitted x"

lemma succ_less: "n \<noteq> - 1 \<Longrightarrow> m < n + 1 \<longleftrightarrow> m \<le> (n :: u64)"
proof -
  assume "n \<noteq> - 1"
  then have "unat n \<noteq> unat (- 1 :: u64)" by (metis word_unat_eq_iff)
  then have "unat n \<noteq> 2 ^ 64 - 1" by (simp add: unsigned_minus_1_eq_mask mask_eq_exp_minus_1)
  with unat_u64_less [of n] have "unat (n + 1) = unat n + 1" by (simp add: unat_word_ariths)
  then show ?thesis by (simp add: word_less_nat_alt word_le_nat_alt less_Suc_eq_le)
qed

lemma Proxy_GetNonce_Ok: "Proxy_GetNonce x = Ok (n, x') \<Longrightarrow> n = proxy_nonce x \<and> proxy_nonce x' = n
   \<and> tbl_find (x_counters x') KEY_NONCE = Some n \<and> x' = x\<lparr>x_counters := x_counters x'\<rparr>
   \<and> x_submittedevs x' = x_submittedevs x"
  by (auto simp: Proxy_GetNonce_def proxy_nonce_def split: option.splits)

lemma Proxy_GetNonce_total: "\<exists>x'. Proxy_GetNonce x = Ok (proxy_nonce x, x')"
  by (cases "tbl_find (x_counters x) KEY_NONCE") (auto simp: Proxy_GetNonce_def proxy_nonce_def tbl_store_def)

declare advance_nonce.simps [simp del]

lemma advance_nonce_total:
  "tbl_find (x_counters x) KEY_NONCE = Some n \<Longrightarrow> \<exists>n' x'. advance_nonce x n = Ok (n', x')"
proof (induction x n rule: advance_nonce.induct)
  case (1 x n)
  show ?case
  proof (cases "tbl_find (x_submittedevs x) n = None")
    case False
    let ?x = "x\<lparr>x_submittedevs := tbl_remove (x_submittedevs x) n, x_counters := tbl_update (x_counters x) KEY_NONCE (n + 1)\<rparr>"
    have inc: "Proxy_IncNonce (x\<lparr>x_submittedevs := tbl_remove (x_submittedevs x) n\<rparr>) = Ok ?x"
      using 1(2) by (simp add: Proxy_IncNonce_def)
    with 1(1) [OF False, of ?x] False show ?thesis by (subst advance_nonce.simps) simp
  qed (simp add: advance_nonce.simps)
qed

text \<open>The loop keeps the used nonces, and ends at one that is not used.\<close>

lemma advance_nonce_Ok:
  "advance_nonce x n = Ok (n', x') \<Longrightarrow> tbl_find (x_counters x) KEY_NONCE = Some n \<Longrightarrow> nonce_inv x \<Longrightarrow>
   nonce_inv x' \<and> consumed x' = consumed x \<and> tbl_find (x_counters x') KEY_NONCE = Some n' \<and> n' \<notin> submitted x'"
proof (induction x n rule: advance_nonce.induct)
  case (1 x n)
  show ?case
  proof (cases "tbl_find (x_submittedevs x) n = None")
    case True
    with 1(2,3,4) show ?thesis by (simp add: advance_nonce.simps submitted_def)
  next
    case False
    let ?x = "x\<lparr>x_submittedevs := tbl_remove (x_submittedevs x) n, x_counters := tbl_update (x_counters x) KEY_NONCE (n + 1)\<rparr>"
    have inc: "Proxy_IncNonce (x\<lparr>x_submittedevs := tbl_remove (x_submittedevs x) n\<rparr>) = Ok ?x"
      using 1(3) by (simp add: Proxy_IncNonce_def)
    have run: "advance_nonce ?x (n + 1) = Ok (n', x')" using 1(2) inc False by (simp add: advance_nonce.simps [of x])
    have n: "proxy_nonce x = n" "proxy_nonce ?x = n + 1" using 1(3) by (simp_all add: proxy_nonce_def)
    have sub: "submitted ?x = submitted x - {n}" "n \<in> submitted x" using False by (auto simp: submitted_def)
    have ne: "n \<noteq> - 1" using 1(4) sub(2) by (auto simp: nonce_inv_def)
    have "m \<noteq> n \<Longrightarrow> n \<le> m \<Longrightarrow> n + 1 \<le> m" for m using succ_less [OF ne, of m] by (metis leI leD le_less)
    then have inv: "nonce_inv ?x" using 1(4) n sub by (auto simp: nonce_inv_def tbl_remove_ok)
    have "consumed ?x = consumed x" using n sub by (auto simp: consumed_def succ_less [OF ne] le_less)
    with 1(1) [OF False inc run _ inv] show ?thesis by simp
  qed
qed

lemma advance_nonce_tables:
  "advance_nonce x n = Ok (n', x') \<Longrightarrow> x_bindaccounts x' = x_bindaccounts x \<and> x_mixinassets x' = x_mixinassets x"
proof (induction x n rule: advance_nonce.induct)
  case (1 x n)
  show ?case
  proof (cases "tbl_find (x_submittedevs x) n = None")
    case False
    with 1(2) obtain x1 where x1: "Proxy_IncNonce (x\<lparr>x_submittedevs := tbl_remove (x_submittedevs x) n\<rparr>) = Ok x1"
      "advance_nonce x1 (n + 1) = Ok (n', x')" by (auto simp: advance_nonce.simps [of x])
    then have "x_bindaccounts x1 = x_bindaccounts x" "x_mixinassets x1 = x_mixinassets x" by (auto simp: Proxy_IncNonce_def split: option.splits)
    with 1(1) [OF False x1] show ?thesis by simp
  qed (use 1(2) in \<open>simp add: advance_nonce.simps\<close>)
qed

lemma CheckNonce_tables:
  "CheckNonce x n = Ok x' \<Longrightarrow> x_bindaccounts x' = x_bindaccounts x \<and> x_mixinassets x' = x_mixinassets x"
  by (auto simp: CheckNonce_def Proxy_GetNonce_def dest!: advance_nonce_tables split: option.splits)

lemma remove_stale_id: "tbl_ok t \<Longrightarrow> (\<And>m. tbl_find t m \<noteq> None \<Longrightarrow> n \<le> m) \<Longrightarrow> remove_stale t n = t"
  by (cases t) (auto simp: tbl_find_def)

lemma consumed_put:
  assumes "nonce_inv x" "proxy_nonce x \<le> n" "n \<noteq> - 1"
  shows "consumed (x\<lparr>x_submittedevs := tbl_put n () (x_submittedevs x)\<rparr>) = insert n (consumed x)"
    "nonce_inv (x\<lparr>x_submittedevs := tbl_put n () (x_submittedevs x)\<rparr>)"
proof -
  let ?x = "x\<lparr>x_submittedevs := tbl_put n () (x_submittedevs x)\<rparr>"
  have "submitted ?x = insert n (submitted x)" "proxy_nonce ?x = proxy_nonce x"
    by (auto simp: submitted_def proxy_nonce_def)
  then show "consumed ?x = insert n (consumed x)" "nonce_inv ?x"
    using assms by (auto simp: consumed_def nonce_inv_def tbl_put_ok)
qed

lemma nonce_inv_counters:
  "tbl_find c KEY_NONCE = Some (proxy_nonce x) \<Longrightarrow> proxy_nonce (x\<lparr>x_counters := c\<rparr>) = proxy_nonce x
   \<and> consumed (x\<lparr>x_counters := c\<rparr>) = consumed x \<and> nonce_inv (x\<lparr>x_counters := c\<rparr>) = nonce_inv x"
  by (simp add: proxy_nonce_def consumed_def nonce_inv_def submitted_def)

lemma CheckNonce_Ok:
  assumes "CheckNonce x n = Ok x'" "nonce_inv x" "n \<noteq> - 1"
  shows "n \<notin> consumed x \<and> consumed x' = insert n (consumed x) \<and> nonce_inv x'"
proof -
  obtain x1 where x1: "Proxy_GetNonce x = Ok (proxy_nonce x, x1)" using Proxy_GetNonce_total by blast
  note g = Proxy_GetNonce_Ok [OF x1]
  have "tbl_find (x_counters x1) KEY_NONCE = Some (proxy_nonce x)" "x1 = x\<lparr>x_counters := x_counters x1\<rparr>" using g by auto
  from nonce_inv_counters [OF this(1)] this(2) assms(2) have i1: "nonce_inv x1" "consumed x1 = consumed x" by (metis)+
  have s1: "x_submittedevs x1 = x_submittedevs x" using g by simp
  let ?x = "x1\<lparr>x_submittedevs := tbl_put n () (x_submittedevs x1)\<rparr>"
  from assms(1) x1 obtain m x2 where le: "proxy_nonce x \<le> n" and new: "tbl_find (x_submittedevs x1) n = None"
    and adv: "advance_nonce ?x (proxy_nonce x) = Ok (m, x2)"
    and x': "x' = x2\<lparr>x_submittedevs := remove_stale (x_submittedevs x2) m\<rparr>"
    by (auto simp: CheckNonce_def)
  have le1: "proxy_nonce x1 \<le> n" using g le by simp
  note put = consumed_put [OF i1(1) le1 assms(3)]
  have cnt: "tbl_find (x_counters ?x) KEY_NONCE = Some (proxy_nonce x)" using g by simp
  from advance_nonce_Ok [OF adv cnt put(2)] have a: "nonce_inv x2" "consumed x2 = insert n (consumed x)"
    "tbl_find (x_counters x2) KEY_NONCE = Some m" using put(1) i1(2) by auto
  then have "proxy_nonce x2 = m" by (simp add: proxy_nonce_def)
  then have "remove_stale (x_submittedevs x2) m = x_submittedevs x2"
    using a(1) by (intro remove_stale_id) (auto simp: nonce_inv_def submitted_def)
  then have "x' = x2" using x' by simp
  moreover have "n \<notin> consumed x" using le new s1 by (auto simp: consumed_def submitted_def)
  ultimately show ?thesis using a by simp
qed

lemma CheckNonce_total:
  assumes "nonce_inv x" "n \<notin> consumed x"
  shows "\<exists>x'. CheckNonce x n = Ok x'"
proof -
  obtain x1 where x1: "Proxy_GetNonce x = Ok (proxy_nonce x, x1)" using Proxy_GetNonce_total by blast
  note g = Proxy_GetNonce_Ok [OF x1]
  have new: "tbl_find (x_submittedevs x1) n = None" "proxy_nonce x \<le> n"
    using assms(2) g by (auto simp: consumed_def submitted_def not_less simp del: not_None_eq)
  obtain m x2 where "advance_nonce (x1\<lparr>x_submittedevs := tbl_put n () (x_submittedevs x1)\<rparr>) (proxy_nonce x) = Ok (m, x2)"
    using advance_nonce_total [of "x1\<lparr>x_submittedevs := tbl_put n () (x_submittedevs x1)\<rparr>" "proxy_nonce x"] g by auto
  with x1 new show ?thesis by (simp add: CheckNonce_def check_simps tbl_store_def del: rbind_Ok_iff)
qed

section \<open>What keeps the nonces and the bindings\<close>

definition same_books :: "proxy_state \<Rightarrow> proxy_state \<Rightarrow> bool" where
  "same_books x y \<longleftrightarrow> x_submittedevs y = x_submittedevs x \<and> tbl_find (x_counters y) KEY_NONCE = tbl_find (x_counters x) KEY_NONCE
     \<and> x_bindaccounts y = x_bindaccounts x"

named_theorems keeps_nonces

lemma same_books_trans: "same_books x y \<Longrightarrow> same_books y z \<Longrightarrow> same_books x z"
  by (simp add: same_books_def)

lemma same_books_inv: "same_books x y \<Longrightarrow> consumed y = consumed x \<and> nonce_inv y = nonce_inv x"
  by (simp add: same_books_def consumed_def nonce_inv_def submitted_def proxy_nonce_def)

lemma send_keeps [keeps_nonces]: "same_books x (send x a)" "same_books x (ShowError C c x e)" "same_books x (SendAction C x f ac)"
  by (simp_all add: same_books_def send_def ShowError_def SendAction_def)

lemma issue_keeps [keeps_nonces]: "same_books x (IssueAsset C c wstat x f q)"
  by (simp add: same_books_def IssueAsset_def send_def)

lemma request_keeps [keeps_nonces]: "send_request C c x a ms th am ex = Ok y \<Longrightarrow> same_books x y"
  by (auto simp: send_request_def Proxy_GetNextTxRequestNonce_def Proxy_GetNextIndex_def same_books_def send_def
      KEY_NONCE_def KEY_TX_OUT_INDEX_def split: option.splits)

lemma refund_keeps [keeps_nonces]: "Refund C c x e m = Ok y \<Longrightarrow> same_books x y"
  by (simp add: Refund_def request_keeps)

lemma fee_keeps [keeps_nonces]: "AddFee C x f = Ok y \<Longrightarrow> same_books x y"
  by (auto simp: AddFee_def same_books_def Let_def split: option.splits)

lemma idx_find_in: "idx_find t f v = Some (k, r) \<Longrightarrow> (k, r) \<in> set t \<and> f r = v \<and> (\<exists>r. tbl_find t k = Some r)"
  by (induction t) (auto simp: idx_find_def tbl_find_def split: if_splits)

lemma GetAccount_cong: "x_bindaccounts y = x_bindaccounts x \<Longrightarrow> GetAccount y u = GetAccount x u"
  by (simp add: GetAccount_def split: option.split)

lemma GetAccount_None: "GetAccount x u = None \<longleftrightarrow> idx_find (x_bindaccounts x) (\<lambda>v. v) u = None"
  by (auto simp: GetAccount_def split: option.splits dest!: idx_find_in)

text \<open>\<open>CreateNewAccount\<close> asserts that the account exists, for a member that has none.\<close>

lemma CreateNewAccount_Err: "GetAccount x u = None \<Longrightarrow> Proxy_CreateNewAccount C c x u = Err ''account already exists!''"
  by (simp add: Proxy_CreateNewAccount_def GetAccount_None check_simps)

lemma sender_keeps [keeps_nonces]: "sender_account C c x from q = Ok (Inl (a, q', y)) \<Longrightarrow> same_books x y"
  by (auto simp: sender_account_def CreateNewAccount_Err same_books_def Let_def split: option.splits if_splits)

lemma pay_keeps [keeps_nonces]: "pay_member C c wstat e q x = Ok y \<Longrightarrow> same_books x y"
proof (cases "t_members e")
  case (Cons u ms)
  assume run: "pay_member C c wstat e q x = Ok y"
  show ?thesis
  proof (cases ms)
    case Nil
    with run Cons obtain r where r: "sender_account C c x u q = Ok r" by (auto simp: pay_member_def)
    show ?thesis
    proof (cases r)
      case (Inl z)
      obtain a q' x1 where z: "z = (a, q', x1)" by (cases z)
      have k: "same_books x x1" using r Inl z by (simp add: sender_keeps)
      have "same_books x1 y"
        using run Cons Nil r Inl z by (auto simp: pay_member_def Let_def split: sum.splits option.splits
            intro: keeps_nonces same_books_trans)
      with k show ?thesis by (rule same_books_trans)
    qed (use run Cons Nil r in \<open>auto simp: pay_member_def intro: keeps_nonces\<close>)
  qed (use run Cons in \<open>auto simp: pay_member_def intro: keeps_nonces\<close>)
qed (auto simp: pay_member_def intro: keeps_nonces)

lemma same_books_refl [keeps_nonces]: "same_books x x"
  by (simp add: same_books_def)

lemma handler_keeps:
  assumes "HandleEventNoNonceChecking C c wstat x e = Ok y"
  shows "same_books x y"
  using assms
  by (auto simp: HandleEventNoNonceChecking_def Let_def split: if_split_asm
      intro: keeps_nonces same_books_trans dest!: fee_keeps refund_keeps pay_keeps)

section \<open>Runs\<close>

text \<open>The other actions of the contract, in any transaction.\<close>

inductive proxy_other :: "contract_ctx \<Rightarrow> proxy_state \<Rightarrow> proxy_state \<Rightarrow> bool" for c :: contract_ctx where
  "Initialize (C :: chainlib) c x = Ok y \<Longrightarrow> proxy_other c x y"
| "AddMixinAsset (C :: chainlib) c x i symb = Ok y \<Longrightarrow> proxy_other c x y"
| "RemoveMixinAsset (C :: chainlib) c x symb = Ok y \<Longrightarrow> proxy_other c x y"
| "SetTransferFee (C :: chainlib) c x fee = Ok y \<Longrightarrow> proxy_other c x y"
| "SetCreateAccountFee (C :: chainlib) c x fee = Ok y \<Longrightarrow> proxy_other c x y"
| "Proxy_Transfer (C :: chainlib) c x from to q memo = Ok y \<Longrightarrow> proxy_other c x y"
| "OnTransfer (C :: chainlib) c x from to q memo = Ok y \<Longrightarrow> proxy_other c x y"
| "Proxy_Exec (C :: chainlib) c (wstat :: (u64 \<times> currency_stats) list) x executor = Ok y \<Longrightarrow> proxy_other c x y"

definition proxy_start :: proxy_state where
  "proxy_start = \<lparr>x_errorevents = [], x_submittedevs = [], x_counters = [], x_accountcache = None, x_bindaccounts = [],
     x_mixinassets = [], x_transferfees = [], x_totalfees = [], x_createaccfee = None, x_sent = []\<rparr>"

text \<open>The trace is the list of the nonces of the events accepted.\<close>

inductive proxy_run :: "contract_ctx \<Rightarrow> proxy_state \<Rightarrow> u64 list \<Rightarrow> bool" for c :: contract_ctx where
  start: "proxy_run c proxy_start []"
| event: "proxy_run c x tr \<Longrightarrow> unpackEvent (C :: chainlib) data = Ok (e, sz) \<Longrightarrow> Proxy_OnEvent C mx c (wstat :: (u64 \<times> currency_stats) list) x data = Ok y \<Longrightarrow>
    proxy_run c y (tr @ [t_nonce e])"
| error: "proxy_run c x tr \<Longrightarrow> unpackEvent (C :: chainlib) data = Ok (e, sz) \<Longrightarrow> OnErrorEvent C mx c x data = Ok y \<Longrightarrow>
    proxy_run c y (tr @ [t_nonce e])"
| other: "proxy_run c x tr \<Longrightarrow> proxy_other c x y \<Longrightarrow> proxy_run c y tr"

lemma other_keeps: "proxy_other c x y \<Longrightarrow> same_books x y"
proof (induction rule: proxy_other.induct)
  case (8 C wstat x executor y)
  from 8(1) obtain n e r t x1 where "x_errorevents x = (n, (e, r)) # t" "HandleEventNoNonceChecking C c wstat x e = Ok x1"
    "y = x1\<lparr>x_errorevents := tbl_remove (x_errorevents x1) n\<rparr>"
    by (auto simp: Proxy_Exec_def HandleErrorEvent_def split: list.splits prod.splits)
  with handler_keeps show ?case by (fastforce simp: same_books_def)
next
  case (6 C x u v q memo y)
  then show ?case
    by (auto simp: Proxy_Transfer_def TransferOut_def Let_def split: if_split_asm option.splits
        intro: keeps_nonces same_books_trans dest!: request_keeps)
next
  case (7 C x u v q memo y)
  then show ?case
    by (auto simp: OnTransfer_def split: if_split_asm option.splits prod.splits intro: keeps_nonces dest!: request_keeps)
qed (auto simp: Initialize_def AddMixinAsset_def RemoveMixinAsset_def SetTransferFee_def SetCreateAccountFee_def same_books_def
    send_new_account_def send_def Let_def split: option.splits if_splits)

lemma OnEvent_nonce:
  assumes "Proxy_OnEvent C mx c wstat x data = Ok y" "unpackEvent C data = Ok (e, sz)" "nonce_inv x" "t_nonce e \<noteq> - 1"
  shows "t_nonce e \<notin> consumed x \<and> consumed y = insert (t_nonce e) (consumed x) \<and> nonce_inv y"
proof -
  from assms(1,2) obtain x1 where n: "CheckNonce x (t_nonce e) = Ok x1" and h: "HandleNormalEvent C c wstat x1 e = Ok y"
    by (auto simp: Proxy_OnEvent_def)
  from CheckNonce_Ok [OF n assms(3,4)] same_books_inv [OF handler_keeps [OF h [unfolded HandleNormalEvent_def]]]
  show ?thesis by simp
qed

lemma StoreNonce_Ok: "StoreNonce x n = Ok y \<Longrightarrow>
  tbl_find (x_submittedevs x) n = None \<and> y = x\<lparr>x_submittedevs := tbl_put n () (x_submittedevs x)\<rparr>"
  by (auto simp: StoreNonce_def)

lemma OnErrorEvent_Ok:
  assumes "OnErrorEvent C mx c x data = Ok y" "unpackEvent C data = Ok (e, sz)" "Proxy_GetNonce x = Ok (n, x1)"
  shows "\<exists>x2 t. n \<le> t_nonce e \<and> StoreNonce x1 (t_nonce e) = Ok x2 \<and> x2\<lparr>x_errorevents := t\<rparr> = y"
  using assms by (simp add: OnErrorEvent_def) (elim exE conjE, intro exI conjI, assumption+)

lemma OnErrorEvent_nonce:
  assumes "OnErrorEvent C mx c x data = Ok y" "unpackEvent C data = Ok (e, sz)" "nonce_inv x" "t_nonce e \<noteq> - 1"
  shows "t_nonce e \<notin> consumed x \<and> consumed y = insert (t_nonce e) (consumed x) \<and> nonce_inv y"
proof -
  obtain x1 where x1: "Proxy_GetNonce x = Ok (proxy_nonce x, x1)" using Proxy_GetNonce_total by blast
  note g = Proxy_GetNonce_Ok [OF x1]
  from OnErrorEvent_Ok [OF assms(1,2) x1] obtain x2 t where
    st: "proxy_nonce x \<le> t_nonce e" "StoreNonce x1 (t_nonce e) = Ok x2" "x2\<lparr>x_errorevents := t\<rparr> = y" by blast
  note x2 = StoreNonce_Ok [OF st(2)]
  have "tbl_find (x_counters x1) KEY_NONCE = Some (proxy_nonce x)" "x1 = x\<lparr>x_counters := x_counters x1\<rparr>" using g by auto
  from nonce_inv_counters [OF this(1)] this(2) assms(3) have i1: "nonce_inv x1" "consumed x1 = consumed x" by metis+
  have le: "proxy_nonce x1 \<le> t_nonce e" using g st(1) by simp
  have "same_books (x1\<lparr>x_submittedevs := tbl_put (t_nonce e) () (x_submittedevs x1)\<rparr>) y"
    using x2 by (simp add: same_books_def flip: st(3))
  from same_books_inv [OF this] consumed_put [OF i1(1) le assms(4)] i1(2)
  have "consumed y = insert (t_nonce e) (consumed x)" "nonce_inv y" by simp_all
  moreover have "t_nonce e \<notin> consumed x" using st(1) x2 g by (auto simp: consumed_def submitted_def)
  ultimately show ?thesis by simp
qed

lemma start_nonces: "nonce_inv proxy_start" "consumed proxy_start = {0}"
proof -
  have "n < 1 \<longleftrightarrow> n = 0" for n :: u64 by (metis word_less_1 word_neq_0_conv word_gt_0 not_less_iff_gr_or_eq word_zero_le le_less_linear)
  then show "nonce_inv proxy_start" "consumed proxy_start = {0}"
    by (simp_all add: nonce_inv_def consumed_def submitted_def proxy_nonce_def proxy_start_def tbl_ok_def)
qed

lemma proxy_run_nonces:
  "proxy_run c x tr \<Longrightarrow> - 1 \<notin> set tr \<Longrightarrow> nonce_inv x \<and> consumed x = insert 0 (set tr) \<and> distinct tr \<and> 0 \<notin> set tr"
proof (induction rule: proxy_run.induct)
  case start
  then show ?case using start_nonces by simp
next
  case (event x tr C data e sz mx wstat y)
  have ne: "- 1 \<notin> set tr" "t_nonce e \<noteq> - 1" using event.prems by auto
  note IH = event.IH [OF ne(1)]
  from OnEvent_nonce [OF event.hyps(3,2) conjunct1 [OF IH] ne(2)] IH show ?case by (simp add: insert_commute)
next
  case (error x tr C data e sz mx y)
  have ne: "- 1 \<notin> set tr" "t_nonce e \<noteq> - 1" using error.prems by auto
  note IH = error.IH [OF ne(1)]
  from OnErrorEvent_nonce [OF error.hyps(3,2) conjunct1 [OF IH] ne(2)] IH show ?case by (simp add: insert_commute)
next
  case (other x tr y)
  then show ?case using same_books_inv [OF other_keeps [OF other.hyps(2)]] by simp
qed

lemma OnEvent_Ok_steps:
  assumes "Proxy_OnEvent C mx c wstat x data = Ok y" "unpackEvent C data = Ok (e, sz)"
  shows "\<exists>x1. CheckNonce x (t_nonce e) = Ok x1 \<and> HandleEventNoNonceChecking C c wstat x1 e = Ok y"
  using assms by (auto simp: Proxy_OnEvent_def HandleNormalEvent_def)

lemma proxy_run_unbound: "proxy_run c x tr \<Longrightarrow> x_bindaccounts x = []"
proof (induction rule: proxy_run.induct)
  case start
  then show ?case by (simp add: proxy_start_def)
next
  case (event x tr C data e sz mx wstat y)
  from OnEvent_Ok_steps [OF event.hyps(3,2)] obtain x1 where "x_bindaccounts x1 = x_bindaccounts x" "same_books x1 y"
    using CheckNonce_tables handler_keeps by blast
  with event.IH show ?case by (simp add: same_books_def)
next
  case (error x tr C data e sz mx y)
  obtain x1 where x1: "Proxy_GetNonce x = Ok (proxy_nonce x, x1)" using Proxy_GetNonce_total by blast
  from OnErrorEvent_Ok [OF error.hyps(3,2) x1] obtain x2 t where
    "StoreNonce x1 (t_nonce e) = Ok x2" "x2\<lparr>x_errorevents := t\<rparr> = y" by blast
  moreover have "x_bindaccounts x1 = x_bindaccounts x" using x1 by (auto simp: Proxy_GetNonce_def split: option.splits)
  ultimately show ?case using error.IH by (auto dest!: StoreNonce_Ok)
next
  case (other x tr y)
  then show ?case using other_keeps [OF other.hyps(2)] by (simp add: same_books_def)
qed

section \<open>The handler on a listed asset\<close>

lemma AddFee_total: "\<exists>t. AddFee C x fee = Ok (x\<lparr>x_totalfees := t\<rparr>)"
  by (auto simp: AddFee_def Let_def tbl_store_def split: option.split)

lemma GetSymbol_total: "idx_find (x_mixinassets x) snd a \<noteq> None \<Longrightarrow> \<exists>symb. GetSymbol x a = Ok symb"
  using idx_find_in [of "x_mixinassets x" snd a] by (auto simp: GetSymbol_def split: option.split)

lemma send_request_total:
  "\<exists>t i. send_request C c x a ms th am ex = Ok (x\<lparr>x_counters := t, x_sent := x_sent x @
     [new_action (self_auth C c) (MTG_XIN C) (newName C ''txrequest'')
       [ARequest \<lparr>r_nonce = i, r_contract = c_self c, r_process = c_process c, r_asset = a, r_members = ms,
          r_threshold = th, r_amount = am, r_extra = ex, r_timestamp = 0\<rparr>]]\<rparr>)"
  by (auto simp: send_request_def Proxy_GetNextTxRequestNonce_def Proxy_GetNextIndex_def tbl_store_def send_def
      split: option.split)

text \<open>What is left of an event once its fee is taken.\<close>

definition event_quantity :: "tx_event \<Rightarrow> u64 \<Rightarrow> eos_asset" where
  "event_quantity e symb = \<lparr>q_Amount = wrap64 (int (unat (ucast (t_amount e) :: u64))), q_Symbol = symb\<rparr>"

definition less_fee :: "eos_asset \<Rightarrow> eos_asset \<Rightarrow> eos_asset" where
  "less_fee q fee = q\<lparr>q_Amount := wrap64 (q_Amount q - q_Amount fee)\<rparr>"

definition event_less_fee :: "tx_event \<Rightarrow> eos_asset \<Rightarrow> tx_event" where
  "event_less_fee e fee = e\<lparr>t_amount := t_amount e - ucast (word_of_int (q_Amount fee) :: u64)\<rparr>"

definition expired :: "'z chainlib_scheme \<Rightarrow> tx_event \<Rightarrow> bool" where
  "expired C e \<longleftrightarrow> (ucast (t_timestamp e div 1000000000) :: u32) + MTG_WORK_EXPIRATION_SECONDS < currentTimeSeconds C"

lemma handler_steps:
  assumes "idx_find (x_mixinassets x) snd (t_asset e) \<noteq> None" "unat (t_amount e) \<le> unat (maxAmount C)"
    and "GetSymbol x (t_asset e) = Ok symb"
    and "q_Amount (GetTransferFee C x symb) < q_Amount (event_quantity e symb)"
  shows "\<exists>t. HandleEventNoNonceChecking C c wstat x e =
    rbind (if expired C e then Refund C c (x\<lparr>x_totalfees := t\<rparr>) (event_less_fee e (GetTransferFee C x symb)) ''expired, refund''
           else Ok (x\<lparr>x_totalfees := t\<rparr>))
      (pay_member C c wstat (event_less_fee e (GetTransferFee C x symb))
        (less_fee (event_quantity e symb) (GetTransferFee C x symb)))"
proof -
  obtain t where "AddFee C x (GetTransferFee C x symb) = Ok (x\<lparr>x_totalfees := t\<rparr>)" using AddFee_total by blast
  moreover have "\<not> unat (maxAmount C) < unat (t_amount e)"
    "\<not> q_Amount (event_quantity e symb) \<le> q_Amount (GetTransferFee C x symb)" using assms(2,4) by simp_all
  ultimately show ?thesis using assms(1,3)
    by (intro exI [of _ t]) (simp add: HandleEventNoNonceChecking_def Let_def event_quantity_def less_fee_def
        event_less_fee_def expired_def del: not_None_eq not_less)
qed

lemma pay_unbound:
  assumes "x_createaccfee x = None" "t_members e = [u]" "GetAccount x u = None"
  shows "pay_member C c wstat e q x = Err ''account already exists!''"
  using assms by (simp add: pay_member_def sender_account_def GetCreateAccountFee_def CreateNewAccount_Err)

lemma pay_bound:
  assumes "GetAccount x u = Some a" "t_members e = [u]" "t_extra e = []"
  shows "pay_member C c wstat e q x = Ok (IssueAsset C c wstat x a q)"
  using assms by (simp add: pay_member_def sender_account_def event_action_def)

lemma Refund_sent:
  "\<exists>y ra r. Refund C c x e memo = Ok y \<and> ra \<in> set (x_sent y) \<and> request_of ra = Some r \<and> r_asset r = t_asset e
     \<and> r_members r = t_members e \<and> r_amount r = t_amount e \<and> x_bindaccounts y = x_bindaccounts x"
proof -
  let ?r = "\<lambda>i. \<lparr>r_nonce = i, r_contract = c_self c, r_process = c_process c, r_asset = t_asset e, r_members = t_members e,
          r_threshold = t_threshold e, r_amount = t_amount e, r_extra = memo, r_timestamp = 0\<rparr>"
  let ?a = "\<lambda>i. new_action (self_auth C c) (MTG_XIN C) (newName C ''txrequest'') [ARequest (?r i)]"
  obtain t i where "Refund C c x e memo = Ok (x\<lparr>x_counters := t, x_sent := x_sent x @ [?a i]\<rparr>)"
    unfolding Refund_def using send_request_total by blast
  moreover have "request_of (?a i) = Some (?r i)" by (simp add: new_action_def request_of_def)
  ultimately show ?thesis by (intro exI [of _ "x\<lparr>x_counters := t, x_sent := x_sent x @ [?a i]\<rparr>"] exI [of _ "?a i"] exI [of _ "?r i"]) simp
qed

lemma IssueAsset_sent: "set (x_sent x) \<subseteq> set (x_sent (IssueAsset C c wstat x a q)) \<and>
    new_action (self_auth C c) (MIXIN_WTOKENS C) (newName C ''issue'') [ANameArg (c_self c), AAsset q, AString ''issue'']
      \<in> set (x_sent (IssueAsset C c wstat x a q))"
  by (auto simp: IssueAsset_def send_def Let_def)

section \<open>Names and identifiers\<close>

text \<open>The letter \<open>a\<close> is the digit zero: leaving the loop early writes the leading zeros.\<close>

lemma name_digits_zero: "name_digits k 0 = replicate k (CHR ''a'')"
proof (cases k)
  case (Suc k)
  have "char_of (97 :: nat) = CHR ''a''" by code_simp
  with Suc show ?thesis by simp
qed simp

lemma name_digits_Suc: "name_digits (Suc k) i = char_of (97 + i mod 26) # name_digits k (i div 26)"
  by (simp add: name_digits_zero)

lemma char_of_nat_inj: "char_of (m :: nat) = (char_of n :: char) \<Longrightarrow> m < 256 \<Longrightarrow> n < 256 \<Longrightarrow> m = n"
  by (metis of_char_of mod_less)

lemma name_digits_inj: "name_digits k i = name_digits k j \<Longrightarrow> i < 26 ^ k \<Longrightarrow> j < 26 ^ k \<Longrightarrow> i = j"
proof (induction k arbitrary: i j)
  case (Suc k)
  have m: "i mod 26 < 26" "j mod 26 < 26" by simp_all
  from Suc.prems(1) have "char_of (97 + i mod 26) = (char_of (97 + j mod 26) :: char)" "name_digits k (i div 26) = name_digits k (j div 26)"
    by (simp_all only: name_digits_Suc list.inject)
  then have "i mod 26 = j mod 26" "i div 26 = j div 26"
    using Suc.IH [of "i div 26" "j div 26"] Suc.prems(2,3) m char_of_nat_inj [of "97 + i mod 26" "97 + j mod 26"]
    by (auto simp: less_mult_imp_div_less mult.commute)
  then show ?case by (metis div_mult_mod_eq)
qed simp

lemma length_name_digits: "length (name_digits k i) = k"
  by (induction k arbitrary: i) auto

lemma go_runes_ascii: "(\<And>b. b \<in> set bs \<Longrightarrow> b < 128) \<Longrightarrow> go_runes bs = bs"
  by (induction bs) auto

lemma bytes_split: "take 4 b @ take 2 (drop 4 b) @ take 2 (drop 6 b) @ take 2 (drop 8 b) @ drop 10 b = b"
  using append_take_drop_id [of 4 b] append_take_drop_id [of 2 "drop 4 b"] append_take_drop_id [of 2 "drop 6 b"]
    append_take_drop_id [of 2 "drop 8 b"] by (simp only: drop_drop add_2_eq_Suc) simp

lemma uuid_text_pieces: "length b = 16 \<Longrightarrow> uuid_text b = hexEncode (take 4 b) @ ''-'' @ hexEncode (take 2 (drop 4 b)) @ ''-''
    @ hexEncode (take 2 (drop 6 b)) @ ''-'' @ hexEncode (take 2 (drop 8 b)) @ ''-'' @ hexEncode (drop 10 b)"
  by (rule uuid_text_parts) (simp_all add: bytes_split flip: hexEncode_append)

lemma hexdigit_code: "n < 16 \<Longrightarrow> of_char (hexdigit n) = (if n < 10 then n + 48 else n + 87 :: nat)"
  by (simp add: hexdigit_def)

lemma hexEncode_codes: "c \<in> set (hexEncode b) \<Longrightarrow> of_char c < (128 :: nat) \<and> of_char c \<noteq> (45 :: nat)"
proof (induction b)
  case (Cons a b)
  have "of_char a div 16 < (16 :: nat)" using nat_of_char_less_256 [of a] by (simp add: less_mult_imp_div_less)
  with Cons show ?case by (auto simp: hexdigit_code split: if_splits)
qed simp

lemma filter_hex: "filter (\<lambda>c. of_char c \<noteq> (45 :: nat)) (hexEncode b) = hexEncode b"
  using hexEncode_codes by (auto simp: filter_id_conv)

lemma uuid_text_digits: "length b = 16 \<Longrightarrow> filter (\<lambda>c. of_char c \<noteq> (45 :: nat)) (uuid_text b) = hexEncode b"
proof -
  assume b: "length b = 16"
  have "of_char (CHR ''-'') = (45 :: nat)" by code_simp
  then show ?thesis by (simp add: uuid_text_pieces [OF b] filter_hex bytes_split flip: hexEncode_append)
qed

lemma uuid_text_ascii: "length b = 16 \<Longrightarrow> c \<in> set (uuid_text b) \<Longrightarrow> of_char c < (128 :: nat)"
proof -
  assume b: "length b = 16"
  have "of_char (CHR ''-'') = (45 :: nat)" by code_simp
  then show "c \<in> set (uuid_text b) \<Longrightarrow> of_char c < (128 :: nat)"
    by (auto simp: uuid_text_pieces [OF b] dest!: hexEncode_codes)
qed

lemma length_uuid_text: "length b = 16 \<Longrightarrow> length (uuid_text b) = 36"
  by (simp add: uuid_text_pieces)

section \<open>Properties\<close>

text \<open>C7: the table of submitted nonces and the counter of mixinproxy refine one set of consumed nonces. In a state that
  satisfies the invariant, \<open>CheckNonce\<close> accepts a nonce exactly when it was not consumed, in any order; accepting
  it adds this nonce and no other, and keeps the invariant. The largest nonce is excluded, as the counter has no
  successor of it.\<close>

theorem check_nonce_refines:
  assumes "nonce_inv x" and "n \<noteq> - 1"
  shows "((\<exists>x'. CheckNonce x n = Ok x') \<longleftrightarrow> n \<notin> consumed x) \<and>
    (\<forall>x'. CheckNonce x n = Ok x' \<longrightarrow> consumed x' = insert n (consumed x) \<and> nonce_inv x')"
  using CheckNonce_Ok [OF _ assms] CheckNonce_total [OF assms(1)] by blast

theorem check_nonce_refines_witness: "\<exists>x'. CheckNonce proxy_start 3 = Ok x' \<and> consumed x' = {0, 3} \<and> nonce_inv x'"
proof -
  have "(3 :: u64) \<noteq> - 1" by simp
  from check_nonce_refines [OF start_nonces(1) this] show ?thesis by (auto simp: start_nonces(2))
qed

text \<open>C8: mixinproxy accepts every event once. In every run of its actions, in which the events, the error events and
  the other actions come in any order, the nonces of the accepted events are different, and none is 0, the nonce of
  the event that adds the process. Runs that accept the largest nonce, 2^64 - 1, are left out: after it the counter is 0
  again.\<close>

theorem proxy_event_once:
  assumes "proxy_run c x tr" and "- 1 \<notin> set tr"
  shows "distinct tr \<and> 0 \<notin> set tr"
  using proxy_run_nonces [OF assms] by blast

definition demo_late :: chainlib where
  "demo_late = demo_chain\<lparr>unpackEvent := \<lambda>b. Ok (demo_tx\<lparr>t_nonce := 3\<rparr>, 67)\<rparr>"

lemma demo_unpack: "unpackEvent demo_chain b = Ok (demo_tx, 67)"
  by (simp add: demo_chain_def)

lemma demo_verified:
  "signed_part (replicate 100 (CHR ''x'')) 100 1 = Ok (replicate 33 (CHR ''x''))"
  "Proxy_VerifySignatures demo_chain demo_signers b [replicate 66 (CHR ''s'')] = Ok True"
  "Proxy_VerifySignatures demo_late demo_signers b [replicate 66 (CHR ''s'')] = Ok True"
  by (simp_all add: signed_part_def Proxy_VerifySignatures_def demo_chain_def demo_late_def demo_signers_def demo_mtg_def
      check_simps CheckDuplicatedSignature_def signer_hit_def mtg_threshold_def)

lemma OnEvent_unlisted:
  assumes "unpackEvent C data = Ok (e, sz)" "signed_part data (length data) (length (t_signatures e)) = Ok msg"
    "Proxy_VerifySignatures C mx msg (t_signatures e) = Ok b" "t_process e = c_process c" "CheckNonce x (t_nonce e) = Ok y"
    "x_mixinassets x = []"
  shows "Proxy_OnEvent C mx c wstat x data = Ok y"
  using assms CheckNonce_tables [OF assms(5)]
  by (simp add: Proxy_OnEvent_def check_simps HandleNormalEvent_def HandleEventNoNonceChecking_def idx_find_def del: rbind_Ok_iff)

lemma demo_proxy_run: "\<exists>x. proxy_run demo_ctx x [3, 1]"
proof -
  let ?data = "replicate 100 (CHR ''x'')"
  have ne: "(3 :: u64) \<noteq> - 1" "(1 :: u64) \<noteq> - 1" by simp_all
  obtain x1 where x1: "CheckNonce proxy_start 3 = Ok x1"
    using CheckNonce_total [OF start_nonces(1), of 3] start_nonces(2) by auto
  note r1 = CheckNonce_Ok [OF x1 start_nonces(1) ne(1)]
  obtain x2 where x2: "CheckNonce x1 1 = Ok x2" using CheckNonce_total [of x1 1] r1 start_nonces(2) by auto
  have "Proxy_OnEvent demo_late demo_signers demo_ctx ([] :: (u64 \<times> currency_stats) list) proxy_start ?data = Ok x1"
    by (rule OnEvent_unlisted [where e = "demo_tx\<lparr>t_nonce := 3\<rparr>"])
      (use demo_verified x1 in \<open>simp_all add: demo_late_def demo_tx_def demo_ctx_def proxy_start_def\<close>)
  with proxy_run.event [OF proxy_run.start, where C = demo_late and e = "demo_tx\<lparr>t_nonce := 3\<rparr>" and sz = 67]
  have p1: "proxy_run demo_ctx x1 [3]" by (simp add: demo_late_def)
  have "Proxy_OnEvent demo_chain demo_signers demo_ctx ([] :: (u64 \<times> currency_stats) list) x1 ?data = Ok x2"
    by (rule OnEvent_unlisted [where e = demo_tx])
      (use demo_verified x2 CheckNonce_tables [OF x1] in \<open>simp_all add: demo_chain_def demo_tx_def demo_ctx_def proxy_start_def\<close>)
  with proxy_run.event [OF p1, where C = demo_chain and e = demo_tx and sz = 67]
  have "proxy_run demo_ctx x2 ([3] @ [t_nonce demo_tx])" using demo_unpack by blast
  then show ?thesis by (auto simp: demo_tx_def)
qed

theorem proxy_event_once_witness: "\<exists>x. proxy_run demo_ctx x [3, 1] \<and> distinct [3, 1 :: u64]"
proof -
  obtain x where x: "proxy_run demo_ctx x [3, 1]" using demo_proxy_run by blast
  from proxy_event_once [OF x] x show ?thesis by auto
qed

text \<open>As the code stands, a new member cannot deposit. \<open>CreateNewAccount\<close> asserts that the index finds the member,
  with the message that the account exists, and is called only when it finds none: in every run no account is
  ever bound, and every event of one member on a listed asset, with an amount that covers the fee, is aborted.\<close>

theorem new_member_rejected:
  assumes "proxy_run c x tr" and "idx_find (x_mixinassets x) snd (t_asset e) \<noteq> None"
    and "unat (t_amount e) \<le> unat (maxAmount C)" and "GetSymbol x (t_asset e) = Ok symb"
    and "q_Amount (GetTransferFee C x symb) < q_Amount (event_quantity e symb)"
    and "t_members e = [u]" and "x_createaccfee x = None"
  shows "x_bindaccounts x = [] \<and> HandleEventNoNonceChecking C c wstat x e = Err ''account already exists!''"
proof -
  have b: "x_bindaccounts x = []" by (rule proxy_run_unbound [OF assms(1)])
  have un: "GetAccount x' u = None" if "x_bindaccounts x' = []" for x' using that by (simp add: GetAccount_def idx_find_def)
  obtain t where run: "HandleEventNoNonceChecking C c wstat x e =
    rbind (if expired C e then Refund C c (x\<lparr>x_totalfees := t\<rparr>) (event_less_fee e (GetTransferFee C x symb)) ''expired, refund''
           else Ok (x\<lparr>x_totalfees := t\<rparr>))
      (pay_member C c wstat (event_less_fee e (GetTransferFee C x symb))
        (less_fee (event_quantity e symb) (GetTransferFee C x symb)))" using handler_steps [OF assms(2-5)] by blast
  obtain tc i where ref: "Refund C c (x\<lparr>x_totalfees := t\<rparr>) (event_less_fee e (GetTransferFee C x symb)) ''expired, refund'' = Ok tc"
    "x_bindaccounts tc = []" "x_createaccfee tc = None"
    using send_request_total [of C c "x\<lparr>x_totalfees := t\<rparr>"] b assms(7) unfolding Refund_def by fastforce
  have m: "t_members (event_less_fee e (GetTransferFee C x symb)) = [u]" using assms(6) by (simp add: event_less_fee_def)
  show ?thesis using run ref b assms(7) by (simp add: pay_unbound [OF _ m un])
qed

definition demo_listed :: proxy_state where
  "demo_listed = proxy_start\<lparr>x_mixinassets := [(symbolCode demo_chain 1024, (1024, 9))]\<rparr>"

lemma demo_listed_run: "proxy_run demo_ctx demo_listed []"
proof -
  have "AddMixinAsset demo_chain demo_ctx proxy_start 9 1024 = Ok demo_listed"
    by (simp add: AddMixinAsset_def demo_listed_def proxy_start_def tbl_store_def requireAuth_def check_simps demo_chain_def
        del: rbind_Ok_iff)
  then have "proxy_other demo_ctx proxy_start demo_listed" by (rule proxy_other.intros)
  with proxy_run.start show ?thesis by (rule proxy_run.other)
qed

lemma demo_listed_facts:
  "idx_find (x_mixinassets demo_listed) snd (t_asset demo_tx) \<noteq> None" "GetSymbol demo_listed (t_asset demo_tx) = Ok 1024"
  "GetTransferFee demo_chain demo_listed 1024 = \<lparr>q_Amount = 0, q_Symbol = 1024\<rparr>"
  "event_quantity demo_tx 1024 = \<lparr>q_Amount = 500, q_Symbol = 1024\<rparr>" "unat (t_amount demo_tx) \<le> unat (maxAmount demo_chain)"
  by (simp_all add: demo_listed_def demo_tx_def idx_find_def GetSymbol_def tbl_find_def GetTransferFee_def proxy_start_def
      event_quantity_def wrap64_def demo_chain_def)

theorem new_member_rejected_witness:
  "x_bindaccounts demo_listed = [] \<and>
   HandleEventNoNonceChecking demo_chain demo_ctx [] demo_listed demo_tx = Err ''account already exists!''"
  by (rule new_member_rejected [OF demo_listed_run demo_listed_facts(1,5,2)])
    (simp_all add: demo_listed_facts, simp_all add: demo_tx_def demo_listed_def proxy_start_def)

text \<open>An expired event is refunded and credited. When the member has an account, the handler sends the request that
  pays the event back and, as it does not return there, also issues the same amount to the account.\<close>

theorem expired_refund_and_issue:
  assumes "idx_find (x_mixinassets x) snd (t_asset e) \<noteq> None"
    and "unat (t_amount e) \<le> unat (maxAmount C)" and "GetSymbol x (t_asset e) = Ok symb"
    and "q_Amount (GetTransferFee C x symb) < q_Amount (event_quantity e symb)"
    and "t_members e = [u]" and "t_extra e = []" and "GetAccount x u = Some a" and "expired C e"
  shows "\<exists>y ra r. HandleEventNoNonceChecking C c wstat x e = Ok y \<and> ra \<in> set (x_sent y) \<and> request_of ra = Some r
     \<and> r_asset r = t_asset e \<and> r_members r = [u] \<and> r_amount r = t_amount (event_less_fee e (GetTransferFee C x symb))
     \<and> new_action (self_auth C c) (MIXIN_WTOKENS C) (newName C ''issue'') [ANameArg (c_self c),
         AAsset (less_fee (event_quantity e symb) (GetTransferFee C x symb)), AString ''issue''] \<in> set (x_sent y)"
proof -
  let ?e = "event_less_fee e (GetTransferFee C x symb)"
  obtain t where run: "HandleEventNoNonceChecking C c wstat x e =
    rbind (Refund C c (x\<lparr>x_totalfees := t\<rparr>) ?e ''expired, refund'')
      (pay_member C c wstat ?e (less_fee (event_quantity e symb) (GetTransferFee C x symb)))"
    using handler_steps [OF assms(1-4)] assms(8) by auto
  have m: "t_members ?e = [u]" "t_extra ?e = []" "t_asset ?e = t_asset e" using assms(5,6) by (simp_all add: event_less_fee_def)
  obtain x1 ra r where ref: "Refund C c (x\<lparr>x_totalfees := t\<rparr>) ?e ''expired, refund'' = Ok x1" "ra \<in> set (x_sent x1)"
    "request_of ra = Some r" "r_asset r = t_asset e" "r_members r = [u]" "r_amount r = t_amount ?e"
    "x_bindaccounts x1 = x_bindaccounts x"
    using Refund_sent [of C c "x\<lparr>x_totalfees := t\<rparr>" ?e "''expired, refund''"] m by auto
  have "GetAccount x1 u = Some a" using assms(7) GetAccount_cong [OF ref(7)] by simp
  then have "HandleEventNoNonceChecking C c wstat x e =
      Ok (IssueAsset C c wstat x1 a (less_fee (event_quantity e symb) (GetTransferFee C x symb)))"
    using run ref(1) pay_bound [OF _ m(1,2)] by simp
  with IssueAsset_sent ref(2-6) show ?thesis by blast
qed

theorem expired_refund_and_issue_witness:
  "\<exists>y ra r. HandleEventNoNonceChecking (demo_chain\<lparr>currentTimeSeconds := 1000\<rparr>) demo_ctx ([] :: (u64 \<times> unit) list) (demo_listed\<lparr>x_bindaccounts := [(20, 11)]\<rparr>) demo_tx
       = Ok y \<and> ra \<in> set (x_sent y) \<and> request_of ra = Some r \<and> r_amount r = 500 \<and> r_members r = [11]"
proof -
  let ?C = "demo_chain\<lparr>currentTimeSeconds := 1000\<rparr>" and ?x = "demo_listed\<lparr>x_bindaccounts := [(20, 11)]\<rparr>"
  have fee: "GetTransferFee ?C ?x 1024 = \<lparr>q_Amount = 0, q_Symbol = 1024\<rparr>"
    by (simp add: GetTransferFee_def demo_listed_def proxy_start_def tbl_find_def)
  have "\<exists>y ra r. HandleEventNoNonceChecking ?C demo_ctx ([] :: (u64 \<times> unit) list) ?x demo_tx = Ok y \<and> ra \<in> set (x_sent y)
     \<and> request_of ra = Some r \<and> r_asset r = t_asset demo_tx \<and> r_members r = [11]
     \<and> r_amount r = t_amount (event_less_fee demo_tx (GetTransferFee ?C ?x 1024))
     \<and> new_action (self_auth ?C demo_ctx) (MIXIN_WTOKENS ?C) (newName ?C ''issue'') [ANameArg (c_self demo_ctx),
         AAsset (less_fee (event_quantity demo_tx 1024) (GetTransferFee ?C ?x 1024)), AString ''issue''] \<in> set (x_sent y)"
  proof (rule expired_refund_and_issue [where a = 20])
    show "idx_find (x_mixinassets ?x) snd (t_asset demo_tx) \<noteq> None" using demo_listed_facts(1) by simp
    show "unat (t_amount demo_tx) \<le> unat (maxAmount ?C)" using demo_listed_facts(5) by simp
    show "GetSymbol ?x (t_asset demo_tx) = Ok 1024" by (simp add: GetSymbol_def demo_listed_def demo_tx_def idx_find_def tbl_find_def)
    show "q_Amount (GetTransferFee ?C ?x 1024) < q_Amount (event_quantity demo_tx 1024)" by (simp add: fee demo_listed_facts)
    show "t_members demo_tx = [11]" "t_extra demo_tx = []" by (simp_all add: demo_tx_def)
    show "GetAccount ?x 11 = Some 20" by (simp add: GetAccount_def idx_find_def tbl_find_def)
    show "expired ?C demo_tx" by (simp add: expired_def demo_tx_def MTG_WORK_EXPIRATION_SECONDS_def)
  qed
  moreover have "t_amount (event_less_fee demo_tx (GetTransferFee ?C ?x 1024)) = 500"
    by (simp add: fee event_less_fee_def) (simp add: demo_tx_def)
  ultimately show ?thesis by metis
qed

text \<open>Account names do not collide. Below 26 to the 9th accounts, different identifiers give different names, of the
  12 characters a name may have.\<close>

theorem account_name_injective:
  assumes "unat i < 26 ^ 9" and "unat j < 26 ^ 9" and "account_name_text i = account_name_text j"
  shows "i = j \<and> length (account_name_text i) = 12"
proof -
  have "name_digits 9 (unat i) = name_digits 9 (unat j)" using assms(3) by (simp add: account_name_text_def)
  then have "unat i = unat j" using assms(1,2) by (rule name_digits_inj)
  then show ?thesis by (simp add: account_name_text_def length_name_digits word_unat_eq_iff)
qed

theorem account_name_injective_witness: "account_name_text 27 = ''bbaaaaaaamvm'' \<and> (27 :: u64) = 27 \<and> length (account_name_text 27) = 12"
proof -
  have "name_digits 9 27 = ''bbaaaaaaa''" by code_simp
  then have "account_name_text 27 = ''bbaaaaaaamvm''" by (simp add: account_name_text_def)
  with account_name_injective [of 27 27] show ?thesis by simp
qed

text \<open>The memo of a withdrawal gives back the member. On the usual spelling of a 16-byte identifier, with the hex
  decoder of the library, \<open>GetClientId\<close> returns the integer with these bytes.\<close>

theorem client_id_roundtrip:
  assumes "length b = 16" and "hexDecodeString C = hexDecode"
  shows "GetClientId C (uuid_text b) = Some (uint128OfBytes C b)"
proof -
  have r: "go_runes (map of_char (uuid_text b)) = map of_char (uuid_text b)"
    by (rule go_runes_ascii) (auto dest: uuid_text_ascii [OF assms(1)])
  have "map (\<lambda>c. char_of c :: char) (filter (\<lambda>c. c \<noteq> (45 :: nat)) (map of_char (uuid_text b))) = hexEncode b"
    by (simp add: filter_map comp_def uuid_text_digits [OF assms(1)])
  with r assms show ?thesis by (simp add: GetClientId_def length_uuid_text)
qed

theorem client_id_roundtrip_witness:
  "GetClientId demo_chain (uuid_text (replicate 16 (CHR ''M''))) = Some (uint128OfBytes demo_chain (replicate 16 (CHR ''M'')))"
  by (rule client_id_roundtrip) (simp_all add: demo_chain_def)

end
