(* ===== verification/Eos_Wire.thy ===== *)
theory Eos_Wire
  imports Encoding
begin

text \<open>
  mvm/eos/structs.go and utils.go: what the EOS engine sends to the contracts and reads back, as packed by the encoder
  of \<open>goeoslib\<close>. The methods of that encoder and decoder, the names, hashes and signatures of the chain and the
  byte form of \<open>common.Integer\<close> are fields of \<open>eoslib\<close>: a packing method gives the bytes it appends, an unpacking
  one reads the data at a position and gives the value and the next position. The locale \<open>eos_codec\<close> states what
  is relied on, method by method.
\<close>

section \<open>Functions of other modules\<close>

record eoslib = lib +
  gPackUint64 :: "u64 \<Rightarrow> bytes"
  gPackInt32 :: "int \<Rightarrow> bytes"
  gPackLength :: "nat \<Rightarrow> bytes"
  gPackBytes :: "bytes \<Rightarrow> bytes"
  gPackUint128 :: "bytes \<Rightarrow> bytes"
  gWriteBytes :: "bytes \<Rightarrow> bytes"
  gWriteUint8 :: "nat \<Rightarrow> bytes"
  gUnpackUint64 :: "bytes \<Rightarrow> nat \<Rightarrow> (u64 \<times> nat) res"
  gUnpackInt32 :: "bytes \<Rightarrow> nat \<Rightarrow> (int \<times> nat) res"
  gUnpackLength :: "bytes \<Rightarrow> nat \<Rightarrow> (nat \<times> nat) res"
  gUnpackUint8 :: "bytes \<Rightarrow> nat \<Rightarrow> (nat \<times> nat) res"
  gUnpackName :: "bytes \<Rightarrow> nat \<Rightarrow> (u64 \<times> nat) res"
  gUnpackBytes :: "bytes \<Rightarrow> nat \<Rightarrow> (bytes \<times> nat) res"
  gUnpackI :: "bytes \<Rightarrow> nat \<Rightarrow> (bytes \<times> nat) res"
  gUnpack :: "bytes \<Rightarrow> nat \<Rightarrow> (bytes \<times> nat) res"
  gRead :: "nat \<Rightarrow> bytes \<Rightarrow> nat \<Rightarrow> (bytes \<times> nat) res"
  gVarLength :: "nat \<Rightarrow> nat"
  gNewName :: "string \<Rightarrow> u64"
  gNameString :: "u64 \<Rightarrow> string"
  gSha256 :: "bytes \<Rightarrow> bytes"
  gSign :: "string \<Rightarrow> bytes \<Rightarrow> bytes res"
  gRecover :: "bytes \<Rightarrow> bytes \<Rightarrow> bytes res"
  integerMarshal :: "int \<Rightarrow> bytes res"
  integerUnmarshal :: "bytes \<Rightarrow> int"

text \<open>\<open>gUnpackI\<close> and \<open>gUnpack\<close> are \<open>Decoder.UnpackI\<close> and \<open>Decoder.Unpack\<close> on a \<open>Uint128\<close>, an array of 16 bytes;
  \<open>gVarLength\<close> is \<open>PackedVarUint32Length\<close>.

  \<open>copy\<close> into an array of zeros, and a conversion to \<open>int32\<close>.\<close>

definition copy_into :: "nat \<Rightarrow> bytes \<Rightarrow> bytes" where
  "copy_into n b = take n (b @ replicate n (CHR 0x00))"

definition to_int32 :: "int \<Rightarrow> int" where
  "to_int32 i = (i + 2 ^ 31) mod 2 ^ 32 - 2 ^ 31"

text \<open>The signatures concatenated in \<open>Event.Signature\<close>: the whole pieces of 65 bytes.\<close>

definition sig_chunks :: "bytes \<Rightarrow> bytes list" where
  "sig_chunks b = map (\<lambda>i. take 65 (drop (i * 65) b)) [0..<length b div 65]"

text \<open>A loop that reads \<open>n\<close> elements.\<close>

fun unpack_n :: "nat \<Rightarrow> (nat \<Rightarrow> ('a \<times> nat) res) \<Rightarrow> nat \<Rightarrow> ('a list \<times> nat) res" where
  "unpack_n 0 f pos = Ok ([], pos)"
| "unpack_n (Suc n) f pos = rbind (f pos) (\<lambda>(x, pos). rbind (unpack_n n f pos) (\<lambda>(xs, pos). Ok (x # xs, pos)))"

section \<open>TxEvent\<close>

record wtx_event =
  w_nonce :: u64
  w_process :: bytes
  w_asset :: bytes
  w_members :: "bytes list"
  w_threshold :: int
  w_amount :: bytes
  w_extra :: bytes
  w_timestamp :: u64
  w_signatures :: "bytes list"

definition TxEvent_Pack :: "'z eoslib_scheme \<Rightarrow> wtx_event \<Rightarrow> bytes" where
  "TxEvent_Pack L t =
     gPackUint64 L (w_nonce t) @ gWriteBytes L (w_process t) @ gWriteBytes L (w_asset t)
     @ gPackLength L (length (w_members t)) @ concat (map (gPackUint128 L) (w_members t))
     @ gPackInt32 L (w_threshold t) @ gWriteBytes L (w_amount t) @ gPackBytes L (w_extra t) @ gPackUint64 L (w_timestamp t)
     @ gWriteUint8 L (length (w_signatures t) mod 256)
     @ concat (map (\<lambda>s. gWriteUint8 L 0 @ gWriteBytes L s) (w_signatures t))"

definition TxEvent_PackWithoutSignatures :: "'z eoslib_scheme \<Rightarrow> wtx_event \<Rightarrow> bytes" where
  "TxEvent_PackWithoutSignatures L t =
     gPackUint64 L (w_nonce t) @ gWriteBytes L (w_process t) @ gWriteBytes L (w_asset t)
     @ gPackLength L (length (w_members t)) @ concat (map (gPackUint128 L) (w_members t))
     @ gPackInt32 L (w_threshold t) @ gWriteBytes L (w_amount t) @ gPackBytes L (w_extra t) @ gPackUint64 L (w_timestamp t)"

definition TxEvent_Digest :: "'z eoslib_scheme \<Rightarrow> wtx_event \<Rightarrow> bytes" where
  "TxEvent_Digest L t = gSha256 L (TxEvent_PackWithoutSignatures L t)"

definition TxEvent_Sign :: "'z eoslib_scheme \<Rightarrow> wtx_event \<Rightarrow> string \<Rightarrow> bytes res" where
  "TxEvent_Sign L t priv = gSign L priv (TxEvent_Digest L t)"

definition TxEvent_Unpack :: "'z eoslib_scheme \<Rightarrow> bytes \<Rightarrow> (wtx_event \<times> nat) res" where
  "TxEvent_Unpack L data =
     rbind (gUnpackUint64 L data 0) (\<lambda>(nonce, pos).
     rbind (gUnpackI L data pos) (\<lambda>(process, pos).
     rbind (gUnpackI L data pos) (\<lambda>(ast, pos).
     rbind (gUnpackLength L data pos) (\<lambda>(n, pos).
     rbind (unpack_n n (gUnpack L data) pos) (\<lambda>(members, pos).
     rbind (gUnpackInt32 L data pos) (\<lambda>(threshold, pos).
     rbind (gUnpackI L data pos) (\<lambda>(amount, pos).
     rbind (gUnpackLength L data pos) (\<lambda>(n, pos).
     rbind (unpack_n n (gUnpackUint8 L data) pos) (\<lambda>(extra, pos).
     rbind (gUnpackUint64 L data pos) (\<lambda>(timestamp, pos).
     rbind (gUnpackUint8 L data pos) (\<lambda>(n, pos).
     rbind (unpack_n n (gRead L 65 data) pos) (\<lambda>(signatures, pos).
     Ok (\<lparr>w_nonce = nonce, w_process = process, w_asset = ast, w_members = members, w_threshold = threshold,
          w_amount = amount, w_extra = map (\<lambda>c. char_of c) extra, w_timestamp = timestamp,
          w_signatures = signatures\<rparr>, pos)))))))))))))"

definition TxEvent_Size :: "'z eoslib_scheme \<Rightarrow> wtx_event \<Rightarrow> nat" where
  "TxEvent_Size L t = 8 + 16 + 16 + gVarLength L (length (w_members t))
     + (\<Sum>m \<leftarrow> w_members t. gVarLength L (length m) + length m) + 4 + 16
     + gVarLength L (length (w_extra t)) + length (w_extra t) + 8
     + gVarLength L (length (w_signatures t)) + 66 * length (w_signatures t)"

section \<open>TxRequest and TxLog\<close>

record wtx_request =
  wr_id :: u64
  wr_nonce :: u64
  wr_process :: bytes
  wr_asset :: bytes
  wr_members :: "bytes list"
  wr_threshold :: int
  wr_amount :: bytes
  wr_extra :: bytes
  wr_timestamp :: u64

definition TxRequest_Pack :: "'z eoslib_scheme \<Rightarrow> wtx_request \<Rightarrow> bytes" where
  "TxRequest_Pack L t =
     gPackUint64 L (wr_id t) @ gPackUint64 L (wr_nonce t) @ gWriteBytes L (wr_process t) @ gWriteBytes L (wr_asset t)
     @ gPackLength L (length (wr_members t)) @ concat (map (gPackUint128 L) (wr_members t))
     @ gPackInt32 L (wr_threshold t) @ gWriteBytes L (wr_amount t) @ gPackBytes L (wr_extra t) @ gPackUint64 L (wr_timestamp t)"

definition TxRequest_Unpack :: "'z eoslib_scheme \<Rightarrow> bytes \<Rightarrow> (wtx_request \<times> nat) res" where
  "TxRequest_Unpack L data =
     rbind (gUnpackUint64 L data 0) (\<lambda>(i, pos).
     rbind (gUnpackUint64 L data pos) (\<lambda>(nonce, pos).
     rbind (gUnpackI L data pos) (\<lambda>(process, pos).
     rbind (gUnpackI L data pos) (\<lambda>(ast, pos).
     rbind (gUnpackLength L data pos) (\<lambda>(n, pos).
     rbind (unpack_n n (gUnpack L data) pos) (\<lambda>(members, pos).
     rbind (gUnpackInt32 L data pos) (\<lambda>(threshold, pos).
     rbind (gUnpackI L data pos) (\<lambda>(amount, pos).
     rbind (gUnpackLength L data pos) (\<lambda>(n, pos).
     rbind (unpack_n n (gUnpackUint8 L data) pos) (\<lambda>(extra, pos).
     rbind (gUnpackUint64 L data pos) (\<lambda>(timestamp, pos).
     Ok (\<lparr>wr_id = i, wr_nonce = nonce, wr_process = process, wr_asset = ast, wr_members = members, wr_threshold = threshold,
          wr_amount = amount, wr_extra = map (\<lambda>c. char_of c) extra, wr_timestamp = timestamp\<rparr>, pos))))))))))))"

definition TxRequest_Size :: "'z eoslib_scheme \<Rightarrow> wtx_request \<Rightarrow> nat" where
  "TxRequest_Size L t = 8 + 8 + 16 + 16 + gVarLength L (length (wr_members t))
     + (\<Sum>m \<leftarrow> wr_members t. gVarLength L (length m) + length m) + 4 + 16
     + gVarLength L (length (wr_extra t)) + length (wr_extra t) + 8"

record wtx_log =
  wl_id :: u64
  wl_nonce :: u64
  wl_contract :: u64
  wl_process :: bytes
  wl_asset :: bytes
  wl_members :: "bytes list"
  wl_threshold :: int
  wl_amount :: bytes
  wl_extra :: bytes
  wl_timestamp :: u64

definition TxLog_Pack :: "'z eoslib_scheme \<Rightarrow> wtx_log \<Rightarrow> bytes" where
  "TxLog_Pack L t =
     gPackUint64 L (wl_id t) @ gPackUint64 L (wl_nonce t) @ gPackUint64 L (wl_contract t)
     @ gWriteBytes L (wl_process t) @ gWriteBytes L (wl_asset t)
     @ gPackLength L (length (wl_members t)) @ concat (map (gWriteBytes L) (wl_members t))
     @ gPackInt32 L (wl_threshold t) @ gWriteBytes L (wl_amount t) @ gPackBytes L (wl_extra t) @ gPackUint64 L (wl_timestamp t)"

definition TxLog_Unpack :: "'z eoslib_scheme \<Rightarrow> bytes \<Rightarrow> (wtx_log \<times> nat) res" where
  "TxLog_Unpack L data =
     rbind (gUnpackUint64 L data 0) (\<lambda>(i, pos).
     rbind (gUnpackUint64 L data pos) (\<lambda>(nonce, pos).
     rbind (gUnpackName L data pos) (\<lambda>(contract, pos).
     rbind (gUnpackI L data pos) (\<lambda>(process, pos).
     rbind (gUnpackI L data pos) (\<lambda>(ast, pos).
     rbind (gUnpackLength L data pos) (\<lambda>(n, pos).
     rbind (unpack_n n (gUnpackI L data) pos) (\<lambda>(members, pos).
     rbind (gUnpackInt32 L data pos) (\<lambda>(threshold, pos).
     rbind (gUnpackI L data pos) (\<lambda>(amount, pos).
     rbind (gUnpackBytes L data pos) (\<lambda>(extra, pos).
     rbind (gUnpackUint64 L data pos) (\<lambda>(timestamp, pos).
     Ok (\<lparr>wl_id = i, wl_nonce = nonce, wl_contract = contract, wl_process = process, wl_asset = ast, wl_members = members,
          wl_threshold = threshold, wl_amount = amount, wl_extra = extra, wl_timestamp = timestamp\<rparr>, pos))))))))))))"

definition TxLog_Size :: "'z eoslib_scheme \<Rightarrow> wtx_log \<Rightarrow> nat" where
  "TxLog_Size L t = 8 + 8 + 16 + 16 + gVarLength L (length (wl_members t)) + length (wl_members t) * 16
     + 4 + 16 + gVarLength L (length (wl_extra t)) + length (wl_extra t) + 8"

section \<open>AddProcess\<close>

record add_process_msg =
  ap_address :: u64
  ap_process :: bytes
  ap_signatures :: "bytes list"

definition AddProcess_Pack :: "'z eoslib_scheme \<Rightarrow> add_process_msg \<Rightarrow> bytes" where
  "AddProcess_Pack L t =
     gPackUint64 L (ap_address t) @ gWriteBytes L (ap_process t) @ gWriteUint8 L (length (ap_signatures t) mod 256)
     @ concat (map (\<lambda>s. gWriteUint8 L 0 @ gWriteBytes L s) (ap_signatures t))"

definition AddProcess_Unpack :: "'z eoslib_scheme \<Rightarrow> add_process_msg \<Rightarrow> bytes \<Rightarrow> (add_process_msg \<times> nat) res" where
  "AddProcess_Unpack L t data =
     rbind (gUnpackName L data 0) (\<lambda>(address, pos).
     rbind (gRead L 16 data pos) (\<lambda>(process, pos).
     Ok (t\<lparr>ap_address := address, ap_process := process\<rparr>, pos)))"

definition AddProcess_PackWithoutSignatures :: "'z eoslib_scheme \<Rightarrow> add_process_msg \<Rightarrow> bytes" where
  "AddProcess_PackWithoutSignatures L t = gPackUint64 L (ap_address t) @ gWriteBytes L (ap_process t)"

definition AddProcess_Size :: "'z eoslib_scheme \<Rightarrow> add_process_msg \<Rightarrow> nat" where
  "AddProcess_Size L t = 8 + 16 + gVarLength L (length (ap_signatures t)) + 66 * length (ap_signatures t)"

definition AddProcess_Digest :: "'z eoslib_scheme \<Rightarrow> add_process_msg \<Rightarrow> bytes" where
  "AddProcess_Digest L t = gSha256 L (AddProcess_PackWithoutSignatures L t)"

definition AddProcess_Sign :: "'z eoslib_scheme \<Rightarrow> add_process_msg \<Rightarrow> string \<Rightarrow> bytes res" where
  "AddProcess_Sign L t priv = gSign L priv (AddProcess_Digest L t)"

section \<open>Conversions (utils.go, engine.go)\<close>

definition uuidToBytes :: "'z lib_scheme \<Rightarrow> string \<Rightarrow> bytes res" where
  "uuidToBytes L i = must (uuidFromString L i)"

definition bytesToUUID :: "'z lib_scheme \<Rightarrow> bytes \<Rightarrow> string res" where
  "bytesToUUID L b = rbind (must (uuidFromBytes L b)) (\<lambda>u. Ok (uuidString L u))"

definition reverseBytes :: "bytes \<Rightarrow> bytes" where
  "reverseBytes b = rev b"

definition NewAddProcess :: "'z eoslib_scheme \<Rightarrow> string \<Rightarrow> string \<Rightarrow> bytes \<Rightarrow> add_process_msg res" where
  "NewAddProcess L address process sigs =
     rbind (uuidToBytes L process) (\<lambda>u.
     Ok \<lparr>ap_address = gNewName L address, ap_process = copy_into 16 u, ap_signatures = sig_chunks sigs\<rparr>)"

definition convertTxRequestToEvent :: "'z eoslib_scheme \<Rightarrow> wtx_request \<Rightarrow> event res" where
  "convertTxRequestToEvent L req =
     rbind (rmap (bytesToUUID L) (wr_members req)) (\<lambda>members.
     rbind (bytesToUUID L (wr_process req)) (\<lambda>process.
     rbind (bytesToUUID L (wr_asset req)) (\<lambda>ast.
     Ok \<lparr>e_Process = process, e_Asset = ast, e_Members = members, e_Threshold = wr_threshold req,
         e_Amount = integerUnmarshal L (reverseBytes (wr_amount req)), e_Extra = wr_extra req,
         e_Timestamp = wr_timestamp req, e_Nonce = wr_nonce req, e_Signature = None\<rparr>)))"

definition convertTxLogToEvent :: "'z eoslib_scheme \<Rightarrow> wtx_log \<Rightarrow> event res" where
  "convertTxLogToEvent L req =
     rbind (rmap (bytesToUUID L) (wl_members req)) (\<lambda>members.
     rbind (bytesToUUID L (wl_process req)) (\<lambda>process.
     rbind (bytesToUUID L (wl_asset req)) (\<lambda>ast.
     Ok \<lparr>e_Process = process, e_Asset = ast, e_Members = members, e_Threshold = wl_threshold req,
         e_Amount = integerUnmarshal L (reverseBytes (wl_amount req)),
         e_Extra = (if 128 < length (wl_extra req) then take 128 (wl_extra req) else wl_extra req),
         e_Timestamp = wl_timestamp req, e_Nonce = wl_nonce req, e_Signature = None\<rparr>)))"

definition convertEventToTxEvent :: "'z eoslib_scheme \<Rightarrow> event \<Rightarrow> wtx_event res" where
  "convertEventToTxEvent L evt =
     rbind (uuidToBytes L (e_Process evt)) (\<lambda>process.
     rbind (uuidToBytes L (e_Asset evt)) (\<lambda>ast.
     rbind (rmap (uuidToBytes L) (e_Members evt)) (\<lambda>members.
     rbind (integerMarshal L (e_Amount evt)) (\<lambda>amount.
     Ok \<lparr>w_nonce = e_Nonce evt, w_process = copy_into 16 process, w_asset = copy_into 16 ast,
         w_members = map (copy_into 16) members, w_threshold = to_int32 (e_Threshold evt),
         w_amount = copy_into 16 (reverseBytes amount), w_extra = e_Extra evt, w_timestamp = e_Timestamp evt,
         w_signatures = sig_chunks (slice_bytes (e_Signature evt))\<rparr>))))"

section \<open>What the encoder promises\<close>

locale eos_codec =
  fixes L :: "'z eoslib_scheme"
  assumes u64_rt: "gUnpackUint64 L (p @ gPackUint64 L n @ r) (length p) = Ok (n, length p + length (gPackUint64 L n))"
    and name_rt: "gUnpackName L (p @ gPackUint64 L n @ r) (length p) = Ok (n, length p + length (gPackUint64 L n))"
    and int32_rt: "- (2 ^ 31) \<le> i \<Longrightarrow> i < 2 ^ 31 \<Longrightarrow>
        gUnpackInt32 L (p @ gPackInt32 L i @ r) (length p) = Ok (i, length p + length (gPackInt32 L i))"
    and length_rt: "k < 2 ^ 32 \<Longrightarrow>
        gUnpackLength L (p @ gPackLength L k @ r) (length p) = Ok (k, length p + length (gPackLength L k))"
    and bytes_rt: "length b < 2 ^ 32 \<Longrightarrow>
        gUnpackBytes L (p @ gPackBytes L b @ r) (length p) = Ok (b, length p + length (gPackBytes L b))"
    and uint8_rt: "k < 256 \<Longrightarrow> gUnpackUint8 L (p @ gWriteUint8 L k @ r) (length p) = Ok (k, length p + 1)"
    and uint8_one: "length (gWriteUint8 L k) = 1"
    and raw: "gWriteBytes L b = b"
    and arr_raw: "length b = 16 \<Longrightarrow> gPackUint128 L b = b"
    and arr_rt: "length b = 16 \<Longrightarrow> gUnpackI L (p @ b @ r) (length p) = Ok (b, length p + 16)"
      "length b = 16 \<Longrightarrow> gUnpack L (p @ b @ r) (length p) = Ok (b, length p + 16)"
    and read_rt: "length b = k \<Longrightarrow> gRead L k (p @ b @ r) (length p) = Ok (b, length p + k)"
begin

text \<open>Reading the members of a packed message.\<close>

lemma members_rt:
  "\<forall>m \<in> set ms. length m = 16 \<Longrightarrow>
   unpack_n (length ms) (gUnpackI L (p @ concat ms @ r)) (length p) = Ok (ms, length p + length (concat ms))"
proof (induction ms arbitrary: p)
  case (Cons m ms)
  have "unpack_n (length ms) (gUnpackI L ((p @ m) @ concat ms @ r)) (length (p @ m)) = Ok (ms, length (p @ m) + length (concat ms))"
    using Cons by (intro Cons.IH) simp
  with arr_rt(1) [of m p "concat ms @ r"] Cons.prems show ?case by (simp add: add.assoc)
qed simp

lemma packed_members: "concat (map (gWriteBytes L) ms) = concat ms"
  by (simp add: raw map_idI)

end

text \<open>What a log of the chain satisfies: arrays of 16 bytes, a 32-bit threshold, and counts that fit their fields.\<close>

definition log_packable :: "wtx_log \<Rightarrow> bool" where
  "log_packable t \<longleftrightarrow> length (wl_process t) = 16 \<and> length (wl_asset t) = 16 \<and> length (wl_amount t) = 16
     \<and> (\<forall>m \<in> set (wl_members t). length m = 16) \<and> length (wl_members t) < 2 ^ 32
     \<and> - (2 ^ 31) \<le> wl_threshold t \<and> wl_threshold t < 2 ^ 31 \<and> length (wl_extra t) < 2 ^ 32"

end
