(* ===== verification/Eos_Engine.thy ===== *)
theory Eos_Engine
  imports Eos_Wire Machine
begin

text \<open>
  mvm/eos: the engine for EOS. Like the quorum engine it keeps a database of queues and notifiers; it learns the
  contracts' requests from the history of the actions of mtg.xin, and pushes the group's events as transactions. A
  node answers through \<open>eos_node\<close>; a JSON object is the record of the fields the code reads, each with the error
  of its getter. Each endless loop is the body of one iteration, with one reading \<open>tm\<close> of the clock in
  nanoseconds; the transactions given to the node are appended to \<open>n_pushed\<close> and the contracts for which loops
  were started to \<open>n_contracts\<close>.
\<close>

section \<open>Outside the engine\<close>

record chain_info =
  ci_LastIrreversibleBlockNum :: u32
  ci_LastIrreversibleBlockID :: string
  ci_HeadBlockTime :: "int res"

text \<open>An entry of the action history; \<open>at_object\<close> says that it is a JSON object.\<close>

record action_trace =
  at_object :: bool
  at_block_num :: "u64 res"
  at_account_action_seq :: "u64 res"
  at_global_action_seq :: "u64 res"
  at_act :: "unit res"
  at_receiver :: "string res"
  at_account :: "string res"
  at_name :: "string res"
  at_actor :: "string res"
  at_permission :: "string res"
  at_hex_data :: "string res"
  at_data :: "string res"

datatype tx_data = DAddProcess add_process_msg | DEvent wtx_event | DErrorEvent wtx_event string | DExec u64 u64

record eos_tx =
  tx_expiration :: u32
  tx_refBlock :: string
  tx_actor :: u64
  tx_permission :: u64
  tx_account :: u64
  tx_name :: u64
  tx_args :: tx_data

text \<open>The reply to a transaction: the console output of its first action, or an error with the message of the reply,
  if there was one.\<close>

datatype push_reply = PushOk "string res" | PushErr goerr "string option"

record eos_node =
  nd_GetInfo :: "chain_info res"
  nd_GetAccount :: "string \<Rightarrow> int res res"
  nd_GetActions :: "string \<Rightarrow> u64 \<Rightarrow> nat \<Rightarrow> action_trace list res res"
  nd_GetTableRows :: "string \<Rightarrow> string \<Rightarrow> string \<Rightarrow> string \<Rightarrow> string \<Rightarrow> nat \<Rightarrow> string list res res"
  nd_Push :: "eos_tx \<Rightarrow> string \<Rightarrow> push_reply"

text \<open>The key functions of \<open>goeoslib\<close>; \<open>txSign\<close> is \<open>Transaction.Sign\<close> with its text form.\<close>

record eoskeys = eoslib +
  newPrivateKey :: "string \<Rightarrow> string res"
  newPublicKey :: "string \<Rightarrow> bytes res"
  keyString :: "string \<Rightarrow> string"
  chainIdFromHex :: "string \<Rightarrow> bytes res"
  txSign :: "eos_tx \<Rightarrow> string \<Rightarrow> bytes \<Rightarrow> string res"

record eos_configuration =
  cf_RPCPush :: string
  cf_RPCGetState :: string
  cf_PrivateKey :: string
  cf_MixinContract :: string
  cf_MTGPublisher :: string
  cf_MTGExecutor :: string
  cf_MTGExecutorKey :: string
  cf_ChainId :: string
  cf_PublicKeys :: "string list"
  cf_Publisher :: bool
  cf_ActionStartSequence :: u64

record eengine =
  n_db :: store
  n_mixinContract :: string
  n_mtgPublisherContract :: string
  n_mtgExecutor :: string
  n_mtgExecutorKey :: "string option"
  n_chainId :: bytes
  n_key :: string
  n_publicKeys :: "bytes list"
  n_publisher :: bool
  n_threshold :: int
  n_lastChainInfo :: "chain_info option"
  n_eventStatus :: "(u64 \<times> int) list"
  n_actionStartSequence :: u64
  n_contracts :: "string list"
  n_pushed :: "eos_tx list"

definition TX_LOG_ACTION :: string where
  "TX_LOG_ACTION = ''ontxlog''"

definition MAX_ACTIONS :: nat where
  "MAX_ACTIONS = 100"

definition TX_EXPIRATION :: int where
  "TX_EXPIRATION = 9"

section \<open>The engine's database (store.go)\<close>

definition prefixEosContractNotifier :: string where
  "prefixEosContractNotifier = ''EOS:CONTRACT:NOTIFIER:''"

definition prefixEosContractLogOffset :: string where
  "prefixEosContractLogOffset = ''EOS:CONTRACT:LOG:OFFSET:''"

definition prefixEosContractEventQueue :: string where
  "prefixEosContractEventQueue = ''EOS:CONTRACT:EVENT:QUEUE:''"

definition prefixEosGroupEventQueue :: string where
  "prefixEosGroupEventQueue = ''EOS:GROUP:EVENT:QUEUE:''"

definition prefixTxRequestNonce :: string where
  "prefixTxRequestNonce = ''EOS:TXREQUEST:OFFSET:''"

definition eosContractEventKey :: "string \<Rightarrow> u64 \<Rightarrow> bytes" where
  "eosContractEventKey address nonce = (prefixEosContractEventQueue @ address) @ uint64Bytes nonce"

definition eosGroupEventKey :: "string \<Rightarrow> u64 \<Rightarrow> bytes" where
  "eosGroupEventKey address nonce = (prefixEosGroupEventQueue @ address) @ uint64Bytes nonce"

definition Eos_storeWriteContractNotifier :: "store \<Rightarrow> string \<Rightarrow> string \<Rightarrow> store res" where
  "Eos_storeWriteContractNotifier s address notifier = db_update s (\<lambda>s.
     rbind (txn_get s (prefixEosContractNotifier @ address)) (\<lambda>item.
     if item \<noteq> None then Panic address else txn_set s (prefixEosContractNotifier @ address) (Raw notifier)))"

definition Eos_storeReadContractNotifier :: "store \<Rightarrow> string \<Rightarrow> string res" where
  "Eos_storeReadContractNotifier s address =
     rbind (must (read_opt s as_bytes (prefixEosContractNotifier @ address))) (\<lambda>v.
     Ok (case v of None \<Rightarrow> [] | Some b \<Rightarrow> b))"

definition Eos_storeListContractAddresses :: "store \<Rightarrow> string list res" where
  "Eos_storeListContractAddresses s =
     Ok (map (\<lambda>x. drop (length prefixEosContractNotifier) (fst x))
          (iter_from s prefixEosContractNotifier prefixEosContractNotifier))"

definition Eos_storeReadContractLogsOffset :: "store \<Rightarrow> string \<Rightarrow> u64 res" where
  "Eos_storeReadContractLogsOffset s address =
     rbind (must (read_opt s as_bytes (prefixEosContractLogOffset @ address))) (\<lambda>v.
     case v of None \<Rightarrow> Ok 0 | Some b \<Rightarrow> getUint64 b)"

definition Eos_storeWriteContractLogsOffset :: "store \<Rightarrow> string \<Rightarrow> u64 \<Rightarrow> store res" where
  "Eos_storeWriteContractLogsOffset s address offset =
     db_update s (\<lambda>s. txn_set s (prefixEosContractLogOffset @ address) (Raw (uint64Bytes offset)))"

definition storeReadTxRequestNonce :: "store \<Rightarrow> u64 res" where
  "storeReadTxRequestNonce s = rbind (must (read_opt s as_bytes prefixTxRequestNonce)) (\<lambda>v.
     case v of None \<Rightarrow> Ok 0 | Some b \<Rightarrow> getUint64 b)"

definition storeWriteTxRequestNonce :: "store \<Rightarrow> u64 \<Rightarrow> store res" where
  "storeWriteTxRequestNonce s offset =
     db_update s (\<lambda>s. txn_set s prefixTxRequestNonce (Raw (uint64Bytes offset)))"

definition Eos_storeReadLastContractEventNonce :: "store \<Rightarrow> string \<Rightarrow> u64 res" where
  "Eos_storeReadLastContractEventNonce s address =
     (case iter_rev_from s (prefixEosContractEventQueue @ address) (eosContractEventKey address (- 1)) of
        [] \<Rightarrow> Ok 0
      | (k, v) # _ \<Rightarrow> rbind (must (txn_value s k v)) (\<lambda>w. rbind (must (as_event w)) (\<lambda>evt. Ok (e_Nonce evt))))"

definition Eos_storeWriteContractEvent :: "store \<Rightarrow> string \<Rightarrow> event \<Rightarrow> store res" where
  "Eos_storeWriteContractEvent s address evt = db_update s (\<lambda>s.
     rbind (txn_get s (eosContractEventKey address (e_Nonce evt))) (\<lambda>item.
     if item \<noteq> None then Ok s else txn_set s (eosContractEventKey address (e_Nonce evt)) (JEvent evt)))"

definition Eos_storeListContractEvents :: "store \<Rightarrow> string \<Rightarrow> u64 \<Rightarrow> int \<Rightarrow> event list res" where
  "Eos_storeListContractEvents s address offset limit =
     list_loop s (\<lambda>v. must (as_event v)) (\<lambda>n. limit \<le> int n) []
       (iter_from s (prefixEosContractEventQueue @ address) (eosContractEventKey address offset))"

definition eos_write_group_event :: "string \<Rightarrow> store \<Rightarrow> event \<Rightarrow> store res" where
  "eos_write_group_event address s evt =
     rbind (txn_get s (eosGroupEventKey address (e_Nonce evt))) (\<lambda>item.
     if item \<noteq> None then Ok s else txn_set s (eosGroupEventKey address (e_Nonce evt)) (JEvent evt))"

definition Eos_storeWriteGroupEvents :: "store \<Rightarrow> string \<Rightarrow> event list \<Rightarrow> store res" where
  "Eos_storeWriteGroupEvents s address events = db_update s (\<lambda>s. rfold (eos_write_group_event address) s events)"

definition Eos_storeListGroupEvents :: "store \<Rightarrow> string \<Rightarrow> u64 \<Rightarrow> int \<Rightarrow> event list res" where
  "Eos_storeListGroupEvents s address offset limit =
     list_loop s (\<lambda>v. must (as_event v)) (\<lambda>n. limit \<le> int n) []
       (iter_from s (prefixEosGroupEventQueue @ address) (eosGroupEventKey address offset))"

section \<open>Booting and the state of the chain (engine.go)\<close>

definition SetLatestChainInfo :: "eengine \<Rightarrow> chain_info \<Rightarrow> eengine" where
  "SetLatestChainInfo e info = e\<lparr>n_lastChainInfo := Some info\<rparr>"

definition GetLatestChainInfo :: "eengine \<Rightarrow> chain_info res" where
  "GetLatestChainInfo e = of_option (Panic ''nil pointer dereference'') (n_lastChainInfo e)"

definition GetRefBlockId :: "eengine \<Rightarrow> string res" where
  "GetRefBlockId e = rbind (GetLatestChainInfo e) (\<lambda>info. Ok (ci_LastIrreversibleBlockID info))"

definition getLastIrreversibleBlockNumber :: "eos_node \<Rightarrow> u32 res" where
  "getLastIrreversibleBlockNumber N = rbind (must (nd_GetInfo N)) (\<lambda>info. Ok (ci_LastIrreversibleBlockNum info))"

definition checkNetworkStatus :: "eos_node \<Rightarrow> eengine \<Rightarrow> eengine res" where
  "checkNetworkStatus N e = rbind (must (nd_GetInfo N)) (\<lambda>info. Ok (SetLatestChainInfo e info))"

text \<open>The \<open>i\<close>-th attempt asks the node \<open>N i\<close> at the time \<open>tm i\<close>; \<open>None\<close> is a node that is never synchronized.\<close>

partial_function (option) syncNetwork :: "(nat \<Rightarrow> eos_node) \<Rightarrow> (nat \<Rightarrow> int) \<Rightarrow> nat \<Rightarrow> eengine \<Rightarrow> eengine res option" where
  "syncNetwork N tm i e = (case nd_GetInfo (N i) of
       Ok info \<Rightarrow>
         (case ci_HeadBlockTime info of
            Ok t \<Rightarrow> if t < tm i - 30 * 1000000000 then syncNetwork N tm (Suc i) (SetLatestChainInfo e info)
                    else Some (Ok (SetLatestChainInfo e info))
          | Err x \<Rightarrow> Some (Panic x) | Panic x \<Rightarrow> Some (Panic x))
     | Err x \<Rightarrow> Some (Panic x) | Panic x \<Rightarrow> Some (Panic x))"

text \<open>The engine that \<open>Boot\<close> makes from the configuration and the opened database, before \<open>syncNetwork\<close>.\<close>

definition eos_configured :: "'z eoskeys_scheme \<Rightarrow> store \<Rightarrow> eos_configuration \<Rightarrow> int \<Rightarrow> eengine res" where
  "eos_configured K db conf threshold =
     (if threshold \<le> 0 then Panic ''invalid threshold value''
      else if cf_ChainId conf = [] then Panic ''chain_id not specified!''
      else rbind (must (chainIdFromHex K (cf_ChainId conf))) (\<lambda>chainId.
      rbind (must (newPrivateKey K (cf_PrivateKey conf))) (\<lambda>key.
      if cf_PublicKeys conf = [] then Panic ''public-keys not specified!''
      else rbind (rmap (\<lambda>p. must (newPublicKey K p)) (cf_PublicKeys conf)) (\<lambda>pubs.
      if cf_MixinContract conf = [] then Panic ''mixin-contract not specified!''
      else if cf_Publisher conf \<and> cf_RPCPush conf = [] then Panic ''rpc-push not specified!''
      else if cf_MTGPublisher conf = [] then Panic ''mtg-publisher not specified!''
      else if cf_RPCGetState conf = [] then Panic ''rpc-get-state not specified!''
      else rbind (if cf_MTGExecutor conf \<noteq> [] then rbind (must (newPrivateKey K (cf_MTGExecutorKey conf))) (\<lambda>k. Ok (Some k))
                  else Ok None) (\<lambda>executorKey.
      Ok \<lparr>n_db = db, n_mixinContract = cf_MixinContract conf, n_mtgPublisherContract = cf_MTGPublisher conf,
          n_mtgExecutor = cf_MTGExecutor conf, n_mtgExecutorKey = executorKey, n_chainId = chainId, n_key = key,
          n_publicKeys = pubs, n_publisher = cf_Publisher conf, n_threshold = threshold, n_lastChainInfo = None,
          n_eventStatus = [], n_actionStartSequence = cf_ActionStartSequence conf, n_contracts = [], n_pushed = []\<rparr>)))))"

definition eos_Boot :: "'z eoskeys_scheme \<Rightarrow> (nat \<Rightarrow> eos_node) \<Rightarrow> (nat \<Rightarrow> int) \<Rightarrow> store \<Rightarrow> eos_configuration \<Rightarrow> int \<Rightarrow> eengine res option" where
  "eos_Boot K N tm db conf threshold = (case eos_configured K db conf threshold of
       Ok e \<Rightarrow> syncNetwork N tm 0 e | Err x \<Rightarrow> Some (Err x) | Panic x \<Rightarrow> Some (Panic x))"

section \<open>The interface to the machine\<close>

definition SignEvent :: "'z eoslib_scheme \<Rightarrow> eengine \<Rightarrow> string \<Rightarrow> event \<Rightarrow> bytes res" where
  "SignEvent L e address event =
     (if e_Nonce event = 0 then
        rbind (NewAddProcess L address (e_Process event) []) (\<lambda>addprocess.
        must (AddProcess_Sign L addprocess (n_key e)))
      else rbind (must (convertEventToTxEvent L event)) (\<lambda>txEvent.
        must (TxEvent_Sign L txEvent (n_key e))))"

definition Eos_VerifySignature :: "'z eoslib_scheme \<Rightarrow> eengine \<Rightarrow> bytes \<Rightarrow> bytes \<Rightarrow> bool" where
  "Eos_VerifySignature L e digest signature = (case gRecover L digest signature of
       Ok pk \<Rightarrow> pk \<in> set (n_publicKeys e) | _ \<Rightarrow> False)"

definition VerifyEvent :: "'z eoslib_scheme \<Rightarrow> eengine \<Rightarrow> string \<Rightarrow> event \<Rightarrow> bool res" where
  "VerifyEvent L e address event =
     (if e_Nonce event = 0 then
        rbind (NewAddProcess L address (e_Process event) []) (\<lambda>addprocess.
        Ok (list_all (Eos_VerifySignature L e (AddProcess_Digest L addprocess)) (sig_chunks (slice_bytes (e_Signature event)))))
      else case convertEventToTxEvent L event of
          Panic x \<Rightarrow> Panic x
        | Err x \<Rightarrow> Ok False
        | Ok txEvent \<Rightarrow>
            Ok (list_all (Eos_VerifySignature L e (TxEvent_Digest L txEvent)) (sig_chunks (slice_bytes (e_Signature event)))))"

text \<open>\<open>time.Duration(60 * 2)\<close> is 120 nanoseconds.\<close>

definition Eos_VerifyAddress :: "eos_node \<Rightarrow> int \<Rightarrow> eengine \<Rightarrow> string \<Rightarrow> bytes \<Rightarrow> unit res" where
  "Eos_VerifyAddress N tm e address extra =
     (if address = n_mixinContract e then Err ''Mixin contract account can not set as Process address!''
      else rbind (nd_GetAccount N address) (\<lambda>info. rbind info (\<lambda>lastUpdate.
        if lastUpdate + 120 < tm then Ok () else Err ''too yong'')))"

definition Eos_SetupNotifier :: "'z eoskeys_scheme \<Rightarrow> eengine \<Rightarrow> string \<Rightarrow> eengine res" where
  "Eos_SetupNotifier K e address =
     (let notifier = (if keyString K (n_key e) = [] then address else keyString K (n_key e)) in
      rbind (Eos_storeReadContractNotifier (n_db e) address) (\<lambda>old.
      if old = notifier then Ok e
      else if old \<noteq> [] then Panic old
      else rbind (Eos_storeWriteContractNotifier (n_db e) address notifier) (\<lambda>s. Ok (e\<lparr>n_db := s\<rparr>))))"

definition Eos_EstimateCost :: "eengine \<Rightarrow> event list \<Rightarrow> int res" where
  "Eos_EstimateCost e events = Ok 0"

definition Eos_EnsureSendGroupEvents :: "eengine \<Rightarrow> string \<Rightarrow> event list \<Rightarrow> eengine res" where
  "Eos_EnsureSendGroupEvents e address events =
     rbind (Eos_storeWriteGroupEvents (n_db e) address events) (\<lambda>s. Ok (e\<lparr>n_db := s\<rparr>))"

definition Eos_ReceiveGroupEvents :: "eengine \<Rightarrow> string \<Rightarrow> u64 \<Rightarrow> int \<Rightarrow> event list res" where
  "Eos_ReceiveGroupEvents e address offset limit = Eos_storeListContractEvents (n_db e) address offset limit"

definition Eos_IsPublisher :: "eengine \<Rightarrow> bool" where
  "Eos_IsPublisher e = n_publisher e"

definition IsExecutor :: "eengine \<Rightarrow> bool" where
  "IsExecutor e \<longleftrightarrow> n_mtgExecutor e \<noteq> [] \<and> n_mtgExecutorKey e \<noteq> None"

definition eos_ops :: "'z eoskeys_scheme \<Rightarrow> eos_node \<Rightarrow> int \<Rightarrow> eengine engine_ops" where
  "eos_ops K N tm = \<lparr>VerifyAddress = Eos_VerifyAddress N tm, SetupNotifier = Eos_SetupNotifier K,
     EstimateCost = Eos_EstimateCost, EnsureSendGroupEvents = Eos_EnsureSendGroupEvents,
     ReceiveGroupEvents = Eos_ReceiveGroupEvents\<rparr>"

section \<open>Reading the requests of the contracts\<close>

text \<open>The checks under \<open>DEBUG\<close>, a constant that is true.\<close>

definition check_trace :: "eengine \<Rightarrow> action_trace \<Rightarrow> unit res" where
  "check_trace e a =
     rbind (must (at_receiver a)) (\<lambda>receiver.
     if receiver \<noteq> n_mixinContract e then Panic ''receiver not match''
     else rbind (must (at_account a)) (\<lambda>account.
     if account \<noteq> n_mixinContract e then Panic ''Invalid main account''
     else rbind (must (at_name a)) (\<lambda>action_name.
     if action_name \<noteq> TX_LOG_ACTION then Panic ''Invalid action name''
     else rbind (must (at_actor a)) (\<lambda>actor.
     if actor \<noteq> n_mixinContract e then Panic ''Invalid permission actor''
     else rbind (must (at_permission a)) (\<lambda>permission.
     if permission \<noteq> ''active'' then Panic ''Invalid permission'' else Ok ())))))"

definition ParseTxLogFromActionTrace :: "'z eoslib_scheme \<Rightarrow> eengine \<Rightarrow> action_trace \<Rightarrow> wtx_log res" where
  "ParseTxLogFromActionTrace L e a =
     rbind (must (at_act a)) (\<lambda>_.
     rbind (check_trace e a) (\<lambda>_.
     rbind (case at_hex_data a of Ok d \<Rightarrow> Ok d | Err x \<Rightarrow> must (at_data a) | Panic x \<Rightarrow> Panic x) (\<lambda>data.
     rbind (must (hexDecode data)) (\<lambda>b.
     rbind (must (TxLog_Unpack L b)) (\<lambda>(txLog, sz).
     if sz \<noteq> length b then Panic ''txLog.Unpack: binary size mismatch'' else Ok txLog)))))"

definition AdjustOffset :: "'z eoslib_scheme \<Rightarrow> eos_node \<Rightarrow> eengine \<Rightarrow> u64 \<Rightarrow> u64 res" where
  "AdjustOffset L N e txRequestIndex =
     rbind (must (nd_GetActions N (n_mixinContract e) 0 1)) (\<lambda>r.
     rbind (must r) (\<lambda>actions. case actions of
       [] \<Rightarrow> Panic ''no actions found while trying to reset offset.''
     | a # _ \<Rightarrow>
         if \<not> at_object a then Panic ''invalid action''
         else rbind (ParseTxLogFromActionTrace L e a) (\<lambda>txLog.
           if txRequestIndex < wl_id txLog then Panic ''new action history is not overlapped with the old one''
           else Ok (txRequestIndex - wl_id txLog))))"

definition FetchActions :: "eos_node \<Rightarrow> eengine \<Rightarrow> u64 \<Rightarrow> action_trace list res" where
  "FetchActions N e offset = rbind (nd_GetActions N (n_mixinContract e) offset MAX_ACTIONS) (\<lambda>r. must r)"

text \<open>A row of the table \<open>counters\<close>: its key and its count, little endian.\<close>

definition counter_row :: "eos_node \<Rightarrow> string \<Rightarrow> nat \<Rightarrow> u64 res" where
  "counter_row N contract key =
     rbind (nd_GetTableRows N contract contract ''counters'' (nat_digits key) (nat_digits key) 10) (\<lambda>result.
     rbind result (\<lambda>rows. case rows of
       [] \<Rightarrow> Err ''index out of range''
     | nonce # _ \<Rightarrow>
         if length nonce \<noteq> 32 then Err ''bad nonce value''
         else rbind (hexDecode nonce) (\<lambda>b. Ok (word_of_nat (be_nat (rev (take 8 (drop 8 b))))))))"

definition GetTxRequestsCount :: "eos_node \<Rightarrow> eengine \<Rightarrow> u64 res" where
  "GetTxRequestsCount N e = counter_row N (n_mixinContract e) 1"

definition Eos_GetAddressNonce :: "eos_node \<Rightarrow> string \<Rightarrow> u64 res" where
  "Eos_GetAddressNonce N address = counter_row N address 1"

text \<open>The loop of \<open>parseActions\<close>: \<open>i\<close> is the index of the action, \<open>idx\<close> the request expected, \<open>lst\<close> and \<open>cnt\<close> the
  last sequence number and the number of irreversible actions. \<open>None\<close> asks to adjust the offset.\<close>

fun parse_actions_loop ::
  "'z eoslib_scheme \<Rightarrow> eengine \<Rightarrow> nat \<Rightarrow> u64 \<Rightarrow> u64 \<Rightarrow> nat \<Rightarrow> action_trace list \<Rightarrow> (eengine \<times> (u64 \<times> u64 \<times> nat) option) res" where
  "parse_actions_loop L e i idx lst cnt [] = Ok (e, Some (idx, lst, cnt))"
| "parse_actions_loop L e i idx lst cnt (a # as) =
     (if \<not> at_object a then Panic ''invalid action''
      else rbind (must (at_block_num a)) (\<lambda>blockNum.
      rbind (GetLatestChainInfo e) (\<lambda>info.
      if ci_LastIrreversibleBlockNum info < ucast blockNum then Ok (e, Some (idx, lst, cnt))
      else rbind (must (at_account_action_seq a)) (\<lambda>sq.
      rbind (ParseTxLogFromActionTrace L e a) (\<lambda>txLog.
      rbind (must (at_global_action_seq a)) (\<lambda>globalSeq.
      if globalSeq < n_actionStartSequence e then parse_actions_loop L e (Suc i) (wl_id txLog + 1) sq (Suc cnt) as
      else if idx \<noteq> wl_id txLog then (if i = 0 then Ok (e, None) else Panic ''Invalid tx log id'')
      else rbind (convertTxLogToEvent L txLog) (\<lambda>evt.
      rbind (must (Eos_storeWriteContractEvent (n_db e) (gNameString L (wl_contract txLog)) evt)) (\<lambda>s.
      parse_actions_loop L (e\<lparr>n_db := s\<rparr>) (Suc i) (idx + 1) sq (Suc cnt) as))))))))"

text \<open>A write whose error the code does not look at.\<close>

definition ignore_error :: "eengine \<Rightarrow> store res \<Rightarrow> eengine res" where
  "ignore_error e w = (case w of Ok s \<Rightarrow> Ok (e\<lparr>n_db := s\<rparr>) | Err x \<Rightarrow> Ok e | Panic x \<Rightarrow> Panic x)"

definition parseActions ::
  "'z eoslib_scheme \<Rightarrow> eengine \<Rightarrow> u64 \<Rightarrow> action_trace list \<Rightarrow> (nat \<times> bool \<times> eengine) res" where
  "parseActions L e txRequestIndex actions =
     rbind (parse_actions_loop L e 0 txRequestIndex 0 0 actions) (\<lambda>(e, r). case r of
       None \<Rightarrow> Ok (0, True, e)
     | Some (idx, lst, cnt) \<Rightarrow>
         if cnt = 0 then Ok (0, False, e)
         else rbind (ignore_error e (storeWriteTxRequestNonce (n_db e) idx)) (\<lambda>e.
              rbind (ignore_error e (Eos_storeWriteContractLogsOffset (n_db e) (n_mixinContract e) (lst + 1))) (\<lambda>e.
              Ok (cnt, False, e))))"

text \<open>The loop of \<open>PullContractEvents\<close>; attempt \<open>i\<close> asks the node \<open>N i\<close>. It may go on for ever.\<close>

partial_function (option) pull_loop ::
  "'z eoslib_scheme \<Rightarrow> (nat \<Rightarrow> eos_node) \<Rightarrow> eengine \<Rightarrow> u64 \<Rightarrow> u64 \<Rightarrow> nat \<Rightarrow> u64 \<Rightarrow> (nat \<times> eengine) res option" where
  "pull_loop L N e txRequestCount idx i offset = (case FetchActions (N i) e offset of
       Err x \<Rightarrow> Some (Err x) | Panic x \<Rightarrow> Some (Panic x)
     | Ok [] \<Rightarrow>
         if 0 < idx \<and> idx + 1 \<le> txRequestCount
         then (case AdjustOffset L (N i) e idx of
                 Err x \<Rightarrow> Some (Err x) | Panic x \<Rightarrow> Some (Panic x)
               | Ok offset \<Rightarrow> pull_loop L N e txRequestCount idx (Suc i) offset)
         else Some (Ok (0, e))
     | Ok (a # as) \<Rightarrow>
         (case parseActions L e idx (a # as) of
            Err x \<Rightarrow> Some (Err x) | Panic x \<Rightarrow> Some (Panic x)
          | Ok (count, tryFetchActions, e) \<Rightarrow>
              if tryFetchActions
              then (case AdjustOffset L (N i) e idx of
                      Err x \<Rightarrow> Some (Err x) | Panic x \<Rightarrow> Some (Panic x)
                    | Ok offset \<Rightarrow> pull_loop L N e txRequestCount idx (Suc i) offset)
              else Some (Ok (count, e))))"

definition PullContractEvents :: "'z eoslib_scheme \<Rightarrow> (nat \<Rightarrow> eos_node) \<Rightarrow> eengine \<Rightarrow> (nat \<times> eengine) res option" where
  "PullContractEvents L N e = (case GetTxRequestsCount (N 0) e of
       Err x \<Rightarrow> Some (Err x) | Panic x \<Rightarrow> Some (Panic x)
     | Ok txRequestCount \<Rightarrow>
         (case rbind (storeReadTxRequestNonce (n_db e)) (\<lambda>idx.
               rbind (Eos_storeReadContractLogsOffset (n_db e) (n_mixinContract e)) (\<lambda>offset. Ok (idx, offset))) of
            Err x \<Rightarrow> Some (Err x) | Panic x \<Rightarrow> Some (Panic x)
          | Ok (idx, offset) \<Rightarrow> pull_loop L N e txRequestCount idx 0 offset))"

definition loopContractEvents :: "'z eoslib_scheme \<Rightarrow> (nat \<Rightarrow> eos_node) \<Rightarrow> eengine \<Rightarrow> eengine res option" where
  "loopContractEvents L N e = map_option (\<lambda>r. case r of
       Ok (count, e') \<Rightarrow> Ok e' | Err x \<Rightarrow> Ok e | Panic x \<Rightarrow> Panic x) (PullContractEvents L N e)"

section \<open>Pushing the group's events\<close>

definition new_expiration :: "int \<Rightarrow> u32" where
  "new_expiration tm = word_of_int (tm div 1000000000 + TX_EXPIRATION)"

definition BuildEventTransaction ::
  "'z eoslib_scheme \<Rightarrow> int \<Rightarrow> string \<Rightarrow> string \<Rightarrow> string \<Rightarrow> event \<Rightarrow> string \<Rightarrow> eos_tx res" where
  "BuildEventTransaction L tm mixincontract eventPublisher address event refBlockId =
     (if length refBlockId \<noteq> 64 then Err ''Invalid reference block''
      else if e_Nonce event = 0 then
        rbind (NewAddProcess L address (e_Process event) (slice_bytes (e_Signature event))) (\<lambda>addprocess.
        Ok \<lparr>tx_expiration = new_expiration tm, tx_refBlock = refBlockId, tx_actor = gNewName L eventPublisher,
            tx_permission = gNewName L ''active'', tx_account = gNewName L mixincontract, tx_name = gNewName L ''addprocess'',
            tx_args = DAddProcess addprocess\<rparr>)
      else rbind (convertEventToTxEvent L event) (\<lambda>txEvent.
        Ok \<lparr>tx_expiration = new_expiration tm, tx_refBlock = refBlockId, tx_actor = gNewName L eventPublisher,
            tx_permission = gNewName L ''active'', tx_account = gNewName L address, tx_name = gNewName L ''onevent'',
            tx_args = DEvent txEvent\<rparr>))"

definition BuildErrorEventTransaction ::
  "'z eoslib_scheme \<Rightarrow> int \<Rightarrow> string \<Rightarrow> string \<Rightarrow> event \<Rightarrow> string \<Rightarrow> string \<Rightarrow> eos_tx res" where
  "BuildErrorEventTransaction L tm eventPublisher address event refBlockId reason =
     (if length refBlockId \<noteq> 64 then Err ''Invalid reference block''
      else rbind (convertEventToTxEvent L event) (\<lambda>txEvent.
        Ok \<lparr>tx_expiration = new_expiration tm, tx_refBlock = refBlockId, tx_actor = gNewName L eventPublisher,
            tx_permission = gNewName L ''active'', tx_account = gNewName L address, tx_name = gNewName L ''onerrorevent'',
            tx_args = DErrorEvent txEvent reason\<rparr>))"

text \<open>\<open>Transaction.Sign\<close> and \<open>PushTransaction\<close>.\<close>

definition sign_and_push ::
  "'z eoskeys_scheme \<Rightarrow> eos_node \<Rightarrow> string \<Rightarrow> eengine \<Rightarrow> eos_tx \<Rightarrow> (push_reply \<times> eengine) res" where
  "sign_and_push K N key e tx = rbind (txSign K tx key (n_chainId e)) (\<lambda>signature.
     Ok (nd_Push N tx signature, e\<lparr>n_pushed := n_pushed e @ [tx]\<rparr>))"

text \<open>The error that \<open>pushEvent\<close> returns is only logged: it is \<open>Some\<close> beside the state.\<close>

definition returned :: "eengine \<Rightarrow> 'a res \<Rightarrow> ('a \<Rightarrow> (goerr option \<times> eengine) res) \<Rightarrow> (goerr option \<times> eengine) res" where
  "returned e m f = (case m of Ok x \<Rightarrow> f x | Err x \<Rightarrow> Ok (Some x, e) | Panic x \<Rightarrow> Panic x)"

definition pushEvent ::
  "'z eoskeys_scheme \<Rightarrow> eos_node \<Rightarrow> int \<Rightarrow> eengine \<Rightarrow> string \<Rightarrow> event \<Rightarrow> (goerr option \<times> eengine) res" where
  "pushEvent K N tm e address evt =
     (if int (length (slice_bytes (e_Signature evt)) div 65) < n_threshold e then Panic ''not enough signatures''
      else rbind (GetRefBlockId e) (\<lambda>refBlockId.
      returned e (BuildEventTransaction K tm (n_mixinContract e) (n_mtgPublisherContract e) address evt refBlockId) (\<lambda>tx.
      returned e (sign_and_push K N (n_key e) e tx) (\<lambda>(r, e).
      case r of
        PushOk console \<Rightarrow> rbind (must console) (\<lambda>_. Ok (None, e))
      | PushErr err message \<Rightarrow>
          if e_Nonce evt = 0 then Ok (Some err, e)
          else let reason = (case message of Some m \<Rightarrow> m | None \<Rightarrow> err) in
            returned e (BuildErrorEventTransaction K tm (n_mtgPublisherContract e) address evt refBlockId (take 256 reason)) (\<lambda>tx.
            returned e (sign_and_push K N (n_key e) e tx) (\<lambda>(r, e).
            case r of
              PushErr err _ \<Rightarrow> Ok (Some err, e)
            | PushOk console \<Rightarrow> rbind (must console) (\<lambda>_. Ok (None, e))))))))"

definition GetSubmitedEvent :: "eos_node \<Rightarrow> string \<Rightarrow> u64 \<Rightarrow> nat \<Rightarrow> u64 list res" where
  "GetSubmitedEvent N address nonce limit =
     rbind (nd_GetTableRows N address address ''submittedevs'' (nat_digits (unat nonce)) [] limit) (\<lambda>result.
     rbind result (\<lambda>rows.
     rmap (\<lambda>row. if length row \<noteq> 16 then Err ''bad nonce value''
                 else rbind (hexDecode row) (\<lambda>b. Ok (word_of_nat (be_nat (rev (take 8 b)))))) rows))"

text \<open>The body of the loop over the events; a nonce without status has the zero time.\<close>

definition push_group_event ::
  "'z eoskeys_scheme \<Rightarrow> eos_node \<Rightarrow> int \<Rightarrow> string \<Rightarrow> u64 list res \<Rightarrow> eengine \<Rightarrow> event \<Rightarrow> eengine res" where
  "push_group_event K N tm address submittedEvents e evt =
     (if (case submittedEvents of Ok ns \<Rightarrow> e_Nonce evt \<in> set ns | _ \<Rightarrow> False) then Ok e
      else if (case map_of (n_eventStatus e) (e_Nonce evt) of None \<Rightarrow> True
               | Some t \<Rightarrow> t + TX_EXPIRATION * 1000000000 < tm)
      then rbind (pushEvent K N tm (e\<lparr>n_eventStatus := AList.update (e_Nonce evt) tm (n_eventStatus e)\<rparr>) address evt)
             (\<lambda>(_, e). Ok e)
      else Ok e)"

definition loopPushGroupEvents :: "'z eoskeys_scheme \<Rightarrow> eos_node \<Rightarrow> int \<Rightarrow> eengine \<Rightarrow> string \<Rightarrow> eengine res" where
  "loopPushGroupEvents K N tm e address =
     (if \<not> Eos_IsPublisher e then Ok e
      else let nonce = (case Eos_GetAddressNonce N address of Ok n \<Rightarrow> n | _ \<Rightarrow> 0) in
        rbind (must (Eos_storeListGroupEvents (n_db e) address nonce 100)) (\<lambda>evts.
        rfold (push_group_event K N tm address (GetSubmitedEvent N address nonce 100)) e evts))"

section \<open>The executor and the contracts\<close>

definition exec_tx :: "'z eoslib_scheme \<Rightarrow> int \<Rightarrow> eengine \<Rightarrow> string \<Rightarrow> string \<Rightarrow> u64 \<Rightarrow> string \<Rightarrow> eos_tx" where
  "exec_tx L tm e address action x refBlockId =
     \<lparr>tx_expiration = new_expiration tm, tx_refBlock = refBlockId, tx_actor = gNewName L (n_mtgExecutor e),
      tx_permission = gNewName L ''active'', tx_account = gNewName L address, tx_name = gNewName L action,
      tx_args = DExec (gNewName L (n_mtgExecutor e)) x\<rparr>"

text \<open>One transaction of the executor and the new value of its counter.\<close>

definition push_exec ::
  "'z eoskeys_scheme \<Rightarrow> eos_node \<Rightarrow> int \<Rightarrow> eengine \<Rightarrow> string \<Rightarrow> string \<Rightarrow> u64 \<Rightarrow> u64 \<Rightarrow> (u64 \<times> eengine) res" where
  "push_exec K N tm e address action x counter =
     rbind (GetRefBlockId e) (\<lambda>refBlockId.
     rbind (must (sign_and_push K N (case n_mtgExecutorKey e of None \<Rightarrow> [] | Some k \<Rightarrow> k) e
                    (exec_tx K tm e address action x refBlockId))) (\<lambda>(r, e).
     case r of PushErr err _ \<Rightarrow> Ok (counter, e)
     | PushOk console \<Rightarrow> rbind (must console) (\<lambda>_. Ok (counter + 1, e))))"

definition loopExecGroupEvents ::
  "'z eoskeys_scheme \<Rightarrow> eos_node \<Rightarrow> int \<Rightarrow> eengine \<Rightarrow> string \<Rightarrow> u64 \<Rightarrow> (u64 \<times> eengine) res" where
  "loopExecGroupEvents K N tm e address counter =
     (if \<not> IsExecutor e then Ok (counter, e) else push_exec K N tm e address ''exec'' counter counter)"

text \<open>\<open>False\<close> ends the loop, as a row that cannot be read does.\<close>

fun do_works ::
  "'z eoskeys_scheme \<Rightarrow> eos_node \<Rightarrow> int \<Rightarrow> string \<Rightarrow> eengine \<Rightarrow> u64 \<Rightarrow> string list \<Rightarrow> (bool \<times> u64 \<times> eengine) res" where
  "do_works K N tm address e counter [] = Ok (True, counter, e)"
| "do_works K N tm address e counter (row # rows) = (case hexDecode row of
       Err x \<Rightarrow> Ok (False, counter, e) | Panic x \<Rightarrow> Panic x
     | Ok raw \<Rightarrow>
         if length raw < 8 then Ok (False, counter, e)
         else rbind (push_exec K N tm e address ''dowork'' (word_of_nat (be_nat (rev (take 8 raw)))) counter) (\<lambda>(counter, e).
              do_works K N tm address e counter rows))"

definition loopDoWorks ::
  "'z eoskeys_scheme \<Rightarrow> eos_node \<Rightarrow> int \<Rightarrow> eengine \<Rightarrow> string \<Rightarrow> u64 \<Rightarrow> (bool \<times> u64 \<times> eengine) res" where
  "loopDoWorks K N tm e address counter =
     (if \<not> IsExecutor e then Ok (False, counter, e)
      else case nd_GetTableRows N address address ''works'' [] [] 100 of
        Panic x \<Rightarrow> Panic x
      | Err x \<Rightarrow> Ok (True, counter, e)
      | Ok result \<Rightarrow> (case result of
            Panic x \<Rightarrow> Panic x
          | Err x \<Rightarrow> Ok (False, counter, e)
          | Ok rows \<Rightarrow> do_works K N tm address e counter rows))"

definition Eos_loopHandleContracts :: "eengine \<Rightarrow> eengine res" where
  "Eos_loopHandleContracts e = rbind (must (Eos_storeListContractAddresses (n_db e))) (\<lambda>all.
     Ok (foldl (\<lambda>e c. if c \<in> set (n_contracts e) then e else e\<lparr>n_contracts := n_contracts e @ [c]\<rparr>) e all))"

end
