(* ===== verification/Eos_Wire_Laws.thy ===== *)
theory Eos_Wire_Laws
  imports Eos_Wire Wire_Lib Contract_Laws Mixinproxy
begin

text \<open>
  The EOS engine and the contracts agree on the bytes: a log packed by the contract is read back, the bytes an engine
  signs are the ones the contract checks, and an event that comes back has the fields it was sent with. At the end, a
  concrete encoder in the format of EOS, which satisfies \<open>eos_codec\<close>.
\<close>

section \<open>A concrete encoder\<close>

text \<open>Integers are little endian, lengths base 128 with the low digits first.\<close>

fun var_bytes :: "nat \<Rightarrow> bytes" where
  "var_bytes n = (if n < 128 then [char_of n] else char_of (128 + n mod 128) # var_bytes (n div 128))"

declare var_bytes.simps [simp del]

fun var_read :: "bytes \<Rightarrow> (nat \<times> nat) res" where
  "var_read [] = Err ''EOF''"
| "var_read (c # cs) = (if of_char c < (128 :: nat) then Ok (of_char c, 1)
     else rbind (var_read cs) (\<lambda>(n, k). Ok (of_char c - 128 + 128 * n, k + 1)))"

lemma var_read_bytes: "var_read (var_bytes n @ r) = Ok (n, length (var_bytes n))"
proof (induction n rule: var_bytes.induct)
  case (1 n)
  show ?case
  proof (cases "n < 128")
    case False
    have m: "128 + n mod 128 < 256" by simp
    from 1 [OF False] show ?thesis using False m mult_div_mod_eq [of 128 n]
      by (simp add: var_bytes.simps [of n] del: mult_div_mod_eq)
  qed (simp add: var_bytes.simps [of n])
qed

definition read_at :: "nat \<Rightarrow> bytes \<Rightarrow> nat \<Rightarrow> (bytes \<times> nat) res" where
  "read_at k d pos = (if length d < pos + k then Err ''EOF'' else Ok (take k (drop pos d), pos + k))"

lemma read_at_append: "length b = k \<Longrightarrow> read_at k (p @ b @ r) (length p) = Ok (b, length p + k)"
  by (simp add: read_at_def)

definition int32_bytes :: "int \<Rightarrow> bytes" where
  "int32_bytes i = rev (be_bytes 4 (nat (i mod 2 ^ 32)))"

definition le_value :: "bytes \<Rightarrow> nat" where
  "le_value b = be_nat (rev b)"

definition demo_eos :: eoslib where
  "demo_eos = lib.extend wire_lib (eoslib.fields (\<lambda>n. rev (putUint64 n)) int32_bytes var_bytes (\<lambda>b. var_bytes (length b) @ b)
     (\<lambda>b. b) (\<lambda>b. b) (\<lambda>n. [char_of n])
     (\<lambda>d pos. rbind (read_at 8 d pos) (\<lambda>(b, pos). Ok (word_of_nat (le_value b), pos)))
     (\<lambda>d pos. rbind (read_at 4 d pos) (\<lambda>(b, pos). Ok (to_int32 (int (le_value b)), pos)))
     (\<lambda>d pos. rbind (var_read (drop pos d)) (\<lambda>(n, k). Ok (n, pos + k)))
     (\<lambda>d pos. rbind (read_at 1 d pos) (\<lambda>(b, pos). Ok (le_value b, pos)))
     (\<lambda>d pos. rbind (read_at 8 d pos) (\<lambda>(b, pos). Ok (word_of_nat (le_value b), pos)))
     (\<lambda>d pos. rbind (var_read (drop pos d)) (\<lambda>(n, k). read_at n d (pos + k)))
     (\<lambda>d pos. read_at 16 d pos) (\<lambda>d pos. read_at 16 d pos) (\<lambda>k d pos. read_at k d pos)
     (\<lambda>n. length (var_bytes n)) (\<lambda>s. word_of_nat (be_nat s)) (\<lambda>n. rev (dropWhile (\<lambda>c. c = CHR 0x00) (putUint64 n)))
     (\<lambda>b. b) (\<lambda>k d. Ok (take 65 (k @ replicate 65 (CHR ''0''))))
     (\<lambda>d s. Ok (take 1 s)) (\<lambda>a. if a < 0 then Panic ''integer'' else Ok (nat_bytes (nat a))) (\<lambda>b. int (be_nat b)))"

lemmas demo_eos_simps = demo_eos_def lib.defs eoslib.defs

lemma to_int32_mod: "- (2 ^ 31) \<le> i \<Longrightarrow> i < 2 ^ 31 \<Longrightarrow> to_int32 (i mod 2 ^ 32) = i"
  by (simp add: to_int32_def mod_add_left_eq)

interpretation eos: eos_codec demo_eos
proof
  fix p r :: bytes and n :: u64
  show "gUnpackUint64 demo_eos (p @ gPackUint64 demo_eos n @ r) (length p) = Ok (n, length p + length (gPackUint64 demo_eos n))"
    "gUnpackName demo_eos (p @ gPackUint64 demo_eos n @ r) (length p) = Ok (n, length p + length (gPackUint64 demo_eos n))"
    using unat_u64_less [of n] by (simp_all add: demo_eos_simps read_at_append le_value_def putUint64_def be_nat_be_bytes)
next
  fix p r :: bytes and i :: int
  assume i: "- (2 ^ 31) \<le> i" "i < 2 ^ 31"
  have "nat (i mod 2 ^ 32) < 256 ^ 4" by simp
  then have "int (le_value (int32_bytes i)) = i mod 2 ^ 32"
    by (simp add: le_value_def int32_bytes_def be_nat_be_bytes)
  with to_int32_mod [OF i] show "gUnpackInt32 demo_eos (p @ gPackInt32 demo_eos i @ r) (length p)
      = Ok (i, length p + length (gPackInt32 demo_eos i))"
    by (simp add: demo_eos_simps read_at_append int32_bytes_def)
next
  fix p r :: bytes and k :: nat
  show "gUnpackLength demo_eos (p @ gPackLength demo_eos k @ r) (length p) = Ok (k, length p + length (gPackLength demo_eos k))"
    by (simp add: demo_eos_simps var_read_bytes)
  show "length (gWriteUint8 demo_eos k) = 1" by (simp add: demo_eos_simps)
  show "gUnpackUint8 demo_eos (p @ gWriteUint8 demo_eos k @ r) (length p) = Ok (k, length p + 1)" if "k < 256"
    using that by (simp add: demo_eos_simps read_at_def le_value_def)
next
  fix p r b :: bytes and k :: nat
  show "gUnpackBytes demo_eos (p @ gPackBytes demo_eos b @ r) (length p) = Ok (b, length p + length (gPackBytes demo_eos b))"
    by (simp add: demo_eos_simps var_read_bytes read_at_def)
  show "gWriteBytes demo_eos b = b" "gPackUint128 demo_eos b = b" by (simp_all add: demo_eos_simps)
  show "gUnpackI demo_eos (p @ b @ r) (length p) = Ok (b, length p + 16)"
    "gUnpack demo_eos (p @ b @ r) (length p) = Ok (b, length p + 16)" if "length b = 16"
    using that by (simp_all add: demo_eos_simps read_at_append)
  show "gRead demo_eos k (p @ b @ r) (length p) = Ok (b, length p + k)" if "length b = k"
    using that by (simp add: demo_eos_simps read_at_append)
qed

section \<open>Logs\<close>

context eos_codec
begin

lemma log_rt:
  assumes "log_packable t"
  shows "TxLog_Unpack L (TxLog_Pack L t) = Ok (t, length (TxLog_Pack L t))"
proof -
  define i n c th ex ts where d: "i = gPackUint64 L (wl_id t)" "n = gPackUint64 L (wl_nonce t)" "c = gPackUint64 L (wl_contract t)"
    "th = gPackInt32 L (wl_threshold t)" "ex = gPackBytes L (wl_extra t)" "ts = gPackUint64 L (wl_timestamp t)"
  define p a ln ms am where d2: "p = wl_process t" "a = wl_asset t" "ln = gPackLength L (length (wl_members t))"
    "ms = concat (wl_members t)" "am = wl_amount t"
  have pk: "TxLog_Pack L t = i @ n @ c @ p @ a @ ln @ ms @ th @ am @ ex @ ts"
    by (simp add: TxLog_Pack_def packed_members raw d d2)
  note A = assms [unfolded log_packable_def]
  have len: "length p = 16" "length a = 16" "length am = 16" using A by (simp_all add: d2)
  have r1: "gUnpackUint64 L (i @ n @ c @ p @ a @ ln @ ms @ th @ am @ ex @ ts) 0 = Ok (wl_id t, length i)"
    using u64_rt [of "[]" "wl_id t" "n @ c @ p @ a @ ln @ ms @ th @ am @ ex @ ts"] by (simp add: d)
  have r2: "gUnpackUint64 L (i @ n @ c @ p @ a @ ln @ ms @ th @ am @ ex @ ts) (length i) = Ok (wl_nonce t, length (i @ n))"
    using u64_rt [of i "wl_nonce t" "c @ p @ a @ ln @ ms @ th @ am @ ex @ ts"] by (simp add: d)
  have r3: "gUnpackName L (i @ n @ c @ p @ a @ ln @ ms @ th @ am @ ex @ ts) (length (i @ n)) = Ok (wl_contract t, length (i @ n @ c))"
    using name_rt [of "i @ n" "wl_contract t" "p @ a @ ln @ ms @ th @ am @ ex @ ts"] by (simp add: d add.assoc)
  have r4: "gUnpackI L (i @ n @ c @ p @ a @ ln @ ms @ th @ am @ ex @ ts) (length (i @ n @ c)) = Ok (p, length (i @ n @ c @ p))"
    using arr_rt(1) [OF len(1), of "i @ n @ c" "a @ ln @ ms @ th @ am @ ex @ ts"] len by (simp add: add.assoc)
  have r5: "gUnpackI L (i @ n @ c @ p @ a @ ln @ ms @ th @ am @ ex @ ts) (length (i @ n @ c @ p)) = Ok (a, length (i @ n @ c @ p @ a))"
    using arr_rt(1) [OF len(2), of "i @ n @ c @ p" "ln @ ms @ th @ am @ ex @ ts"] len by (simp add: add.assoc)
  have r6: "gUnpackLength L (i @ n @ c @ p @ a @ ln @ ms @ th @ am @ ex @ ts) (length (i @ n @ c @ p @ a))
      = Ok (length (wl_members t), length (i @ n @ c @ p @ a @ ln))"
    using length_rt [of "length (wl_members t)" "i @ n @ c @ p @ a" "ms @ th @ am @ ex @ ts"] A by (simp add: d2 add.assoc)
  have r7: "unpack_n (length (wl_members t)) (gUnpackI L (i @ n @ c @ p @ a @ ln @ ms @ th @ am @ ex @ ts)) (length (i @ n @ c @ p @ a @ ln))
      = Ok (wl_members t, length (i @ n @ c @ p @ a @ ln @ ms))"
    using members_rt [of "wl_members t" "i @ n @ c @ p @ a @ ln" "th @ am @ ex @ ts"] A by (simp add: d2 add.assoc)
  have r8: "gUnpackInt32 L (i @ n @ c @ p @ a @ ln @ ms @ th @ am @ ex @ ts) (length (i @ n @ c @ p @ a @ ln @ ms))
      = Ok (wl_threshold t, length (i @ n @ c @ p @ a @ ln @ ms @ th))"
    using int32_rt [of "wl_threshold t" "i @ n @ c @ p @ a @ ln @ ms" "am @ ex @ ts"] A by (simp add: d add.assoc)
  have r9: "gUnpackI L (i @ n @ c @ p @ a @ ln @ ms @ th @ am @ ex @ ts) (length (i @ n @ c @ p @ a @ ln @ ms @ th))
      = Ok (am, length (i @ n @ c @ p @ a @ ln @ ms @ th @ am))"
    using arr_rt(1) [OF len(3), of "i @ n @ c @ p @ a @ ln @ ms @ th" "ex @ ts"] len by (simp add: add.assoc)
  have r10: "gUnpackBytes L (i @ n @ c @ p @ a @ ln @ ms @ th @ am @ ex @ ts) (length (i @ n @ c @ p @ a @ ln @ ms @ th @ am))
      = Ok (wl_extra t, length (i @ n @ c @ p @ a @ ln @ ms @ th @ am @ ex))"
    using bytes_rt [of "wl_extra t" "i @ n @ c @ p @ a @ ln @ ms @ th @ am" ts] A by (simp add: d add.assoc)
  have r11: "gUnpackUint64 L (i @ n @ c @ p @ a @ ln @ ms @ th @ am @ ex @ ts) (length (i @ n @ c @ p @ a @ ln @ ms @ th @ am @ ex))
      = Ok (wl_timestamp t, length (i @ n @ c @ p @ a @ ln @ ms @ th @ am @ ex @ ts))"
    using u64_rt [of "i @ n @ c @ p @ a @ ln @ ms @ th @ am @ ex" "wl_timestamp t" "[]"] by (simp add: d add.assoc)
  show ?thesis unfolding TxLog_Unpack_def pk r1 rbind.simps prod.case r2 r3 r4 r5 r6 r7 r8 r9 r10 r11 by (simp add: d2)
qed

text \<open>The bytes an engine signs are the data of the action without its signatures and their count.\<close>

lemma signed_bytes:
  assumes "\<forall>s \<in> set (w_signatures t). length s = 65"
  shows "signed_part (TxEvent_Pack L t) (length (TxEvent_Pack L t)) (length (w_signatures t)) = Ok (TxEvent_PackWithoutSignatures L t)"
proof -
  have "\<forall>s \<in> set ss. length s = 65 \<Longrightarrow> length (concat (map (\<lambda>s. gWriteUint8 L 0 @ gWriteBytes L s) ss)) = length ss * 66" for ss
    by (induction ss) (simp_all add: uint8_one raw)
  from this [OF assms]
  have "length (concat (map (\<lambda>s. gWriteUint8 L 0 @ gWriteBytes L s) (w_signatures t))) = length (w_signatures t) * 66" .
  moreover have "TxEvent_Pack L t = TxEvent_PackWithoutSignatures L t @ gWriteUint8 L (length (w_signatures t) mod 256)
      @ concat (map (\<lambda>s. gWriteUint8 L 0 @ gWriteBytes L s) (w_signatures t))"
    by (simp add: TxEvent_Pack_def TxEvent_PackWithoutSignatures_def)
  ultimately show ?thesis by (simp add: signed_part_def uint8_one)
qed

end

section \<open>Amounts and identifiers that come back\<close>

lemma le_value_Cons: "le_value (c # cs) = of_char c + 256 * le_value cs"
  by (simp add: le_value_def be_nat_snoc)

lemma le_value_zeros: "le_value (replicate k (CHR 0x00)) = 0"
  by (induction k) (simp_all add: le_value_Cons, simp add: le_value_def)

lemma le_value_copy: "le_value (copy_into k xs) = le_value xs mod 256 ^ k"
proof (induction xs arbitrary: k)
  case Nil
  then show ?case by (simp add: copy_into_def le_value_zeros, simp add: le_value_def)
next
  case (Cons c cs)
  show ?case
  proof (cases k)
    case (Suc j)
    have "copy_into (Suc j) (c # cs) = c # copy_into j cs"
      by (simp add: copy_into_def min_def flip: replicate_Suc)
    moreover have "(of_char c + 256 * le_value cs) mod (256 * 256 ^ j) = of_char c + 256 * (le_value cs mod 256 ^ j)"
      using mod_mult2_eq [of "of_char c + 256 * le_value cs" 256 "256 ^ j"] by simp
    ultimately show ?thesis using Cons.IH [of j] Suc by (simp add: le_value_Cons)
  qed (simp add: copy_into_def le_value_def)
qed

text \<open>\<open>MarshalMsgpack\<close> gives the big-endian magnitude of an amount and \<open>UnmarshalMsgpack\<close> reads it.\<close>

locale amount_bytes =
  fixes L :: "'z eoslib_scheme"
  assumes unmarshal: "integerUnmarshal L b = int (be_nat b)"
    and marshal: "integerMarshal L a = Ok b \<Longrightarrow> 0 \<le> a \<and> be_nat b = nat a"
begin

lemma amount_back:
  assumes "integerMarshal L a = Ok b"
  shows "integerUnmarshal L (reverseBytes (copy_into 16 (reverseBytes b))) = a mod 2 ^ 128"
proof -
  have "be_nat (rev (copy_into 16 (rev b))) = be_nat b mod 256 ^ 16"
    using le_value_copy [of 16 "rev b"] by (simp add: le_value_def)
  then show ?thesis using marshal [OF assms] by (simp add: reverseBytes_def unmarshal of_nat_mod)
qed

end

interpretation eos: amount_bytes demo_eos
  by unfold_locales (auto simp: demo_eos_simps be_nat_nat_bytes split: if_splits)

lemma uuid_back:
  assumes "codec L" "canonical_uuid L i" "uuidToBytes L i = Ok u"
  shows "bytesToUUID L (copy_into 16 u) = Ok i"
  using assms codec.uuid_length [OF assms(1)] codec.uuid_bytes [OF assms(1)]
  by (auto simp: uuidToBytes_def bytesToUUID_def canonical_uuid_def copy_into_def)

lemma uuids_back:
  assumes "codec L" "list_all (canonical_uuid L) is" "rmap (uuidToBytes L) is = Ok us"
  shows "rmap (bytesToUUID L) (map (copy_into 16) us) = Ok is"
  using assms(2,3) by (induction "is" arbitrary: us) (auto simp: uuid_back [OF assms(1)])

section \<open>Properties\<close>

text \<open>The engine reads back every log that the chain packs: \<open>Unpack\<close> of \<open>Pack\<close> gives the log and the size of
  the data, which is what \<open>ParseTxLogFromActionTrace\<close> checks.\<close>

theorem tx_log_roundtrip:
  assumes "eos_codec L" and "log_packable t"
  shows "TxLog_Unpack L (TxLog_Pack L t) = Ok (t, length (TxLog_Pack L t))"
  by (rule eos_codec.log_rt [OF assms])

definition demo_log :: wtx_log where
  "demo_log = \<lparr>wl_id = 0, wl_nonce = 1, wl_contract = 97, wl_process = replicate 16 (CHR ''p''), wl_asset = replicate 16 (CHR ''a''),
     wl_members = [replicate 16 (CHR ''m'')], wl_threshold = 1, wl_amount = CHR 0x05 # replicate 15 (CHR 0x00), wl_extra = ''memo'',
     wl_timestamp = 9\<rparr>"

theorem tx_log_roundtrip_witness: "TxLog_Unpack demo_eos (TxLog_Pack demo_eos demo_log) = Ok (demo_log, length (TxLog_Pack demo_eos demo_log))"
  by (rule tx_log_roundtrip [OF eos.eos_codec_axioms]) (simp add: log_packable_def demo_log_def)

text \<open>C30: a withdrawal comes back as it was sent. When a contract answers an event with a log that carries the arrays of
  the event, as dappdemo does, the machine gets an event with the process, asset, members and threshold it sent, and
  with its amount, up to 128 bits: a larger amount comes back reduced modulo two to the 128th, which the code marks
  as to be fixed.\<close>

theorem event_comes_back:
  assumes "codec L" and "amount_bytes L" and "convertEventToTxEvent L evt = Ok t"
    and "list_all (canonical_uuid L) (e_Process evt # e_Asset evt # e_Members evt)"
    and "- (2 ^ 31) \<le> e_Threshold evt" and "e_Threshold evt < 2 ^ 31"
    and "wl_process l = w_process t" and "wl_asset l = w_asset t" and "wl_members l = w_members t"
    and "wl_threshold l = w_threshold t" and "wl_amount l = w_amount t"
  shows "\<exists>back. convertTxLogToEvent L l = Ok back \<and> e_Process back = e_Process evt \<and> e_Asset back = e_Asset evt
     \<and> e_Members back = e_Members evt \<and> e_Threshold back = e_Threshold evt \<and> e_Amount back = e_Amount evt mod 2 ^ 128
     \<and> e_Extra back = take 128 (wl_extra l) \<and> e_Nonce back = wl_nonce l"
proof -
  from assms(3) obtain p a ms b where d: "uuidToBytes L (e_Process evt) = Ok p" "uuidToBytes L (e_Asset evt) = Ok a"
    "rmap (uuidToBytes L) (e_Members evt) = Ok ms" "integerMarshal L (e_Amount evt) = Ok b"
    and t: "w_process t = copy_into 16 p" "w_asset t = copy_into 16 a" "w_members t = map (copy_into 16) ms"
      "w_threshold t = to_int32 (e_Threshold evt)" "w_amount t = copy_into 16 (reverseBytes b)"
    by (auto simp: convertEventToTxEvent_def)
  have "to_int32 (e_Threshold evt) = e_Threshold evt" using assms(5,6) by (simp add: to_int32_def)
  with uuid_back [OF assms(1) _ d(1)] uuid_back [OF assms(1) _ d(2)] uuids_back [OF assms(1) _ d(3)] assms(4)
    amount_bytes.amount_back [OF assms(2) d(4)]
  show ?thesis by (simp add: convertTxLogToEvent_def assms(7-11) t del: rbind_Ok_iff)
qed

lemma demo_eos_uuid: "uuidFromString demo_eos = uuid_parse" "uuidString demo_eos = uuid_text"
  "integerMarshal demo_eos 12345 = Ok (nat_bytes 12345)"
  by (simp_all add: demo_eos_simps wire_lib_def)

lemma demo_eos_canonical: "length u = 16 \<Longrightarrow> canonical_uuid demo_eos (uuid_text u)"
  by (simp add: canonical_uuid_def demo_eos_uuid uuid_parse_text)

theorem event_comes_back_witness:
  "\<exists>t back. convertEventToTxEvent demo_eos (demo_wire_event\<lparr>e_Nonce := 1\<rparr>) = Ok t
     \<and> convertTxLogToEvent demo_eos (demo_log\<lparr>wl_process := w_process t, wl_asset := w_asset t, wl_members := w_members t,
          wl_threshold := w_threshold t, wl_amount := w_amount t\<rparr>) = Ok back
     \<and> e_Amount back = 12345 \<and> e_Members back = e_Members demo_wire_event"
proof -
  let ?e = "demo_wire_event\<lparr>e_Nonce := 1\<rparr>"
  have codec: "codec demo_eos" using wire.codec_axioms by (simp add: demo_eos_simps codec_def)
  have can: "list_all (canonical_uuid demo_eos) (e_Process ?e # e_Asset ?e # e_Members ?e)"
    by (simp add: demo_wire_event_def demo_eos_canonical)
  obtain t where t: "convertEventToTxEvent demo_eos ?e = Ok t"
    by (simp add: convertEventToTxEvent_def demo_wire_event_def uuidToBytes_def demo_eos_uuid uuid_parse_text del: rbind_Ok_iff)
  let ?l = "demo_log\<lparr>wl_process := w_process t, wl_asset := w_asset t, wl_members := w_members t,
          wl_threshold := w_threshold t, wl_amount := w_amount t\<rparr>"
  have "\<exists>back. convertTxLogToEvent demo_eos ?l = Ok back \<and> e_Process back = e_Process ?e \<and> e_Asset back = e_Asset ?e
     \<and> e_Members back = e_Members ?e \<and> e_Threshold back = e_Threshold ?e \<and> e_Amount back = e_Amount ?e mod 2 ^ 128
     \<and> e_Extra back = take 128 (wl_extra ?l) \<and> e_Nonce back = wl_nonce ?l"
    by (rule event_comes_back [OF codec eos.amount_bytes_axioms t can]) (simp_all add: demo_wire_event_def)
  with t show ?thesis by (auto simp: demo_wire_event_def)
qed

end
