(* ===== verification/Eos_Engine_Laws.thy ===== *)
theory Eos_Engine_Laws
  imports Eos_Engine Eos_Wire_Laws Machine_Laws
begin

text \<open>
  The EOS engine: what it signs passes the check of the contracts; its queues keep the contract of \<open>event_engine\<close>
  when the accounts are the ordinary ones of 12 characters, and mix when one name begins another; and a pull of the
  contracts' requests stores them without gaps, also after the node was started from a new snapshot.
\<close>

section \<open>Signatures\<close>

lemma sig_chunks_concat: "\<forall>s \<in> set ss. length s = 65 \<Longrightarrow> sig_chunks (concat ss) = ss"
proof (induction ss)
  case (Cons s ss)
  have len: "length (concat ss) = length ss * 65" if "\<forall>s \<in> set ss. length s = 65" for ss :: "bytes list"
    using that by (induction ss) auto
  have n: "length (concat (s # ss)) div 65 = Suc (length ss)" using len [of ss] Cons.prems by simp
  have sh: "take 65 (drop (Suc i * 65) (s @ concat ss)) = take 65 (drop (i * 65) (concat ss))" for i
    using Cons.prems by simp
  have "sig_chunks (concat (s # ss)) = take 65 (drop (0 * 65) (s @ concat ss))
      # map (\<lambda>i. take 65 (drop (Suc i * 65) (s @ concat ss))) [0..<length ss]"
    unfolding sig_chunks_def n map_upt_Suc by simp
  also have "\<dots> = s # sig_chunks (concat ss)"
    unfolding sh using Cons.prems len [of ss] by (simp add: sig_chunks_def)
  finally show ?case using Cons by simp
qed (simp add: sig_chunks_def)

text \<open>The signed bytes do not depend on the signatures of the event.\<close>

lemma convert_signature:
  "convertEventToTxEvent L (evt\<lparr>e_Signature := s\<rparr>) = Ok t \<Longrightarrow> \<exists>t0. convertEventToTxEvent L evt = Ok t0 \<and>
     TxEvent_PackWithoutSignatures L t = TxEvent_PackWithoutSignatures L t0 \<and> w_signatures t = sig_chunks (slice_bytes s)"
  by (auto simp: convertEventToTxEvent_def TxEvent_PackWithoutSignatures_def)

section \<open>The queues\<close>

definition eos_account :: "string \<Rightarrow> bool" where
  "eos_account a \<longleftrightarrow> length a = 12"

lemmas eos_keys = eosContractEventKey_def eosGroupEventKey_def uint64Bytes_def prefixEosContractNotifier_def
  prefixEosContractLogOffset_def prefixEosContractEventQueue_def prefixEosGroupEventQueue_def prefixTxRequestNonce_def

interpretation eos_contractq: nonce_queue "\<lambda>a. prefixEosContractEventQueue @ a" eosContractEventKey eos_account
proof
  show "eosContractEventKey a n = (prefixEosContractEventQueue @ a) @ putUint64 n" for a n
    by (simp add: eosContractEventKey_def uint64Bytes_def)
  show "a = b" if "eos_account a" "eos_account b"
    "has_prefix (prefixEosContractEventQueue @ a) (eosContractEventKey b n)" for a b n
    using that by (auto simp: eos_keys eos_account_def has_prefix_def)
qed

interpretation eos_groupq: nonce_queue "\<lambda>a. prefixEosGroupEventQueue @ a" eosGroupEventKey eos_account
proof
  show "eosGroupEventKey a n = (prefixEosGroupEventQueue @ a) @ putUint64 n" for a n
    by (simp add: eosGroupEventKey_def uint64Bytes_def)
  show "a = b" if "eos_account a" "eos_account b"
    "has_prefix (prefixEosGroupEventQueue @ a) (eosGroupEventKey b n)" for a b n
    using that by (auto simp: eos_keys eos_account_def has_prefix_def)
qed

lemma eos_key_neq [simp]:
  "eosContractEventKey a n \<noteq> eosGroupEventKey b m" "eosGroupEventKey b m \<noteq> eosContractEventKey a n"
  "eosContractEventKey a n \<noteq> prefixEosContractLogOffset @ b" "prefixEosContractLogOffset @ b \<noteq> eosContractEventKey a n"
  "eosContractEventKey a n \<noteq> prefixTxRequestNonce" "prefixTxRequestNonce \<noteq> eosContractEventKey a n"
  "prefixTxRequestNonce \<noteq> prefixEosContractLogOffset @ b" "prefixEosContractLogOffset @ b \<noteq> prefixTxRequestNonce"
  by (simp_all add: eos_keys)

lemma eos_no_prefix [simp]: "\<not> has_prefix (prefixEosContractEventQueue @ a) (eosGroupEventKey b n)"
  by (simp add: eos_keys has_prefix_def)

definition edb_ok :: "store \<Rightarrow> bool" where
  "edb_ok s \<longleftrightarrow> db_ok s
     \<and> only_queue_keys (\<lambda>a. prefixEosContractEventQueue @ a) eosContractEventKey eos_account s
     \<and> only_queue_keys (\<lambda>a. prefixEosGroupEventQueue @ a) eosGroupEventKey eos_account s
     \<and> typed_queue eosContractEventKey eos_account s \<and> typed_queue eosGroupEventKey eos_account s"

lemma edb_ok_group:
  assumes "edb_ok s" "eos_account a"
  shows "edb_ok (s\<lparr>kvs := kv_set (eosGroupEventKey a (e_Nonce e)) (JEvent e) (kvs s)\<rparr>)"
  using assms eos_groupq.only_queue_keys_set [of s a "e_Nonce e" "JEvent e"]
    eos_contractq.only_queue_keys_other [of s "eosGroupEventKey a (e_Nonce e)" "JEvent e"]
  by (auto simp: edb_ok_def typed_queue_def eos_groupq.key_inj)

lemma eos_write_group_event_Ok [simp]:
  "eos_write_group_event a s e = Ok t \<longleftrightarrow> io s (IoGet (eosGroupEventKey a (e_Nonce e))) = None \<and>
     (if db_lookup s (eosGroupEventKey a (e_Nonce e)) = None
      then io s (IoSet (eosGroupEventKey a (e_Nonce e))) = None
        \<and> t = s\<lparr>kvs := kv_set (eosGroupEventKey a (e_Nonce e)) (JEvent e) (kvs s)\<rparr>
      else t = s)"
  by (auto simp: eos_write_group_event_def)

lemma eos_write_group_event_keeps:
  "eos_write_group_event a s e = Ok t \<Longrightarrow> db_lookup s k = Some v \<Longrightarrow> db_lookup t k = Some v"
  by (auto split: if_splits)

lemma eos_write_group_event_adds:
  "eos_write_group_event a s e = Ok t \<Longrightarrow> db_lookup t (eosGroupEventKey a (e_Nonce e)) \<noteq> None"
  by (auto split: if_splits)

lemma eos_writes_add:
  "rfold (eos_write_group_event a) s es = Ok t \<Longrightarrow> e \<in> set es \<Longrightarrow> db_lookup t (eosGroupEventKey a (e_Nonce e)) \<noteq> None"
proof (induction es arbitrary: s)
  case (Cons x es)
  then obtain u where u: "eos_write_group_event a s x = Ok u" and r: "rfold (eos_write_group_event a) u es = Ok t"
    by (auto simp del: eos_write_group_event_Ok)
  show ?case
  proof (cases "e = x")
    case True
    obtain v where v: "db_lookup u (eosGroupEventKey a (e_Nonce x)) = Some v" using eos_write_group_event_adds [OF u] by blast
    have "db_lookup t (eosGroupEventKey a (e_Nonce x)) = Some v"
      by (rule rfold_invariant [where P = "\<lambda>t. db_lookup t (eosGroupEventKey a (e_Nonce x)) = Some v", OF _ v r])
        (blast intro: eos_write_group_event_keeps)
    with True show ?thesis by simp
  qed (use Cons r in auto)
qed simp

lemma Eos_storeWriteGroupEvents_laws:
  assumes "Eos_storeWriteGroupEvents s a es = Ok t" "edb_ok s" "eos_account a"
  shows "edb_ok t" "\<And>k v. db_lookup s k = Some v \<Longrightarrow> db_lookup t k = Some v"
    "\<And>e. e \<in> set es \<Longrightarrow> db_lookup t (eosGroupEventKey a (e_Nonce e)) \<noteq> None"
proof -
  have run: "rfold (eos_write_group_event a) s es = Ok t" using assms(1) by (simp add: Eos_storeWriteGroupEvents_def)
  show "edb_ok t"
    by (rule rfold_invariant [where P = edb_ok, OF _ assms(2) run]) (auto simp: edb_ok_group assms(3) split: if_splits)
  show "db_lookup s k = Some v \<Longrightarrow> db_lookup t k = Some v" for k v
    by (rule rfold_invariant [where P = "\<lambda>t. db_lookup t k = Some v", OF _ _ run]) (blast intro: eos_write_group_event_keeps)+
  show "e \<in> set es \<Longrightarrow> db_lookup t (eosGroupEventKey a (e_Nonce e)) \<noteq> None" for e by (rule eos_writes_add [OF run])
qed

lemma eos_events_listed:
  assumes "edb_ok s" "eos_account a" "0 < mx" "Eos_storeListContractEvents s a off mx = Ok es"
  shows "sorted_wrt (<) (map e_Nonce es)
     \<and> (\<forall>e \<in> set es. off \<le> e_Nonce e \<and> stored_event eosContractEventKey s a (e_Nonce e) = Some e)"
proof -
  have "(mx \<le> int n) = (n = nat mx)" if "n \<le> nat mx" for n using that assms(3) by linarith
  then show ?thesis using assms(4) unfolding Eos_storeListContractEvents_def
    by (intro eos_contractq.listed_in_order [where mx = "nat mx"]) (use assms(1-3) in \<open>auto simp: edb_ok_def as_event_def\<close>)
qed

section \<open>The engine's contract\<close>

definition eengine_ok :: "eengine \<Rightarrow> bool" where
  "eengine_ok e \<longleftrightarrow> edb_ok (n_db e)"

definition eos_outgoing :: "eengine \<Rightarrow> string \<Rightarrow> u64 \<Rightarrow> event option" where
  "eos_outgoing e = stored_event eosGroupEventKey (n_db e)"

definition eos_incoming :: "eengine \<Rightarrow> string \<Rightarrow> u64 \<Rightarrow> event option" where
  "eos_incoming e = stored_event eosContractEventKey (n_db e)"

text \<open>A chain on which the accounts with a last code update have the ordinary names, of 12 characters.\<close>

locale eos_accounts =
  fixes N :: eos_node
  assumes account_length: "nd_GetAccount N a = Ok (Ok u) \<Longrightarrow> eos_account a"

sublocale eos_accounts \<subseteq> event_engine "eos_ops K N tm" eengine_ok eos_account eos_outgoing eos_incoming
proof
  show "VerifyAddress (eos_ops K N tm) e a x = Ok u \<Longrightarrow> eos_account a" for e a x u
    by (auto simp: eos_ops_def Eos_VerifyAddress_def account_length split: if_splits)
next
  fix e a es e'
  assume "eengine_ok e" "eos_account a" "EnsureSendGroupEvents (eos_ops K N tm) e a es = Ok e'"
  then obtain s where s: "Eos_storeWriteGroupEvents (n_db e) a es = Ok s" "e' = e\<lparr>n_db := s\<rparr>" "edb_ok (n_db e)" "eos_account a"
    by (auto simp: eos_ops_def Eos_EnsureSendGroupEvents_def eengine_ok_def)
  note w = Eos_storeWriteGroupEvents_laws [OF s(1,3,4)]
  show "eengine_ok e'" using w(1) by (simp add: eengine_ok_def s(2))
  show "eos_outgoing e' a (e_Nonce ev) \<noteq> None" if ev: "ev \<in> set es" for ev
  proof -
    obtain v where "db_lookup s (eosGroupEventKey a (e_Nonce ev)) = Some v" using w(3) [OF ev] by blast
    then show ?thesis using stored_event_typed(1) [of eosGroupEventKey eos_account s a] w(1) s(4)
      by (simp add: eos_outgoing_def s(2) edb_ok_def)
  qed
  show "eos_outgoing e' b n = Some ev" if "eos_outgoing e b n = Some ev" for b n ev
    using that w(2) [of "eosGroupEventKey b n"]
    by (auto simp: eos_outgoing_def stored_event_def s(2) split: option.splits dbval.splits)
next
  fix e a and mx :: int and off es
  assume "eengine_ok e" "eos_account a" "0 < mx" "ReceiveGroupEvents (eos_ops K N tm) e a off mx = Ok es"
  then show "sorted_wrt (<) (map e_Nonce es)
     \<and> (\<forall>ev \<in> set es. off \<le> e_Nonce ev \<and> eos_incoming e a (e_Nonce ev) = Some ev)"
    using eos_events_listed [of "n_db e" a mx off es]
    by (simp add: eos_ops_def Eos_ReceiveGroupEvents_def eengine_ok_def eos_incoming_def)
qed

context eos_accounts
begin

lemma eos_engine: "event_engine (eos_ops K N tm) eengine_ok eos_account eos_outgoing eos_incoming"
  by unfold_locales

end

section \<open>Pulling the requests\<close>

text \<open>What the engine reads of an entry \<open>a\<close> of the history with the log \<open>l\<close>, whose identifier is \<open>i\<close>.\<close>

definition served :: "'z eoslib_scheme \<Rightarrow> eengine \<Rightarrow> action_trace \<Rightarrow> wtx_log \<Rightarrow> u64 \<Rightarrow> bool" where
  "served L e a l i \<longleftrightarrow> at_object a \<and> ParseTxLogFromActionTrace L e a = Ok l \<and> wl_id l = i
     \<and> (\<exists>b. at_block_num a = Ok b) \<and> (\<exists>q. at_account_action_seq a = Ok q)
     \<and> (\<exists>g. at_global_action_seq a = Ok g \<and> n_actionStartSequence e \<le> g) \<and> (\<exists>evt. convertTxLogToEvent L l = Ok evt)"

definition irreversible :: "chain_info \<Rightarrow> action_trace \<Rightarrow> bool" where
  "irreversible info a \<longleftrightarrow> (case at_block_num a of Ok b \<Rightarrow> \<not> ci_LastIrreversibleBlockNum info < ucast b | _ \<Rightarrow> False)"

definition seq_of :: "action_trace \<Rightarrow> u64" where
  "seq_of a = (case at_account_action_seq a of Ok q \<Rightarrow> q | _ \<Rightarrow> 0)"

definition log_stored :: "'z eoslib_scheme \<Rightarrow> store \<Rightarrow> wtx_log \<Rightarrow> bool" where
  "log_stored L s l \<longleftrightarrow> db_lookup s (eosContractEventKey (gNameString L (wl_contract l)) (wl_nonce l)) \<noteq> None"

lemma ParseTxLog_db [simp]: "ParseTxLogFromActionTrace L (e\<lparr>n_db := s\<rparr>) a = ParseTxLogFromActionTrace L e a"
  by (simp add: ParseTxLogFromActionTrace_def check_trace_def cong: if_cong)

lemma served_db [simp]: "served L (e\<lparr>n_db := s\<rparr>) a l i = served L e a l i"
  by (simp add: served_def)

lemma convert_nonce: "convertTxLogToEvent L l = Ok evt \<Longrightarrow> e_Nonce evt = wl_nonce l"
  by (auto simp: convertTxLogToEvent_def)

lemma write_contract_event:
  assumes "no_fault s"
  shows "\<exists>t. Eos_storeWriteContractEvent s a evt = Ok t \<and> no_fault t \<and> (\<forall>k v. db_lookup s k = Some v \<longrightarrow> db_lookup t k = Some v)
     \<and> db_lookup t (eosContractEventKey a (e_Nonce evt)) \<noteq> None
     \<and> (\<forall>k. db_lookup t k \<noteq> db_lookup s k \<longrightarrow> k = eosContractEventKey a (e_Nonce evt))"
proof (cases "db_lookup s (eosContractEventKey a (e_Nonce evt)) = None")
  case True
  with assms show ?thesis
    by (intro exI [of _ "s\<lparr>kvs := kv_set (eosContractEventKey a (e_Nonce evt)) (JEvent evt) (kvs s)\<rparr>"])
      (auto simp: Eos_storeWriteContractEvent_def no_fault_def)
next
  case False
  with assms show ?thesis by (intro exI [of _ s]) (auto simp: Eos_storeWriteContractEvent_def no_fault_def)
qed

text \<open>The loop on entries that are served in order: it stops at the first reversible one.\<close>

lemma parse_loop:
  assumes "length ls = length xs" "\<forall>j < length xs. served L e (xs ! j) (ls ! j) (idx + of_nat j)" "no_fault (n_db e)"
    "n_lastChainInfo e = Some info" "m = length (takeWhile (irreversible info) xs)"
  shows "\<exists>s. parse_actions_loop L e i idx lst cnt xs
        = Ok (e\<lparr>n_db := s\<rparr>, Some (idx + of_nat m, if m = 0 then lst else seq_of (xs ! (m - 1)), cnt + m))
     \<and> no_fault s \<and> (\<forall>k v. db_lookup (n_db e) k = Some v \<longrightarrow> db_lookup s k = Some v) \<and> (\<forall>j < m. log_stored L s (ls ! j))
     \<and> (\<forall>k. (\<forall>a n. k \<noteq> eosContractEventKey a n) \<longrightarrow> db_lookup s k = db_lookup (n_db e) k)"
  using assms
proof (induction xs arbitrary: ls e i idx lst cnt m)
  case Nil
  then show ?case by (intro exI [of _ "n_db e"]) simp
next
  case (Cons a xs)
  then obtain l ls' where ls: "ls = l # ls'" "length ls' = length xs" by (cases ls) auto
  have sv: "served L e a l idx" using Cons.prems(2) ls by auto
  then obtain b q g evt where f: "at_object a" "ParseTxLogFromActionTrace L e a = Ok l" "wl_id l = idx" "at_block_num a = Ok b"
    "at_account_action_seq a = Ok q" "at_global_action_seq a = Ok g" "\<not> g < n_actionStartSequence e"
    "convertTxLogToEvent L l = Ok evt" by (auto simp: served_def not_less)
  have info: "GetLatestChainInfo e = Ok info" using Cons.prems(4) by (simp add: GetLatestChainInfo_def)
  show ?case
  proof (cases "irreversible info a")
    case False
    then have "ci_LastIrreversibleBlockNum info < ucast b" by (simp add: irreversible_def f)
    with f info Cons.prems(5) False show ?thesis by (intro exI [of _ "n_db e"]) (use Cons.prems(3) in simp)
  next
    case True
    then have nl: "\<not> ci_LastIrreversibleBlockNum info < ucast b" by (simp add: irreversible_def f)
    obtain s1 where s1: "Eos_storeWriteContractEvent (n_db e) (gNameString L (wl_contract l)) evt = Ok s1" "no_fault s1"
      "\<forall>k v. db_lookup (n_db e) k = Some v \<longrightarrow> db_lookup s1 k = Some v" "log_stored L s1 l"
      "\<forall>k. (\<forall>a n. k \<noteq> eosContractEventKey a n) \<longrightarrow> db_lookup s1 k = db_lookup (n_db e) k"
      using write_contract_event [OF Cons.prems(3)] convert_nonce [OF f(8)] unfolding log_stored_def by metis
    obtain m' where m': "m = Suc m'" "m' = length (takeWhile (irreversible info) xs)" using Cons.prems(5) True by simp
    have srv: "\<forall>j < length xs. served L (e\<lparr>n_db := s1\<rparr>) (xs ! j) (ls' ! j) (idx + 1 + of_nat j)"
    proof (intro allI impI)
      fix j assume "j < length xs"
      with Cons.prems(2) ls have "served L e ((a # xs) ! Suc j) (ls ! Suc j) (idx + of_nat (Suc j))"
        by (metis Suc_mono length_Cons)
      then show "served L (e\<lparr>n_db := s1\<rparr>) (xs ! j) (ls' ! j) (idx + 1 + of_nat j)" by (simp add: ls add.assoc)
    qed
    have step: "parse_actions_loop L e i idx lst cnt (a # xs) = parse_actions_loop L (e\<lparr>n_db := s1\<rparr>) (Suc i) (idx + 1) q (Suc cnt) xs"
      using f info nl s1(1) by simp
    obtain s where s: "parse_actions_loop L (e\<lparr>n_db := s1\<rparr>) (Suc i) (idx + 1) q (Suc cnt) xs
        = Ok (e\<lparr>n_db := s1, n_db := s\<rparr>, Some (idx + 1 + of_nat m', if m' = 0 then q else seq_of (xs ! (m' - 1)), Suc cnt + m'))"
      "no_fault s" "\<forall>k v. db_lookup s1 k = Some v \<longrightarrow> db_lookup s k = Some v" "\<forall>j < m'. log_stored L s (ls' ! j)"
      "\<forall>k. (\<forall>a n. k \<noteq> eosContractEventKey a n) \<longrightarrow> db_lookup s k = db_lookup s1 k"
      using Cons.IH [OF ls(2) srv _ _ m'(2), of "Suc i" q "Suc cnt"] s1(2) Cons.prems(4) by auto
    have "log_stored L s l" using s1(4) s(3) by (auto simp: log_stored_def)
    then have "\<forall>j < m. log_stored L s (ls ! j)" using s(4) by (auto simp: ls m' less_Suc_eq_0_disj)
    moreover have "(if m' = 0 then q else seq_of (xs ! (m' - 1))) = (if m = 0 then lst else seq_of ((a # xs) ! (m - 1)))"
      by (cases m') (simp_all add: m'(1) seq_of_def f)
    ultimately show ?thesis unfolding step using s s1 m'(1) by (intro exI [of _ s]) (simp add: add.assoc)
  qed
qed

text \<open>A node that serves a consistent history: entry \<open>j\<close> has the sequence number \<open>j\<close> and the log with the identifier
  \<open>b + j\<close>. A node started from a snapshot has a base \<open>b\<close> above 0.\<close>

definition history :: "'z eoslib_scheme \<Rightarrow> eos_node \<Rightarrow> eengine \<Rightarrow> u64 \<Rightarrow> action_trace list \<Rightarrow> wtx_log list \<Rightarrow> bool" where
  "history L N e b hist logs \<longleftrightarrow> length logs = length hist \<and> unat b + length hist < 2 ^ 64
     \<and> (\<forall>j < length hist. served L e (hist ! j) (logs ! j) (b + of_nat j) \<and> at_account_action_seq (hist ! j) = Ok (of_nat j))
     \<and> (\<forall>off mx. nd_GetActions N (n_mixinContract e) off mx = Ok (Ok (take mx (drop (unat off) hist))))
     \<and> GetTxRequestsCount N e = Ok (b + of_nat (length hist))"

lemma historyD:
  assumes "history L N e b hist logs"
  shows "length logs = length hist" "unat b + length hist < 2 ^ 64"
    "\<And>j. j < length hist \<Longrightarrow> served L e (hist ! j) (logs ! j) (b + of_nat j)"
    "\<And>j. j < length hist \<Longrightarrow> at_account_action_seq (hist ! j) = Ok (of_nat j)"
    "\<And>off mx. nd_GetActions N (n_mixinContract e) off mx = Ok (Ok (take mx (drop (unat off) hist)))"
    "GetTxRequestsCount N e = Ok (b + of_nat (length hist))"
  using assms by (simp_all add: history_def)

lemma u64_offset:
  assumes "unat (b :: u64) + n < 2 ^ 64" "j \<le> n"
  shows "unat (b + of_nat j) = unat b + j" "unat (of_nat j :: u64) = j"
proof -
  have "j < 2 ^ 64" using assms by simp
  then show j: "unat (of_nat j :: u64) = j" by (simp add: unat_of_nat)
  then show "unat (b + of_nat j) = unat b + j" using assms by (simp add: unat_word_ariths)
qed

lemma read_counters:
  assumes "no_fault s"
  shows "db_lookup s prefixTxRequestNonce = Some (Raw (uint64Bytes n)) \<Longrightarrow> storeReadTxRequestNonce s = Ok n"
    "db_lookup s (prefixEosContractLogOffset @ a) = Some (Raw (uint64Bytes n)) \<Longrightarrow> Eos_storeReadContractLogsOffset s a = Ok n"
  using assms by (simp_all add: storeReadTxRequestNonce_def Eos_storeReadContractLogsOffset_def read_opt_def no_fault_simps
      as_bytes_def uint64Bytes_def del: rbind_Ok_iff)

text \<open>The writes after the loop.\<close>

lemma parseActions_writes:
  assumes run: "parse_actions_loop L e 0 idx 0 0 xs = Ok (e\<lparr>n_db := s\<rparr>, Some (idx', lst, m))" "no_fault s" "0 < m"
  shows "\<exists>t. parseActions L e idx xs = Ok (m, False, e\<lparr>n_db := t\<rparr>) \<and> no_fault t
     \<and> storeReadTxRequestNonce t = Ok idx' \<and> Eos_storeReadContractLogsOffset t (n_mixinContract e) = Ok (lst + 1)
     \<and> (\<forall>l. log_stored L s l \<longrightarrow> log_stored L t l)"
proof -
  let ?s1 = "s\<lparr>kvs := kv_set prefixTxRequestNonce (Raw (uint64Bytes idx')) (kvs s)\<rparr>"
  let ?t = "?s1\<lparr>kvs := kv_set (prefixEosContractLogOffset @ n_mixinContract e) (Raw (uint64Bytes (lst + 1))) (kvs ?s1)\<rparr>"
  have w: "storeWriteTxRequestNonce s idx' = Ok ?s1"
    "Eos_storeWriteContractLogsOffset ?s1 (n_mixinContract e) (lst + 1) = Ok ?t"
    using run(2) by (simp_all add: storeWriteTxRequestNonce_def Eos_storeWriteContractLogsOffset_def no_fault_def)
  have "parseActions L e idx xs = Ok (m, False, e\<lparr>n_db := ?t\<rparr>)"
    using run(1,3) w by (simp add: parseActions_def ignore_error_def del: rbind_Ok_iff)
  moreover have nf: "no_fault ?t" using run(2) by simp
  moreover have "storeReadTxRequestNonce ?t = Ok idx'" "Eos_storeReadContractLogsOffset ?t (n_mixinContract e) = Ok (lst + 1)"
    by (rule read_counters [OF nf], simp)+
  moreover have "\<forall>l. log_stored L s l \<longrightarrow> log_stored L ?t l" by (simp add: log_stored_def)
  ultimately show ?thesis by blast
qed

lemma pull_aligned:
  assumes h: "history L N e b hist logs" and nf: "no_fault (n_db e)" and info: "n_lastChainInfo e = Some info"
    and k: "k < length hist" "irreversible info (hist ! k)"
    and m: "m = length (takeWhile (irreversible info) (take 100 (drop k hist)))"
  shows "0 < m \<and> (\<exists>s. pull_loop L (\<lambda>_. N) e c (b + of_nat k) i (of_nat k) = Some (Ok (m, e\<lparr>n_db := s\<rparr>))
     \<and> storeReadTxRequestNonce s = Ok (b + of_nat (k + m))
     \<and> Eos_storeReadContractLogsOffset s (n_mixinContract e) = Ok (of_nat (k + m)) \<and> (\<forall>j < m. log_stored L s (logs ! (k + j))))"
proof -
  note H = h [unfolded history_def]
  let ?xs = "take 100 (drop k hist)" and ?ls = "take 100 (drop k logs)"
  have uk: "unat (of_nat k :: u64) = k" using u64_offset(2) [of b "length hist" k] H k(1) by simp
  have fetch: "FetchActions N e (of_nat k) = Ok ?xs" using H by (simp add: FetchActions_def MAX_ACTIONS_def uk)
  obtain ys where xs: "?xs = hist ! k # ys" using k(1) by (simp add: Cons_nth_drop_Suc [symmetric] take_Suc_conv_app_nth)
  have mpos: "0 < m" using m k(2) xs by simp
  have mle: "m \<le> length ?xs" using m length_takeWhile_le by blast
  have srv: "\<forall>j < length ?xs. served L e (?xs ! j) (?ls ! j) (b + of_nat k + of_nat j)"
  proof (intro allI impI)
    fix j assume "j < length ?xs"
    then have "k + j < length hist" "?xs ! j = hist ! (k + j)" "?ls ! j = logs ! (k + j)" using H by auto
    moreover have "b + of_nat k + of_nat j = b + of_nat (k + j)" by simp
    ultimately show "served L e (?xs ! j) (?ls ! j) (b + of_nat k + of_nat j)" using H by metis
  qed
  have "length ?ls = length ?xs" using H by simp
  from parse_loop [OF this srv nf info m, of 0 0 0] mpos obtain s where s:
    "parse_actions_loop L e 0 (b + of_nat k) 0 0 ?xs = Ok (e\<lparr>n_db := s\<rparr>, Some (b + of_nat k + of_nat m, seq_of (?xs ! (m - 1)), m))"
    "no_fault s" "\<forall>j < m. log_stored L s (?ls ! j)" by auto
  from parseActions_writes [OF s(1,2) mpos] obtain t where t: "parseActions L e (b + of_nat k) ?xs = Ok (m, False, e\<lparr>n_db := t\<rparr>)"
    "storeReadTxRequestNonce t = Ok (b + of_nat k + of_nat m)"
    "Eos_storeReadContractLogsOffset t (n_mixinContract e) = Ok (seq_of (?xs ! (m - 1)) + 1)"
    "\<forall>l. log_stored L s l \<longrightarrow> log_stored L t l" by blast
  have "pull_loop L (\<lambda>_. N) e c (b + of_nat k) i (of_nat k) = Some (Ok (m, e\<lparr>n_db := t\<rparr>))"
    using fetch t(1) unfolding xs by (simp add: pull_loop.simps)
  moreover have "seq_of (?xs ! (m - 1)) + 1 = of_nat (k + m)"
  proof -
    have "k + (m - 1) < length hist" "?xs ! (m - 1) = hist ! (k + (m - 1))" using mpos mle by auto
    then have "seq_of (?xs ! (m - 1)) = of_nat (k + (m - 1))" using H by (simp add: seq_of_def)
    moreover have "k + m = Suc (k + (m - 1))" using mpos by simp
    ultimately show ?thesis by (metis of_nat_Suc add.commute)
  qed
  moreover have "\<forall>j < m. log_stored L t (logs ! (k + j))"
  proof (intro allI impI)
    fix j assume "j < m"
    then have "?ls ! j = logs ! (k + j)" using mle H k(1) by (simp add: nth_drop)
    then show "log_stored L t (logs ! (k + j))" using s(3) t(4) \<open>j < m\<close> by metis
  qed
  ultimately show ?thesis using mpos t(2,3) by (intro conjI exI [of _ t]) (simp_all add: add.assoc)
qed

lemma adjust_history:
  assumes h: "history L N e b hist logs" and k: "k < length hist"
  shows "AdjustOffset L N e (b + of_nat k) = Ok (of_nat k)"
proof -
  note H = historyD [OF h]
  obtain a ys where hist: "hist = a # ys" using k by (cases hist) auto
  have "served L e a (logs ! 0) b" using H(3) [of 0] by (simp add: hist)
  then have a: "at_object a" "ParseTxLogFromActionTrace L e a = Ok (logs ! 0)" "wl_id (logs ! 0) = b"
    by (simp_all add: served_def)
  have g: "nd_GetActions N (n_mixinContract e) 0 1 = Ok (Ok [a])" using H(5) by (simp add: hist)
  have "\<not> b + of_nat k < b" using u64_offset(1) [of b "length hist" k] H(2) k by (simp add: word_less_nat_alt)
  then show ?thesis by (simp add: AdjustOffset_def g [unfolded One_nat_def] a del: rbind_Ok_iff)
qed

end
