(* ===== verification/Eos_Props.thy ===== *)
theory Eos_Props
  imports Eos_Engine_Laws Machine_Props
begin

text \<open>
  The properties of the EOS engine, with the concrete node, engine and history their witnesses run on.
\<close>

section \<open>A concrete node\<close>

definition demo_account :: string where
  "demo_account = ''mtgxinmtgxin''"

definition demo_trace :: "nat \<Rightarrow> wtx_log \<Rightarrow> action_trace" where
  "demo_trace j l = \<lparr>at_object = True, at_block_num = Ok (of_nat j), at_account_action_seq = Ok (of_nat j),
     at_global_action_seq = Ok 1, at_act = Ok (), at_receiver = Ok demo_account, at_account = Ok demo_account,
     at_name = Ok TX_LOG_ACTION, at_actor = Ok demo_account, at_permission = Ok ''active'',
     at_hex_data = Ok (hexEncode (TxLog_Pack demo_eos l)), at_data = Err ''no data''\<rparr>"

definition demo_logs :: "wtx_log list" where
  "demo_logs = [demo_log\<lparr>wl_id := 5\<rparr>, demo_log\<lparr>wl_id := 6, wl_nonce := 2\<rparr>]"

definition demo_hist :: "action_trace list" where
  "demo_hist = [demo_trace 0 (demo_logs ! 0), demo_trace 1 (demo_logs ! 1)]"

definition demo_info :: chain_info where
  "demo_info = \<lparr>ci_LastIrreversibleBlockNum = 9, ci_LastIrreversibleBlockID = replicate 64 (CHR ''0''), ci_HeadBlockTime = Ok 0\<rparr>"

definition demo_eos_node :: eos_node where
  "demo_eos_node = \<lparr>nd_GetInfo = Ok demo_info, nd_GetAccount = (\<lambda>a. if length a = 12 then Ok (Ok 0) else Err ''unknown account''),
     nd_GetActions = (\<lambda>c off mx. Ok (Ok (take mx (drop (unat off) demo_hist)))),
     nd_GetTableRows = (\<lambda>c s t lo hi mx. Ok (Ok [hexEncode (replicate 8 (CHR 0x00) @ rev (putUint64 7))])),
     nd_Push = (\<lambda>tx sig. PushOk (Ok []))\<rparr>"

text \<open>The engine has read one request, and asks at an offset of the old node, past the end of the new history.\<close>

definition demo_counters :: store where
  "demo_counters = db_empty\<lparr>kvs := kv_set (prefixEosContractLogOffset @ demo_account) (Raw (uint64Bytes 40))
     (kv_set prefixTxRequestNonce (Raw (uint64Bytes 6)) (kvs db_empty))\<rparr>"

definition demo_eengine :: eengine where
  "demo_eengine = \<lparr>n_db = demo_counters, n_mixinContract = demo_account, n_mtgPublisherContract = ''mtgpublisher'',
     n_mtgExecutor = [], n_mtgExecutorKey = None, n_chainId = [], n_key = ''1'', n_publicKeys = [''1''], n_publisher = True,
     n_threshold = 1, n_lastChainInfo = Some demo_info, n_eventStatus = [], n_actionStartSequence = 0, n_contracts = [],
     n_pushed = []\<rparr>"

interpretation eos_demo: eos_accounts demo_eos_node
  by unfold_locales (auto simp: demo_eos_node_def eos_account_def split: if_splits)

lemma parse_demo_trace:
  assumes "log_packable l" "n_mixinContract e = demo_account"
  shows "ParseTxLogFromActionTrace demo_eos e (demo_trace j l) = Ok l"
  using eos.log_rt [OF assms(1)] assms(2)
  by (simp add: ParseTxLogFromActionTrace_def check_trace_def demo_trace_def del: rbind_Ok_iff)

section \<open>Pulling the requests\<close>

lemma pull_from:
  assumes "GetTxRequestsCount (N 0) e = Ok c" "storeReadTxRequestNonce (n_db e) = Ok idx"
    "Eos_storeReadContractLogsOffset (n_db e) (n_mixinContract e) = Ok off"
  shows "PullContractEvents L N e = pull_loop L N e c idx 0 off"
  by (simp add: PullContractEvents_def assms del: rbind_Ok_iff)

text \<open>An offset that does not point at the request expected is adjusted to the one that does.\<close>

lemma pull_readjusts:
  assumes h: "history L N e b hist logs" and info: "n_lastChainInfo e = Some info" and k: "k < length hist"
    and off: "off \<noteq> of_nat k" "unat off < length hist \<Longrightarrow> irreversible info (hist ! unat off)"
    and past: "unat off < length hist \<or> b + of_nat k \<noteq> 0"
    and c: "c = b + of_nat (length hist)"
  shows "pull_loop L (\<lambda>_. N) e c (b + of_nat k) i off = pull_loop L (\<lambda>_. N) e c (b + of_nat k) (Suc i) (of_nat k)"
proof -
  note H = historyD [OF h]
  have fetch: "FetchActions N e off = Ok (take 100 (drop (unat off) hist))" using H(5) by (simp add: FetchActions_def MAX_ACTIONS_def)
  note adj = adjust_history [OF h k]
  show ?thesis
  proof (cases "unat off < length hist")
    case False
    have "0 < b + of_nat k" using past False by (simp add: word_neq_0_conv)
    moreover have "b + of_nat k + 1 \<le> c"
      using u64_offset(1) [of b "length hist" "Suc k"] u64_offset(1) [of b "length hist" "length hist"] H(2) k
      unfolding c by (simp add: word_le_nat_alt ac_simps)
    ultimately show ?thesis using False fetch adj by (simp add: pull_loop.simps [of L _ e c _ i])
  next
    case True
    let ?a = "hist ! unat off"
    obtain ys where xs: "take 100 (drop (unat off) hist) = ?a # ys"
      using True by (simp add: Cons_nth_drop_Suc [symmetric] take_Suc_conv_app_nth)
    from H(3) [OF True] obtain bl q g where f: "at_object ?a" "ParseTxLogFromActionTrace L e ?a = Ok (logs ! unat off)"
      "wl_id (logs ! unat off) = b + off" "at_block_num ?a = Ok bl" "at_account_action_seq ?a = Ok q"
      "at_global_action_seq ?a = Ok g" "\<not> g < n_actionStartSequence e" by (auto simp: served_def not_less)
    have nl: "\<not> ci_LastIrreversibleBlockNum info < ucast bl" using off(2) [OF True] by (simp add: irreversible_def f)
    have "parse_actions_loop L e 0 (b + of_nat k) 0 0 (?a # ys) = Ok (e, None)"
      using f nl off(1) info by (auto simp: GetLatestChainInfo_def simp del: rbind_Ok_iff)
    then have "parseActions L e (b + of_nat k) (?a # ys) = Ok (0, True, e)"
      by (simp add: parseActions_def del: rbind_Ok_iff parse_actions_loop.simps)
    then show ?thesis using fetch adj unfolding xs by (simp add: pull_loop.simps [of L _ e c _ i])
  qed
qed

text \<open>What a kept offset lets \<open>PullContractEvents\<close> do: at an entry of the history it must be irreversible; past its end
  the request expected must not be the first of all, because the code adjusts the offset for later ones only.\<close>

definition offset_usable :: "chain_info \<Rightarrow> u64 \<Rightarrow> action_trace list \<Rightarrow> u64 \<Rightarrow> bool" where
  "offset_usable info idx hist off \<longleftrightarrow>
     (if unat off < length hist then irreversible info (hist ! unat off) else idx \<noteq> 0)"

lemma pull_not_usable:
  assumes h: "history L N e b hist logs" and info: "n_lastChainInfo e = Some info"
    and u: "\<not> offset_usable info (b + of_nat k) hist off"
  shows "pull_loop L (\<lambda>_. N) e c (b + of_nat k) i off = Some (Ok (0, e))"
proof -
  note H = historyD [OF h]
  have fetch: "FetchActions N e off = Ok (take 100 (drop (unat off) hist))" using H(5) by (simp add: FetchActions_def MAX_ACTIONS_def)
  show ?thesis
  proof (cases "unat off < length hist")
    case False
    then show ?thesis using u fetch by (simp add: offset_usable_def pull_loop.simps [of L _ e c _ i])
  next
    case True
    let ?a = "hist ! unat off"
    obtain ys where xs: "take 100 (drop (unat off) hist) = ?a # ys"
      using True by (simp add: Cons_nth_drop_Suc [symmetric] take_Suc_conv_app_nth)
    from H(3) [OF True] obtain bl where f: "at_object ?a" "at_block_num ?a = Ok bl" by (auto simp: served_def)
    have "ci_LastIrreversibleBlockNum info < ucast bl" using u True by (simp add: offset_usable_def irreversible_def f)
    then have "parse_actions_loop L e 0 (b + of_nat k) 0 0 (?a # ys) = Ok (e, Some (b + of_nat k, 0, 0))"
      using f info by (simp add: GetLatestChainInfo_def del: rbind_Ok_iff)
    then have "parseActions L e (b + of_nat k) (?a # ys) = Ok (0, False, e)"
      by (simp add: parseActions_def del: rbind_Ok_iff parse_actions_loop.simps)
    then show ?thesis using fetch unfolding xs by (simp add: pull_loop.simps [of L _ e c _ i])
  qed
qed

text \<open>C11: pulling the requests makes progress, and stops where it cannot. A node serves the history of the actions of
  mtg.xin from request \<open>b\<close> on, above 0 when the node was started from a snapshot; the engine expects request \<open>b + k\<close>,
  whose entry the history has and is irreversible, and has kept any offset, its own or one of another node. Then
  \<open>PullContractEvents\<close> returns. When the offset is past the end of the history and the request expected is not number 0,
  or the entry at the offset is irreversible, it has read the irreversible entries from \<open>k\<close> on, at most 100 and at least
  one, put the event of each in the queue of its contract, and moved the expected request and the offset past them, so
  that no request is skipped. Otherwise (the entry at the offset is not irreversible yet, or it is past the end and the
  request is number 0) it has read nothing and changed nothing.\<close>

theorem pull_progress:
  assumes "history L N e b hist logs" and "no_fault (n_db e)" and "n_lastChainInfo e = Some info"
    and "storeReadTxRequestNonce (n_db e) = Ok (b + of_nat k)"
    and "Eos_storeReadContractLogsOffset (n_db e) (n_mixinContract e) = Ok off"
    and "k < length hist" and "irreversible info (hist ! k)"
    and "m = length (takeWhile (irreversible info) (take 100 (drop k hist)))"
  shows "if offset_usable info (b + of_nat k) hist off
     then 0 < m \<and> (\<exists>s. PullContractEvents L (\<lambda>_. N) e = Some (Ok (m, e\<lparr>n_db := s\<rparr>))
       \<and> storeReadTxRequestNonce s = Ok (b + of_nat (k + m))
       \<and> Eos_storeReadContractLogsOffset s (n_mixinContract e) = Ok (of_nat (k + m)) \<and> (\<forall>j < m. log_stored L s (logs ! (k + j))))
     else PullContractEvents L (\<lambda>_. N) e = Some (Ok (0, e))"
proof -
  let ?c = "b + of_nat (length hist) :: u64"
  have start: "PullContractEvents L (\<lambda>_. N) e = pull_loop L (\<lambda>_. N) e ?c (b + of_nat k) 0 off"
    by (rule pull_from) (use assms(4,5) historyD(6) [OF assms(1)] in auto)
  show ?thesis
  proof (cases "offset_usable info (b + of_nat k) hist off")
    case True
    then have u: "unat off < length hist \<Longrightarrow> irreversible info (hist ! unat off)" "unat off < length hist \<or> b + of_nat k \<noteq> 0"
      by (auto simp: offset_usable_def)
    have "\<exists>i. pull_loop L (\<lambda>_. N) e ?c (b + of_nat k) 0 off = pull_loop L (\<lambda>_. N) e ?c (b + of_nat k) i (of_nat k)"
      using pull_readjusts [OF assms(1,3,6) _ u HOL.refl, of 0] by (cases "off = of_nat k") blast+
    then obtain i where "pull_loop L (\<lambda>_. N) e ?c (b + of_nat k) 0 off = pull_loop L (\<lambda>_. N) e ?c (b + of_nat k) i (of_nat k)" ..
    with pull_aligned [OF assms(1-3,6,7,8), of ?c i] start True show ?thesis by simp
  next
    case False
    with pull_not_usable [OF assms(1,3), of k off ?c 0] start show ?thesis by simp
  qed
qed

lemma demo_packable: "log_packable (demo_logs ! 0)" "log_packable (demo_logs ! 1)"
  by (simp_all add: log_packable_def demo_logs_def demo_log_def)

lemma demo_converts: "\<exists>evt. convertTxLogToEvent demo_eos (demo_logs ! 0) = Ok evt" "\<exists>evt. convertTxLogToEvent demo_eos (demo_logs ! 1) = Ok evt"
  by (simp_all add: convertTxLogToEvent_def demo_logs_def demo_log_def bytesToUUID_def demo_eos_simps wire_lib_def)

lemma demo_history: "history demo_eos demo_eos_node demo_eengine 5 demo_hist demo_logs"
proof -
  have "served demo_eos demo_eengine (demo_trace j l) l (wl_id l)" if "log_packable l" "\<exists>evt. convertTxLogToEvent demo_eos l = Ok evt" for j l
    using that parse_demo_trace [of l demo_eengine j] by (simp add: served_def, simp add: demo_trace_def demo_eengine_def)
  from this [OF demo_packable(1) demo_converts(1), of 0] this [OF demo_packable(2) demo_converts(2), of 1]
  have "served demo_eos demo_eengine (demo_hist ! j) (demo_logs ! j) (5 + of_nat j) \<and> at_account_action_seq (demo_hist ! j) = Ok (of_nat j)"
    if "j < 2" for j
    using that by (auto simp: demo_hist_def demo_logs_def less_2_cases_iff demo_trace_def)
  moreover have "GetTxRequestsCount demo_eos_node demo_eengine = Ok 7"
    by (simp add: GetTxRequestsCount_def counter_row_def demo_eos_node_def putUint64_def be_nat_be_bytes del: rbind_Ok_iff)
  ultimately show ?thesis by (auto simp: history_def demo_logs_def demo_hist_def demo_eos_node_def)
qed

theorem pull_progress_witness:
  "\<exists>s. PullContractEvents demo_eos (\<lambda>_. demo_eos_node) demo_eengine = Some (Ok (1, demo_eengine\<lparr>n_db := s\<rparr>))
     \<and> storeReadTxRequestNonce s = Ok 7 \<and> log_stored demo_eos s (demo_logs ! 1)"
proof -
  have nf: "no_fault (n_db demo_eengine)" by (simp add: demo_eengine_def demo_counters_def no_fault_def db_empty_def)
  have reads: "storeReadTxRequestNonce (n_db demo_eengine) = Ok (5 + of_nat 1)"
    "Eos_storeReadContractLogsOffset (n_db demo_eengine) (n_mixinContract demo_eengine) = Ok 40"
    by (rule read_counters [OF nf], simp add: demo_eengine_def demo_counters_def)+
  have m: "1 = length (takeWhile (irreversible demo_info) (take 100 (drop 1 demo_hist)))"
    by (simp add: demo_hist_def irreversible_def demo_trace_def demo_info_def)
  have info: "n_lastChainInfo demo_eengine = Some demo_info" and len: "length demo_hist = 2"
    and irr: "irreversible demo_info (demo_hist ! 1)"
    by (simp_all add: demo_hist_def irreversible_def demo_trace_def demo_info_def demo_eengine_def)
  have "1 < length demo_hist" "offset_usable demo_info (5 + of_nat 1) demo_hist 40" by (simp_all add: len offset_usable_def)
  with pull_progress [OF demo_history nf info reads _ irr m] show ?thesis by auto
qed

section \<open>Loops\<close>

text \<open>Attempt \<open>i\<close> of \<open>syncNetwork\<close> finds a head block more than 30 seconds old.\<close>

definition stale :: "(nat \<Rightarrow> eos_node) \<Rightarrow> (nat \<Rightarrow> int) \<Rightarrow> nat \<Rightarrow> bool" where
  "stale N tm i \<longleftrightarrow> (case nd_GetInfo (N i) of
     Ok info \<Rightarrow> (case ci_HeadBlockTime info of Ok t \<Rightarrow> t < tm i - 30 * 1000000000 | _ \<Rightarrow> False) | _ \<Rightarrow> False)"

lemma sync_step:
  "stale N tm i \<Longrightarrow> \<exists>info. nd_GetInfo (N i) = Ok info \<and> syncNetwork N tm i e = syncNetwork N tm (Suc i) (SetLatestChainInfo e info)"
  "\<not> stale N tm i \<Longrightarrow> syncNetwork N tm i e \<noteq> None"
  by (auto simp: stale_def syncNetwork.simps [of N tm i e] split: res.splits)

lemmas sync_induct = syncNetwork.raw_induct [rotated, consumes 1, case_names step]
lemmas pull_induct = pull_loop.raw_induct [rotated, consumes 1, case_names step]

lemma sync_forever: "syncNetwork N tm i e = Some r \<Longrightarrow> \<exists>j \<ge> i. \<not> stale N tm j"
proof (induction rule: sync_induct)
  case (step f N tm i e r)
  show ?case
  proof (cases "stale N tm i")
    case True
    with step(2) obtain e' where "f N tm (Suc i) e' = Some r" by (auto simp: stale_def split: res.splits if_splits)
    from step(1) [OF this] show ?thesis by (meson Suc_leD)
  qed auto
qed

lemma sync_stops: "\<not> stale N tm (i + k) \<Longrightarrow> syncNetwork N tm i e \<noteq> None"
proof (induction k arbitrary: i e)
  case (Suc k)
  show ?case
  proof (cases "stale N tm i")
    case True
    obtain info where "syncNetwork N tm i e = syncNetwork N tm (Suc i) (SetLatestChainInfo e info)"
      using sync_step(1) [OF True] by blast
    with Suc.IH [of "Suc i"] Suc.prems show ?thesis by simp
  qed (rule sync_step(2))
qed (simp add: sync_step(2))

text \<open>When the first synchronization ends. \<open>Boot\<close> of a valid configuration never returns exactly when at every
  attempt the node answers with a head block that is more than 30 seconds old; otherwise it returns the engine, or
  stops the program when the node does not answer.\<close>

theorem boot_waits_for_sync:
  assumes "eos_configured K db conf threshold = Ok e"
  shows "eos_Boot K N tm db conf threshold = None \<longleftrightarrow> (\<forall>i. stale N tm i)"
  using assms sync_forever [of N tm 0 e] sync_stops [of N tm 0 _ e]
  by (cases "syncNetwork N tm 0 e") (auto simp: eos_Boot_def)

lemma pull_loop_lagging:
  "pull_loop L N e c idx i offset = Some r \<Longrightarrow> 0 < idx \<Longrightarrow> idx + 1 \<le> c \<Longrightarrow> FetchActions (N i) e offset = Ok [] \<Longrightarrow>
   \<forall>j. AdjustOffset L (N j) e idx = Ok adj \<and> FetchActions (N j) e adj = Ok [] \<Longrightarrow> False"
proof (induction rule: pull_induct)
  case (step f L N e c idx i offset r)
  have "f L N e c idx (Suc i) adj = Some r" using step(2-6) by simp
  from step(1) [OF this step(3,4) _ step(6)] step(6) show ?case by blast
qed

text \<open>C36: pulling the requests may go on for ever. While the table of mtg.xin counts a request that the action history
  does not have yet, \<open>PullContractEvents\<close> computes the same offset again and again, without a pause between its calls
  to the node: on a history that stays behind it does not return.\<close>

theorem pull_waits_for_history:
  assumes "GetTxRequestsCount (N 0) e = Ok c" and "storeReadTxRequestNonce (n_db e) = Ok idx"
    and "Eos_storeReadContractLogsOffset (n_db e) (n_mixinContract e) = Ok off"
    and "0 < idx" and "idx + 1 \<le> c" and "FetchActions (N 0) e off = Ok []"
    and "\<forall>j. AdjustOffset L (N j) e idx = Ok adj \<and> FetchActions (N j) e adj = Ok []"
  shows "PullContractEvents L N e = None"
proof -
  have "PullContractEvents L N e = pull_loop L N e c idx 0 off" using assms(1-3) by (rule pull_from)
  then show ?thesis
    using pull_loop_lagging [of L N e c idx 0 off _ adj] assms(4-7) by (cases "pull_loop L N e c idx 0 off") auto
qed

theorem pull_waits_for_history_witness:
  "PullContractEvents demo_eos (\<lambda>_. demo_eos_node\<lparr>nd_GetTableRows :=
       (\<lambda>c s t lo hi mx. Ok (Ok [hexEncode (replicate 8 (CHR 0x00) @ rev (putUint64 8))]))\<rparr>)
     (demo_eengine\<lparr>n_db := demo_counters\<lparr>kvs := kv_set prefixTxRequestNonce (Raw (uint64Bytes 7)) (kvs demo_counters)\<rparr>\<rparr>) = None"
  (is "PullContractEvents demo_eos (\<lambda>_. ?N) (demo_eengine\<lparr>n_db := ?s\<rparr>) = None")
proof -
  let ?e = "demo_eengine\<lparr>n_db := ?s\<rparr>"
  have c: "GetTxRequestsCount ?N ?e = Ok 8"
    by (simp add: GetTxRequestsCount_def counter_row_def putUint64_def be_nat_be_bytes del: rbind_Ok_iff)
  have nf: "no_fault (n_db ?e)" by (simp add: demo_counters_def no_fault_def db_empty_def)
  have r: "storeReadTxRequestNonce (n_db ?e) = Ok 7" by (rule read_counters [OF nf]) simp
  have o: "Eos_storeReadContractLogsOffset (n_db ?e) (n_mixinContract ?e) = Ok 40"
    by (rule read_counters [OF nf]) (simp add: demo_eengine_def demo_counters_def)
  have a: "AdjustOffset demo_eos ?N ?e 7 = Ok 2"
    using parse_demo_trace [OF demo_packable(1), of ?e 0]
    by (simp add: AdjustOffset_def demo_eos_node_def demo_hist_def del: rbind_Ok_iff)
      (simp add: demo_eengine_def demo_trace_def demo_logs_def)
  have f: "FetchActions ?N ?e n = Ok []" if "n \<in> {2, 40}" for n
    using that by (auto simp: FetchActions_def demo_eos_node_def demo_hist_def)
  show ?thesis
    by (rule pull_waits_for_history [OF c r o, where adj = 2]) (use a f in simp_all)
qed

section \<open>Booting\<close>

definition demo_eoskeys :: eoskeys where
  "demo_eoskeys = eoslib.extend demo_eos (eoskeys.fields (\<lambda>k. Ok k) (\<lambda>k. Ok k) (\<lambda>k. k) hexDecode (\<lambda>tx k c. Ok k))"

definition demo_eosconf :: eos_configuration where
  "demo_eosconf = \<lparr>cf_RPCPush = ''push'', cf_RPCGetState = ''state'', cf_PrivateKey = ''1'', cf_MixinContract = demo_account,
     cf_MTGPublisher = ''mtgpublisher'', cf_MTGExecutor = [], cf_MTGExecutorKey = [], cf_ChainId = ''00'', cf_PublicKeys = [''1''],
     cf_Publisher = True, cf_ActionStartSequence = 0\<rparr>"

lemma demo_configured: "\<exists>e. eos_configured demo_eoskeys db_empty demo_eosconf 1 = Ok e"
  by (simp add: eos_configured_def demo_eosconf_def demo_eoskeys_def eoslib.defs eoskeys.defs demo_account_def hexval_def
      del: rbind_Ok_iff)

text \<open>Two nodes on the way: one that is always stale, and one that catches up.\<close>

theorem boot_waits_for_sync_witness:
  "eos_Boot demo_eoskeys (\<lambda>i. demo_eos_node) (\<lambda>i. 31 * 1000000000) db_empty demo_eosconf 1 = None
     \<and> eos_Boot demo_eoskeys (\<lambda>i. demo_eos_node) (\<lambda>i. (31 - int i) * 1000000000) db_empty demo_eosconf 1 \<noteq> None"
proof -
  obtain e where e: "eos_configured demo_eoskeys db_empty demo_eosconf 1 = Ok e" using demo_configured ..
  have "stale (\<lambda>i. demo_eos_node) (\<lambda>i. 31 * 1000000000) i" for i by (simp add: stale_def demo_eos_node_def demo_info_def)
  moreover have "\<not> stale (\<lambda>i. demo_eos_node) (\<lambda>i. (31 - int i) * 1000000000) 1" by (simp add: stale_def demo_eos_node_def demo_info_def)
  ultimately show ?thesis
    using boot_waits_for_sync [OF e, of "\<lambda>i. demo_eos_node" "\<lambda>i. 31 * 1000000000"]
      boot_waits_for_sync [OF e, of "\<lambda>i. demo_eos_node" "\<lambda>i. (31 - int i) * 1000000000"] by auto
qed

section \<open>Signing and pushing\<close>

lemma putUint64_zero: "putUint64 0 = replicate 8 (CHR 0x00)"
proof -
  have "char_of (0 :: nat) = CHR 0x00" by (simp add: char_of_def)
  then have "be_bytes k 0 = replicate k (CHR 0x00)" for k by (induction k) simp_all
  then show ?thesis by (simp only: putUint64_def unat_0)
qed

lemma be_nat_zeros: "be_nat (replicate k (CHR 0x00)) = 0"
  using le_value_zeros [of k] by (simp add: le_value_def)

text \<open>C12: an event the group signs passes the check of the contracts. When engines with the keys of registered signers
  sign an event with \<open>SignEvent\<close>, different signatures of 65 bytes and as many as the contracts' threshold, and the
  event carries them one after the other, then \<open>BuildEventTransaction\<close> makes an action whose bytes before the
  signatures, as the contract cuts them out, are what was signed, and \<open>VerifySignatures\<close> of the contract accepts the
  signatures of the action, each with its type byte 0 in front.\<close>

theorem signed_event_accepted:
  assumes "eos_codec L" and "e_Nonce evt \<noteq> 0" and "sha256 C = gSha256 L"
    and "\<And>e digest s. e \<in> set es \<Longrightarrow> gSign L (n_key e) digest = Ok s \<Longrightarrow>
        good_sig C digest (mx_signers mx) (CHR 0x00 # s)"
    and "list_all2 (\<lambda>e s. SignEvent L e a evt = Ok s \<and> length s = 65) es sigs" and "distinct sigs"
    and "mtg_threshold (length (mx_signers mx)) \<le> length sigs"
    and "BuildEventTransaction L tm mixin publisher a (evt\<lparr>e_Signature := Some (concat sigs)\<rparr>) refBlock = Ok tx"
  shows "\<exists>t. tx_args tx = DEvent t \<and> w_signatures t = sigs
     \<and> rbind (signed_part (TxEvent_Pack L t) (length (TxEvent_Pack L t)) (length sigs)) (\<lambda>msg.
         VerifySignatures C mx msg (map (\<lambda>s. CHR 0x00 # s) sigs)) = Ok True"
proof -
  have len: "\<forall>s \<in> set sigs. length s = 65" using assms(5) by (auto simp: list_all2_conv_all_nth in_set_conv_nth)
  from assms(2,8) obtain t where t: "convertEventToTxEvent L (evt\<lparr>e_Signature := Some (concat sigs)\<rparr>) = Ok t" "tx_args tx = DEvent t"
    by (auto simp: BuildEventTransaction_def split: if_splits)
  from convert_signature [OF t(1)] obtain t0 where t0: "convertEventToTxEvent L evt = Ok t0"
    "TxEvent_PackWithoutSignatures L t = TxEvent_PackWithoutSignatures L t0" "w_signatures t = sigs"
    by (auto simp: sig_chunks_concat [OF len] slice_bytes_def)
  let ?msg = "TxEvent_PackWithoutSignatures L t"
  have msg: "signed_part (TxEvent_Pack L t) (length (TxEvent_Pack L t)) (length sigs) = Ok ?msg"
    using eos_codec.signed_bytes [OF assms(1), of t] len t0(3) by simp
  have "good_sig C (sha256 C ?msg) (mx_signers mx) (CHR 0x00 # s)" if s: "s \<in> set sigs" for s
  proof -
    obtain i where i: "i < length sigs" "s = sigs ! i" using s by (auto simp: in_set_conv_nth)
    then have e: "es ! i \<in> set es" "SignEvent L (es ! i) a evt = Ok s"
      using assms(5) by (auto simp: list_all2_conv_all_nth)
    then have "gSign L (n_key (es ! i)) (gSha256 L ?msg) = Ok s"
      using assms(2) t0(1,2) by (auto simp: SignEvent_def TxEvent_Sign_def TxEvent_Digest_def)
    from assms(4) [OF e(1) this] show ?thesis by (simp add: assms(3))
  qed
  then have "VerifySignatures C mx ?msg (map (\<lambda>s. CHR 0x00 # s) sigs) = Ok True"
    unfolding VerifySignatures_def using assms(6,7)
    by (intro verify_loop_all_good) (auto simp: distinct_map inj_on_def mtg_threshold_def)
  with msg t(2) t0(3) show ?thesis by (intro exI [of _ t]) simp
qed

text \<open>Three of four signers; a signature begins with the key, which the chain finds after the type byte.\<close>

definition demo_signers_of :: "string list \<Rightarrow> mtg_state" where
  "demo_signers_of ks = demo_mtg\<lparr>mx_signers := zip (map of_nat [1..<Suc (length ks)]) ks\<rparr>"

theorem signed_event_accepted_witness:
  "\<exists>t. rbind (signed_part (TxEvent_Pack demo_eos t) (length (TxEvent_Pack demo_eos t)) 3) (\<lambda>msg.
       VerifySignatures (demo_chain\<lparr>recoverKey := \<lambda>d s. Ok (take 1 (drop 1 s))\<rparr>) (demo_signers_of [''1'', ''2'', ''3'', ''4'']) msg
         (map (\<lambda>s. CHR 0x00 # s) (w_signatures t))) = Ok True \<and> length (w_signatures t) = 3"
proof -
  let ?C = "demo_chain\<lparr>recoverKey := \<lambda>d s. Ok (take 1 (drop 1 s))\<rparr>" and ?mx = "demo_signers_of [''1'', ''2'', ''3'', ''4'']"
  let ?es = "map (\<lambda>k. demo_eengine\<lparr>n_key := k\<rparr>) [''1'', ''2'', ''3'']"
  let ?sigs = "map (\<lambda>k. take 65 (k @ replicate 65 (CHR ''0''))) [''1'', ''2'', ''3'']"
  let ?evt = "demo_wire_event\<lparr>e_Nonce := 1\<rparr>"
  have conv: "\<exists>t. convertEventToTxEvent demo_eos (?evt\<lparr>e_Signature := s\<rparr>) = Ok t" for s
    by (simp add: convertEventToTxEvent_def demo_wire_event_def uuidToBytes_def demo_eos_uuid uuid_parse_text del: rbind_Ok_iff)
  obtain t0 where t0: "convertEventToTxEvent demo_eos ?evt = Ok t0" using conv [of "e_Signature ?evt"] by auto
  obtain tx where tx: "BuildEventTransaction demo_eos 0 demo_account ''mtgpublisher'' ''dappdappdapp''
      (?evt\<lparr>e_Signature := Some (concat ?sigs)\<rparr>) (replicate 64 (CHR ''0'')) = Ok tx"
    using conv [of "Some (concat ?sigs)"] by (auto simp: BuildEventTransaction_def simp del: rbind_Ok_iff)
  have sign: "gSign demo_eos k d = Ok (take 65 (k @ replicate 65 (CHR ''0'')))" for k d by (simp add: demo_eos_simps)
  have sha: "sha256 ?C = gSha256 demo_eos" by (simp add: demo_chain_def demo_eos_simps)
  have good: "good_sig ?C d (mx_signers ?mx) (CHR 0x00 # s)" if "e \<in> set ?es" "gSign demo_eos (n_key e) d = Ok s" for e d s
    using that by (auto simp: sign good_sig_def demo_signers_of_def upt_conv_Cons)
  have all: "list_all2 (\<lambda>e s. SignEvent demo_eos e ''dappdappdapp'' ?evt = Ok s \<and> length s = 65) ?es ?sigs"
    using t0 by (simp add: SignEvent_def TxEvent_Sign_def sign del: rbind_Ok_iff)
  have thr: "mtg_threshold (length (mx_signers ?mx)) \<le> length ?sigs" by (simp add: mtg_threshold_def demo_signers_of_def)
  have "\<exists>t. tx_args tx = DEvent t \<and> w_signatures t = ?sigs
     \<and> rbind (signed_part (TxEvent_Pack demo_eos t) (length (TxEvent_Pack demo_eos t)) (length ?sigs)) (\<lambda>msg.
         VerifySignatures ?C ?mx msg (map (\<lambda>s. CHR 0x00 # s) ?sigs)) = Ok True"
    by (rule signed_event_accepted [where es = ?es, OF eos.eos_codec_axioms _ sha _ all _ thr tx]) (rule good | simp)+
  then obtain t where "w_signatures t = ?sigs"
    "rbind (signed_part (TxEvent_Pack demo_eos t) (length (TxEvent_Pack demo_eos t)) (length ?sigs)) (\<lambda>msg.
       VerifySignatures ?C ?mx msg (map (\<lambda>s. CHR 0x00 # s) ?sigs)) = Ok True" by blast
  then show ?thesis by (intro exI [of _ t]) (simp add: numeral_3_eq_3 del: rbind_Ok_iff)
qed

text \<open>C37: the publisher stops at an event with a group signature of the machine. \<open>pushEvent\<close> counts pieces of 65
  bytes and panics when there are fewer than the threshold, which is positive after \<open>Boot\<close>; the signature that the
  machine recovers and stores has 64 bytes, which is no piece.\<close>

theorem group_signature_stops_publisher:
  assumes "eos_configured K db conf threshold = Ok e0" and "n_threshold e = n_threshold e0" and "n_publisher e"
    and "Eos_GetAddressNonce N a = Ok nonce" and "Eos_storeListGroupEvents (n_db e) a nonce 100 = Ok (evt # evts)"
    and "length (slice_bytes (e_Signature evt)) = 64"
    and "GetSubmitedEvent N a nonce 100 = Ok ns" and "e_Nonce evt \<notin> set ns" and "map_of (n_eventStatus e) (e_Nonce evt) = None"
  shows "loopPushGroupEvents K N tm e a = Panic ''not enough signatures''"
proof -
  have "0 < n_threshold e" using assms(1,2) by (auto simp: eos_configured_def split: if_splits)
  then have "pushEvent K N tm (e\<lparr>n_eventStatus := u\<rparr>) a evt = Panic ''not enough signatures''" for u
    using assms(6) by (simp add: pushEvent_def)
  then show ?thesis using assms(3-5,7-9) by (simp add: loopPushGroupEvents_def Eos_IsPublisher_def push_group_event_def)
qed

theorem group_signature_stops_publisher_witness:
  "\<exists>e. loopPushGroupEvents demo_eoskeys (demo_eos_node\<lparr>nd_GetTableRows := \<lambda>c s t lo hi mx. if t = ''counters''
       then Ok (Ok [hexEncode (replicate 8 (CHR 0x00) @ putUint64 0)]) else Ok (Ok [])\<rparr>) 0 e ''dappdappdapp''
     = Panic ''not enough signatures'' \<and> eos_outgoing e ''dappdappdapp'' 0 = Some demo_signed"
proof -
  let ?N = "demo_eos_node\<lparr>nd_GetTableRows := \<lambda>c s t lo hi mx. if t = ''counters''
       then Ok (Ok [hexEncode (replicate 8 (CHR 0x00) @ putUint64 0)]) else Ok (Ok [])\<rparr>"
  obtain e0 where e0: "eos_configured demo_eoskeys db_empty demo_eosconf 1 = Ok e0" using demo_configured ..
  then have f: "n_publisher e0" "n_eventStatus e0 = []" by (auto simp: eos_configured_def demo_eosconf_def split: if_splits)
  let ?k = "eosGroupEventKey ''dappdappdapp'' 0"
  let ?e = "e0\<lparr>n_db := db_empty\<lparr>kvs := kv_set ?k (JEvent demo_signed) (kvs db_empty)\<rparr>\<rparr>"
  have "putUint64 0 = rev (putUint64 0)" by (simp add: putUint64_zero)
  then have nonce: "Eos_GetAddressNonce ?N ''dappdappdapp'' = Ok 0"
    by (simp add: Eos_GetAddressNonce_def counter_row_def putUint64_zero be_nat_zeros del: rbind_Ok_iff)
  have k: "has_prefix (prefixEosGroupEventQueue @ ''dappdappdapp'') ?k" by (simp add: eosGroupEventKey_def has_prefix_def)
  have listed: "Eos_storeListGroupEvents (n_db ?e) ''dappdappdapp'' 0 100 = Ok [demo_signed]"
    using k by (simp add: Eos_storeListGroupEvents_def iter_from_def db_empty_def txn_value_def io_check_def as_event_def del: rbind_Ok_iff)
  have "loopPushGroupEvents demo_eoskeys ?N 0 ?e ''dappdappdapp'' = Panic ''not enough signatures''"
    by (rule group_signature_stops_publisher [where ns = "[]", OF e0 _ _ nonce listed])
      (simp_all add: f demo_signed_def demo_event_def slice_bytes_def GetSubmitedEvent_def)
  then show ?thesis by (intro exI [of _ ?e]) (simp add: eos_outgoing_def stored_event_def)
qed

section \<open>Queues\<close>

text \<open>An event signed by the group is never lost between the machine and the EOS engine, on a chain where the
  accounts have the ordinary names of 12 characters. After a round of \<open>loopSendEvents\<close> a signed event is still in
  the machine's signed queue, or the engine's queue of the contract has an event with its nonce.\<close>

theorem eos_event_handed_over:
  assumes "eos_accounts N" and "machine_ok W m" and "loopSendEvents W (eos_ops K N tm) m pid = Ok m'"
    and "map_of (m_processes m) pid = Some p" and "map_of (m_engines m) (p_Platform p) = Some eng"
    and "eengine_ok eng" and "eos_account (p_Address p)" and "signed_event (m_store m) pid n = Some ev"
  shows "signed_event (m_store m') pid n = Some ev \<or>
     (\<exists>eng'. map_of (m_engines m') (p_Platform p) = Some eng' \<and> eos_outgoing eng' (p_Address p) n \<noteq> None)"
  by (rule event_engine.handed_over [OF eos_accounts.eos_engine [OF assms(1)] assms(2-8)])

text \<open>A contract whose name begins another name gets the events of the other. The keys of the queues have no
  separator between the name and the nonce, and the scan takes every key with the name in front: after events are
  queued for the longer name they are listed for the shorter one, and the engine pushes them to the wrong contract.\<close>

theorem short_name_gets_other_events:
  assumes "c \<noteq> CHR 0x00" and "Eos_storeWriteGroupEvents db_empty (a @ c # cs) [evt] = Ok s"
  shows "Eos_storeListGroupEvents s a 0 100 = Ok [evt]"
proof -
  let ?k = "eosGroupEventKey (a @ c # cs) (e_Nonce evt)"
  have kvs: "kvs s = [(?k, JEvent evt)]" and nf: "io s = (\<lambda>_. None)"
    using assms(2) by (auto simp: Eos_storeWriteGroupEvents_def db_empty_def db_lookup_def split: if_splits)
  have lex: "\<not> p @ c # x < p @ CHR 0x00 # y" for p x y :: bytes
    using assms(1) by (induction p) (simp_all add: less_char_def)
  have "putUint64 0 = replicate (Suc 7) (CHR 0x00)" by (simp add: putUint64_zero)
  then have "putUint64 0 = CHR 0x00 # replicate 7 (CHR 0x00)" by (simp only: replicate.simps)
  then have "eosGroupEventKey a 0 = (prefixEosGroupEventQueue @ a) @ CHR 0x00 # replicate 7 (CHR 0x00)"
    by (simp only: eosGroupEventKey_def uint64Bytes_def)
  then have "\<not> ?k < eosGroupEventKey a 0"
    using lex [of "prefixEosGroupEventQueue @ a"] by (simp add: eosGroupEventKey_def)
  moreover have "has_prefix (prefixEosGroupEventQueue @ a) ?k" by (simp add: eosGroupEventKey_def has_prefix_def)
  ultimately have "iter_from s (prefixEosGroupEventQueue @ a) (eosGroupEventKey a 0) = [(?k, JEvent evt)]"
    by (simp add: iter_from_def kvs)
  then show ?thesis by (simp add: Eos_storeListGroupEvents_def nf txn_value_def io_check_def as_event_def del: rbind_Ok_iff)
qed

theorem short_name_gets_other_events_witness:
  "\<exists>s. Eos_storeWriteGroupEvents db_empty ''dappdappdap2'' [demo_signed] = Ok s
     \<and> Eos_storeListGroupEvents s ''dappdappdap'' 0 100 = Ok [demo_signed]"
proof -
  obtain s where s: "Eos_storeWriteGroupEvents db_empty (''dappdappdap'' @ ''2'') [demo_signed] = Ok s"
    by (simp add: Eos_storeWriteGroupEvents_def db_empty_def db_lookup_def)
  show ?thesis
    using short_name_gets_other_events [OF _ s] s by simp
qed

text \<open>The machine of the witness: its process is a contract on EOS.\<close>

definition demo_eos_process :: process where
  "demo_eos_process = demo_process\<lparr>p_Platform := ''eos'', p_Address := ''dappdappdapp'', p_Nonce := 1\<rparr>"

definition demo_eos_store :: store where
  "demo_eos_store = demo_store\<lparr>kvs := kv_set (processKey demo_pid) (JProcess demo_eos_process) (kvs demo_store)\<rparr>"

definition demo_empty_eengine :: eengine where
  "demo_empty_eengine = demo_eengine\<lparr>n_db := db_empty\<rparr>"

definition demo_eos_machine :: "eengine machine" where
  "demo_eos_machine = \<lparr>m_store = demo_eos_store, m_feeAssetId = demo_asset, m_feeAmount = 1,
     m_engines = [(''eos'', demo_empty_eengine)], m_processes = [(demo_pid, demo_eos_process)],
     m_spawned = [demo_pid], m_outbox = [], m_warnings = [], m_txs = []\<rparr>"

lemma demo_eos_signed: "signed_event demo_eos_store pid n = signed_event demo_store pid n"
  by (simp add: demo_eos_store_def signed_event_kvs)

lemma demo_eos_store_good: "store_ok demo_eos_store \<and> events_ok demo_eos_store \<and> signed_authentic demo_world demo_eos_store"
proof (intro conjI)
  have pid: "demo_pid = p_Identifier demo_eos_process" by (simp add: demo_eos_process_def demo_process_def)
  show "store_ok demo_eos_store" unfolding demo_eos_store_def
    by (rule store_ok_set) (use demo_store_good pid in auto)
  show "events_ok demo_eos_store" unfolding demo_eos_store_def
    by (rule events_ok_kvs) (use demo_store_good in auto)
  show "signed_authentic demo_world demo_eos_store"
    using demo_store_good by (simp add: signed_authentic_def demo_eos_signed)
qed

lemma demo_eos_machine_ok: "machine_ok demo_world demo_eos_machine"
proof -
  have "stored_process demo_eos_store pid = (if pid = demo_pid then Some demo_eos_process else None)" for pid
    using demo_stored [of pid] by (simp add: stored_process_def demo_eos_store_def)
  then show ?thesis using demo_eos_store_good by (simp add: machine_ok_def demo_eos_machine_def)
qed

lemma demo_empty_eengine_ok: "eengine_ok demo_empty_eengine"
  by (simp add: eengine_ok_def demo_empty_eengine_def edb_ok_def only_queue_keys_def typed_queue_def)

lemma demo_eos_send: "\<exists>m'. loopSendEvents demo_world (eos_ops demo_eoskeys demo_eos_node 0) demo_eos_machine demo_pid = Ok m'
   \<and> signed_event (m_store m') demo_pid 0 = None"
proof -
  have mul: "integerMul demo_world 0 ProcessCreditMulplifier = Ok 0"
    by (simp add: amounts.mul_Ok [OF demo_world_amounts] ProcessCreditMulplifier_def)
  have nf: "no_fault demo_eos_store" using demo_no_fault by (simp add: demo_eos_store_def)
  have listed: "ListSignedGroupEvents demo_eos_store demo_pid 100 = Ok [demo_signed]"
    by (rule list_one_signed) (use demo_eos_store_good nf demo_only_signed in \<open>auto simp: demo_eos_signed\<close>)
  obtain eng where eng: "Eos_EnsureSendGroupEvents demo_empty_eengine ''dappdappdapp'' [demo_signed] = Ok eng"
    by (simp add: Eos_EnsureSendGroupEvents_def Eos_storeWriteGroupEvents_def demo_empty_eengine_def db_empty_def db_lookup_def)
  obtain s where s: "ExpireGroupEventsWithCost demo_world demo_eos_store [demo_signed] 0 = Ok s"
    "db_lookup s (buildSignedEventTimedKey demo_pid 0) = None"
    by (simp add: demo_eos_store_def ExpireGroupEventsWithCost_def delete_signed_def store_eval demo_facts demo_signed_def
        demo_event_def Let_def del: rbind_Ok_iff)
  then show ?thesis
    using listed mul eng
    by (simp add: loopSendEvents_def demo_eos_machine_def demo_eos_process_def demo_process_def eos_ops_def Eos_EstimateCost_def
        Let_def signed_event_def del: rbind_Ok_iff)
qed

theorem eos_event_handed_over_witness:
  "\<exists>m' eng'. loopSendEvents demo_world (eos_ops demo_eoskeys demo_eos_node 0) demo_eos_machine demo_pid = Ok m'
     \<and> map_of (m_engines m') ''eos'' = Some eng' \<and> eos_outgoing eng' ''dappdappdapp'' 0 \<noteq> None"
proof -
  obtain m' where m': "loopSendEvents demo_world (eos_ops demo_eoskeys demo_eos_node 0) demo_eos_machine demo_pid = Ok m'"
    "signed_event (m_store m') demo_pid 0 = None" using demo_eos_send by blast
  have "signed_event (m_store m') demo_pid 0 = Some demo_signed \<or>
     (\<exists>eng'. map_of (m_engines m') (p_Platform demo_eos_process) = Some eng'
       \<and> eos_outgoing eng' (p_Address demo_eos_process) 0 \<noteq> None)"
    by (rule eos_event_handed_over [OF eos_demo.eos_accounts_axioms demo_eos_machine_ok m'(1), of _ demo_empty_eengine])
      (simp_all add: demo_eos_machine_def demo_eos_process_def eos_account_def demo_eos_signed demo_only_signed demo_empty_eengine_ok)
  with m' show ?thesis by (auto simp: demo_eos_process_def)
qed

end
