(* ===== verification/Bridge_Store.thy ===== *)
theory Bridge_Store
  imports Badger Text_Codecs
begin

text \<open>
  mvm/quorum/bridge/storage.go, with the structs it saves: the database of the bridge that gives the users of Mixin an
  account on the chain of the quorum engine. A value is kept by the struct that was written, \<open>XRaw\<close> for plain bytes;
  unpacking it as another struct is an error. A time is its number of nanoseconds since 1970, an amount a rational.
\<close>

section \<open>Data\<close>

record mixin_snapshot =
  ss_SnapshotID :: string
  ss_CreatedAt :: int
  ss_UserID :: string
  ss_AssetID :: string
  ss_Amount :: rat
  ss_Memo :: string

record bridge_asset =
  xa_AssetID :: string
  xa_ChainID :: string

record keystore =
  ks_ClientID :: string
  ks_SessionID :: string
  ks_PrivateKey :: string

record mixin_user =
  mu_UserID :: string
  mu_SessionID :: string
  mu_FullName :: string
  mu_CreatedAt :: int
  mu_HasPin :: bool

record user = mixin_user +
  us_Key :: keystore
  us_PIN :: string
  us_Contract :: string

record withdrawal =
  wd_TraceId :: string
  wd_Destination :: string
  wd_Tag :: string
  wd_CreatedAt :: int
  wd_UserId :: string
  wd_Asset :: "mixin_snapshot option"
  wd_Fee :: "mixin_snapshot option"

datatype bval = XRaw bytes | XAsset bridge_asset | XUser user | XSnapshot mixin_snapshot | XWithdrawal withdrawal

type_synonym bstore = "bval badger"

definition as_raw :: "bval \<Rightarrow> bytes res" where
  "as_raw v = (case v of XRaw b \<Rightarrow> Ok b | _ \<Rightarrow> Err ''bytes'')"

definition as_masset :: "bval \<Rightarrow> bridge_asset res" where
  "as_masset v = (case v of XAsset a \<Rightarrow> Ok a | _ \<Rightarrow> Err ''MsgpackUnmarshal'')"

definition as_user :: "bval \<Rightarrow> user res" where
  "as_user v = (case v of XUser u \<Rightarrow> Ok u | _ \<Rightarrow> Err ''MsgpackUnmarshal'')"

definition as_snapshot :: "bval \<Rightarrow> mixin_snapshot res" where
  "as_snapshot v = (case v of XSnapshot s \<Rightarrow> Ok s | _ \<Rightarrow> Err ''DecompressMsgpackUnmarshal'')"

definition as_withdrawal :: "bval \<Rightarrow> withdrawal res" where
  "as_withdrawal v = (case v of XWithdrawal w \<Rightarrow> Ok w | _ \<Rightarrow> Err ''DecompressMsgpackUnmarshal'')"

text \<open>\<open>txn.Get\<close>, nil for \<open>ErrKeyNotFound\<close>, \<open>ValueCopy\<close>, and unpack.\<close>

definition b_read :: "'v badger \<Rightarrow> ('v \<Rightarrow> 'a res) \<Rightarrow> bytes \<Rightarrow> 'a option res" where
  "b_read s dec k = rbind (txn_get s k) (\<lambda>item. case item of
       None \<Rightarrow> Ok None
     | Some v \<Rightarrow> rbind (txn_value s k v) (\<lambda>w. rbind (dec w) (\<lambda>x. Ok (Some x))))"

section \<open>Keys\<close>

definition storePrefixUser :: string where
  "storePrefixUser = ''USER:''"

definition storePrefixAsset :: string where
  "storePrefixAsset = ''ASSET:''"

definition storePrefixAddress :: string where
  "storePrefixAddress = ''ADDRESS:''"

definition storePrefixSnapshotList :: string where
  "storePrefixSnapshotList = ''SNAPSHOT:LIST:''"

definition storePrefixSnapshotCheckpoint :: string where
  "storePrefixSnapshotCheckpoint = ''SNAPSHOT:CHECKPOINT''"

definition storePrefixWithdrawalPair :: string where
  "storePrefixWithdrawalPair = ''WITHDRAWAL:PAIR:''"

definition timeToBytes :: "int \<Rightarrow> bytes" where
  "timeToBytes t = putUint64 (word_of_int t)"

definition snapshotKey :: "mixin_snapshot \<Rightarrow> bytes" where
  "snapshotKey s = (storePrefixSnapshotList @ timeToBytes (ss_CreatedAt s)) @ ss_SnapshotID s"

section \<open>Assets and the checkpoint\<close>

definition writeAsset :: "bstore \<Rightarrow> bridge_asset \<Rightarrow> bstore res" where
  "writeAsset s a = db_update s (\<lambda>s. txn_set s (storePrefixAsset @ xa_AssetID a) (XAsset a))"

definition readAsset :: "bstore \<Rightarrow> string \<Rightarrow> bridge_asset option res" where
  "readAsset s i = b_read s as_masset (storePrefixAsset @ i)"

definition readSnapshotsCheckpoint :: "bstore \<Rightarrow> int \<Rightarrow> int res" where
  "readSnapshotsCheckpoint s now = rbind (b_read s as_raw storePrefixSnapshotCheckpoint) (\<lambda>v. case v of
       None \<Rightarrow> Ok now
     | Some b \<Rightarrow> rbind (getUint64 b) (\<lambda>n. Ok (sint n)))"

definition writeSnapshotsCheckpoint :: "bstore \<Rightarrow> int \<Rightarrow> bstore res" where
  "writeSnapshotsCheckpoint s ckpt = db_update s (\<lambda>s. txn_set s storePrefixSnapshotCheckpoint (XRaw (timeToBytes ckpt)))"

section \<open>Users\<close>

definition readUser :: "bstore \<Rightarrow> string \<Rightarrow> user option res" where
  "readUser s i = b_read s as_user (storePrefixUser @ i)"

definition readUserByAddress :: "bstore \<Rightarrow> string \<Rightarrow> user option res" where
  "readUserByAddress s addr = rbind (b_read s as_raw (storePrefixAddress @ addr)) (\<lambda>v. case v of
       None \<Rightarrow> Ok None | Some i \<Rightarrow> readUser s i)"

definition readUserById :: "bstore \<Rightarrow> string \<Rightarrow> user option res" where
  "readUserById s i = readUser s i"

definition writeUser :: "bstore \<Rightarrow> user \<Rightarrow> bstore res" where
  "writeUser s u = db_update s (\<lambda>s.
     rbind (txn_set s (storePrefixUser @ mu_UserID u) (XUser u)) (\<lambda>s.
     txn_set s (storePrefixAddress @ mu_FullName u) (XRaw (mu_UserID u))))"

section \<open>Snapshots\<close>

definition writeSnapshot :: "bstore \<Rightarrow> mixin_snapshot \<Rightarrow> bstore res" where
  "writeSnapshot s snap = db_update s (\<lambda>s. txn_set s (snapshotKey snap) (XSnapshot snap))"

definition listSnapshots :: "bstore \<Rightarrow> nat \<Rightarrow> mixin_snapshot list res" where
  "listSnapshots s limit = list_items s as_snapshot (take limit (iter_from s storePrefixSnapshotList storePrefixSnapshotList))"

definition deleteSnapshots :: "bstore \<Rightarrow> mixin_snapshot list \<Rightarrow> bstore res" where
  "deleteSnapshots s snaps = db_update s (\<lambda>s. rfold (\<lambda>s snap. txn_delete s (snapshotKey snap)) s snaps)"

section \<open>Withdrawals\<close>

definition readWithdrawal :: "bstore \<Rightarrow> string \<Rightarrow> withdrawal option res" where
  "readWithdrawal s i = b_read s as_withdrawal (storePrefixWithdrawalPair @ i)"

definition readWithdrawalById :: "bstore \<Rightarrow> string \<Rightarrow> withdrawal option res" where
  "readWithdrawalById s i = readWithdrawal s i"

definition listWithdrawals :: "bstore \<Rightarrow> nat \<Rightarrow> withdrawal list res" where
  "listWithdrawals s limit = list_items s as_withdrawal (take limit (iter_from s storePrefixWithdrawalPair storePrefixWithdrawalPair))"

definition deleteWitdrawals :: "bstore \<Rightarrow> withdrawal list \<Rightarrow> bstore res" where
  "deleteWitdrawals s ws = db_update s (\<lambda>s. rfold (\<lambda>s w. txn_delete s (storePrefixWithdrawalPair @ wd_TraceId w)) s ws)"

definition writeWithdrawal :: "bstore \<Rightarrow> withdrawal \<Rightarrow> bstore res" where
  "writeWithdrawal s w = db_update s (\<lambda>s. rbind (readWithdrawal s (wd_TraceId w)) (\<lambda>old.
     case old of
       None \<Rightarrow> txn_set s (storePrefixWithdrawalPair @ wd_TraceId w) (XWithdrawal w)
     | Some old \<Rightarrow>
         if wd_Asset w = None then Panic ''asset''
         else if wd_Fee w = None then Panic ''fee''
         else if wd_CreatedAt old \<noteq> wd_CreatedAt w then Panic ''created at''
         else if wd_UserId old \<noteq> wd_UserId w then Panic (wd_UserId old)
         else txn_set s (storePrefixWithdrawalPair @ wd_TraceId w) (XWithdrawal w)))"

end
