(* ===== verification/Effects.thy ===== *)
theory Effects
  imports Encoding Text_Codecs
begin

text \<open>
  State transformers with a result, for the services that keep their effects when they fail, and the text functions of
  the Go library that they use.
\<close>

section \<open>State transformers\<close>

type_synonym ('s, 'a) eff = "'s \<Rightarrow> 'a res \<times> 's"

definition abind :: "('s, 'a) eff \<Rightarrow> ('a \<Rightarrow> ('s, 'b) eff) \<Rightarrow> ('s, 'b) eff" where
  "abind m f b = (case m b of (Ok x, b) \<Rightarrow> f x b | (Err e, b) \<Rightarrow> (Err e, b) | (Panic e, b) \<Rightarrow> (Panic e, b))"

text \<open>A result without an effect.\<close>

definition lift :: "'a res \<Rightarrow> ('s, 'a) eff" where
  "lift r b = (r, b)"

definition amust :: "('s, 'a) eff \<Rightarrow> ('s, 'a) eff" where
  "amust m b = (case m b of (r, b) \<Rightarrow> (must r, b))"

text \<open>\<open>h\<close> runs when \<open>m\<close> returns an error, in the state \<open>m\<close> left.\<close>

definition on_error :: "('s, 'a) eff \<Rightarrow> ('s, 'a) eff \<Rightarrow> ('s, 'a) eff" where
  "on_error m h b = (case m b of (Ok x, b) \<Rightarrow> (Ok x, b) | (Err e, b) \<Rightarrow> h b | (Panic e, b) \<Rightarrow> (Panic e, b))"

text \<open>A loop over a list.\<close>

fun afold :: "('x \<Rightarrow> ('s, unit) eff) \<Rightarrow> 'x list \<Rightarrow> ('s, unit) eff" where
  "afold f [] = lift (Ok ())"
| "afold f (x # xs) = abind (f x) (\<lambda>_. afold f xs)"

lemma abind_Ok [simp]: "abind m f b = (Ok y, b') \<longleftrightarrow> (\<exists>x b1. m b = (Ok x, b1) \<and> f x b1 = (Ok y, b'))"
  by (auto simp: abind_def split: prod.splits res.splits)

lemma lift_Ok [simp]: "lift r b = (x, b') \<longleftrightarrow> r = x \<and> b' = b"
  by (auto simp: lift_def)

lemma amust_Ok [simp]: "amust m b = (Ok x, b') \<longleftrightarrow> m b = (Ok x, b')"
  by (auto simp: amust_def split: prod.splits)

lemma on_error_Ok [simp]: "on_error m h b = (Ok x, b') \<longleftrightarrow>
   m b = (Ok x, b') \<or> (\<exists>e b1. m b = (Err e, b1) \<and> h b1 = (Ok x, b'))"
  by (auto simp: on_error_def split: prod.splits res.splits)

section \<open>Texts\<close>

text \<open>\<open>s[2:]\<close>, \<open>strings.ToLower\<close> on ASCII, \<open>strings.Split\<close> by one character, \<open>uuid.FromStringOrNil\<close>, and
  \<open>hex.DecodeString\<close> with its error ignored, which gives the bytes before the error.\<close>

definition slice2 :: "string \<Rightarrow> string res" where
  "slice2 s = (if length s < 2 then Panic ''slice bounds out of range'' else Ok (drop 2 s))"

definition to_lower :: "string \<Rightarrow> string" where
  "to_lower s = map (\<lambda>c. let n = (of_char c :: nat) in if 65 \<le> n \<and> n \<le> 90 then char_of (n + 32) else c) s"

fun str_split :: "char \<Rightarrow> string \<Rightarrow> string list" where
  "str_split d [] = [[]]"
| "str_split d (c # cs) = (if c = d then [] # str_split d cs else (case str_split d cs of
     [] \<Rightarrow> [[c]] | p # ps \<Rightarrow> (c # p) # ps))"

definition uuidOrNil :: "'z lib_scheme \<Rightarrow> string \<Rightarrow> bytes" where
  "uuidOrNil E s = (case uuidFromString E s of Ok u \<Rightarrow> u | _ \<Rightarrow> replicate 16 (CHR 0x00))"

fun hex_prefix :: "string \<Rightarrow> bytes" where
  "hex_prefix (a # b # cs) = (case (hexval a, hexval b) of
     (Some x, Some y) \<Rightarrow> char_of (16 * x + y) # hex_prefix cs | _ \<Rightarrow> [])"
| "hex_prefix _ = []"

end
