(* ===== verification/Bridge.thy ===== *)
theory Bridge
  imports Bridge_Store Effects
begin

text \<open>
  mvm/quorum/bridge: a service that holds one Mixin account per Ethereum address. What the account receives is passed
  to the address through the MVM, unless the memo names an action that is stored in a contract: a transfer, or a half
  of a withdrawal, whose amount and fee come in two transfers. Everything outside is a field of \<open>benv\<close>: the Mixin API,
  the contracts with their text form of addresses, hashes, the verification of addresses by chain, and the JSON form of
  an action. Requests with an effect are appended to \<open>b_calls\<close> before the reply is looked at; a function of the
  service is a state transformer that also keeps its effects when it fails. The loops are one iteration each.
\<close>

section \<open>Outside the service\<close>

record bridge_action =
  ac_Destination :: string
  ac_Tag :: string
  ac_Receivers :: "string list"
  ac_Threshold :: int
  ac_Extra :: string

record transfer_input =
  ti_AssetID :: string
  ti_Amount :: rat
  ti_TraceID :: string
  ti_Memo :: string
  ti_OpponentID :: string
  ti_Receivers :: "string list"
  ti_Threshold :: "8 word"

record address_input =
  ai_AssetID :: string
  ai_Destination :: string
  ai_Tag :: string
  ai_Label :: string

record withdraw_input =
  wi_AddressID :: string
  wi_Amount :: rat
  wi_TraceID :: string
  wi_Memo :: string

datatype domain = Ethereum | EthereumClassic | Bitcoin | Monero | Zcash | Horizen | Litecoin | Dogecoin | Ravencoin
  | Namecoin | Dash | Decred | BitcoinCash | BitcoinSV | Handshaken | Nervos | Siacoin | Filecoin | Solana | Near | Polkadot
  | Kusama | Ripple | Stellar | Tezos | EOS | Tron | MobileCoin | Cosmos | Avalanche | Binance | Akash | Arweave | Dfinity
  | Algorand | Polygon

datatype api_call =
    CTransfer keystore transfer_input string
  | CTransaction keystore transfer_input string
  | CCreateAddress keystore address_input string
  | CWithdraw keystore withdraw_input string
  | CDeleteAddress keystore string string
  | CStorageWrite nat bytes
  | CCreateUser bytes string
  | CModifyPin keystore string string

record benv = lib +
  conversationID :: "string \<Rightarrow> string \<Rightarrow> string"
  keccak256 :: "bytes \<Rightarrow> bytes"
  newHash :: "bytes \<Rightarrow> bytes"
  domainChainId :: "domain \<Rightarrow> bytes"
  domainVerify :: "domain \<Rightarrow> string \<Rightarrow> unit res"
  decodeMixinExtra :: "string \<Rightarrow> string option"
  actionJson :: "bridge_action \<Rightarrow> bytes res"
  jsonAction :: "bytes \<Rightarrow> bridge_action res"
  jsonUserRequest :: "bytes \<Rightarrow> (string \<times> string) res"
  MVMRegistryId :: string
  MVMRegistryContract :: string
  MVMStorageContract :: string
  MVMBridgeContract :: string
  MVMWithdrawalContract :: string
  MVMMembers :: "string list"
  MVMThreshold :: int
  ProxyUserSecret :: string
  storageRead :: "nat \<Rightarrow> bytes res"
  storageWrite :: "nat \<Rightarrow> bytes \<Rightarrow> unit res"
  registryContracts :: "nat \<Rightarrow> string res"
  bridgeBridges :: "string \<Rightarrow> string res"
  apiNewClient :: "keystore \<Rightarrow> unit res"
  apiReadNetworkSnapshots :: "int \<Rightarrow> nat \<Rightarrow> mixin_snapshot list res"
  apiReadAsset :: "string \<Rightarrow> bridge_asset res"
  apiCreateUser :: "bytes \<Rightarrow> string \<Rightarrow> (mixin_user \<times> keystore) res"
  apiModifyPin :: "keystore \<Rightarrow> string \<Rightarrow> string \<Rightarrow> unit res"
  apiCreateAddress :: "keystore \<Rightarrow> address_input \<Rightarrow> string \<Rightarrow> string res"
  apiWithdraw :: "keystore \<Rightarrow> withdraw_input \<Rightarrow> string \<Rightarrow> unit res"
  apiDeleteAddress :: "keystore \<Rightarrow> string \<Rightarrow> string \<Rightarrow> unit res"
  apiTransfer :: "keystore \<Rightarrow> transfer_input \<Rightarrow> string \<Rightarrow> unit res"
  apiTransaction :: "keystore \<Rightarrow> transfer_input \<Rightarrow> string \<Rightarrow> unit res"

section \<open>State and effects\<close>

record bridge =
  b_db :: bstore
  b_calls :: "api_call list"

type_synonym 'a act = "(bridge, 'a) eff"

text \<open>A reading and an update of the database, and a request with its reply.\<close>

definition reading :: "(bstore \<Rightarrow> 'a res) \<Rightarrow> 'a act" where
  "reading f b = (f (b_db b), b)"

definition updating :: "(bstore \<Rightarrow> bstore res) \<Rightarrow> unit act" where
  "updating f b = (case f (b_db b) of Ok s \<Rightarrow> (Ok (), b\<lparr>b_db := s\<rparr>) | Err e \<Rightarrow> (Err e, b) | Panic e \<Rightarrow> (Panic e, b))"

definition request :: "api_call \<Rightarrow> 'a res \<Rightarrow> 'a act" where
  "request c r b = (r, b\<lparr>b_calls := b_calls b @ [c]\<rparr>)"

section \<open>Constants\<close>

definition WithdrawalTimeout :: int where
  "WithdrawalTimeout = 5 * 60 * 1000000000"

definition zero_address :: string where
  "zero_address = ''0x'' @ replicate 40 (CHR ''0'')"

section \<open>Passing an amount to the MVM (mvm.go)\<close>

definition convertToMVMHex :: "rat \<Rightarrow> string res" where
  "convertToMVMHex amount = (let n = nat \<lfloor>\<bar>amount * 100000000\<bar>\<rfloor> in
     if n < 256 ^ 32 then Ok (hexEncode (be_bytes 32 n)) else Panic ''math/big: buffer too small to fit value'')"

definition convertToMVMAddress :: "'z lib_scheme \<Rightarrow> string \<Rightarrow> string res" where
  "convertToMVMAddress E ast = rbind (must (uuidFromString E ast)) (\<lambda>aid.
     Ok (replicate 24 (CHR ''0'') @ replicate 8 (CHR ''0'') @ hexEncode aid))"

definition getContract :: "'z benv_scheme \<Rightarrow> mixin_user \<Rightarrow> string res" where
  "getContract E u = rbind (must (uuidFromString E (mu_UserID u))) (\<lambda>uid.
     must (registryContracts E (be_nat (keccak256 E ([CHR 0x00, CHR 0x01] @ uid @ [CHR 0x00, CHR 0x01])))))"

definition checkBind :: "'z benv_scheme \<Rightarrow> mixin_user \<Rightarrow> bool res" where
  "checkBind E u = rbind (must (getContract E u)) (\<lambda>ua.
     if ua = zero_address then Ok False
     else rbind (must (bridgeBridges E ua)) (\<lambda>ba. Ok (ba \<noteq> zero_address)))"

definition buildHash :: "'z benv_scheme \<Rightarrow> bytes \<Rightarrow> bytes act" where
  "buildHash E b =
     abind (lift (must (uuidFromString E (MVMRegistryId E)))) (\<lambda>pid.
     abind (lift (rbind (slice2 (MVMStorageContract E)) (\<lambda>c. must (hexDecode c)))) (\<lambda>cb.
     let k = be_nat (keccak256 E b) in
     if \<not> k < 256 ^ 32 then lift (Panic ''math/big: buffer too small to fit value'')
     else let extra = pid @ cb @ be_bytes 32 k in
     if length extra \<noteq> 68 then lift (Panic (hexEncode extra))
     else abind (lift (must (storageRead E k))) (\<lambda>val.
       if val = b then lift (Ok extra)
       else abind (request (CStorageWrite k b) (must (storageWrite E k b))) (\<lambda>_. lift (Ok extra)))))"

definition bind_method :: string where
  "bind_method = ''81bac14f''"

definition pass_method :: string where
  "pass_method = ''0ed1db9f''"

text \<open>\<open>fmt.Sprintf("%04x", len/2)\<close>.\<close>

definition half_len :: "string \<Rightarrow> string" where
  "half_len s = pad_left (CHR ''0'') 4 (nat_hex (length s div 2))"

definition buildExtra :: "'z benv_scheme \<Rightarrow> mixin_user \<Rightarrow> string \<Rightarrow> string \<Rightarrow> rat \<Rightarrow> bytes act" where
  "buildExtra E u addr ast amt =
     abind (lift (slice2 (MVMBridgeContract E))) (\<lambda>c.
     abind (lift (slice2 addr)) (\<lambda>ad.
     abind (lift (convertToMVMHex amt)) (\<lambda>amount.
     let contract = to_lower c; addr = replicate 24 (CHR ''0'') @ to_lower ad;
         first = half_len (bind_method @ addr); second = half_len (pass_method @ addr @ amount) in
     abind (lift (checkBind E u)) (\<lambda>bound.
     abind (lift (convertToMVMAddress E ast)) (\<lambda>asset_addr.
     if bound then
       let b = hex_prefix (''0001'' @ contract @ second @ pass_method @ asset_addr @ amount) in
       if length b \<noteq> 92 then lift (Panic ''extra'') else lift (Ok b)
     else
       let b = hex_prefix (''0002'' @ contract @ first @ bind_method @ addr @ contract @ second @ pass_method @ asset_addr @ amount) in
       if length b \<noteq> 150 then lift (Panic ''extra'') else buildHash E b)))))"

definition send :: "'z benv_scheme \<Rightarrow> user \<Rightarrow> transfer_input \<Rightarrow> unit act" where
  "send E u inp = abind (lift (must (apiNewClient E (us_Key u)))) (\<lambda>_.
     if ti_Receivers inp \<noteq> [] then request (CTransaction (us_Key u) inp (us_PIN u)) (apiTransaction E (us_Key u) inp (us_PIN u))
     else request (CTransfer (us_Key u) inp (us_PIN u)) (apiTransfer E (us_Key u) inp (us_PIN u)))"

definition bindAndPass :: "'z benv_scheme \<Rightarrow> user \<Rightarrow> string \<Rightarrow> string \<Rightarrow> string \<Rightarrow> rat \<Rightarrow> unit act" where
  "bindAndPass E u snapshotId addr ast amount =
     abind (buildExtra E (mixin_user.truncate u) addr ast amount) (\<lambda>extra.
     abind (lift (Operation_Encode E \<lparr>o_Purpose = OperationPurposeGroupEvent, o_Process = MVMRegistryId E, o_Platform = [],
       o_Address = [], o_Extra = extra\<rparr>)) (\<lambda>op.
     send E u \<lparr>ti_AssetID = ast, ti_Amount = amount, ti_TraceID = conversationID E snapshotId ''BIND||PASS'',
       ti_Memo = b64Encode op, ti_OpponentID = [], ti_Receivers = MVMMembers E, ti_Threshold = word_of_int (MVMThreshold E)\<rparr>))"

definition pass :: "'z benv_scheme \<Rightarrow> user \<Rightarrow> mixin_snapshot \<Rightarrow> unit act" where
  "pass E u s = bindAndPass E u (ss_SnapshotID s) (mu_FullName u) (ss_AssetID s) (ss_Amount s)"

section \<open>Actions (action.go, domain.go)\<close>

definition all_domains :: "domain list" where
  "all_domains = [Ethereum, EthereumClassic, Bitcoin, Monero, Zcash, Horizen, Litecoin, Dogecoin, Ravencoin, Namecoin, Dash,
     Decred, BitcoinCash, BitcoinSV, Handshaken, Nervos, Siacoin, Filecoin, Solana, Near, Polkadot, Kusama, Ripple, Stellar,
     Tezos, EOS, Tron, MobileCoin, Cosmos, Avalanche, Binance, Akash, Arweave, Dfinity, Algorand, Polygon]"

definition verifyDestination :: "'z benv_scheme \<Rightarrow> bytes \<Rightarrow> string \<Rightarrow> unit res" where
  "verifyDestination E chainId addr = (case List.find (\<lambda>d. domainChainId E d = chainId) all_domains of
       Some d \<Rightarrow> domainVerify E d addr | None \<Rightarrow> Panic chainId)"

text \<open>Strict base64: the bits left over in the last quantum are zero.\<close>

definition b64DecodeStrict :: "string \<Rightarrow> bytes res" where
  "b64DecodeStrict s = rbind (b64Decode s) (\<lambda>b.
     if b64Encode b = filter (\<lambda>c. c \<noteq> CHR 0x0A \<and> c \<noteq> CHR 0x0D) s then Ok b else Err ''illegal base64 data'')"

definition decryptData :: "'z benv_scheme \<Rightarrow> string \<Rightarrow> bytes res" where
  "decryptData E data = (case decodeMixinExtra E data of
       None \<Rightarrow> Err ''invalid mixin extra pack'' | Some m \<Rightarrow> b64DecodeStrict m)"

definition action_of :: "'z benv_scheme \<Rightarrow> bstore \<Rightarrow> mixin_snapshot \<Rightarrow> bridge_action \<Rightarrow> bridge_action option res" where
  "action_of E db s a =
     (if ac_Destination a \<noteq> [] then
        rbind (must (readAsset db (ss_AssetID s))) (\<lambda>ast.
        rbind (of_option (Panic ''nil pointer dereference'') ast) (\<lambda>ast.
        case verifyDestination E (newHash E (xa_ChainID ast)) (ac_Destination a) of
          Panic e \<Rightarrow> Panic e
        | Err e \<Rightarrow> Ok None
        | Ok _ \<Rightarrow> if ac_Receivers a \<noteq> [] \<or> ac_Threshold a \<noteq> 0 then Ok None else Ok (Some a)))
      else if ac_Receivers a \<noteq> [] then
        if 7 < length (ac_Receivers a) then Ok None
        else if ac_Threshold a \<le> 0 \<or> int (length (ac_Receivers a)) < ac_Threshold a then Ok None
        else if \<not> list_all (\<lambda>r. uuidString E (uuidOrNil E r) = r) (ac_Receivers a) then Ok None
        else Ok (Some a)
      else Ok None)"

definition decodeAction :: "'z benv_scheme \<Rightarrow> bstore \<Rightarrow> mixin_snapshot \<Rightarrow> bridge_action option res" where
  "decodeAction E db s = (case decryptData E (ss_Memo s) of
       Panic e \<Rightarrow> Panic e
     | Err e \<Rightarrow> Ok None
     | Ok b \<Rightarrow>
         if length b \<noteq> 68 then Ok None
         else if uuidString E (take 16 b) \<noteq> MVMRegistryId E then Ok None
         else rbind (slice2 (MVMStorageContract E)) (\<lambda>contract.
           if hexEncode (take 20 (drop 16 b)) \<noteq> to_lower contract then Ok None
           else rbind (storageRead E (be_nat (drop 36 b))) (\<lambda>val.
             case jsonAction E val of Panic e \<Rightarrow> Panic e | Err e \<Rightarrow> Ok None | Ok a \<Rightarrow> action_of E db s a)))"

definition encodeActionAsExtra :: "'z benv_scheme \<Rightarrow> bridge_action \<Rightarrow> string res" where
  "encodeActionAsExtra E a = rbind (actionJson E a) (\<lambda>b.
     rbind (slice2 (MVMStorageContract E)) (\<lambda>c.
     rbind (must (hexDecode c)) (\<lambda>ha.
     Ok (hexEncode (uuidOrNil E (MVMRegistryId E) @ ha @ keccak256 E b @ b)))))"

section \<open>Withdrawals (withdrawal.go)\<close>

definition bad_trace :: "'a res" where
  "bad_trace = Err ''invalid withdrawal trace data''"

text \<open>The merge with the other half: \<open>old\<close> is the stored withdrawal, \<open>w\<close> the new half.\<close>

definition pair_up :: "withdrawal \<Rightarrow> withdrawal \<Rightarrow> withdrawal res" where
  "pair_up old w =
     (if wd_CreatedAt old + WithdrawalTimeout < wd_CreatedAt w then Err ''withdrawl pair time out''
      else if wd_Asset old \<noteq> None \<and> wd_Fee old \<noteq> None then Err ''invalid withdrawal pair''
      else let w = w\<lparr>wd_CreatedAt := wd_CreatedAt old\<rparr>;
               w = (if wd_Fee w = None then w\<lparr>wd_Fee := wd_Fee old\<rparr> else w);
               w = (if wd_Asset w = None then w\<lparr>wd_Asset := wd_Asset old\<rparr> else w) in
           if wd_Asset w = None \<or> wd_Fee w = None then Err ''invalid withdrawal pair'' else Ok w)"

definition submit_half :: "'z benv_scheme \<Rightarrow> int \<Rightarrow> user \<Rightarrow> mixin_snapshot \<Rightarrow> bridge_action \<Rightarrow> string \<Rightarrow> string \<Rightarrow> unit act" where
  "submit_half E tm u s a i part =
     abind (amust (reading (\<lambda>db. readAsset db (ss_AssetID s)))) (\<lambda>ast.
     abind (lift (if part = ''B''
       then rbind (of_option (Panic ''nil pointer dereference'') ast) (\<lambda>ast.
         if ss_AssetID s \<noteq> xa_ChainID ast then Err ''invalid withdrawal fee'' else Ok ())
       else Ok ())) (\<lambda>_.
     let w = \<lparr>wd_TraceId = conversationID E (mu_UserID u) i, wd_Destination = ac_Destination a, wd_Tag = ac_Tag a,
       wd_CreatedAt = tm, wd_UserId = ss_UserID s, wd_Asset = (if part = ''A'' then Some s else None),
       wd_Fee = (if part = ''A'' then None else Some s)\<rparr> in
     abind (amust (reading (\<lambda>db. readWithdrawalById db (wd_TraceId w)))) (\<lambda>old.
     case old of
       None \<Rightarrow> updating (\<lambda>db. writeWithdrawal db w)
     | Some old \<Rightarrow> abind (lift (pair_up old w)) (\<lambda>w. updating (\<lambda>db. writeWithdrawal db w)))))"

definition submit :: "'z benv_scheme \<Rightarrow> int \<Rightarrow> user \<Rightarrow> mixin_snapshot \<Rightarrow> bridge_action \<Rightarrow> unit act" where
  "submit E tm u s a =
     (if length (ac_Extra a) \<noteq> 38 then lift bad_trace
      else case str_split (CHR '':'') (ac_Extra a) of
        [i, part] \<Rightarrow>
          if uuidString E (uuidOrNil E i) \<noteq> i then lift bad_trace
          else if part \<noteq> ''A'' \<and> part \<noteq> ''B'' then lift bad_trace
          else submit_half E tm u s a i part
      | _ \<Rightarrow> lift bad_trace)"

definition withdraw :: "'z benv_scheme \<Rightarrow> user \<Rightarrow> mixin_snapshot \<Rightarrow> string \<Rightarrow> string \<Rightarrow> unit act" where
  "withdraw E u s destination tag =
     abind (lift (apiNewClient E (us_Key u))) (\<lambda>_.
     let ain = \<lparr>ai_AssetID = ss_AssetID s, ai_Destination = destination, ai_Tag = tag, ai_Label = ss_SnapshotID s\<rparr> in
     abind (request (CCreateAddress (us_Key u) ain (us_PIN u)) (apiCreateAddress E (us_Key u) ain (us_PIN u))) (\<lambda>addr.
     let win = \<lparr>wi_AddressID = addr, wi_Amount = ss_Amount s,
       wi_TraceID = conversationID E (ss_SnapshotID s) ''HANDLE||WITHDRAWAL'', wi_Memo = ss_SnapshotID s\<rparr> in
     abind (request (CWithdraw (us_Key u) win (us_PIN u)) (apiWithdraw E (us_Key u) win (us_PIN u))) (\<lambda>_.
     request (CDeleteAddress (us_Key u) (ai_AssetID ain) (us_PIN u)) (apiDeleteAddress E (us_Key u) (ai_AssetID ain) (us_PIN u)))))"

definition pass_half :: "'z benv_scheme \<Rightarrow> user \<Rightarrow> mixin_snapshot option \<Rightarrow> unit act" where
  "pass_half E u h = (case h of None \<Rightarrow> lift (Ok ()) | Some s \<Rightarrow> pass E u s)"

definition expireWithdrawal :: "'z benv_scheme \<Rightarrow> user \<Rightarrow> withdrawal \<Rightarrow> unit act" where
  "expireWithdrawal E u w = abind (pass_half E u (wd_Asset w)) (\<lambda>_. pass_half E u (wd_Fee w))"

text \<open>A user that is not found is a nil pointer, which is dereferenced as soon as there is something to pay.\<close>

definition processWithdrawalForUser :: "'z benv_scheme \<Rightarrow> int \<Rightarrow> withdrawal \<Rightarrow> user option \<Rightarrow> unit act" where
  "processWithdrawalForUser E tm w u =
     (if wd_CreatedAt w + WithdrawalTimeout < tm then
        (case u of Some u \<Rightarrow> expireWithdrawal E u w
         | None \<Rightarrow> if wd_Asset w = None \<and> wd_Fee w = None then lift (Ok ()) else lift (Panic ''nil pointer dereference''))
      else case (wd_Asset w, wd_Fee w) of
        (Some a, Some f) \<Rightarrow> (case u of
           None \<Rightarrow> lift (Panic ''nil pointer dereference'')
         | Some u \<Rightarrow>
             if ss_UserID a \<noteq> mu_UserID u \<or> ss_UserID f \<noteq> mu_UserID u then lift (Panic (mu_UserID u))
             else on_error (withdraw E u a (wd_Destination w) (wd_Tag w)) (abind (pass E u a) (\<lambda>_. pass E u f)))
      | _ \<Rightarrow> lift (Ok ()))"

definition processWithdrawals :: "'z benv_scheme \<Rightarrow> int \<Rightarrow> unit act" where
  "processWithdrawals E tm =
     abind (amust (reading (\<lambda>db. listWithdrawals db 1000))) (\<lambda>ws.
     abind (afold (\<lambda>w. abind (amust (reading (\<lambda>db. readUserById db (wd_UserId w)))) (\<lambda>u.
       amust (processWithdrawalForUser E tm w u))) ws) (\<lambda>_.
     amust (updating (\<lambda>db. deleteWitdrawals db ws))))"

section \<open>Snapshots (user.go, proxy.go)\<close>

definition handle :: "'z benv_scheme \<Rightarrow> int \<Rightarrow> user \<Rightarrow> mixin_snapshot \<Rightarrow> bridge_action \<Rightarrow> unit act" where
  "handle E tm u s a =
     (if ac_Destination a \<noteq> [] then submit E tm u s a
      else let input = \<lparr>ti_AssetID = ss_AssetID s, ti_Amount = ss_Amount s,
             ti_TraceID = conversationID E (ss_SnapshotID s) ''HANDLE||TRANSFER'', ti_Memo = ac_Extra a,
             ti_OpponentID = [], ti_Receivers = [], ti_Threshold = 0\<rparr> in
        send E u (case ac_Receivers a of
            [r] \<Rightarrow> input\<lparr>ti_OpponentID := r\<rparr>
          | rs \<Rightarrow> input\<lparr>ti_Receivers := rs, ti_Threshold := word_of_int (ac_Threshold a)\<rparr>))"

definition processSnapshotForUser :: "'z benv_scheme \<Rightarrow> int \<Rightarrow> mixin_snapshot \<Rightarrow> user \<Rightarrow> unit act" where
  "processSnapshotForUser E tm s u =
     abind (reading (\<lambda>db. decodeAction E db s)) (\<lambda>a. case a of
         None \<Rightarrow> pass E u s
       | Some a \<Rightarrow> on_error (handle E tm u s a) (pass E u s))"

definition fetchAsset :: "'z benv_scheme \<Rightarrow> string \<Rightarrow> unit act" where
  "fetchAsset E i = abind (reading (\<lambda>db. readAsset db i)) (\<lambda>a. case a of
       Some _ \<Rightarrow> lift (Ok ())
     | None \<Rightarrow> abind (lift (apiReadAsset E i)) (\<lambda>a. updating (\<lambda>db. writeAsset db a)))"

definition process_snapshot :: "'z benv_scheme \<Rightarrow> int \<Rightarrow> mixin_snapshot \<Rightarrow> unit act" where
  "process_snapshot E tm s =
     abind (amust (reading (\<lambda>db. readUserById db (ss_UserID s)))) (\<lambda>u. case u of
         None \<Rightarrow> lift (Ok ())
       | Some u \<Rightarrow> abind (amust (fetchAsset E (ss_AssetID s))) (\<lambda>_. amust (processSnapshotForUser E tm s u)))"

definition processSnapshots :: "'z benv_scheme \<Rightarrow> int \<Rightarrow> unit act" where
  "processSnapshots E tm =
     abind (amust (reading (\<lambda>db. listSnapshots db 100))) (\<lambda>ss.
     abind (afold (process_snapshot E tm) ss) (\<lambda>_.
     amust (updating (\<lambda>db. deleteSnapshots db ss))))"

text \<open>The snapshots that the loop keeps: of a user, and of at least the smallest amount.\<close>

definition kept_snapshot :: "mixin_snapshot \<Rightarrow> bool" where
  "kept_snapshot s \<longleftrightarrow> ss_UserID s \<noteq> [] \<and> \<not> ss_Amount s < 1 / 100000000"

definition loopSnapshots :: "'z benv_scheme \<Rightarrow> int \<Rightarrow> unit act" where
  "loopSnapshots E now =
     abind (reading (\<lambda>db. readSnapshotsCheckpoint db now)) (\<lambda>ckpt.
     abind (lift (apiReadNetworkSnapshots E ckpt 500)) (\<lambda>ss.
     abind (afold (\<lambda>s. if kept_snapshot s then updating (\<lambda>db. writeSnapshot db s) else lift (Ok ())) ss) (\<lambda>_.
     updating (\<lambda>db. writeSnapshotsCheckpoint db (if ss = [] then ckpt else ss_CreatedAt (List.last ss))))))"

section \<open>Users (user.go)\<close>

text \<open>\<open>for len(pin) < 6 { pin = pin + pin }\<close>; the text of a number is not empty.\<close>

function grow_pin :: "string \<Rightarrow> string" where
  "grow_pin pin = (if length pin < 6 \<and> pin \<noteq> [] then grow_pin (pin @ pin) else pin)"
  by pat_completeness auto

termination
  by (relation "measure (\<lambda>p. 6 - length p)") (auto simp: neq_Nil_conv)

declare grow_pin.simps [simp del]

definition readUserWithContract :: "'z benv_scheme \<Rightarrow> string \<Rightarrow> user option act" where
  "readUserWithContract E i =
     abind (reading (\<lambda>db. readUserById db i)) (\<lambda>u. case u of
       None \<Rightarrow> lift (Ok None)
     | Some u \<Rightarrow>
         if us_Contract u \<noteq> [] then lift (Ok (Some u))
         else abind (lift (getContract E (mixin_user.truncate u))) (\<lambda>ua.
           if ua = zero_address then lift (Ok (Some u))
           else abind (updating (\<lambda>db. writeUser db (u\<lparr>us_Contract := ua\<rparr>))) (\<lambda>_.
                lift (Ok (Some (u\<lparr>us_Contract := ua\<rparr>))))))"

definition create_new :: "'z benv_scheme \<Rightarrow> string \<Rightarrow> user option act" where
  "create_new E addr =
     (let seed = newHash E (ProxyUserSecret E @ addr) in
      abind (request (CCreateUser seed addr) (apiCreateUser E seed addr)) (\<lambda>(mu, ks).
      let u = mixin_user.extend mu (user.fields ks (take 6 (grow_pin (nat_digits (be_nat (newHash E seed))))) []) in
      abind (if mu_HasPin mu then lift (Ok ())
             else abind (lift (apiNewClient E ks)) (\<lambda>_. request (CModifyPin ks [] (us_PIN u)) (apiModifyPin E ks [] (us_PIN u)))) (\<lambda>_.
      abind (updating (\<lambda>db. writeUser db u)) (\<lambda>_.
      readUserWithContract E (mu_UserID u)))))"

definition createUser :: "'z benv_scheme \<Rightarrow> string \<Rightarrow> string \<Rightarrow> user option act" where
  "createUser E addr sig =
     abind (lift (domainVerify E Ethereum addr)) (\<lambda>_.
     abind (reading (\<lambda>db. readUserByAddress db addr)) (\<lambda>old. case old of
       None \<Rightarrow> create_new E addr
     | Some u \<Rightarrow> if us_Contract u \<noteq> [] then lift (Ok (Some u)) else create_new E addr))"

section \<open>The HTTP interface (http.go)\<close>

record http_request =
  rq_Method :: string
  rq_Origin :: string
  rq_Body :: bytes

datatype reply_body = BIndex "(string \<times> string) list" | BError goerr | BUser string string string int keystore string | BExtra string | BEmpty

record http_reply =
  rp_Status :: nat
  rp_Headers :: "(string \<times> string) list"
  rp_Body :: reply_body

definition reply :: "nat \<Rightarrow> reply_body \<Rightarrow> http_reply" where
  "reply status body = \<lparr>rp_Status = status, rp_Headers = [], rp_Body = body\<rparr>"

definition http_index :: "'z benv_scheme \<Rightarrow> http_request \<Rightarrow> http_reply act" where
  "http_index E r = lift (Ok (reply 200 (BIndex [
     (''code'', ''https://github.com/MixinNetwork/trusted-group/tree/master/mvm/quorum/bridge''),
     (''process'', MVMRegistryId E),
     (''registry'', ''https://scan.mvm.dev/address/'' @ MVMRegistryContract E),
     (''bridge'', ''https://scan.mvm.dev/address/'' @ MVMBridgeContract E),
     (''withdrawal'', ''https://scan.mvm.dev/address/'' @ MVMWithdrawalContract E),
     (''storage'', ''https://scan.mvm.dev/address/'' @ MVMStorageContract E)])))"

text \<open>An error of a handler is a reply; a panic is left to the server.\<close>

definition or_error :: "'a act \<Rightarrow> ('a \<Rightarrow> http_reply res) \<Rightarrow> http_reply act" where
  "or_error m f b = (case m b of
     (Ok x, b) \<Rightarrow> (f x, b) | (Err e, b) \<Rightarrow> (Ok (reply 500 (BError e)), b) | (Panic e, b) \<Rightarrow> (Panic e, b))"

definition http_createUser :: "'z benv_scheme \<Rightarrow> http_request \<Rightarrow> http_reply act" where
  "http_createUser E r = (case jsonUserRequest E (rq_Body r) of
       Panic e \<Rightarrow> lift (Panic e)
     | Err e \<Rightarrow> lift (Ok (reply 400 (BError e)))
     | Ok (pub, sig) \<Rightarrow> or_error (createUser E pub sig) (\<lambda>u. case u of
         None \<Rightarrow> Panic ''nil pointer dereference''
       | Some u \<Rightarrow> Ok (reply 200 (BUser (mu_UserID u) (mu_SessionID u) (mu_FullName u) (mu_CreatedAt u) (us_Key u) (us_Contract u)))))"

definition http_encodeExtra :: "'z benv_scheme \<Rightarrow> http_request \<Rightarrow> http_reply act" where
  "http_encodeExtra E r = (case jsonAction E (rq_Body r) of
       Panic e \<Rightarrow> lift (Panic e)
     | Err e \<Rightarrow> lift (Ok (reply 400 (BError e)))
     | Ok a \<Rightarrow> or_error (lift (encodeActionAsExtra E a)) (\<lambda>x. Ok (reply 200 (BExtra x))))"

definition cors_headers :: "string \<Rightarrow> (string \<times> string) list" where
  "cors_headers origin = [(''Access-Control-Allow-Origin'', origin), (''Access-Control-Allow-Headers'', ''Content-Type,X-Request-ID''),
     (''Access-Control-Allow-Methods'', ''OPTIONS,GET,POST,DELETE''), (''Access-Control-Max-Age'', ''600'')]"

definition handleCORS :: "(http_request \<Rightarrow> http_reply act) \<Rightarrow> http_request \<Rightarrow> http_reply act" where
  "handleCORS handler r =
     (if rq_Origin r = [] then handler r
      else abind (if rq_Method r = ''OPTIONS'' then lift (Ok (reply 200 BEmpty)) else handler r) (\<lambda>rep.
        lift (Ok (rep\<lparr>rp_Headers := cors_headers (rq_Origin r) @ rp_Headers rep\<rparr>))))"

end
