(* ===== verification/Bridge_Laws.thy ===== *)
theory Bridge_Laws
  imports Bridge
begin

text \<open>
  The bridge: what each function of the service may do to the state, whether it succeeds or fails. A relation between
  the states before and after is carried through a function by the locale \<open>act_relation\<close>, from the requests and updates
  it is made of; it is interpreted on the invariant of the database and on what handling a snapshot keeps.
\<close>

section \<open>Results\<close>

lemma reading_Ok [simp]: "reading f b = (r, b') \<longleftrightarrow> f (b_db b) = r \<and> b' = b"
  by (auto simp: reading_def)

lemma updating_Ok [simp]: "updating f b = (Ok u, b') \<longleftrightarrow> (\<exists>s. f (b_db b) = Ok s \<and> b' = b\<lparr>b_db := s\<rparr>)"
  by (auto simp: updating_def split: res.splits)

lemma request_Ok [simp]: "request c r b = (x, b') \<longleftrightarrow> r = x \<and> b' = b\<lparr>b_calls := b_calls b @ [c]\<rparr>"
  by (auto simp: request_def)

section \<open>Relations that a function keeps\<close>

definition evolves :: "(bridge \<Rightarrow> bridge \<Rightarrow> bool) \<Rightarrow> 'a act \<Rightarrow> bool" where
  "evolves R m \<longleftrightarrow> (\<forall>b r b'. m b = (r, b') \<longrightarrow> R b b')"

lemma evolvesD: "evolves R m \<Longrightarrow> m b = (r, b') \<Longrightarrow> R b b'"
  by (auto simp: evolves_def)

named_theorems act_intros

locale act_relation =
  fixes R :: "bridge \<Rightarrow> bridge \<Rightarrow> bool"
  assumes refl: "R b b"
    and trans: "R a b \<Longrightarrow> R b c \<Longrightarrow> R a c"
    and called: "R b (b\<lparr>b_calls := b_calls b @ [call]\<rparr>)"
begin

lemma ev_lift [act_intros]: "evolves R (lift r)"
  by (auto simp: evolves_def lift_def refl)

lemma ev_reading [act_intros]: "evolves R (reading f)"
  by (auto simp: evolves_def reading_def refl)

lemma ev_request [act_intros]: "evolves R (request c r)"
  by (auto simp: evolves_def request_def called)

lemma ev_updating: "(\<And>b t. f (b_db b) = Ok t \<Longrightarrow> R b (b\<lparr>b_db := t\<rparr>)) \<Longrightarrow> evolves R (updating f)"
  by (auto simp: evolves_def updating_def refl split: res.splits)

lemma ev_abind [act_intros]: "evolves R m \<Longrightarrow> (\<And>x. evolves R (f x)) \<Longrightarrow> evolves R (abind m f)"
  unfolding evolves_def abind_def by (auto split: prod.splits res.splits intro: trans refl) (blast intro: trans)+

lemma ev_amust [act_intros]: "evolves R m \<Longrightarrow> evolves R (amust m)"
  by (auto simp: evolves_def amust_def split: prod.splits)

lemma ev_on_error [act_intros]: "evolves R m \<Longrightarrow> evolves R h \<Longrightarrow> evolves R (on_error m h)"
  unfolding evolves_def on_error_def by (auto split: prod.splits res.splits) (blast intro: trans)+

lemma ev_afold [act_intros]: "(\<And>x. evolves R (f x)) \<Longrightarrow> evolves R (afold f xs)"
  by (induction xs) (auto intro: ev_lift ev_abind)

lemma afold_at:
  assumes "\<And>x. evolves R (f x)" "afold f xs b = (Ok y, b')" "x \<in> set xs"
  shows "\<exists>b1 b2. R b b1 \<and> f x b1 = (Ok (), b2) \<and> R b2 b'"
  using assms(2,3)
proof (induction xs arbitrary: b)
  case (Cons z zs)
  then obtain c where c: "f z b = (Ok (), c)" "afold f zs c = (Ok y, b')" by auto
  have zs: "R c b'" using evolvesD [OF ev_afold [OF assms(1)] c(2)] .
  show ?case
  proof (cases "x = z")
    case False
    with Cons.prems(2) have "x \<in> set zs" by simp
    from Cons.IH [OF c(2) this] obtain b1 b2 where "R c b1" "f x b1 = (Ok (), b2)" "R b2 b'" by blast
    with trans [OF evolvesD [OF assms(1) c(1)]] show ?thesis by blast
  qed (use c zs refl in blast)
qed simp

text \<open>The functions that only send requests.\<close>

lemma ev_send: "evolves R (send E u inp)"
  unfolding send_def by (auto intro!: act_intros)

lemma ev_buildHash: "evolves R (buildHash E x)"
  unfolding buildHash_def Let_def by (auto intro!: act_intros)

lemma ev_buildExtra: "evolves R (buildExtra E u addr ast amt)"
  unfolding buildExtra_def Let_def by (auto intro!: act_intros ev_buildHash)

lemma ev_pass: "evolves R (pass E u s)"
  unfolding pass_def bindAndPass_def by (intro act_intros ev_buildExtra ev_send)

lemma ev_withdraw: "evolves R (withdraw E u s d t)"
  unfolding withdraw_def Let_def by (intro act_intros)

lemma ev_processWithdrawalForUser: "evolves R (processWithdrawalForUser E tm w u)"
proof -
  have "evolves R (pass_half E x h)" for x h
    unfolding pass_half_def by (cases h) (auto intro: ev_lift ev_pass)
  then have "evolves R (expireWithdrawal E x w)" for x
    unfolding expireWithdrawal_def by (intro ev_abind)
  then show ?thesis unfolding processWithdrawalForUser_def
    by (auto intro!: act_intros ev_pass ev_withdraw split: option.split)
qed

end

section \<open>The database is well typed\<close>

lemmas bridge_prefixes = storePrefixUser_def storePrefixAsset_def storePrefixAddress_def storePrefixSnapshotList_def
  storePrefixSnapshotCheckpoint_def storePrefixWithdrawalPair_def

definition fits :: "bytes \<Rightarrow> bval \<Rightarrow> bool" where
  "fits k v = (case v of
       XUser u \<Rightarrow> k = storePrefixUser @ mu_UserID u
     | XAsset a \<Rightarrow> k = storePrefixAsset @ xa_AssetID a
     | XSnapshot s \<Rightarrow> k = snapshotKey s
     | XWithdrawal w \<Rightarrow> k = storePrefixWithdrawalPair @ wd_TraceId w
     | XRaw b \<Rightarrow> (\<exists>a. k = storePrefixAddress @ a) \<or> (k = storePrefixSnapshotCheckpoint \<and> length b = 8))"

definition bdb_ok :: "bstore \<Rightarrow> bool" where
  "bdb_ok s \<longleftrightarrow> db_ok s \<and> no_fault s \<and> (\<forall>k v. db_lookup s k = Some v \<longrightarrow> fits k v)"

lemma bdb_ok_empty: "bdb_ok db_empty"
  by (simp add: bdb_ok_def no_fault_def db_ok_def db_lookup_def db_empty_def)

lemma bdb_ok_set: "bdb_ok s \<Longrightarrow> fits k v \<Longrightarrow> bdb_ok (s\<lparr>kvs := kv_set k v (kvs s)\<rparr>)"
  by (auto simp: bdb_ok_def)

lemma bdb_ok_del: "bdb_ok s \<Longrightarrow> bdb_ok (s\<lparr>kvs := kv_del k (kvs s)\<rparr>)"
  by (auto simp: bdb_ok_def)

lemma bdb_ok_delete_all: "bdb_ok s \<Longrightarrow> rfold (\<lambda>s x. txn_delete s (key x)) s xs = Ok t \<Longrightarrow> bdb_ok t"
  by (rule rfold_invariant [where P = bdb_ok]) (auto simp: txn_delete_Ok bdb_ok_del)

lemma bdb_ok_writes:
  assumes "bdb_ok s"
  shows "writeAsset s a = Ok t \<Longrightarrow> bdb_ok t" "writeSnapshotsCheckpoint s c = Ok t \<Longrightarrow> bdb_ok t"
    "writeSnapshot s sn = Ok t \<Longrightarrow> bdb_ok t" "writeWithdrawal s w = Ok t \<Longrightarrow> bdb_ok t"
    "writeUser s u = Ok t \<Longrightarrow> bdb_ok t"
    "deleteSnapshots s sns = Ok t \<Longrightarrow> bdb_ok t" "deleteWitdrawals s ws = Ok t \<Longrightarrow> bdb_ok t"
proof -
  show "writeAsset s a = Ok t \<Longrightarrow> bdb_ok t" "writeSnapshotsCheckpoint s c = Ok t \<Longrightarrow> bdb_ok t"
    "writeSnapshot s sn = Ok t \<Longrightarrow> bdb_ok t" "writeWithdrawal s w = Ok t \<Longrightarrow> bdb_ok t"
    using assms by (auto simp: writeAsset_def writeSnapshotsCheckpoint_def writeSnapshot_def writeWithdrawal_def txn_set_Ok
        timeToBytes_def putUint64_def fits_def intro!: bdb_ok_set split: option.splits if_splits)
  show "bdb_ok t" if w: "writeUser s u = Ok t"
  proof -
    let ?s1 = "s\<lparr>kvs := kv_set (storePrefixUser @ mu_UserID u) (XUser u) (kvs s)\<rparr>"
    have "t = ?s1\<lparr>kvs := kv_set (storePrefixAddress @ mu_FullName u) (XRaw (mu_UserID u)) (kvs ?s1)\<rparr>"
      using w by (auto simp: writeUser_def txn_set_Ok)
    moreover have "bdb_ok ?s1" by (rule bdb_ok_set [OF assms]) (simp add: fits_def)
    ultimately show ?thesis by (simp only:) (rule bdb_ok_set, assumption, simp add: fits_def)
  qed
  show "deleteSnapshots s sns = Ok t \<Longrightarrow> bdb_ok t" "deleteWitdrawals s ws = Ok t \<Longrightarrow> bdb_ok t"
    using assms by (auto simp: deleteSnapshots_def deleteWitdrawals_def intro: bdb_ok_delete_all)
qed

definition keeps_types :: "bridge \<Rightarrow> bridge \<Rightarrow> bool" where
  "keeps_types b b' \<longleftrightarrow> (bdb_ok (b_db b) \<longrightarrow> bdb_ok (b_db b'))"

interpretation types: act_relation keeps_types
  by unfold_locales (auto simp: keeps_types_def)

lemma ev_types_updating [act_intros]:
  "evolves keeps_types (updating (\<lambda>s. writeAsset s a))" "evolves keeps_types (updating (\<lambda>s. writeSnapshotsCheckpoint s c))"
  "evolves keeps_types (updating (\<lambda>s. writeSnapshot s sn))" "evolves keeps_types (updating (\<lambda>s. writeWithdrawal s w))"
  "evolves keeps_types (updating (\<lambda>s. writeUser s u))"
  "evolves keeps_types (updating (\<lambda>s. deleteSnapshots s sns))" "evolves keeps_types (updating (\<lambda>s. deleteWitdrawals s ws))"
  by (rule types.ev_updating, simp add: keeps_types_def, intro impI, erule bdb_ok_writes, assumption)+

declare types.ev_abind [act_intros] types.ev_lift [act_intros] types.ev_reading [act_intros] types.ev_request [act_intros]
  types.ev_amust [act_intros] types.ev_on_error [act_intros] types.ev_afold [act_intros]

lemma ev_types_submit: "evolves keeps_types (submit E tm u s a)"
proof -
  have "evolves keeps_types (submit_half E tm u s a i part)" for i part
    unfolding submit_half_def Let_def by (intro act_intros) (auto intro!: act_intros split: option.split)
  then show ?thesis unfolding submit_def bad_trace_def by (auto intro!: act_intros split: list.split)
qed

lemma ev_types_process: "evolves keeps_types (process_snapshot E tm s)"
proof -
  have "evolves keeps_types (handle E tm u s a)" for u a
    unfolding handle_def Let_def by (auto intro: types.ev_send ev_types_submit)
  then have "evolves keeps_types (processSnapshotForUser E tm s u)" for u
    unfolding processSnapshotForUser_def by (intro act_intros) (auto intro!: act_intros types.ev_pass split: option.split)
  moreover have "evolves keeps_types (fetchAsset E i)" for i
    unfolding fetchAsset_def by (intro act_intros) (auto intro!: act_intros split: option.split)
  ultimately show ?thesis
    unfolding process_snapshot_def by (intro act_intros) (auto intro!: act_intros split: option.split)
qed

lemma ev_types_create: "evolves keeps_types (createUser E addr sig)"
proof -
  have "evolves keeps_types (readUserWithContract E i)" for i
    unfolding readUserWithContract_def by (intro act_intros) (auto intro!: act_intros split: option.split)
  then have "evolves keeps_types (create_new E addr)"
    unfolding create_new_def Let_def by (intro act_intros) (auto intro!: act_intros split: prod.split)
  then show ?thesis unfolding createUser_def by (intro act_intros) (auto intro!: act_intros split: option.split)
qed

lemma ev_types_loops:
  "evolves keeps_types (loopSnapshots E t0)" "evolves keeps_types (processSnapshots E tm)"
  "evolves keeps_types (processWithdrawals E tm)"
proof -
  show "evolves keeps_types (loopSnapshots E t0)"
    unfolding loopSnapshots_def by (intro act_intros) (auto intro!: act_intros)
  show "evolves keeps_types (processSnapshots E tm)"
    unfolding processSnapshots_def by (intro act_intros ev_types_process)
  show "evolves keeps_types (processWithdrawals E tm)"
    unfolding processWithdrawals_def by (intro act_intros types.ev_processWithdrawalForUser)
qed

text \<open>What the service does, in any order, each loop one iteration, whatever its result. Every iteration and every call
  has an environment of its own: the API, the contracts and the node may answer the same request differently each time.\<close>

inductive bridge_step :: "bridge \<Rightarrow> bridge \<Rightarrow> bool" where
  pulled: "loopSnapshots (E :: benv) t0 b = (r, b') \<Longrightarrow> bridge_step b b'"
| processed: "processSnapshots (E :: benv) tm b = (r, b') \<Longrightarrow> bridge_step b b'"
| withdrawn: "processWithdrawals (E :: benv) tm b = (r, b') \<Longrightarrow> bridge_step b b'"
| created: "createUser (E :: benv) addr sig b = (q, b') \<Longrightarrow> bridge_step b b'"

inductive_cases bridge_stepE: "bridge_step b b'"

lemma bridge_step_types: "bridge_step b b' \<Longrightarrow> keeps_types b b'"
  by (erule bridge_stepE) (blast intro: evolvesD ev_types_loops ev_types_create)+

lemma bridge_reach_types: "bridge_step\<^sup>*\<^sup>* b b' \<Longrightarrow> bdb_ok (b_db b) \<Longrightarrow> bdb_ok (b_db b')"
  by (induction rule: rtranclp_induct) (auto dest: bridge_step_types simp: keeps_types_def)

text \<open>In a well-typed database every reading succeeds.\<close>

lemma fits_prefix:
  "fits (storePrefixUser @ x) v \<Longrightarrow> \<exists>u. v = XUser u" "fits (storePrefixAsset @ x) v \<Longrightarrow> \<exists>a. v = XAsset a"
  "fits (storePrefixAddress @ x) v \<Longrightarrow> \<exists>b. v = XRaw b" "fits (storePrefixWithdrawalPair @ x) v \<Longrightarrow> \<exists>w. v = XWithdrawal w"
  "fits storePrefixSnapshotCheckpoint v \<Longrightarrow> \<exists>b. v = XRaw b \<and> length b = 8"
  "fits (storePrefixSnapshotList @ x) v \<Longrightarrow> \<exists>s. v = XSnapshot s"
  by (cases v; auto simp: fits_def bridge_prefixes snapshotKey_def)+

lemma b_read_no_fault: "no_fault s \<Longrightarrow> b_read s dec k = (case db_lookup s k of None \<Rightarrow> Ok None
   | Some v \<Rightarrow> rbind (dec v) (\<lambda>x. Ok (Some x)))"
  by (auto simp: b_read_def txn_get_def txn_value_def io_check_def no_fault_def split: option.split)

lemma bdb_ok_lookup: "bdb_ok s \<Longrightarrow> db_lookup s k = Some v \<Longrightarrow> fits k v"
  by (simp add: bdb_ok_def)

lemma list_typed:
  assumes "bdb_ok s" "\<And>x v. fits (p @ x) v \<Longrightarrow> \<exists>y. dec v = Ok y"
  shows "\<exists>ys. list_items s dec (take n (iter_from s p p)) = Ok ys"
proof -
  have nf: "no_fault s" using assms(1) by (simp add: bdb_ok_def)
  have dec: "\<exists>y. dec v = Ok y" if "(k, v) \<in> set (take n (iter_from s p p))" for k v
  proof -
    have "db_lookup s k = Some v \<and> has_prefix p k"
      using in_set_takeD [OF that] assms(1) set_iter_from [of s p p k v] by (auto simp: bdb_ok_def has_prefix_def)
    then obtain x where "k = p @ x" "db_lookup s k = Some v"
      by (auto simp: has_prefix_def) (metis append_take_drop_id)
    with bdb_ok_lookup [OF assms(1)] assms(2) show ?thesis by blast
  qed
  have "list_items s dec (take n (iter_from s p p))
      = Ok (map (\<lambda>x. case dec (snd x) of Ok y \<Rightarrow> y) (take n (iter_from s p p)))"
    by (rule list_items_map [OF nf]) (use dec in fastforce)
  then show ?thesis ..
qed

section \<open>What handling a snapshot keeps\<close>

text \<open>A half of a withdrawal that is stored.\<close>

definition pending_half :: "bstore \<Rightarrow> mixin_snapshot \<Rightarrow> bool" where
  "pending_half db s \<longleftrightarrow> (\<exists>k w. db_lookup db (storePrefixWithdrawalPair @ k) = Some (XWithdrawal w)
     \<and> (wd_Asset w = Some s \<or> wd_Fee w = Some s))"

text \<open>No request is taken back, no half is forgotten, no user is changed.\<close>

definition keeps_pending :: "bridge \<Rightarrow> bridge \<Rightarrow> bool" where
  "keeps_pending b b' \<longleftrightarrow> (\<exists>cs. b_calls b' = b_calls b @ cs)
     \<and> (\<forall>s. pending_half (b_db b) s \<longrightarrow> pending_half (b_db b') s) \<and> (\<forall>i. readUser (b_db b') i = readUser (b_db b) i)"

interpretation pending: act_relation keeps_pending
  by unfold_locales (fastforce simp: keeps_pending_def)+

lemma b_read_set: "k \<noteq> k' \<Longrightarrow> b_read (s\<lparr>kvs := kv_set k v (kvs s)\<rparr>) dec k' = b_read s dec k'"
  by (simp add: b_read_def txn_get_def txn_value_def io_check_def cong: option.case_cong)

lemma readUser_set:
  "(\<And>i. k \<noteq> storePrefixUser @ i) \<Longrightarrow> readUser (s\<lparr>kvs := kv_set k v (kvs s)\<rparr>) i = readUser s i"
  by (simp add: readUser_def b_read_set)

lemma keeps_pending_set:
  assumes "\<And>i. k \<noteq> storePrefixUser @ i"
    and "\<And>i w x. k = storePrefixWithdrawalPair @ i \<Longrightarrow> db_lookup (b_db b) k = Some (XWithdrawal w)
        \<Longrightarrow> wd_Asset w = Some x \<or> wd_Fee w = Some x \<Longrightarrow> \<exists>w'. v = XWithdrawal w' \<and> (wd_Asset w' = Some x \<or> wd_Fee w' = Some x)"
  shows "keeps_pending b (b\<lparr>b_db := (b_db b)\<lparr>kvs := kv_set k v (kvs (b_db b))\<rparr>\<rparr>)"
proof -
  have "pending_half ((b_db b)\<lparr>kvs := kv_set k v (kvs (b_db b))\<rparr>) s" if "pending_half (b_db b) s" for s
  proof -
    from that obtain i w where w: "db_lookup (b_db b) (storePrefixWithdrawalPair @ i) = Some (XWithdrawal w)"
      "wd_Asset w = Some s \<or> wd_Fee w = Some s" by (auto simp: pending_half_def)
    show ?thesis
    proof (cases "k = storePrefixWithdrawalPair @ i")
      case True
      from assms(2) [OF True _ w(2)] w(1) True show ?thesis by (auto simp: pending_half_def)
    next
      case False
      with w have "db_lookup ((b_db b)\<lparr>kvs := kv_set k v (kvs (b_db b))\<rparr>) (storePrefixWithdrawalPair @ i) = Some (XWithdrawal w)" by simp
      with w(2) show ?thesis unfolding pending_half_def by blast
    qed
  qed
  then show ?thesis by (simp add: keeps_pending_def readUser_set [OF assms(1)])
qed

lemma ev_pending_asset [act_intros]: "evolves keeps_pending (updating (\<lambda>db. writeAsset db a))"
  by (rule pending.ev_updating) (auto simp: writeAsset_def txn_set_Ok bridge_prefixes intro!: keeps_pending_set)

declare pending.ev_abind [act_intros] pending.ev_lift [act_intros] pending.ev_reading [act_intros]
  pending.ev_request [act_intros] pending.ev_amust [act_intros] pending.ev_on_error [act_intros] pending.ev_afold [act_intros]

lemma pair_up_trace: "pair_up old w = Ok w' \<Longrightarrow> wd_TraceId w' = wd_TraceId w"
  by (auto simp: pair_up_def Let_def split: if_splits)

lemma pair_up_keeps:
  assumes "pair_up old w = Ok w'" "wd_Asset w = None \<or> wd_Fee w = None"
  shows "wd_Asset old = Some x \<Longrightarrow> wd_Asset w' = Some x" "wd_Fee old = Some x \<Longrightarrow> wd_Fee w' = Some x"
    "wd_Asset w = Some x \<Longrightarrow> wd_Asset w' = Some x" "wd_Fee w = Some x \<Longrightarrow> wd_Fee w' = Some x"
  using assms by (auto simp: pair_up_def Let_def split: if_splits)

text \<open>The new half: one of the two snapshots of the withdrawal.\<close>

definition new_half :: "'z benv_scheme \<Rightarrow> int \<Rightarrow> user \<Rightarrow> mixin_snapshot \<Rightarrow> bridge_action \<Rightarrow> string \<Rightarrow> string \<Rightarrow> withdrawal" where
  "new_half E tm u s a i part = \<lparr>wd_TraceId = conversationID E (mu_UserID u) i, wd_Destination = ac_Destination a,
     wd_Tag = ac_Tag a, wd_CreatedAt = tm, wd_UserId = ss_UserID s, wd_Asset = (if part = ''A'' then Some s else None),
     wd_Fee = (if part = ''A'' then None else Some s)\<rparr>"

lemma readWithdrawal_lookup:
  "readWithdrawal s i = Ok None \<Longrightarrow> db_lookup s (storePrefixWithdrawalPair @ i) = None"
  "readWithdrawal s i = Ok (Some w) \<Longrightarrow> db_lookup s (storePrefixWithdrawalPair @ i) = Some (XWithdrawal w)"
  by (auto simp: readWithdrawal_def b_read_def txn_get_def txn_value_def as_withdrawal_def split: option.splits bval.splits)

lemma writeWithdrawal_set:
  "writeWithdrawal s w = Ok t \<Longrightarrow> t = s\<lparr>kvs := kv_set (storePrefixWithdrawalPair @ wd_TraceId w) (XWithdrawal w) (kvs s)\<rparr>"
  by (auto simp: writeWithdrawal_def txn_set_Ok split: option.splits if_splits)

lemma submit_half_effect:
  assumes "submit_half E tm u s a i part b = (r, b')"
  shows "(b' = b \<and> (\<forall>x. r \<noteq> Ok x)) \<or>
     (\<exists>w. b' = b\<lparr>b_db := (b_db b)\<lparr>kvs := kv_set (storePrefixWithdrawalPair @ wd_TraceId w) (XWithdrawal w) (kvs (b_db b))\<rparr>\<rparr>
        \<and> (w = new_half E tm u s a i part \<and> readWithdrawalById (b_db b) (wd_TraceId w) = Ok None
           \<or> (\<exists>old. readWithdrawalById (b_db b) (wd_TraceId w) = Ok (Some old) \<and> pair_up old (new_half E tm u s a i part) = Ok w)))"
proof -
  let ?w = "new_half E tm u s a i part"
  have "(b' = b \<and> (\<forall>x. r \<noteq> Ok x)) \<or> (\<exists>w. updating (\<lambda>db. writeWithdrawal db w) b = (r, b')
     \<and> (w = ?w \<and> readWithdrawalById (b_db b) (wd_TraceId ?w) = Ok None
        \<or> (\<exists>old. readWithdrawalById (b_db b) (wd_TraceId ?w) = Ok (Some old) \<and> pair_up old ?w = Ok w)))"
    using assms by (auto simp: submit_half_def Let_def abind_def lift_def reading_def amust_def new_half_def
        split: prod.splits res.splits option.splits)
  then show ?thesis
  proof
    assume "\<exists>w. updating (\<lambda>db. writeWithdrawal db w) b = (r, b')
     \<and> (w = ?w \<and> readWithdrawalById (b_db b) (wd_TraceId ?w) = Ok None
        \<or> (\<exists>old. readWithdrawalById (b_db b) (wd_TraceId ?w) = Ok (Some old) \<and> pair_up old ?w = Ok w))"
    then obtain w where u: "updating (\<lambda>db. writeWithdrawal db w) b = (r, b')" and w: "wd_TraceId w = wd_TraceId ?w"
      "w = ?w \<and> readWithdrawalById (b_db b) (wd_TraceId ?w) = Ok None
        \<or> (\<exists>old. readWithdrawalById (b_db b) (wd_TraceId ?w) = Ok (Some old) \<and> pair_up old ?w = Ok w)"
      by (auto dest: pair_up_trace)
    show ?thesis
    proof (cases "writeWithdrawal (b_db b) w")
      case (Ok t)
      with u w writeWithdrawal_set [OF Ok] show ?thesis by (intro disjI2 exI [of _ w]) (auto simp: updating_def)
    qed (use u in \<open>auto simp: updating_def\<close>)
  qed simp
qed

lemma new_half_one: "wd_Asset (new_half E tm u s a i part) = None \<or> wd_Fee (new_half E tm u s a i part) = None"
  by (simp add: new_half_def)

lemma ev_pending_submit: "evolves keeps_pending (submit E tm u s a)"
proof -
  have "keeps_pending b b'" if run: "submit_half E tm u s a i part b = (r, b')" for i part b r b'
    using submit_half_effect [OF run]
  proof (elim disjE exE conjE)
    fix w old
    assume old: "readWithdrawalById (b_db b) (wd_TraceId w) = Ok (Some old)" and p: "pair_up old (new_half E tm u s a i part) = Ok w"
      and b': "b' = b\<lparr>b_db := (b_db b)\<lparr>kvs := kv_set (storePrefixWithdrawalPair @ wd_TraceId w) (XWithdrawal w) (kvs (b_db b))\<rparr>\<rparr>"
    show ?thesis unfolding b'
      using readWithdrawal_lookup(2) [OF old [unfolded readWithdrawalById_def]] pair_up_keeps(1,2) [OF p new_half_one]
      by (intro keeps_pending_set) (auto simp: bridge_prefixes)
  next
    fix w
    assume none: "readWithdrawalById (b_db b) (wd_TraceId w) = Ok None"
      and b': "b' = b\<lparr>b_db := (b_db b)\<lparr>kvs := kv_set (storePrefixWithdrawalPair @ wd_TraceId w) (XWithdrawal w) (kvs (b_db b))\<rparr>\<rparr>"
    show ?thesis unfolding b'
      using readWithdrawal_lookup(1) [OF none [unfolded readWithdrawalById_def]]
      by (intro keeps_pending_set) (auto simp: bridge_prefixes)
  qed (simp add: pending.refl)
  then have "evolves keeps_pending (submit_half E tm u s a i part)" for i part by (auto simp: evolves_def)
  then show ?thesis unfolding submit_def bad_trace_def by (auto intro!: act_intros split: list.split)
qed

lemma ev_pending_process: "evolves keeps_pending (process_snapshot E tm s)"
proof -
  have "evolves keeps_pending (handle E tm u s a)" for u a
    unfolding handle_def Let_def by (auto intro: pending.ev_send ev_pending_submit)
  then have "evolves keeps_pending (processSnapshotForUser E tm s u)" for u
    unfolding processSnapshotForUser_def by (intro act_intros) (auto intro!: act_intros pending.ev_pass split: option.split)
  moreover have "evolves keeps_pending (fetchAsset E i)" for i
    unfolding fetchAsset_def by (intro act_intros) (auto intro!: act_intros split: option.split)
  ultimately show ?thesis
    unfolding process_snapshot_def by (intro act_intros) (auto intro!: act_intros split: option.split)
qed

section \<open>What a snapshot is answered with\<close>

text \<open>The request \<open>c\<close> of the user \<open>u\<close> with this input, accepted: a transaction if it has receivers, else a transfer.\<close>

definition accepted :: "'z benv_scheme \<Rightarrow> user \<Rightarrow> transfer_input \<Rightarrow> api_call \<Rightarrow> bool" where
  "accepted E u inp c \<longleftrightarrow>
     (if ti_Receivers inp = [] then c = CTransfer (us_Key u) inp (us_PIN u) \<and> apiTransfer E (us_Key u) inp (us_PIN u) = Ok ()
      else c = CTransaction (us_Key u) inp (us_PIN u) \<and> apiTransaction E (us_Key u) inp (us_PIN u) = Ok ())"

text \<open>It moves the amount of the snapshot \<open>s\<close> to the receivers that the action of its memo names, with the action's
  extra as its memo: a transfer to a single receiver, or a transaction to several with the action's threshold.\<close>

definition pays_receivers :: "'z benv_scheme \<Rightarrow> user \<Rightarrow> mixin_snapshot \<Rightarrow> api_call \<Rightarrow> bool" where
  "pays_receivers E u s c \<longleftrightarrow> (\<exists>db a inp. decodeAction E db s = Ok (Some a) \<and> ac_Destination a = [] \<and> accepted E u inp c
     \<and> ti_AssetID inp = ss_AssetID s \<and> ti_Amount inp = ss_Amount s \<and> ti_Memo inp = ac_Extra a
     \<and> ti_TraceID inp = conversationID E (ss_SnapshotID s) ''HANDLE||TRANSFER''
     \<and> (if length (ac_Receivers a) = 1 then ti_Receivers inp = [] \<and> [ti_OpponentID inp] = ac_Receivers a
        else ti_OpponentID inp = [] \<and> ti_Receivers inp = ac_Receivers a \<and> ti_Threshold inp = word_of_int (ac_Threshold a)))"

text \<open>It moves the amount to the members of the group, with an operation for the registry in the memo whose extra is what
  \<open>buildExtra\<close> makes for the address of the user.\<close>

definition passes_on :: "'z benv_scheme \<Rightarrow> user \<Rightarrow> mixin_snapshot \<Rightarrow> api_call \<Rightarrow> bool" where
  "passes_on E u s c \<longleftrightarrow> (\<exists>inp op extra b b'. accepted E u inp c
     \<and> ti_AssetID inp = ss_AssetID s \<and> ti_Amount inp = ss_Amount s \<and> ti_OpponentID inp = []
     \<and> ti_TraceID inp = conversationID E (ss_SnapshotID s) ''BIND||PASS''
     \<and> ti_Receivers inp = MVMMembers E \<and> ti_Threshold inp = word_of_int (MVMThreshold E) \<and> ti_Memo inp = b64Encode op
     \<and> Operation_Encode E \<lparr>o_Purpose = OperationPurposeGroupEvent, o_Process = MVMRegistryId E, o_Platform = [],
          o_Address = [], o_Extra = extra\<rparr> = Ok op
     \<and> buildExtra E (mixin_user.truncate u) (mu_FullName u) (ss_AssetID s) (ss_Amount s) b = (Ok extra, b'))"

lemma send_accepted:
  assumes "send E u inp b = (Ok x, b')"
  shows "\<exists>c. accepted E u inp c \<and> b' = b\<lparr>b_calls := b_calls b @ [c]\<rparr>"
  using assms by (auto simp: send_def accepted_def split: if_splits)

lemma pass_pays:
  assumes "pass E u s b = (Ok x, b')"
  shows "\<exists>c. passes_on E u s c \<and> c \<in> set (drop (length (b_calls b)) (b_calls b'))"
proof -
  from assms obtain extra b1 op where b1: "buildExtra E (mixin_user.truncate u) (mu_FullName u) (ss_AssetID s) (ss_Amount s) b = (Ok extra, b1)"
    and op: "Operation_Encode E \<lparr>o_Purpose = OperationPurposeGroupEvent, o_Process = MVMRegistryId E, o_Platform = [],
       o_Address = [], o_Extra = extra\<rparr> = Ok op"
    and s: "send E u \<lparr>ti_AssetID = ss_AssetID s, ti_Amount = ss_Amount s, ti_TraceID = conversationID E (ss_SnapshotID s) ''BIND||PASS'',
       ti_Memo = b64Encode op, ti_OpponentID = [], ti_Receivers = MVMMembers E, ti_Threshold = word_of_int (MVMThreshold E)\<rparr> b1 = (Ok x, b')"
    by (auto simp: pass_def bindAndPass_def)
  obtain cs where cs: "b_calls b1 = b_calls b @ cs" using evolvesD [OF pending.ev_buildExtra b1] by (auto simp: keeps_pending_def)
  obtain c where c: "accepted E u \<lparr>ti_AssetID = ss_AssetID s, ti_Amount = ss_Amount s, ti_TraceID = conversationID E (ss_SnapshotID s) ''BIND||PASS'',
       ti_Memo = b64Encode op, ti_OpponentID = [], ti_Receivers = MVMMembers E, ti_Threshold = word_of_int (MVMThreshold E)\<rparr> c"
    "b' = b1\<lparr>b_calls := b_calls b1 @ [c]\<rparr>" using send_accepted [OF s] by blast
  have "passes_on E u s c" unfolding passes_on_def
    by (rule exI, rule exI [of _ op], rule exI [of _ extra], rule exI [of _ b], rule exI [of _ b1], rule conjI, rule c(1))
      (simp add: op b1)
  with c(2) cs show ?thesis by (intro exI [of _ c]) simp
qed

lemma handle_pays:
  assumes "handle E tm u s a b = (Ok x, b')" "ac_Destination a = []" "decodeAction E db s = Ok (Some a)"
  shows "\<exists>c. pays_receivers E u s c \<and> b' = b\<lparr>b_calls := b_calls b @ [c]\<rparr>"
proof -
  let ?inp = "\<lparr>ti_AssetID = ss_AssetID s, ti_Amount = ss_Amount s, ti_TraceID = conversationID E (ss_SnapshotID s) ''HANDLE||TRANSFER'',
    ti_Memo = ac_Extra a, ti_OpponentID = [], ti_Receivers = [], ti_Threshold = 0\<rparr>"
  let ?to = "case ac_Receivers a of [r] \<Rightarrow> ?inp\<lparr>ti_OpponentID := r\<rparr>
     | rs \<Rightarrow> ?inp\<lparr>ti_Receivers := rs, ti_Threshold := word_of_int (ac_Threshold a)\<rparr>"
  from assms(1,2) have "send E u ?to b = (Ok x, b')" by (simp add: handle_def Let_def)
  from send_accepted [OF this] obtain c where c: "accepted E u ?to c" "b' = b\<lparr>b_calls := b_calls b @ [c]\<rparr>" by blast
  have to: "ti_AssetID ?to = ss_AssetID s \<and> ti_Amount ?to = ss_Amount s \<and> ti_Memo ?to = ac_Extra a
     \<and> ti_TraceID ?to = conversationID E (ss_SnapshotID s) ''HANDLE||TRANSFER''
     \<and> (if length (ac_Receivers a) = 1 then ti_Receivers ?to = [] \<and> [ti_OpponentID ?to] = ac_Receivers a
        else ti_OpponentID ?to = [] \<and> ti_Receivers ?to = ac_Receivers a \<and> ti_Threshold ?to = word_of_int (ac_Threshold a))"
    by (auto split: list.split)
  with c assms(2,3) show ?thesis unfolding pays_receivers_def by blast
qed

lemma submit_pending:
  assumes "submit E tm u s a b = (Ok x, b')"
  shows "pending_half (b_db b') s"
proof -
  have "pending_half (b_db b') s" if run: "submit_half E tm u s a i part b = (Ok x, b')" for i part
  proof -
    have new: "wd_Asset (new_half E tm u s a i part) = Some s \<or> wd_Fee (new_half E tm u s a i part) = Some s"
      by (simp add: new_half_def)
    from submit_half_effect [OF run] obtain w where
      b': "b' = b\<lparr>b_db := (b_db b)\<lparr>kvs := kv_set (storePrefixWithdrawalPair @ wd_TraceId w) (XWithdrawal w) (kvs (b_db b))\<rparr>\<rparr>"
      and "w = new_half E tm u s a i part \<or> (\<exists>old. pair_up old (new_half E tm u s a i part) = Ok w)" by auto
    then have "wd_Asset w = Some s \<or> wd_Fee w = Some s" using new pair_up_keeps(3,4) [OF _ new_half_one] by blast
    then show ?thesis unfolding pending_half_def b' by (intro exI [of _ "wd_TraceId w"] exI [of _ w]) simp
  qed
  then show ?thesis using assms by (auto simp: submit_def bad_trace_def split: if_splits list.splits)
qed

text \<open>What \<open>snapshot_answered\<close> promises of a snapshot: paid to the receivers, passed on, or stored as a half.\<close>

definition answers :: "'z benv_scheme \<Rightarrow> user \<Rightarrow> mixin_snapshot \<Rightarrow> api_call \<Rightarrow> bool" where
  "answers E u s c \<longleftrightarrow> pays_receivers E u s c \<or> passes_on E u s c"

lemma handle_answers:
  assumes "handle E tm u s a b = (Ok x, b')" "decodeAction E db s = Ok (Some a)"
  shows "(\<exists>c. answers E u s c \<and> b' = b\<lparr>b_calls := b_calls b @ [c]\<rparr>) \<or> pending_half (b_db b') s"
proof (cases "ac_Destination a = []")
  case True
  from handle_pays [OF assms(1) True assms(2)] show ?thesis by (auto simp: answers_def)
next
  case False
  with assms(1) show ?thesis by (auto simp: handle_def intro: submit_pending)
qed

lemma ev_pending_handle: "evolves keeps_pending (handle E tm u s a)"
  unfolding handle_def Let_def by (auto intro: pending.ev_send ev_pending_submit)

lemma more_calls: "b_calls b1 = b_calls b @ cs \<Longrightarrow> c \<in> set (drop (length (b_calls b1)) l) \<Longrightarrow> c \<in> set (drop (length (b_calls b)) l)"
  by (metis add.commute drop_drop in_set_dropD length_append)

lemma process_snapshot_answers:
  assumes "process_snapshot E tm s b = (Ok x, b')" "readUserById (b_db b) (ss_UserID s) = Ok (Some u)"
  shows "(\<exists>c \<in> set (drop (length (b_calls b)) (b_calls b')). answers E u s c) \<or> pending_half (b_db b') s"
proof -
  from assms obtain b1 where b1: "fetchAsset E (ss_AssetID s) b = (Ok (), b1)" "processSnapshotForUser E tm s u b1 = (Ok x, b')"
    by (auto simp: process_snapshot_def)
  have same: "b_calls b1 = b_calls b" using b1(1) by (auto simp: fetchAsset_def split: option.splits)
  have passed: ?thesis if "pass E u s b2 = (Ok x, b')" "keeps_pending b1 b2" for b2
  proof -
    from that(2) obtain cs where "b_calls b2 = b_calls b @ cs" by (auto simp: keeps_pending_def same)
    with pass_pays [OF that(1)] show ?thesis unfolding answers_def by (blast intro: more_calls)
  qed
  from b1(2) obtain r where r: "decodeAction E (b_db b1) s = Ok r"
    and c: "(case r of None \<Rightarrow> pass E u s | Some a \<Rightarrow> on_error (handle E tm u s a) (pass E u s)) b1 = (Ok x, b')"
    by (auto simp: processSnapshotForUser_def)
  show ?thesis
  proof (cases r)
    case None
    with c passed [OF _ pending.refl] show ?thesis by simp
  next
    case (Some a)
    with c consider "handle E tm u s a b1 = (Ok x, b')"
      | e b2 where "handle E tm u s a b1 = (Err e, b2)" "pass E u s b2 = (Ok x, b')" by auto
    then show ?thesis
    proof cases
      case 1
      from handle_answers [OF this, of "b_db b1"] r Some show ?thesis by (auto simp: same)
    next
      case 2
      with passed [OF 2(2) evolvesD [OF ev_pending_handle 2(1)]] show ?thesis by simp
    qed
  qed
qed

lemma deleteSnapshots_pending:
  assumes "deleteSnapshots s sns = Ok t" "pending_half s x"
  shows "pending_half t x"
proof -
  have run: "rfold (\<lambda>s snap. txn_delete s (snapshotKey snap)) s sns = Ok t" using assms(1) by (simp add: deleteSnapshots_def)
  show ?thesis
    by (rule rfold_invariant [where P = "\<lambda>t. pending_half t x", OF _ assms(2) run])
      (auto simp: pending_half_def txn_delete_Ok snapshotKey_def bridge_prefixes)
qed

lemma processSnapshots_answers:
  assumes "processSnapshots E tm b = (Ok y, b')" "listSnapshots (b_db b) 100 = Ok ss" "s \<in> set ss"
    "readUserById (b_db b) (ss_UserID s) = Ok (Some u)"
  shows "(\<exists>c \<in> set (drop (length (b_calls b)) (b_calls b')). answers E u s c) \<or> pending_half (b_db b') s"
proof -
  from assms(1,2) obtain b1 t where b1: "afold (process_snapshot E tm) ss b = (Ok (), b1)"
    and t: "deleteSnapshots (b_db b1) ss = Ok t" "b' = b1\<lparr>b_db := t\<rparr>" by (auto simp: processSnapshots_def)
  from pending.afold_at [OF ev_pending_process b1 assms(3)] obtain c1 c2 where c: "keeps_pending b c1"
    "process_snapshot E tm s c1 = (Ok (), c2)" "keeps_pending c2 b1" by blast
  have "readUserById (b_db c1) (ss_UserID s) = Ok (Some u)"
    using c(1) assms(4) by (simp add: keeps_pending_def readUserById_def)
  from process_snapshot_answers [OF c(2) this] show ?thesis
  proof
    assume "\<exists>x \<in> set (drop (length (b_calls c1)) (b_calls c2)). answers E u s x"
    then obtain x where x: "x \<in> set (drop (length (b_calls c1)) (b_calls c2))" "answers E u s x" ..
    obtain cs ds where "b_calls c1 = b_calls b @ cs" "b_calls b1 = b_calls c2 @ ds" using c(1,3) by (auto simp: keeps_pending_def)
    with x(1) have "x \<in> set (drop (length (b_calls b)) (b_calls b'))"
      using more_calls [of c1 b cs x "b_calls c2 @ ds"] by (auto simp: t(2))
    with x(2) show ?thesis by blast
  next
    assume "pending_half (b_db c2) s"
    then have "pending_half (b_db b1) s" using c(3) by (simp add: keeps_pending_def)
    then show ?thesis using deleteSnapshots_pending [OF t(1)] by (simp add: t(2))
  qed
qed

section \<open>The bytes of a call\<close>

lemma hex_prefix_hexEncode: "hex_prefix (hexEncode b @ r) = b @ hex_prefix r"
proof (induction b)
  case (Cons c cs)
  have "of_char c div 16 < (16 :: nat)" "of_char c mod 16 < (16 :: nat)"
    using less_mult_imp_div_less [of "of_char c" 16 16] by simp_all
  then have "hexval (hexdigit (of_char c div 16)) = Some (of_char c div 16)" "hexval (hexdigit (of_char c mod 16)) = Some (of_char c mod 16)"
    by (simp_all add: hexval_hexdigit)
  moreover have "char_of (16 * (of_char c div 16) + of_char c mod 16 :: nat) = c" by simp
  ultimately show ?case using Cons by (simp del: mult_div_mod_eq)
qed simp

lemma hexdigit_range: "n < 16 \<Longrightarrow> (of_char (hexdigit n) :: nat) < 65 \<or> 90 < (of_char (hexdigit n) :: nat)"
  by (auto simp: hexdigit_def)

lemma to_lower_hexEncode: "to_lower (hexEncode b) = hexEncode b"
proof (induction b)
  case (Cons c cs)
  have "of_char c div 16 < (16 :: nat)" "of_char c mod 16 < (16 :: nat)"
    using less_mult_imp_div_less [of "of_char c" 16 16] by simp_all
  from this [THEN hexdigit_range] Cons show ?case by (auto simp: to_lower_def Let_def)
qed (simp add: to_lower_def)

lemma half_len_pass:
  assumes "length s = 136"
  shows "half_len s = hexEncode [CHR 0x00, CHR ''D'']"
proof -
  have "nat_hex 68 = ''44''" "pad_left (CHR ''0'') 4 ''44'' = hexEncode [CHR 0x00, CHR ''D'']" by code_simp+
  moreover have "length s div 2 = 68" using assms by simp
  ultimately show ?thesis by (simp only: half_len_def)
qed

lemma half_len_bind:
  assumes "length s = 72"
  shows "half_len s = hexEncode [CHR 0x00, CHR ''$'']"
proof -
  have "nat_hex 36 = ''24''" "pad_left (CHR ''0'') 4 ''24'' = hexEncode [CHR 0x00, CHR ''$'']" by code_simp+
  moreover have "length s div 2 = 36" using assms by simp
  ultimately show ?thesis by (simp only: half_len_def)
qed

lemma hex_texts: "''0001'' = hexEncode [CHR 0x00, CHR 0x01]" "pass_method = hexEncode [CHR 0x0E, CHR 0xD1, CHR 0xDB, CHR 0x9F]"
  "replicate 24 (CHR ''0'') @ replicate 8 (CHR ''0'') = hexEncode (replicate 16 (CHR 0x00))"
  "''0002'' = hexEncode [CHR 0x00, CHR 0x02]" "bind_method = hexEncode [CHR 0x81, CHR 0xBA, CHR 0xC1, CHR ''O'']"
  "replicate 24 (CHR ''0'') = hexEncode (replicate 12 (CHR 0x00))"
  by code_simp+

lemma buildExtra_bound:
  assumes "slice2 (MVMBridgeContract E) = Ok c" "slice2 addr = Ok ad" "convertToMVMHex amt = Ok h" "checkBind E u = Ok True"
    "convertToMVMAddress E ast = Ok x"
    "hex_prefix (''0001'' @ to_lower c @ half_len (pass_method @ (replicate 24 (CHR ''0'') @ to_lower ad) @ h) @ pass_method @ x @ h) = d"
    "length d = 92"
  shows "buildExtra E u addr ast amt b = (Ok d, b)"
  by (simp only: buildExtra_def abind_def lift_def Let_def assms res.case prod.case if_True simp_thms if_False)

lemma buildExtra_bytes:
  assumes "MVMBridgeContract E = ''0x'' @ hexEncode contract" and "length contract = 20" and "length addr = 42"
    and "checkBind E u = Ok True" and "uuidFromString E ast = Ok aid" and "length aid = 16"
    and "n = nat \<lfloor>\<bar>amt * 100000000\<bar>\<rfloor>" and "n < 256 ^ 32"
  shows "buildExtra E u addr ast amt b = (Ok ([CHR 0x00, CHR 0x01] @ contract @ [CHR 0x00, CHR ''D'']
     @ [CHR 0x0E, CHR 0xD1, CHR 0xDB, CHR 0x9F] @ replicate 16 (CHR 0x00) @ aid @ be_bytes 32 n), b)"
proof -
  have c: "slice2 (MVMBridgeContract E) = Ok (hexEncode contract)" by (simp add: assms(1) slice2_def)
  have a: "slice2 addr = Ok (drop 2 addr)" using assms(3) by (simp add: slice2_def)
  have m: "convertToMVMHex amt = Ok (hexEncode (be_bytes 32 n))" using assms(7,8) by (simp add: convertToMVMHex_def)
  have l: "half_len (pass_method @ (replicate 24 (CHR ''0'') @ to_lower (drop 2 addr)) @ hexEncode (be_bytes 32 n)) = hexEncode [CHR 0x00, CHR ''D'']"
    using assms(3) by (intro half_len_pass) (simp add: pass_method_def to_lower_def)
  have x: "convertToMVMAddress E ast = Ok (hexEncode (replicate 16 (CHR 0x00)) @ hexEncode aid)"
    using assms(5) hex_texts(3) by (simp add: convertToMVMAddress_def)
  have b: "hex_prefix (''0001'' @ hexEncode contract @ hexEncode [CHR 0x00, CHR ''D''] @ pass_method
      @ (hexEncode (replicate 16 (CHR 0x00)) @ hexEncode aid) @ hexEncode (be_bytes 32 n))
    = [CHR 0x00, CHR 0x01] @ contract @ [CHR 0x00, CHR ''D''] @ [CHR 0x0E, CHR 0xD1, CHR 0xDB, CHR 0x9F]
      @ replicate 16 (CHR 0x00) @ aid @ be_bytes 32 n"
    unfolding hex_texts(1,2) append.assoc hex_prefix_hexEncode
    using hex_prefix_hexEncode [of "be_bytes 32 n" "[]"] by simp
  have "length ([CHR 0x00, CHR 0x01] @ contract @ [CHR 0x00, CHR ''D''] @ [CHR 0x0E, CHR 0xD1, CHR 0xDB, CHR 0x9F]
      @ replicate 16 (CHR 0x00) @ aid @ be_bytes 32 n) = 92" using assms(2,6) by simp
  then show ?thesis by (intro buildExtra_bound [OF c a m assms(4) x]) (simp only: to_lower_hexEncode l b)
qed

text \<open>What the bytes mean: a count of two bytes, and for each call the contract, the length of the data in two bytes and the
  data. \<open>bind\<close> takes the address in 32 bytes; \<open>pass\<close> takes the asset and the amount in units of 10^-8.\<close>

definition mvm_calls :: "bytes \<Rightarrow> bytes list \<Rightarrow> bytes" where
  "mvm_calls contract ds = be_bytes 2 (length ds) @ concat (map (\<lambda>d. contract @ be_bytes 2 (length d) @ d) ds)"

definition bind_call :: "bytes \<Rightarrow> bytes" where
  "bind_call addr = [CHR 0x81, CHR 0xBA, CHR 0xC1, CHR ''O''] @ replicate 12 (CHR 0x00) @ addr"

definition pass_call :: "bytes \<Rightarrow> rat \<Rightarrow> bytes" where
  "pass_call aid amt = [CHR 0x0E, CHR 0xD1, CHR 0xDB, CHR 0x9F] @ replicate 16 (CHR 0x00) @ aid @ be_bytes 32 (nat \<lfloor>\<bar>amt * 100000000\<bar>\<rfloor>)"

lemma be_bytes_two: "be_bytes 2 1 = [CHR 0x00, CHR 0x01]" "be_bytes 2 2 = [CHR 0x00, CHR 0x02]"
  "be_bytes 2 68 = [CHR 0x00, CHR ''D'']" "be_bytes 2 36 = [CHR 0x00, CHR ''$'']"
  by code_simp+

lemma direct_call:
  assumes "length aid = 16"
  shows "mvm_calls contract [pass_call aid amt] = [CHR 0x00, CHR 0x01] @ contract @ [CHR 0x00, CHR ''D'']
     @ [CHR 0x0E, CHR 0xD1, CHR 0xDB, CHR 0x9F] @ replicate 16 (CHR 0x00) @ aid @ be_bytes 32 (nat \<lfloor>\<bar>amt * 100000000\<bar>\<rfloor>)"
proof -
  have "length (pass_call aid amt) = 68" using assms by (simp add: pass_call_def)
  then show ?thesis by (simp add: mvm_calls_def be_bytes_two [unfolded One_nat_def] del: be_bytes.simps) (simp add: pass_call_def del: be_bytes.simps)
qed

lemma stored_call:
  assumes "length aid = 16" "length addr = 20"
  shows "mvm_calls contract [bind_call addr, pass_call aid amt] = [CHR 0x00, CHR 0x02] @ contract @ [CHR 0x00, CHR ''$'']
     @ [CHR 0x81, CHR 0xBA, CHR 0xC1, CHR ''O''] @ replicate 12 (CHR 0x00) @ addr @ contract @ [CHR 0x00, CHR ''D'']
     @ [CHR 0x0E, CHR 0xD1, CHR 0xDB, CHR 0x9F] @ replicate 16 (CHR 0x00) @ aid @ be_bytes 32 (nat \<lfloor>\<bar>amt * 100000000\<bar>\<rfloor>)"
proof -
  have "length (pass_call aid amt) = 68" "length (bind_call addr) = 36" using assms by (simp_all add: pass_call_def bind_call_def)
  moreover have "length [a, b] = 2" for a b :: bytes by simp
  ultimately show ?thesis
    by (simp only: mvm_calls_def list.map concat.simps be_bytes_two append.assoc append_Nil append_Nil2)
      (simp only: pass_call_def bind_call_def append.assoc)
qed

lemma buildExtra_unbound:
  assumes "MVMBridgeContract E = ''0x'' @ hexEncode contract" and "length contract = 20" and "name = ''0x'' @ t"
    and "to_lower t = hexEncode addr" and "length addr = 20" and "checkBind E u = Ok False"
    and "uuidFromString E ast = Ok aid" and "length aid = 16" and "nat \<lfloor>\<bar>amt * 100000000\<bar>\<rfloor> < 256 ^ 32"
  shows "buildExtra E u name ast amt b = buildHash E (mvm_calls contract [bind_call addr, pass_call aid amt]) b"
proof -
  let ?n = "nat \<lfloor>\<bar>amt * 100000000\<bar>\<rfloor>" and ?z = "replicate 24 (CHR ''0'') @ hexEncode addr"
  have c: "slice2 (MVMBridgeContract E) = Ok (hexEncode contract)" by (simp add: assms(1) slice2_def)
  have a: "slice2 name = Ok t" by (simp add: assms(3) slice2_def)
  have m: "convertToMVMHex amt = Ok (hexEncode (be_bytes 32 ?n))" using assms(9) by (simp add: convertToMVMHex_def)
  have l1: "half_len (bind_method @ ?z) = hexEncode [CHR 0x00, CHR ''$'']"
    using assms(5) by (intro half_len_bind) (simp add: bind_method_def)
  have l2: "half_len (pass_method @ ?z @ hexEncode (be_bytes 32 ?n)) = hexEncode [CHR 0x00, CHR ''D'']"
    using assms(5) by (intro half_len_pass) (simp add: pass_method_def)
  have x: "convertToMVMAddress E ast = Ok (hexEncode (replicate 16 (CHR 0x00)) @ hexEncode aid)"
    using assms(7) hex_texts(3) by (simp add: convertToMVMAddress_def)
  let ?t = "''0002'' @ hexEncode contract @ hexEncode [CHR 0x00, CHR ''$''] @ bind_method @ ?z @ hexEncode contract
    @ hexEncode [CHR 0x00, CHR ''D''] @ pass_method @ (hexEncode (replicate 16 (CHR 0x00)) @ hexEncode aid) @ hexEncode (be_bytes 32 ?n)"
  have b: "hex_prefix ?t = mvm_calls contract [bind_call addr, pass_call aid amt]"
    unfolding stored_call [OF assms(8,5)] hex_texts(2,4,5,6) append.assoc hex_prefix_hexEncode
    using hex_prefix_hexEncode [of "be_bytes 32 ?n" "[]"] by simp
  have "length (mvm_calls contract [bind_call addr, pass_call aid amt]) = 150"
    using assms(2,5,8) by (simp add: stored_call [OF assms(8,5)])
  then show ?thesis
    by (simp only: buildExtra_def abind_def lift_def Let_def c a m assms(4,6) x to_lower_hexEncode l1 l2 b res.case prod.case
        if_False if_True simp_thms)
qed

lemma buildHash_Ok:
  assumes "buildHash E d b = (Ok extra, b')"
  shows "\<exists>pid st. uuidFromString E (MVMRegistryId E) = Ok pid \<and> rbind (slice2 (MVMStorageContract E)) hexDecode = Ok st
     \<and> extra = pid @ st @ be_bytes 32 (be_nat (keccak256 E d)) \<and> length extra = 68
     \<and> (storageRead E (be_nat (keccak256 E d)) = Ok d \<and> b' = b
        \<or> storageWrite E (be_nat (keccak256 E d)) d = Ok ()
          \<and> b' = b\<lparr>b_calls := b_calls b @ [CStorageWrite (be_nat (keccak256 E d)) d]\<rparr>)"
  using assms unfolding buildHash_def Let_def by (auto simp del: be_bytes.simps split: if_splits)

end
