(* ===== verification/Bridge_Demo.thy ===== *)
theory Bridge_Demo
  imports Bridge_Laws Machine_Props
begin

text \<open>
  A concrete service for the witnesses of the bridge: an environment in which every request is accepted but the deletion
  of an address, whose contract knows the user, and a database with an asset, a user and one transfer.
\<close>

definition demo_contract :: bytes where
  "demo_contract = replicate 20 (CHR ''c'')"

definition demo_uid :: string where
  "demo_uid = uuid_text (replicate 16 (CHR ''u''))"

definition demo_addr :: string where
  "demo_addr = ''0x'' @ hexEncode (replicate 20 (CHR ''a''))"

definition demo_keys :: keystore where
  "demo_keys = \<lparr>ks_ClientID = demo_uid, ks_SessionID = ''session'', ks_PrivateKey = ''key''\<rparr>"

definition demo_action :: "bytes \<Rightarrow> bridge_action" where
  "demo_action d = \<lparr>ac_Destination = d, ac_Tag = [], ac_Receivers = [], ac_Threshold = 0, ac_Extra = []\<rparr>"

definition demo_mixin :: "string \<Rightarrow> mixin_user" where
  "demo_mixin name = \<lparr>mu_UserID = demo_uid, mu_SessionID = ''session'', mu_FullName = name, mu_CreatedAt = 0, mu_HasPin = True\<rparr>"

definition demo_bsnap :: mixin_snapshot where
  "demo_bsnap = \<lparr>ss_SnapshotID = ''s1'', ss_CreatedAt = 5, ss_UserID = demo_uid, ss_AssetID = demo_asset, ss_Amount = 1, ss_Memo = []\<rparr>"

definition demo_benv :: benv where
  "demo_benv = lib.extend wire_lib (benv.fields
     (\<lambda>a b. a @ b) (\<lambda>b. replicate 32 (CHR ''k'')) (\<lambda>b. b) (\<lambda>d. if d = Ethereum then ''eth'' else ''other'') (\<lambda>d a. Ok ())
     Some (\<lambda>a. Ok (ac_Destination a)) (\<lambda>j. Ok (demo_action j)) (\<lambda>b. Ok (b, []))
     demo_pid [] (''0x'' @ hexEncode demo_contract) (''0x'' @ hexEncode demo_contract) [] [''m1''] 1 ''secret''
     (\<lambda>k. Ok ''dest'') (\<lambda>k v. Ok ()) (\<lambda>k. Ok demo_addr) (\<lambda>a. Ok demo_addr)
     (\<lambda>k. Ok ()) (\<lambda>c n. Ok [demo_bsnap]) (\<lambda>i. Ok \<lparr>xa_AssetID = i, xa_ChainID = ''eth''\<rparr>)
     (\<lambda>seed name. Ok (demo_mixin name, demo_keys)) (\<lambda>k p q. Ok ()) (\<lambda>k i p. Ok ''address'') (\<lambda>k i p. Ok ())
     (\<lambda>k i p. Err ''404'') (\<lambda>k i p. Ok ()) (\<lambda>k i p. Ok ()))"

lemmas demo_benv_simps = demo_benv_def lib.defs benv.defs

definition demo_buser :: user where
  "demo_buser = mixin_user.extend (demo_mixin demo_addr) (user.fields demo_keys ''123456'' ''0x1'')"

lemmas demo_buser_simps = demo_buser_def mixin_user.defs user.defs demo_mixin_def

definition demo_asset_entry :: bridge_asset where
  "demo_asset_entry = \<lparr>xa_AssetID = demo_asset, xa_ChainID = ''unknown''\<rparr>"

text \<open>Its database with one transfer, or with one withdrawal.\<close>

definition demo_bdb :: "mixin_snapshot \<Rightarrow> bstore" where
  "demo_bdb s = db_empty\<lparr>kvs := [(storePrefixAddress @ demo_addr, XRaw demo_uid),
     (storePrefixAsset @ demo_asset, XAsset demo_asset_entry),
     (snapshotKey s, XSnapshot s), (storePrefixUser @ demo_uid, XUser demo_buser)]\<rparr>"

definition demo_wdb :: "withdrawal \<Rightarrow> bstore" where
  "demo_wdb w = db_empty\<lparr>kvs := [(storePrefixUser @ demo_uid, XUser demo_buser),
     (storePrefixWithdrawalPair @ wd_TraceId w, XWithdrawal w)]\<rparr>"

lemma no_fault_demo [simp]: "no_fault (demo_bdb s)" "no_fault (demo_wdb w)"
  by (simp_all add: no_fault_def demo_bdb_def demo_wdb_def db_empty_def)

lemmas key_order = bridge_prefixes snapshotKey_def less_char_def

lemma demo_bdb_ok: "bdb_ok (demo_bdb s)" "bdb_ok (demo_wdb w)"
proof -
  have "db_ok (demo_bdb s)" "db_ok (demo_wdb w)"
    by (simp_all add: db_ok_def demo_bdb_def demo_wdb_def key_order)
  then show "bdb_ok (demo_bdb s)" "bdb_ok (demo_wdb w)"
    by (auto simp: bdb_ok_def db_lookup_def demo_bdb_def demo_wdb_def fits_def demo_buser_simps demo_asset_entry_def
        split: if_splits)
qed

lemma demo_lookup:
  "db_lookup (demo_bdb s) (storePrefixUser @ i) = (if i = demo_uid then Some (XUser demo_buser) else None)"
  "db_lookup (demo_bdb s) (storePrefixAsset @ i) = (if i = demo_asset then Some (XAsset demo_asset_entry) else None)"
  "db_lookup (demo_bdb s) (storePrefixAddress @ i) = (if i = demo_addr then Some (XRaw demo_uid) else None)"
  "db_lookup (demo_wdb w) (storePrefixUser @ i) = (if i = demo_uid then Some (XUser demo_buser) else None)"
  by (simp_all add: db_lookup_def demo_bdb_def demo_wdb_def bridge_prefixes snapshotKey_def)

lemma demo_reads [simp]:
  "readUserById (demo_bdb s) demo_uid = Ok (Some demo_buser)" "readUserById (demo_wdb w) demo_uid = Ok (Some demo_buser)"
  "readAsset (demo_bdb s) demo_asset = Ok (Some demo_asset_entry)"
  "readUserByAddress (demo_bdb s) demo_addr = Ok (Some demo_buser)"
  by (simp_all add: readUserById_def readUser_def readAsset_def readUserByAddress_def b_read_no_fault demo_lookup
      as_user_def as_masset_def as_raw_def del: rbind_Ok_iff)

lemma demo_lists: "listSnapshots (demo_bdb s) 100 = Ok [s]" "listWithdrawals (demo_wdb w) 1000 = Ok [w]"
proof -
  have "iter_from (demo_bdb s) storePrefixSnapshotList storePrefixSnapshotList = [(snapshotKey s, XSnapshot s)]"
    "iter_from (demo_wdb w) storePrefixWithdrawalPair storePrefixWithdrawalPair = [(storePrefixWithdrawalPair @ wd_TraceId w, XWithdrawal w)]"
    by (simp_all add: iter_from_def demo_bdb_def demo_wdb_def key_order has_prefix_def)
  then show "listSnapshots (demo_bdb s) 100 = Ok [s]" "listWithdrawals (demo_wdb w) 1000 = Ok [w]"
    using no_fault_demo by (simp_all add: listSnapshots_def listWithdrawals_def txn_value_def io_check_def no_fault_def
        as_snapshot_def as_withdrawal_def del: rbind_Ok_iff no_fault_demo)
qed

lemma demo_benv_codec: "codec demo_benv"
  using wire.codec_axioms by (simp add: demo_benv_simps codec_def)

lemma demo_uuid_parse:
  "uuidFromString demo_benv demo_asset = Ok (replicate 16 (CHR ''c''))" "uuidFromString demo_benv demo_uid = Ok (replicate 16 (CHR ''u''))"
  "uuidFromString demo_benv demo_pid = Ok (replicate 16 (CHR ''p''))" "uuidString demo_benv (replicate 16 (CHR ''p'')) = demo_pid"
  using uuid_parse_text [of "replicate 16 (CHR ''c'')"] uuid_parse_text [of "replicate 16 (CHR ''u'')"]
    uuid_parse_text [of "replicate 16 (CHR ''p'')"]
  by (simp_all add: demo_asset_def demo_uid_def demo_pid_def demo_benv_simps wire_lib_def del: replicate.simps)

lemma demo_registry: "MVMRegistryId demo_benv = demo_pid"
  by (simp add: demo_benv_simps)

lemma demo_registry_canonical: "canonical_uuid demo_benv (MVMRegistryId demo_benv)"
  by (simp add: canonical_uuid_def demo_registry demo_uuid_parse del: replicate.simps)

lemma demo_addr_text: "length demo_addr = 42" "demo_addr \<noteq> zero_address"
proof -
  have "hexEncode (replicate 20 (CHR ''a'')) ! 0 = CHR ''6''" by code_simp
  then have "demo_addr ! 2 = CHR ''6''" by (simp add: demo_addr_def del: replicate.simps)
  moreover have "zero_address ! 2 = CHR ''0''" by (simp add: zero_address_def)
  ultimately show "demo_addr \<noteq> zero_address" by auto
qed (simp add: demo_addr_def)

lemma demo_bound: "checkBind demo_benv (mixin_user.truncate demo_buser) = Ok True"
proof -
  have "mu_UserID (mixin_user.truncate demo_buser) = demo_uid" by (simp add: demo_buser_simps)
  moreover have "registryContracts demo_benv k = Ok demo_addr" "bridgeBridges demo_benv x = Ok demo_addr" for k x
    by (simp_all add: demo_benv_simps)
  ultimately show ?thesis
    using demo_addr_text(2) by (simp add: checkBind_def getContract_def demo_uuid_parse must_def del: rbind_Ok_iff replicate.simps)
qed

lemma demo_buildExtra: "\<exists>extra. buildExtra demo_benv (mixin_user.truncate demo_buser) demo_addr demo_asset 1 b = (Ok extra, b) \<and> length extra = 92"
proof -
  have c: "MVMBridgeContract demo_benv = ''0x'' @ hexEncode demo_contract" by (simp add: demo_benv_simps)
  note x = buildExtra_bytes [OF c _ demo_addr_text(1) demo_bound demo_uuid_parse(1) _ HOL.refl, of 1 b]
  show ?thesis by (intro exI conjI, rule x) (simp_all add: demo_contract_def del: replicate.simps be_bytes.simps)
qed

text \<open>A transfer of the demo user is passed on by one transaction to the group.\<close>

lemma demo_pass:
  assumes "ss_AssetID s = demo_asset" "ss_Amount s = 1"
  shows "\<exists>inp. pass demo_benv demo_buser s b = (Ok (), b\<lparr>b_calls := b_calls b @ [CTransaction demo_keys inp ''123456'']\<rparr>)"
proof -
  let ?E = demo_benv
  obtain extra where extra: "buildExtra ?E (mixin_user.truncate demo_buser) demo_addr demo_asset 1 b = (Ok extra, b)" "length extra = 92"
    using demo_buildExtra by blast
  have sel: "encInt ?E = wire_encInt" "MVMMembers ?E = [''m1'']" "apiNewClient ?E k = Ok ()" "apiTransaction ?E k i p = Ok ()" for k i p
    by (simp_all add: demo_benv_simps wire_lib_def)
  have "\<exists>op. Operation_Encode ?E \<lparr>o_Purpose = OperationPurposeGroupEvent, o_Process = demo_pid, o_Platform = [],
       o_Address = [], o_Extra = extra\<rparr> = Ok op"
    using extra(2) by (simp add: Operation_Encode_def writeInt_def writeBytes_def writeUUID_def sel wire_encInt_def demo_uuid_parse
        OperationPurposeGroupEvent_def EventExtraMaxSize_def del: rbind_Ok_iff replicate.simps be_bytes.simps)
  then obtain op where op: "Operation_Encode ?E \<lparr>o_Purpose = OperationPurposeGroupEvent, o_Process = demo_pid, o_Platform = [],
       o_Address = [], o_Extra = extra\<rparr> = Ok op" ..
  have u: "mu_FullName demo_buser = demo_addr" "us_Key demo_buser = demo_keys" "us_PIN demo_buser = ''123456''"
    by (simp_all add: demo_buser_simps)
  show ?thesis
    by (rule exI [of _ "\<lparr>ti_AssetID = demo_asset, ti_Amount = 1, ti_TraceID = conversationID ?E (ss_SnapshotID s) ''BIND||PASS'',
        ti_Memo = b64Encode op, ti_OpponentID = [], ti_Receivers = [''m1''], ti_Threshold = word_of_int (MVMThreshold ?E)\<rparr>"])
      (simp add: pass_def bindAndPass_def abind_def lift_def send_def request_def u assms extra(1) op demo_registry sel must_def
        del: rbind_Ok_iff)
qed

lemma b64Encode_no_newline: "filter (\<lambda>c. c \<noteq> CHR 0x0A \<and> c \<noteq> CHR 0x0D) (b64Encode b) = b64Encode b"
proof (induction b rule: b64Encode.induct)
  case (2 x)
  have "of_char x < (256 :: nat)" by simp
  then show ?case by (auto simp: Let_def quantum_bounds b64chr_no_newline less_mult_imp_div_less)
next
  case (3 x y)
  then show ?case
    using quantum_bounds [of "of_char x" "of_char y" 0] by (auto simp: Let_def b64chr_no_newline)
next
  case (4 x y z cs)
  then show ?case
    using quantum_bounds [of "of_char x" "of_char y" "of_char z"] by (auto simp: Let_def b64chr_no_newline)
qed simp

lemma b64DecodeStrict_b64Encode: "b64DecodeStrict (b64Encode b) = Ok b"
  by (simp add: b64DecodeStrict_def b64Encode_no_newline del: rbind_Ok_iff)

end
