(* ===== verification/Bridge_Props.thy ===== *)
theory Bridge_Props
  imports Bridge_Demo
begin

text \<open>
  The properties of the bridge, with the concrete environment their witnesses run on.
\<close>

section \<open>Withdrawals\<close>

text \<open>A withdrawal of which one half is missing and that is not timed out is left alone.\<close>

definition fresh_half :: "int \<Rightarrow> withdrawal \<Rightarrow> bool" where
  "fresh_half tm w \<longleftrightarrow> (wd_Asset w = None \<or> wd_Fee w = None) \<and> tm \<le> wd_CreatedAt w + WithdrawalTimeout"

lemma fresh_half_skipped: "fresh_half tm w \<Longrightarrow> processWithdrawalForUser E tm w u = lift (Ok ())"
  by (auto simp: fresh_half_def processWithdrawalForUser_def split: option.split)

lemma delete_all:
  assumes "no_fault s"
  shows "\<exists>t. rfold (\<lambda>s x. txn_delete s (key x)) s xs = Ok t \<and> no_fault t
     \<and> (\<forall>k. db_lookup t k = (if k \<in> key ` set xs then None else db_lookup s k))"
  using assms
proof (induction xs arbitrary: s)
  case (Cons x xs)
  let ?s = "s\<lparr>kvs := kv_del (key x) (kvs s)\<rparr>"
  have "txn_delete s (key x) = Ok ?s" using Cons.prems by (simp add: txn_delete_Ok no_fault_def)
  with Cons.IH [of ?s] Cons.prems show ?case by auto
qed simp

lemma user_readable:
  assumes "bdb_ok s"
  shows "\<exists>u. readUserById s i = Ok u"
proof (cases "db_lookup s (storePrefixUser @ i)")
  case (Some v)
  from fits_prefix(1) [OF bdb_ok_lookup [OF assms Some]] obtain u where "v = XUser u" ..
  with assms Some show ?thesis by (simp add: readUserById_def readUser_def b_read_no_fault bdb_ok_def as_user_def del: rbind_Ok_iff)
qed (use assms in \<open>simp add: readUserById_def readUser_def b_read_no_fault bdb_ok_def\<close>)

text \<open>C14: a withdrawal waiting for its other half is dropped. \<open>processWithdrawals\<close> skips a withdrawal of which the amount
  or the fee has not arrived yet, and then deletes every withdrawal it has listed: when all of them are such halves, not
  timed out, it sends no request at all, neither a payment nor a refund, and the halves are gone from the database.\<close>

theorem half_withdrawal_dropped:
  assumes "bdb_ok (b_db b)" and "listWithdrawals (b_db b) 1000 = Ok ws" and "\<forall>w \<in> set ws. fresh_half tm w"
  shows "\<exists>s. processWithdrawals E tm b = (Ok (), b\<lparr>b_db := s\<rparr>) \<and> (\<forall>w \<in> set ws. readWithdrawalById s (wd_TraceId w) = Ok None)"
proof -
  let ?f = "\<lambda>w. abind (amust (reading (\<lambda>db. readUserById db (wd_UserId w)))) (\<lambda>u. amust (processWithdrawalForUser E tm w u))"
  have "?f w b = (Ok (), b)" if "w \<in> set ws" for w
    using assms(3) that user_readable [OF assms(1), of "wd_UserId w"] by (auto simp: fresh_half_skipped)
  then have loop: "afold ?f ws b = (Ok (), b)"
    by (induction ws) (auto simp del: abind_Ok simp: abind_def lift_def)
  obtain t where t: "rfold (\<lambda>s w. txn_delete s (storePrefixWithdrawalPair @ wd_TraceId w)) (b_db b) ws = Ok t" "no_fault t"
    "\<forall>k. db_lookup t k = (if k \<in> (\<lambda>w. storePrefixWithdrawalPair @ wd_TraceId w) ` set ws then None else db_lookup (b_db b) k)"
    using delete_all [of "b_db b" "\<lambda>w. storePrefixWithdrawalPair @ wd_TraceId w" ws] assms(1) by (auto simp: bdb_ok_def)
  have "deleteWitdrawals (b_db b) ws = Ok t" using t(1,2) by (simp add: deleteWitdrawals_def no_fault_def)
  then have "processWithdrawals E tm b = (Ok (), b\<lparr>b_db := t\<rparr>)"
    using assms(2) loop unfolding processWithdrawals_def by auto
  moreover have "readWithdrawalById t (wd_TraceId w) = Ok None" if "w \<in> set ws" for w
    using t(2,3) that by (simp add: readWithdrawalById_def readWithdrawal_def b_read_no_fault)
  ultimately show ?thesis by blast
qed

definition demo_half :: withdrawal where
  "demo_half = \<lparr>wd_TraceId = ''t1'', wd_Destination = ''dest'', wd_Tag = [], wd_CreatedAt = 0, wd_UserId = demo_uid,
     wd_Asset = Some demo_bsnap, wd_Fee = None\<rparr>"

theorem half_withdrawal_dropped_witness:
  "\<exists>s. processWithdrawals demo_benv 1 \<lparr>b_db = demo_wdb demo_half, b_calls = []\<rparr> = (Ok (), \<lparr>b_db = s, b_calls = []\<rparr>)
     \<and> readWithdrawalById s ''t1'' = Ok None \<and> listWithdrawals (demo_wdb demo_half) 1000 = Ok [demo_half]"
  using half_withdrawal_dropped [of "\<lparr>b_db = demo_wdb demo_half, b_calls = []\<rparr>" "[demo_half]" 1 demo_benv]
  by (auto simp: demo_bdb_ok demo_lists fresh_half_def demo_half_def WithdrawalTimeout_def)

text \<open>C17: a withdrawal may be paid and passed on. \<open>withdraw\<close> ends by deleting the address it made, with the identifier of the
  asset in the place of the address; when the API refuses that, the withdrawal it has already sent counts as failed, and
  the same amount is passed to the user's address as well.\<close>

theorem withdrawn_and_passed:
  assumes "wd_Asset w = Some a" and "wd_Fee w = Some f" and "tm \<le> wd_CreatedAt w + WithdrawalTimeout"
    and "apiNewClient E (us_Key u) = Ok ()"
    and "\<And>inp. apiCreateAddress E (us_Key u) inp (us_PIN u) = Ok addr" and "\<And>inp. apiWithdraw E (us_Key u) inp (us_PIN u) = Ok ()"
    and "apiDeleteAddress E (us_Key u) (ss_AssetID a) (us_PIN u) = Err x"
    and "processWithdrawalForUser E tm w (Some u) b = (Ok (), b')"
  shows "\<exists>inp c. wi_AddressID inp = addr \<and> wi_Amount inp = ss_Amount a \<and> passes_on E u a c
     \<and> CWithdraw (us_Key u) inp (us_PIN u) \<in> set (b_calls b') \<and> c \<in> set (b_calls b')"
proof -
  let ?ain = "\<lparr>ai_AssetID = ss_AssetID a, ai_Destination = wd_Destination w, ai_Tag = wd_Tag w, ai_Label = ss_SnapshotID a\<rparr>"
  let ?win = "\<lparr>wi_AddressID = addr, wi_Amount = ss_Amount a,
       wi_TraceID = conversationID E (ss_SnapshotID a) ''HANDLE||WITHDRAWAL'', wi_Memo = ss_SnapshotID a\<rparr>"
  let ?b = "b\<lparr>b_calls := b_calls b @ [CCreateAddress (us_Key u) ?ain (us_PIN u), CWithdraw (us_Key u) ?win (us_PIN u),
       CDeleteAddress (us_Key u) (ss_AssetID a) (us_PIN u)]\<rparr>"
  have run: "withdraw E u a (wd_Destination w) (wd_Tag w) b = (Err x, ?b)"
    using assms(4-7) by (simp add: withdraw_def abind_def lift_def request_def Let_def)
  from assms(8) have "on_error (withdraw E u a (wd_Destination w) (wd_Tag w)) (abind (pass E u a) (\<lambda>_. pass E u f)) b = (Ok (), b')"
    using assms(1-3) by (auto simp: processWithdrawalForUser_def split: if_splits)
  then obtain b1 where b1: "pass E u a ?b = (Ok (), b1)" "pass E u f b1 = (Ok (), b')" by (auto simp: run)
  obtain c where c: "passes_on E u a c" "c \<in> set (drop (length (b_calls ?b)) (b_calls b1))" using pass_pays [OF b1(1)] by blast
  obtain cs ds where "b_calls b1 = b_calls ?b @ cs" "b_calls b' = b_calls b1 @ ds"
    using evolvesD [OF pending.ev_pass b1(1)] evolvesD [OF pending.ev_pass b1(2)] by (auto simp: keeps_pending_def)
  with c show ?thesis by (intro exI [of _ ?win] exI [of _ c]) auto
qed

theorem withdrawn_and_passed_witness:
  "\<exists>b' inp c. processWithdrawalForUser demo_benv 1 (demo_half\<lparr>wd_Fee := Some demo_bsnap\<rparr>) (Some demo_buser) \<lparr>b_db = db_empty, b_calls = []\<rparr>
       = (Ok (), b') \<and> passes_on demo_benv demo_buser demo_bsnap c
     \<and> CWithdraw demo_keys inp ''123456'' \<in> set (b_calls b') \<and> c \<in> set (b_calls b')"
proof -
  let ?w = "demo_half\<lparr>wd_Fee := Some demo_bsnap\<rparr>"
  have w: "wd_Asset ?w = Some demo_bsnap" "wd_Fee ?w = Some demo_bsnap" "1 \<le> wd_CreatedAt ?w + WithdrawalTimeout"
    by (simp_all add: demo_half_def WithdrawalTimeout_def)
  have u: "us_Key demo_buser = demo_keys" "us_PIN demo_buser = ''123456''" "mu_UserID demo_buser = demo_uid" "ss_UserID demo_bsnap = demo_uid"
    by (simp_all add: demo_buser_simps demo_bsnap_def)
  have api: "apiNewClient demo_benv k = Ok ()" "apiCreateAddress demo_benv k ai p = Ok ''address''" "apiWithdraw demo_benv k wi p = Ok ()"
    "apiDeleteAddress demo_benv k i p = Err ''404''" for k ai wi i p
    by (simp_all add: demo_benv_simps)
  have pass: "\<exists>inp. pass demo_benv demo_buser demo_bsnap b = (Ok (), b\<lparr>b_calls := b_calls b @ [CTransaction demo_keys inp ''123456'']\<rparr>)" for b
    by (rule demo_pass) (simp_all add: demo_bsnap_def)
  have run: "\<exists>b1. withdraw demo_benv demo_buser demo_bsnap d g b = (Err ''404'', b1)" for d g b
    by (simp add: withdraw_def abind_def lift_def request_def Let_def api)
  have "\<exists>b'. processWithdrawalForUser demo_benv 1 ?w (Some demo_buser) \<lparr>b_db = db_empty, b_calls = []\<rparr> = (Ok (), b')"
  proof -
    obtain b1 where 1: "withdraw demo_benv demo_buser demo_bsnap (wd_Destination ?w) (wd_Tag ?w) \<lparr>b_db = db_empty, b_calls = []\<rparr> = (Err ''404'', b1)"
      using run by blast
    obtain b2 where 2: "pass demo_benv demo_buser demo_bsnap b1 = (Ok (), b2)" using pass by blast
    obtain b3 where 3: "pass demo_benv demo_buser demo_bsnap b2 = (Ok (), b3)" using pass by blast
    from 1 2 3 w(3) show ?thesis
      unfolding processWithdrawalForUser_def w(1,2) by (simp add: u on_error_def abind_def)
  qed
  then obtain b' where b': "processWithdrawalForUser demo_benv 1 ?w (Some demo_buser) \<lparr>b_db = db_empty, b_calls = []\<rparr> = (Ok (), b')" ..
  from withdrawn_and_passed [OF w api(1) api(2) api(3) api(4) b'] b' show ?thesis unfolding u by blast
qed

section \<open>Snapshots\<close>

text \<open>C13: every transfer to a user is answered. When \<open>processSnapshots\<close> returns, each snapshot it had listed whose user is
  known is stored as a half of a withdrawal, or has an accepted request of that user over its asset and amount: to the
  receivers of the action that its memo decodes to, with the action's extra as memo (one receiver by a transfer, more by
  a transaction with the action's threshold), or to the members of the group with their threshold, with a memo that holds
  an operation for the registry, whose extra is the call that \<open>buildExtra\<close> makes for the user's address.\<close>

theorem snapshot_answered:
  assumes "processSnapshots E tm b = (Ok (), b')" and "listSnapshots (b_db b) 100 = Ok ss" and "s \<in> set ss"
    and "readUserById (b_db b) (ss_UserID s) = Ok (Some u)"
  shows "(\<exists>c \<in> set (drop (length (b_calls b)) (b_calls b')). answers E u s c) \<or> pending_half (b_db b') s"
  by (rule processSnapshots_answers [OF assms])

theorem snapshot_answered_witness:
  "\<exists>b'. processSnapshots demo_benv 1 \<lparr>b_db = demo_bdb demo_bsnap, b_calls = []\<rparr> = (Ok (), b')
     \<and> ((\<exists>c \<in> set (b_calls b'). answers demo_benv demo_buser demo_bsnap c) \<or> pending_half (b_db b') demo_bsnap)"
proof -
  let ?b = "\<lparr>b_db = demo_bdb demo_bsnap, b_calls = []\<rparr>"
  have s: "ss_UserID demo_bsnap = demo_uid" "ss_AssetID demo_bsnap = demo_asset" "ss_Amount demo_bsnap = 1" "ss_Memo demo_bsnap = []"
    by (simp_all add: demo_bsnap_def)
  have "decodeMixinExtra demo_benv m = Some m" for m by (simp add: demo_benv_simps)
  then have none: "decodeAction demo_benv db demo_bsnap = Ok None" for db
    using b64DecodeStrict_b64Encode [of "[]"] by (simp add: decodeAction_def decryptData_def s del: rbind_Ok_iff)
  obtain b1 where b1: "pass demo_benv demo_buser demo_bsnap ?b = (Ok (), b1)" "b_db b1 = demo_bdb demo_bsnap"
    using demo_pass [OF s(2,3), of ?b] by auto
  have "process_snapshot demo_benv 1 demo_bsnap ?b = (Ok (), b1)"
    by (simp add: process_snapshot_def processSnapshotForUser_def fetchAsset_def abind_def amust_def reading_def lift_def s none b1 must_def)
  moreover obtain t where "deleteSnapshots (demo_bdb demo_bsnap) [demo_bsnap] = Ok t"
    using no_fault_demo(1) by (simp add: deleteSnapshots_def txn_delete_Ok no_fault_def del: no_fault_demo)
  ultimately have run: "processSnapshots demo_benv 1 ?b = (Ok (), b1\<lparr>b_db := t\<rparr>)"
    by (simp add: processSnapshots_def abind_def amust_def reading_def updating_def lift_def must_def demo_lists b1)
  show ?thesis
    using snapshot_answered [OF run, of "[demo_bsnap]" demo_bsnap demo_buser] run by (simp add: demo_lists s)
qed

text \<open>A transfer can stop the service for good. A withdrawal action on an asset of a chain that \<open>verifyDestination\<close> does
  not know panics; nothing is written before, so the snapshot is first again after a restart and panics again.\<close>

theorem unknown_chain_stops:
  assumes "listSnapshots (b_db b) 100 = Ok (s # ss)" and "readUserById (b_db b) (ss_UserID s) = Ok (Some u)"
    and "readAsset (b_db b) (ss_AssetID s) = Ok (Some ast)" and "\<forall>d. domainChainId E d \<noteq> newHash E (xa_ChainID ast)"
    and "decryptData E (ss_Memo s) = Ok x" and "length x = 68" and "uuidString E (take 16 x) = MVMRegistryId E"
    and "slice2 (MVMStorageContract E) = Ok c" and "hexEncode (take 20 (drop 16 x)) = to_lower c"
    and "storageRead E (be_nat (drop 36 x)) = Ok val" and "jsonAction E val = Ok a" and "ac_Destination a \<noteq> []"
  shows "processSnapshots E tm b = (Panic (newHash E (xa_ChainID ast)), b)"
proof -
  have "List.find (\<lambda>d. domainChainId E d = newHash E (xa_ChainID ast)) all_domains = None"
    using assms(4) by (simp add: find_None_iff)
  then have "decodeAction E (b_db b) s = Panic (newHash E (xa_ChainID ast))"
    using assms(3,5-12) by (simp add: decodeAction_def action_of_def verifyDestination_def del: rbind_Ok_iff)
  then have "process_snapshot E tm s b = (Panic (newHash E (xa_ChainID ast)), b)"
    using assms(2,3) by (simp add: process_snapshot_def processSnapshotForUser_def fetchAsset_def abind_def amust_def reading_def lift_def)
  then show ?thesis using assms(1) by (simp add: processSnapshots_def abind_def amust_def reading_def)
qed

text \<open>The memo selects an action with a destination, and the asset is of a chain that no domain has.\<close>

definition demo_memo :: string where
  "demo_memo = b64Encode (replicate 16 (CHR ''p'') @ demo_contract @ replicate 32 (CHR ''k''))"

theorem unknown_chain_stops_witness:
  "processSnapshots demo_benv 1 \<lparr>b_db = demo_bdb (demo_bsnap\<lparr>ss_Memo := demo_memo\<rparr>), b_calls = []\<rparr>
     = (Panic ''unknown'', \<lparr>b_db = demo_bdb (demo_bsnap\<lparr>ss_Memo := demo_memo\<rparr>), b_calls = []\<rparr>)"
proof -
  let ?s = "demo_bsnap\<lparr>ss_Memo := demo_memo\<rparr>" and ?x = "replicate 16 (CHR ''p'') @ demo_contract @ replicate 32 (CHR ''k'')"
  have s: "ss_UserID ?s = demo_uid" "ss_AssetID ?s = demo_asset" "ss_Memo ?s = demo_memo" by (simp_all add: demo_bsnap_def)
  have E: "newHash demo_benv (xa_ChainID demo_asset_entry) = ''unknown''" "decodeMixinExtra demo_benv m = Some m"
    "MVMStorageContract demo_benv = ''0x'' @ hexEncode demo_contract" "storageRead demo_benv k = Ok ''dest''"
    "jsonAction demo_benv j = Ok (demo_action j)" for m k j
    by (simp_all add: demo_benv_simps demo_asset_entry_def)
  have len: "length demo_contract = 20" by (simp add: demo_contract_def)
  have dom: "\<forall>d. domainChainId demo_benv d \<noteq> newHash demo_benv (xa_ChainID demo_asset_entry)" by (simp add: E(1)) (simp add: demo_benv_simps)
  have c: "slice2 (MVMStorageContract demo_benv) = Ok (hexEncode demo_contract)" by (simp add: E slice2_def)
  have x: "decryptData demo_benv (ss_Memo ?s) = Ok ?x"
    unfolding s(3) demo_memo_def by (simp add: decryptData_def E(2) b64DecodeStrict_b64Encode del: replicate.simps)
  show ?thesis
    by (rule unknown_chain_stops [where u = demo_buser and a = "demo_action ''dest''" and val = "''dest''" and ss = "[]"
        and ast = demo_asset_entry, OF _ _ _ dom x _ _ c, unfolded E(1)])
      (simp_all add: demo_lists s E len demo_registry demo_uuid_parse to_lower_hexEncode demo_action_def replicate_0 del: replicate_Suc)
qed

section \<open>What the group receives\<close>

lemma buildExtra_cases:
  assumes "codec E" and "buildExtra E u (''0x'' @ t) ast amt b = (Ok extra, b1)"
    and "MVMBridgeContract E = ''0x'' @ hexEncode contract" and "length contract = 20"
    and "MVMStorageContract E = ''0x'' @ hexEncode storage" and "to_lower t = hexEncode addr" and "length addr = 20"
    and "uuidFromString E (MVMRegistryId E) = Ok pid" and "uuidFromString E ast = Ok aid"
    and "stored = mvm_calls contract [bind_call addr, pass_call aid amt]" and "k = be_nat (keccak256 E stored)"
  shows "\<exists>cs bound. b1 = b\<lparr>b_calls := b_calls b @ cs\<rparr> \<and> checkBind E u = Ok bound
     \<and> (if bound then extra = mvm_calls contract [pass_call aid amt] \<and> length extra = 92 \<and> cs = []
        else extra = pid @ storage @ be_bytes 32 k \<and> length extra = 68
          \<and> (cs = [] \<and> storageRead E k = Ok stored \<or> cs = [CStorageWrite k stored] \<and> storageWrite E k stored = Ok ()))"
proof -
  have aid: "length aid = 16" by (rule codec.uuid_length [OF assms(1,9)])
  obtain bound h where bound: "checkBind E u = Ok bound" and h: "convertToMVMHex amt = Ok h"
    using assms(2) unfolding buildExtra_def Let_def abind_Ok lift_Ok by blast
  have fits: "nat \<lfloor>\<bar>amt * 100000000\<bar>\<rfloor> < 256 ^ 32" using h by (auto simp: convertToMVMHex_def Let_def split: if_splits)
  have name: "length (''0x'' @ t) = 42" using arg_cong [OF assms(6), of length] assms(7) by (simp add: to_lower_def)
  show ?thesis
  proof (cases bound)
    case True
    have bt: "checkBind E u = Ok True" using bound True by simp
    have "extra = mvm_calls contract [pass_call aid amt] \<and> b1 = b"
      using buildExtra_bytes [OF assms(3,4) name bt assms(9) aid HOL.refl fits, of b] assms(2)
      by (simp add: direct_call [OF aid] del: be_bytes.simps replicate.simps)
    then show ?thesis using True bound aid assms(4) by (intro exI [of _ "[]"] exI [of _ True]) (simp add: direct_call [OF aid])
  next
    case False
    have bf: "checkBind E u = Ok False" using bound False by simp
    have "buildHash E stored b = (Ok extra, b1)"
      using buildExtra_unbound [OF assms(3,4) HOL.refl assms(6,7) bf assms(9) aid fits, of b] assms(2) by (simp add: assms(10))
    from buildHash_Ok [OF this] obtain st where st: "rbind (slice2 (MVMStorageContract E)) hexDecode = Ok st"
      "extra = pid @ st @ be_bytes 32 k" "length extra = 68"
      "storageRead E k = Ok stored \<and> b1 = b \<or> storageWrite E k stored = Ok () \<and> b1 = b\<lparr>b_calls := b_calls b @ [CStorageWrite k stored]\<rparr>"
      unfolding assms(11) [symmetric] using assms(8) by auto
    have "st = storage" using st(1) by (simp add: assms(5) slice2_def)
    with st(2,3) bf have e: "extra = pid @ storage @ be_bytes 32 k" "length extra = 68" "checkBind E u = Ok False" by simp_all
    from st(4) show ?thesis
    proof
      assume "storageRead E k = Ok stored \<and> b1 = b"
      with e show ?thesis by (intro exI [of _ "[]"] exI [of _ False]) simp
    next
      assume "storageWrite E k stored = Ok () \<and> b1 = b\<lparr>b_calls := b_calls b @ [CStorageWrite k stored]\<rparr>"
      with e show ?thesis by (intro exI [of _ "[CStorageWrite k stored]"] exI [of _ False]) simp
    qed
  qed
qed

text \<open>C15: what the service passes on reaches the registry. The last request of an accepted \<open>pass\<close> is a transaction to the
  members of the group over the amount, and the machine parses its memo as a group event for the registry. For a user that
  is bound to the bridge the event carries the direct call, 92 bytes: \<open>pass\<close> of the bridge contract with the asset and the
  amount. For any other user it carries 68 bytes: the registry, the storage contract and the hash under which that
  contract has the call, which the service has stored there first unless it was there: two calls of the bridge contract,
  \<open>bind\<close> with the user's address and the same \<open>pass\<close>.\<close>

theorem pass_reaches_machine:
  assumes "codec E" and "canonical_uuid E (MVMRegistryId E)" and "pass E u s b = (Ok x, b')" and "MVMMembers E \<noteq> []"
    and "MVMBridgeContract E = ''0x'' @ hexEncode contract" and "length contract = 20"
    and "MVMStorageContract E = ''0x'' @ hexEncode storage"
    and "mu_FullName u = ''0x'' @ t" and "to_lower t = hexEncode addr" and "length addr = 20"
    and "uuidFromString E (MVMRegistryId E) = Ok pid" and "uuidFromString E (ss_AssetID s) = Ok aid"
    and "stored = mvm_calls contract [bind_call addr, pass_call aid (ss_Amount s)]" and "k = be_nat (keccak256 E stored)"
  shows "\<exists>inp op cs bound. b_calls b' = b_calls b @ cs @ [CTransaction (us_Key u) inp (us_PIN u)] \<and> ti_Receivers inp = MVMMembers E
     \<and> ti_AssetID inp = ss_AssetID s \<and> ti_Amount inp = ss_Amount s \<and> parseOperation E (ti_Memo inp) = Ok op
     \<and> o_Purpose op = OperationPurposeGroupEvent \<and> o_Process op = MVMRegistryId E
     \<and> checkBind E (mixin_user.truncate u) = Ok bound
     \<and> (if bound then o_Extra op = mvm_calls contract [pass_call aid (ss_Amount s)] \<and> length (o_Extra op) = 92 \<and> cs = []
        else o_Extra op = pid @ storage @ be_bytes 32 k \<and> length (o_Extra op) = 68
          \<and> (cs = [] \<and> storageRead E k = Ok stored \<or> cs = [CStorageWrite k stored] \<and> storageWrite E k stored = Ok ()))"
proof -
  from assms(3) obtain extra b1 op where b1: "buildExtra E (mixin_user.truncate u) (mu_FullName u) (ss_AssetID s) (ss_Amount s) b = (Ok extra, b1)"
    and op: "Operation_Encode E \<lparr>o_Purpose = OperationPurposeGroupEvent, o_Process = MVMRegistryId E, o_Platform = [],
       o_Address = [], o_Extra = extra\<rparr> = Ok op"
    and s: "send E u \<lparr>ti_AssetID = ss_AssetID s, ti_Amount = ss_Amount s, ti_TraceID = conversationID E (ss_SnapshotID s) ''BIND||PASS'',
       ti_Memo = b64Encode op, ti_OpponentID = [], ti_Receivers = MVMMembers E, ti_Threshold = word_of_int (MVMThreshold E)\<rparr> b1 = (Ok x, b')"
    (is "send E u ?inp b1 = _")
    by (auto simp: pass_def bindAndPass_def)
  let ?op = "\<lparr>o_Purpose = OperationPurposeGroupEvent, o_Process = MVMRegistryId E, o_Platform = [], o_Address = [], o_Extra = extra\<rparr>"
  have sent: "b' = b1\<lparr>b_calls := b_calls b1 @ [CTransaction (us_Key u) ?inp (us_PIN u)]\<rparr>"
    using s assms(4) by (auto simp: send_def split: if_splits)
  have "DecodeOperation E op = Ok ?op" using codec.operation_rt [OF assms(1) _ op, of "[]"] assms(2) by simp
  then have parse: "parseOperation E (ti_Memo ?inp) = Ok ?op" by (simp add: parseOperation_def)
  obtain cs bound where cs: "b1 = b\<lparr>b_calls := b_calls b @ cs\<rparr>" "checkBind E (mixin_user.truncate u) = Ok bound"
    "if bound then extra = mvm_calls contract [pass_call aid (ss_Amount s)] \<and> length extra = 92 \<and> cs = []
     else extra = pid @ storage @ be_bytes 32 k \<and> length extra = 68
       \<and> (cs = [] \<and> storageRead E k = Ok stored \<or> cs = [CStorageWrite k stored] \<and> storageWrite E k stored = Ok ())"
    using buildExtra_cases [OF assms(1) b1 [unfolded assms(8)] assms(5-7,9-14)] by blast
  have "b_calls b' = b_calls b @ cs @ [CTransaction (us_Key u) ?inp (us_PIN u)]" by (simp add: sent cs(1))
  with parse cs(2,3) show ?thesis
    by (intro exI [of _ ?inp] exI [of _ ?op] exI [of _ cs] exI [of _ bound] conjI)
      (simp_all only: operation.select_convs transfer_input.select_convs)
qed

theorem pass_reaches_machine_witness:
  "\<exists>inp op. parseOperation demo_benv (ti_Memo inp) = Ok op \<and> o_Process op = demo_pid \<and> ti_Amount inp = 1
     \<and> o_Extra op = mvm_calls demo_contract [pass_call (replicate 16 (CHR ''c'')) 1]
     \<and> pass demo_benv demo_buser demo_bsnap \<lparr>b_db = db_empty, b_calls = []\<rparr>
       = (Ok (), \<lparr>b_db = db_empty, b_calls = [CTransaction demo_keys inp ''123456'']\<rparr>)"
proof -
  obtain inp where run: "pass demo_benv demo_buser demo_bsnap \<lparr>b_db = db_empty, b_calls = []\<rparr>
      = (Ok (), \<lparr>b_db = db_empty, b_calls = [CTransaction demo_keys inp ''123456'']\<rparr>)"
    using demo_pass [of demo_bsnap "\<lparr>b_db = db_empty, b_calls = []\<rparr>"] by (auto simp: demo_bsnap_def)
  have E: "MVMMembers demo_benv \<noteq> []" "MVMBridgeContract demo_benv = ''0x'' @ hexEncode demo_contract"
    "MVMStorageContract demo_benv = ''0x'' @ hexEncode demo_contract" by (simp_all add: demo_benv_simps)
  have u: "mu_FullName demo_buser = ''0x'' @ hexEncode (replicate 20 (CHR ''a''))" by (simp add: demo_buser_simps demo_addr_def del: replicate.simps)
  have a: "uuidFromString demo_benv (ss_AssetID demo_bsnap) = Ok (replicate 16 (CHR ''c''))" "ss_Amount demo_bsnap = 1"
    by (simp_all add: demo_bsnap_def demo_uuid_parse(1) del: replicate.simps)
  have p: "uuidFromString demo_benv (MVMRegistryId demo_benv) = Ok (replicate 16 (CHR ''p''))"
    by (simp add: demo_registry demo_uuid_parse(3) del: replicate.simps)
  have len: "length demo_contract = 20" "length (replicate 20 (CHR ''a'')) = 20" by (simp_all add: demo_contract_def)
  from pass_reaches_machine [OF demo_benv_codec demo_registry_canonical run E(1,2) len(1) E(3) u to_lower_hexEncode len(2) p a(1) HOL.refl HOL.refl]
    demo_bound run show ?thesis by (intro exI [of _ inp]) (auto simp: demo_registry a(2) simp del: replicate.simps)
qed

text \<open>C35: the call that the group is asked to make for a bound user, byte by byte: one call, of the bridge contract, with
  68 bytes of data, the selector of \<open>pass\<close>, the asset as an address of 32 bytes and the amount in units of 10^-8 as 32.\<close>

theorem pass_call_data:
  assumes "MVMBridgeContract E = ''0x'' @ hexEncode contract" and "length contract = 20" and "length addr = 42"
    and "checkBind E u = Ok True" and "uuidFromString E ast = Ok aid" and "length aid = 16"
    and "n = nat \<lfloor>\<bar>amt * 100000000\<bar>\<rfloor>" and "n < 256 ^ 32"
  shows "buildExtra E u addr ast amt b = (Ok ([CHR 0x00, CHR 0x01] @ contract @ [CHR 0x00, CHR ''D'']
     @ [CHR 0x0E, CHR 0xD1, CHR 0xDB, CHR 0x9F] @ replicate 16 (CHR 0x00) @ aid @ be_bytes 32 n), b)"
  by (rule buildExtra_bytes [OF assms])

theorem pass_call_data_witness:
  "buildExtra demo_benv (mixin_user.truncate demo_buser) demo_addr demo_asset 1 \<lparr>b_db = db_empty, b_calls = []\<rparr>
   = (Ok ([CHR 0x00, CHR 0x01] @ demo_contract @ [CHR 0x00, CHR ''D''] @ [CHR 0x0E, CHR 0xD1, CHR 0xDB, CHR 0x9F]
       @ replicate 16 (CHR 0x00) @ replicate 16 (CHR ''c'') @ be_bytes 32 100000000), \<lparr>b_db = db_empty, b_calls = []\<rparr>)"
proof -
  have c: "MVMBridgeContract demo_benv = ''0x'' @ hexEncode demo_contract" by (simp add: demo_benv_simps)
  show ?thesis
    by (rule pass_call_data [OF c _ demo_addr_text(1) demo_bound demo_uuid_parse(1)]) (simp_all add: demo_contract_def)
qed

section \<open>The database\<close>

text \<open>C16: the database is never misread. Whatever the service has done, in any order, with any replies, which may be others
  in each iteration of a loop and in each call of \<open>createUser\<close>, and whether its functions succeeded, failed or panicked,
  every read of its database succeeds when the database does: each key has a value of the struct that is read there, and
  the checkpoint has its eight bytes.\<close>

theorem bridge_well_typed:
  assumes "bridge_step\<^sup>*\<^sup>* \<lparr>b_db = db_empty, b_calls = []\<rparr> b" and "s = b_db b"
  shows "(\<exists>x. readUserById s i = Ok x) \<and> (\<exists>x. readUserByAddress s i = Ok x) \<and> (\<exists>x. readAsset s i = Ok x)
     \<and> (\<exists>x. readWithdrawalById s i = Ok x) \<and> (\<exists>x. readSnapshotsCheckpoint s t0 = Ok x)
     \<and> (\<exists>x. listSnapshots s n = Ok x) \<and> (\<exists>x. listWithdrawals s n = Ok x)"
proof -
  have ok: "bdb_ok s" using bridge_reach_types [OF assms(1)] by (simp add: assms(2) bdb_ok_empty)
  then have nf: "no_fault s" by (simp add: bdb_ok_def)
  note look = bdb_ok_lookup [OF ok]
  have read: "\<exists>x. b_read s dec k = Ok x" if "\<And>v. fits k v \<Longrightarrow> \<exists>x. dec v = Ok x" for dec :: "bval \<Rightarrow> 'b res" and k
    using that look by (cases "db_lookup s k") (auto simp: b_read_no_fault [OF nf] rbind_Ok_iff)
  have "\<exists>x. b_read s as_raw (storePrefixAddress @ i) = Ok x"
    by (rule read) (use fits_prefix(3) in \<open>fastforce simp: as_raw_def\<close>)
  then obtain r where r: "b_read s as_raw (storePrefixAddress @ i) = Ok r" ..
  have "\<exists>x. readUserByAddress s i = Ok x"
    using user_readable [OF ok, unfolded readUserById_def] by (cases r) (simp_all add: readUserByAddress_def r del: rbind_Ok_iff)
  moreover have "\<exists>x. readAsset s i = Ok x"
    unfolding readAsset_def by (rule read) (use fits_prefix(2) in \<open>fastforce simp: as_masset_def\<close>)
  moreover have "\<exists>x. readWithdrawalById s i = Ok x"
    unfolding readWithdrawalById_def readWithdrawal_def
    by (rule read) (use fits_prefix(4) in \<open>fastforce simp: as_withdrawal_def\<close>)
  moreover have "\<exists>x. readSnapshotsCheckpoint s t0 = Ok x"
  proof (cases "db_lookup s storePrefixSnapshotCheckpoint")
    case (Some v)
    from fits_prefix(5) [OF look [OF Some]] obtain b8 where "v = XRaw b8" "length b8 = 8" by blast
    with Some show ?thesis
      by (simp add: readSnapshotsCheckpoint_def b_read_no_fault [OF nf] as_raw_def getUint64_def del: rbind_Ok_iff)
  qed (simp add: readSnapshotsCheckpoint_def b_read_no_fault [OF nf])
  moreover have "\<exists>x. listSnapshots s n = Ok x" unfolding listSnapshots_def
    by (rule list_typed [OF ok]) (use fits_prefix(6) in \<open>fastforce simp: as_snapshot_def\<close>)
  moreover have "\<exists>x. listWithdrawals s n = Ok x" unfolding listWithdrawals_def
    by (rule list_typed [OF ok]) (use fits_prefix(4) in \<open>fastforce simp: as_withdrawal_def\<close>)
  ultimately show ?thesis using user_readable [OF ok] by blast
qed

text \<open>Two iterations: the checkpoint is read from an API that answers with a transfer, then from one that refuses.\<close>

theorem bridge_well_typed_witness:
  "\<exists>b1 b2. b1 = snd (loopSnapshots demo_benv 5 \<lparr>b_db = db_empty, b_calls = []\<rparr>)
     \<and> b2 = snd (loopSnapshots (demo_benv\<lparr>apiReadNetworkSnapshots := \<lambda>c n. Err ''timeout''\<rparr>) 6 b1)
     \<and> (\<exists>x. readSnapshotsCheckpoint (b_db b2) 7 = Ok x) \<and> (\<exists>x. listSnapshots (b_db b2) 100 = Ok x)"
proof -
  let ?b0 = "\<lparr>b_db = db_empty, b_calls = []\<rparr>" and ?E = "demo_benv\<lparr>apiReadNetworkSnapshots := \<lambda>c n. Err ''timeout''\<rparr>"
  let ?b1 = "snd (loopSnapshots demo_benv 5 ?b0)" let ?b2 = "snd (loopSnapshots ?E 6 ?b1)"
  have step: "bridge_step b (snd (loopSnapshots E t0 b))" for E :: benv and t0 b
    by (rule bridge_step.pulled [where E = E and ?t0.0 = t0 and r = "fst (loopSnapshots E t0 b)"]) simp
  have "bridge_step\<^sup>*\<^sup>* ?b0 ?b2"
    by (rule rtranclp_trans [OF r_into_rtranclp r_into_rtranclp]) (rule step, rule step)
  from bridge_well_typed [OF this HOL.refl, of "[]" 7 100]
  have "(\<exists>x. readSnapshotsCheckpoint (b_db ?b2) 7 = Ok x) \<and> (\<exists>x. listSnapshots (b_db ?b2) 100 = Ok x)" by (elim conjE) (rule conjI)
  with HOL.refl [of ?b2] HOL.refl [of ?b1] show ?thesis by blast
qed

lemma append_ge: "p \<le> p @ (r :: 'a :: linorder list)"
  by (induction p) auto

lemma prefix_less: "length x = length y \<Longrightarrow> x @ a < y @ b \<Longrightarrow> x \<le> (y :: 'a :: linorder list)"
  by (induction x y rule: list_induct2) auto

lemma timeToBytes_le:
  assumes "0 \<le> a" "a < 2 ^ 64" "0 \<le> b" "b < 2 ^ 64" "timeToBytes a \<le> timeToBytes b"
  shows "a \<le> b"
proof -
  have "word_of_int a \<le> (word_of_int b :: u64)"
    using assms(5) by (metis timeToBytes_def putUint64_less leD leI)
  then show ?thesis using assms(1-4) by (simp add: word_le_def uint_word_of_int)
qed

text \<open>Snapshots are handled in the order of their times. On a well-typed database with times after 1970 that fit their
  eight bytes, \<open>listSnapshots\<close> gives stored snapshots, sorted by time, and all of them if there are fewer than its
  limit.\<close>

theorem snapshots_in_time_order:
  assumes "bdb_ok s" and "listSnapshots s n = Ok ss"
    and "\<And>k x. db_lookup s k = Some (XSnapshot x) \<Longrightarrow> 0 \<le> ss_CreatedAt x \<and> ss_CreatedAt x < 2 ^ 64"
  shows "sorted (map ss_CreatedAt ss) \<and> (\<forall>x \<in> set ss. db_lookup s (snapshotKey x) = Some (XSnapshot x))
     \<and> (length ss < n \<longrightarrow> (\<forall>k x. db_lookup s k = Some (XSnapshot x) \<longrightarrow> x \<in> set ss))"
proof -
  let ?it = "iter_from s storePrefixSnapshotList storePrefixSnapshotList" and ?snap = "\<lambda>x. case snd x of XSnapshot y \<Rightarrow> y"
  have dbok: "db_ok s" using assms(1) by (simp add: bdb_ok_def)
  have mem: "x \<in> set ?it \<longleftrightarrow> db_lookup s (fst x) = Some (snd x) \<and> has_prefix storePrefixSnapshotList (fst x)" for x
    using set_iter_from [OF dbok, of storePrefixSnapshotList storePrefixSnapshotList "fst x" "snd x"] by (auto simp: has_prefix_iff append_ge)
  have entry: "\<exists>y. x = (snapshotKey y, XSnapshot y)" if xin: "x \<in> set ?it" for x
  proof -
    obtain r where r: "fst x = storePrefixSnapshotList @ r" "db_lookup s (fst x) = Some (snd x)"
      using xin mem by (auto simp: has_prefix_iff)
    then have "fits (storePrefixSnapshotList @ r) (snd x)" using bdb_ok_lookup [OF assms(1)] by simp
    with fits_prefix(6) obtain y where "snd x = XSnapshot y" by blast
    moreover from this bdb_ok_lookup [OF assms(1) r(2)] have "fst x = snapshotKey y" by (simp add: fits_def)
    ultimately show ?thesis by (metis prod.collapse)
  qed
  have ss: "ss = map ?snap (take n ?it)"
    by (rule list_items_Ok_map [OF assms(2) [unfolded listSnapshots_def]])
      (use entry in \<open>fastforce dest: in_set_takeD simp: as_snapshot_def\<close>)
  have stored: "db_lookup s (snapshotKey y) = Some (XSnapshot y)" if "(snapshotKey y, XSnapshot y) \<in> set ?it" for y
    using that mem by auto
  have le: "ss_CreatedAt (?snap x) \<le> ss_CreatedAt (?snap y)" if xy: "x \<in> set ?it" "y \<in> set ?it" "fst x < fst y" for x y
  proof -
    obtain a b where ab: "x = (snapshotKey a, XSnapshot a)" "y = (snapshotKey b, XSnapshot b)" using entry xy(1,2) by meson
    then have "timeToBytes (ss_CreatedAt a) \<le> timeToBytes (ss_CreatedAt b)"
      using xy(3) prefix_less [of "timeToBytes (ss_CreatedAt a)" "timeToBytes (ss_CreatedAt b)"]
      by (simp add: snapshotKey_def timeToBytes_def)
    moreover have "0 \<le> ss_CreatedAt z \<and> ss_CreatedAt z < 2 ^ 64" if "z = a \<or> z = b" for z
      using that stored xy(1,2) ab by (intro assms(3) [of "snapshotKey z"]) auto
    ultimately show ?thesis using ab by (simp add: timeToBytes_le)
  qed
  have "sorted_wrt (\<lambda>x y. fst x < fst y) (take n ?it)"
    using sorted_wrt_take [OF sorted_iter_from [OF dbok, unfolded sorted_wrt_map]] .
  then have "sorted_wrt (\<lambda>x y. ss_CreatedAt (?snap x) \<le> ss_CreatedAt (?snap y)) (take n ?it)"
    by (rule sorted_wrt_mono_rel [rotated]) (blast dest: in_set_takeD intro: le)
  then have "sorted (map ss_CreatedAt ss)" by (simp add: ss sorted_wrt_map)
  moreover have "db_lookup s (snapshotKey x) = Some (XSnapshot x)" if "x \<in> set ss" for x
  proof -
    from that obtain z where z: "z \<in> set ?it" "x = ?snap z" by (auto simp: ss dest: in_set_takeD)
    with entry obtain y where "z = (snapshotKey y, XSnapshot y)" by blast
    with z stored show ?thesis by simp
  qed
  moreover have "x \<in> set ss" if "length ss < n" "db_lookup s k = Some (XSnapshot x)" for k x
  proof -
    have "k = snapshotKey x" using bdb_ok_lookup [OF assms(1) that(2)] by (simp add: fits_def)
    with that(2) have "(k, XSnapshot x) \<in> set ?it" using mem by (simp add: snapshotKey_def has_prefix_iff)
    moreover have "take n ?it = ?it" using that(1) by (simp add: ss)
    ultimately show ?thesis by (force simp: ss)
  qed
  ultimately show ?thesis by blast
qed

text \<open>The later of two transfers is stored first.\<close>

theorem snapshots_in_time_order_witness:
  "\<exists>t ss. writeSnapshot (demo_bdb (demo_bsnap\<lparr>ss_CreatedAt := 300\<rparr>)) demo_bsnap = Ok t \<and> listSnapshots t 100 = Ok ss
     \<and> sorted (map ss_CreatedAt ss) \<and> (length ss < 100 \<longrightarrow> demo_bsnap \<in> set ss)"
proof -
  let ?s = "demo_bdb (demo_bsnap\<lparr>ss_CreatedAt := 300\<rparr>)"
  obtain t where t: "writeSnapshot ?s demo_bsnap = Ok t"
    using no_fault_demo(1) by (auto simp: writeSnapshot_def txn_set_Ok no_fault_def simp del: no_fault_demo)
  then have lk: "db_lookup t = (db_lookup ?s)(snapshotKey demo_bsnap \<mapsto> XSnapshot demo_bsnap)"
    by (auto simp: writeSnapshot_def txn_set_Ok)
  have ok: "bdb_ok t" using bdb_ok_writes(3) [OF demo_bdb_ok(1) t] .
  obtain ss where ss: "listSnapshots t 100 = Ok ss"
    unfolding listSnapshots_def using list_typed [OF ok, of storePrefixSnapshotList as_snapshot 100] fits_prefix(6)
    by (fastforce simp: as_snapshot_def)
  have times: "0 \<le> ss_CreatedAt x \<and> ss_CreatedAt x < 2 ^ 64" if "db_lookup t k = Some (XSnapshot x)" for k x
    using that by (auto simp: lk db_lookup_def demo_bdb_def demo_bsnap_def split: if_splits)
  from snapshots_in_time_order [OF ok ss] times have "sorted (map ss_CreatedAt ss)"
    "length ss < 100 \<longrightarrow> (\<forall>k x. db_lookup t k = Some (XSnapshot x) \<longrightarrow> x \<in> set ss)" by metis+
  moreover have "db_lookup t (snapshotKey demo_bsnap) = Some (XSnapshot demo_bsnap)" by (simp add: lk)
  ultimately show ?thesis using t ss by blast
qed

section \<open>Actions and users\<close>

text \<open>The extra that the service hands out selects the action. A user calls \<open>encodeActionAsExtra\<close>, stores the JSON text
  of the action in the storage contract under its hash, and sends a transfer whose memo carries the first 68 bytes of the
  extra; \<open>decodeAction\<close> finds the action again and only checks its destination or receivers.\<close>

theorem encoded_action_decoded:
  assumes "codec E" and "canonical_uuid E (MVMRegistryId E)" and "MVMStorageContract E = ''0x'' @ hexEncode contract"
    and "length contract = 20" and "actionJson E a = Ok json" and "length (keccak256 E json) = 32"
    and "storageRead E (be_nat (keccak256 E json)) = Ok json" and "jsonAction E json = Ok a"
    and "encodeActionAsExtra E a = Ok x" and "hexDecode x = Ok extra"
    and "decodeMixinExtra E (ss_Memo s) = Some (b64Encode (take 68 extra))"
  shows "decodeAction E db s = action_of E db s a \<and> drop 68 extra = json"
proof -
  obtain u where u: "uuidFromString E (MVMRegistryId E) = Ok u" "uuidString E u = MVMRegistryId E"
    using assms(2) by (auto simp: canonical_uuid_def split: res.splits)
  have lu: "length u = 16" using codec.uuid_length [OF assms(1) u(1)] .
  have "x = hexEncode (u @ contract @ keccak256 E json @ json)"
    using assms(3,5,9) u(1) by (auto simp: encodeActionAsExtra_def uuidOrNil_def slice2_def)
  then have extra: "extra = u @ contract @ keccak256 E json @ json" using assms(10) by simp
  have t: "take 68 extra = u @ contract @ keccak256 E json" "drop 68 extra = json"
    using lu assms(4,6) by (simp_all add: extra)
  have "decryptData E (ss_Memo s) = Ok (u @ contract @ keccak256 E json)"
    using assms(11) by (simp add: decryptData_def b64DecodeStrict_b64Encode t(1))
  then have "decodeAction E db s = action_of E db s a"
    using lu assms(3,4,6-8) u(2) by (simp add: decodeAction_def slice2_def to_lower_hexEncode del: rbind_Ok_iff)
  with t(2) show ?thesis by simp
qed

theorem encoded_action_decoded_witness:
  "\<exists>x extra. encodeActionAsExtra demo_benv (demo_action ''dest'') = Ok x \<and> hexDecode x = Ok extra \<and> drop 68 extra = ''dest''
     \<and> decodeAction demo_benv db_empty (demo_bsnap\<lparr>ss_Memo := b64Encode (take 68 extra)\<rparr>)
       = action_of demo_benv db_empty (demo_bsnap\<lparr>ss_Memo := b64Encode (take 68 extra)\<rparr>) (demo_action ''dest'')"
proof -
  have E: "MVMStorageContract demo_benv = ''0x'' @ hexEncode demo_contract" "actionJson demo_benv (demo_action ''dest'') = Ok ''dest''"
    "keccak256 demo_benv v = replicate 32 (CHR ''k'')" "storageRead demo_benv k = Ok ''dest''" "jsonAction demo_benv ''dest'' = Ok (demo_action ''dest'')"
    "decodeMixinExtra demo_benv m = Some m" for v k m
    by (simp_all add: demo_benv_simps demo_action_def)
  have len: "length demo_contract = 20" by (simp add: demo_contract_def)
  obtain x extra where x: "encodeActionAsExtra demo_benv (demo_action ''dest'') = Ok x" "hexDecode x = Ok extra"
    by (simp add: encodeActionAsExtra_def E slice2_def uuidOrNil_def demo_registry demo_uuid_parse must_def del: rbind_Ok_iff replicate.simps)
  from encoded_action_decoded [OF demo_benv_codec demo_registry_canonical E(1) len E(2) _ E(4) E(5) x, of "demo_bsnap\<lparr>ss_Memo := b64Encode (take 68 extra)\<rparr>" db_empty] x
  show ?thesis by (auto simp: E)
qed

text \<open>The keys of a user are given to everyone. \<open>createUser\<close> does not look at the signature: for an address that has a
  user with a contract, the reply to a request with any signature at all carries the user with the private key.\<close>

theorem key_for_any_signature:
  assumes "jsonUserRequest E (rq_Body r) = Ok (addr, sig)" and "domainVerify E Ethereum addr = Ok ()"
    and "readUserByAddress (b_db b) addr = Ok (Some u)" and "us_Contract u \<noteq> []"
  shows "http_createUser E r b =
    (Ok (reply 200 (BUser (mu_UserID u) (mu_SessionID u) (mu_FullName u) (mu_CreatedAt u) (us_Key u) (us_Contract u))), b)"
  using assms by (simp add: http_createUser_def or_error_def createUser_def abind_def lift_def reading_def)

theorem key_for_any_signature_witness:
  "http_createUser demo_benv \<lparr>rq_Method = ''POST'', rq_Origin = [], rq_Body = demo_addr\<rparr> \<lparr>b_db = demo_bdb demo_bsnap, b_calls = []\<rparr>
     = (Ok (reply 200 (BUser demo_uid ''session'' demo_addr 0 demo_keys ''0x1'')), \<lparr>b_db = demo_bdb demo_bsnap, b_calls = []\<rparr>)
   \<and> ks_PrivateKey demo_keys = ''key''"
  using key_for_any_signature [of demo_benv "\<lparr>rq_Method = ''POST'', rq_Origin = [], rq_Body = demo_addr\<rparr>" demo_addr "[]"
      "\<lparr>b_db = demo_bdb demo_bsnap, b_calls = []\<rparr>" demo_buser]
  by (simp add: demo_benv_simps demo_buser_simps demo_keys_def)

end
