(* ===== verification/Command.thy ===== *)
theory Command
  imports Effects Quorum Bridge
begin

text \<open>
  mvm/*.go and mvm/config: the commands of the program. \<open>boot\<close> starts a machine on its database, \<open>publish\<close> registers a
  process, \<open>invoke\<close> sends it a payment or a collectible, and \<open>decode\<close> prints a message of the group; the monitor runs
  beside a machine. What a command asks of the Mixin API, prints and starts is a list of \<open>cmd_call\<close>s, written when it is
  done; the replies, the file system and the parsers of configuration files are fields of \<open>cmd_env\<close>. A command reads its
  flags through a function, which gives the default of a flag that is not set.
\<close>

section \<open>Outside the commands\<close>

record mtg_genesis =
  gn_Members :: "string list"
  gn_Threshold :: int

record quorum_configuration =
  qc_Store :: string
  qc_RPC :: string
  qc_ChainId :: int
  qc_Base :: u64
  qc_PrivateKey :: string

record messenger_configuration =
  mc_UserId :: string
  mc_SessionId :: string
  mc_Key :: string

text \<open>\<open>config.Configuration\<close>; a section that the file does not have is a nil pointer.\<close>

record mvm_configuration =
  cf_MTG :: "mtg_genesis option"
  cf_Machine :: "configuration option"
  cf_Quorum :: "quorum_configuration option"
  cf_Messenger :: "messenger_configuration option"

record app_key =
  ak_PIN :: string
  ak_ClientId :: string
  ak_SessionId :: string
  ak_PINToken :: string
  ak_PrivateKey :: string

record cmd_keystore = keystore +
  ks_PinToken :: string

record nft_token =
  nt_TokenID :: string
  nt_MixinID :: bytes

record nft_output =
  no_OutputID :: string
  no_TokenID :: string
  no_Amount :: rat
  no_TransactionHash :: bytes
  no_OutputIndex :: nat

record script_output =
  so_Amount :: rat
  so_Script :: bytes
  so_Mask :: bytes
  so_Keys :: "bytes list"

record common_output =
  cx_Amount :: int
  cx_Script :: bytes
  cx_Mask :: bytes
  cx_Keys :: "bytes list"

record raw_transaction =
  rt_Asset :: bytes
  rt_Inputs :: "(bytes \<times> nat) list"
  rt_Outputs :: "common_output list"
  rt_Extra :: bytes

record collectible_tx =
  ctx_TraceId :: string
  ctx_State :: int
  ctx_UpdatedAt :: int
  ctx_Raw :: bytes
  ctx_Hash :: bytes

datatype cmd_call =
    KVerifyPin cmd_keystore string
  | KTransaction cmd_keystore transfer_input string
  | KVerifyPayment cmd_keystore transfer_input
  | KCreateCollectibleRequest string string
  | KSignCollectibleRequest string string
  | KSendRawTransaction string
  | KPrint string
  | KPrintEvent event
  | KBroadcast string
  | KSleep int
  | KServe int
  | KProfile

record cmd_env = lib +
  homeDir :: "string option"
  osReadFile :: "string \<Rightarrow> bytes res"
  tomlConfiguration :: "bytes \<Rightarrow> mvm_configuration res"
  jsonAppKey :: "bytes \<Rightarrow> app_key res"
  uuidNewV4 :: "string res"
  decimalNewFromString :: "string \<Rightarrow> rat res"
  clientNew :: "cmd_keystore \<Rightarrow> unit res"
  clientVerifyPin :: "cmd_keystore \<Rightarrow> string \<Rightarrow> unit res"
  clientTransaction :: "cmd_keystore \<Rightarrow> transfer_input \<Rightarrow> string \<Rightarrow> string res"
  clientVerifyPayment :: "cmd_keystore \<Rightarrow> transfer_input \<Rightarrow> string res"
  clientReadCollectiblesToken :: "cmd_keystore \<Rightarrow> string \<Rightarrow> nft_token option res"
  clientGetOutputs :: "cmd_keystore \<Rightarrow> (string \<times> string) list \<Rightarrow> nft_output list res"
  clientGhostKeys :: "cmd_keystore \<Rightarrow> string list \<Rightarrow> string \<Rightarrow> bytes list res"
  clientCreateCollectibleRequest :: "cmd_keystore \<Rightarrow> string \<Rightarrow> string \<Rightarrow> string res"
  clientSignCollectibleRequest :: "cmd_keystore \<Rightarrow> string \<Rightarrow> string \<Rightarrow> string res"
  clientSendRawTransaction :: "cmd_keystore \<Rightarrow> string \<Rightarrow> string res"
  hashMembers :: "string list \<Rightarrow> string"
  formatTime :: "int \<Rightarrow> string"
  durationText :: "int \<Rightarrow> string"
  dumpOutput :: "bytes \<Rightarrow> 8 word \<Rightarrow> rat \<Rightarrow> script_output"
  buildExtraNFO :: "bytes \<Rightarrow> bytes"
  payloadMarshal :: "raw_transaction \<Rightarrow> bytes"
  qrHalfBlock :: "string \<Rightarrow> string"
  openStore :: "string \<Rightarrow> store res"
  transactionStateInitial :: int
  transactionStateSigning :: int
  transactionStateSigned :: int
  transactionStateSnapshot :: int
  listCollectibleTransactions :: "store \<Rightarrow> int \<Rightarrow> nat \<Rightarrow> collectible_tx list res"
  msgpackCollectibleTx :: "bytes \<Rightarrow> collectible_tx res"
  buildGroup :: "store \<Rightarrow> mtg_genesis option \<Rightarrow> store res"
  newMessenger :: "messenger_configuration \<Rightarrow> unit res"

type_synonym 'a cmd = "(cmd_call list, 'a) eff"

definition call :: "cmd_call \<Rightarrow> 'a res \<Rightarrow> 'a cmd" where
  "call k r ks = (r, ks @ [k])"

abbreviation nil_panic :: "'a res" where
  "nil_panic \<equiv> Panic ''nil pointer dereference''"

section \<open>Configuration (config/reader.go)\<close>

text \<open>\<open>filepath.Join\<close> of two elements, and \<open>filepath.Clean\<close> on its result: empty elements and dots are dropped, and two dots
  take back the element before them.\<close>

fun clean_parts :: "bool \<Rightarrow> string list \<Rightarrow> string list \<Rightarrow> string list" where
  "clean_parts rooted done' [] = rev done'"
| "clean_parts rooted done' (p # ps) =
     (if p = [] \<or> p = ''.'' then clean_parts rooted done' ps
      else if p = ''..'' then
        (case done' of
           [] \<Rightarrow> if rooted then clean_parts rooted [] ps else clean_parts rooted [''..''] ps
         | q # qs \<Rightarrow> if q = ''..'' then clean_parts rooted (''..'' # q # qs) ps else clean_parts rooted qs ps)
      else clean_parts rooted (p # done') ps)"

fun join_parts :: "string list \<Rightarrow> string" where
  "join_parts [] = []"
| "join_parts [p] = p"
| "join_parts (p # ps) = p @ ''/'' @ join_parts ps"

definition path_clean :: "string \<Rightarrow> string" where
  "path_clean s = (let rooted = has_prefix ''/'' s;
       r = (if rooted then ''/'' else []) @ join_parts (clean_parts rooted [] (str_split (CHR ''/'') s)) in
     if r = [] then ''.'' else r)"

definition path_join :: "string \<Rightarrow> string \<Rightarrow> string" where
  "path_join a b = (if a = [] \<and> b = [] then [] else if a = [] then path_clean b else if b = [] then path_clean a
     else path_clean (a @ ''/'' @ b))"

text \<open>The error of \<open>user.Current\<close> is dropped; the user is then nil.\<close>

definition expand_path :: "'z cmd_env_scheme \<Rightarrow> string \<Rightarrow> string res" where
  "expand_path E p = (if \<not> has_prefix ''~/'' p then Ok p else case homeDir E of
       None \<Rightarrow> nil_panic
     | Some h \<Rightarrow> Ok (path_join h (drop 2 p)))"

definition ReadConfiguration :: "'z cmd_env_scheme \<Rightarrow> string \<Rightarrow> mvm_configuration res" where
  "ReadConfiguration E path =
     rbind (expand_path E path) (\<lambda>path. rbind (osReadFile E path) (tomlConfiguration E))"

section \<open>The key of an app (publish.go, invoke.go)\<close>

definition open_client :: "'z cmd_env_scheme \<Rightarrow> (string \<Rightarrow> string) \<Rightarrow> (mvm_configuration \<times> app_key \<times> cmd_keystore) cmd" where
  "open_client E c =
     abind (lift (rbind (expand_path E (c ''machine'')) (ReadConfiguration E))) (\<lambda>conf.
     abind (lift (rbind (expand_path E (c ''key'')) (osReadFile E))) (\<lambda>kb.
     abind (lift (jsonAppKey E kb)) (\<lambda>key.
     let s = keystore.extend \<lparr>ks_ClientID = ak_ClientId key, ks_SessionID = ak_SessionId key, ks_PrivateKey = ak_PrivateKey key\<rparr>
               (cmd_keystore.fields (ak_PINToken key)) in
     abind (lift (clientNew E s)) (\<lambda>_.
     abind (call (KVerifyPin s (ak_PIN key)) (clientVerifyPin E s (ak_PIN key))) (\<lambda>_.
     lift (Ok (conf, key, s)))))))"

definition genesis :: "mvm_configuration \<Rightarrow> mtg_genesis res" where
  "genesis conf = of_option nil_panic (cf_MTG conf)"

section \<open>Publishing (publish.go)\<close>

definition publishAppCmd :: "'z cmd_env_scheme \<Rightarrow> (string \<Rightarrow> string) \<Rightarrow> unit cmd" where
  "publishAppCmd E c = abind (open_client E c) (\<lambda>(conf, key, s).
     let op = \<lparr>o_Purpose = OperationPurposeAddProcess, o_Process = ak_ClientId key, o_Platform = c ''platform'',
               o_Address = c ''address'', o_Extra = c ''extra''\<rparr> in
     abind (lift (of_option nil_panic (cf_Machine conf))) (\<lambda>mconf.
     let feeAmount = (case decimalNewFromString E (conf_ProcessFeeAmount mconf) of Ok d \<Rightarrow> d | _ \<Rightarrow> 0) in
     abind (lift (genesis conf)) (\<lambda>g.
     abind (lift (Operation_Encode E op)) (\<lambda>b.
     let input = \<lparr>ti_AssetID = conf_ProcessFeeAsset mconf, ti_Amount = feeAmount, ti_TraceID = [], ti_Memo = b64Encode b,
                  ti_OpponentID = [], ti_Receivers = gn_Members g, ti_Threshold = word_of_int (gn_Threshold g)\<rparr> in
     abind (call (KTransaction s input (ak_PIN key)) (clientTransaction E s input (ak_PIN key))) (\<lambda>tx.
     call (KPrint tx) (Ok ()))))))"

section \<open>Invoking (invoke.go)\<close>

definition event_operation :: "(string \<Rightarrow> string) \<Rightarrow> operation" where
  "event_operation c = \<lparr>o_Purpose = OperationPurposeGroupEvent, o_Process = c ''process'', o_Platform = [],
     o_Address = [], o_Extra = hex_prefix (c ''extra'')\<rparr>"

definition doPayment :: "'z cmd_env_scheme \<Rightarrow> cmd_keystore \<Rightarrow> mvm_configuration \<Rightarrow> (string \<Rightarrow> string) \<Rightarrow> unit cmd" where
  "doPayment E s conf c =
     abind (lift (decimalNewFromString E (c ''amount''))) (\<lambda>amount.
     if amount < 1 / 100000000 then lift (Err ''invalid amount'')
     else abind (lift (uuidNewV4 E)) (\<lambda>trace.
     abind (lift (genesis conf)) (\<lambda>g.
     abind (lift (Operation_Encode E (event_operation c))) (\<lambda>b.
     let input = \<lparr>ti_AssetID = c ''asset'', ti_Amount = amount, ti_TraceID = trace, ti_Memo = b64Encode b,
                  ti_OpponentID = [], ti_Receivers = gn_Members g, ti_Threshold = word_of_int (gn_Threshold g)\<rparr> in
     abind (call (KVerifyPayment s input) (clientVerifyPayment E s input)) (\<lambda>codeId.
     let url = ''mixin://codes/'' @ codeId in
     abind (call (KPrint url) (Ok ())) (\<lambda>_.
     call (KPrint (qrHalfBlock E url)) (Ok ())))))))"

definition newCommonOutput :: "'z lib_scheme \<Rightarrow> script_output \<Rightarrow> common_output res" where
  "newCommonOutput E out = rbind (integerFromDecimal E (so_Amount out)) (\<lambda>a.
     Ok \<lparr>cx_Amount = a, cx_Script = so_Script out, cx_Mask = so_Mask out, cx_Keys = so_Keys out\<rparr>)"

text \<open>The parameters of the request, in a map: \<open>offset\<close> is \<open>None\<close> for the zero time.\<close>

definition readUnspentCollectibleOutputs ::
  "'z cmd_env_scheme \<Rightarrow> cmd_keystore \<Rightarrow> string list \<Rightarrow> nat \<Rightarrow> int option \<Rightarrow> nat \<Rightarrow> nft_output list res" where
  "readUnspentCollectibleOutputs E s members threshold offset limit =
     (let params = (case offset of None \<Rightarrow> [] | Some t \<Rightarrow> [(''offset'', formatTime E t)]);
          params = params @ (if 0 < limit then [(''limit'', nat_digits limit)] else []) in
      if threshold < 1 \<or> length members < threshold then Err ''invalid members''
      else clientGetOutputs E s (params @ [(''members'', hashMembers E members), (''threshold'', nat_digits threshold),
             (''state'', ''unspent'')]))"

definition buildRawCollectibleTransaction ::
  "'z cmd_env_scheme \<Rightarrow> cmd_keystore \<Rightarrow> mvm_configuration \<Rightarrow> nft_token \<Rightarrow> nft_output \<Rightarrow> bytes \<Rightarrow> string \<Rightarrow> raw_transaction res" where
  "buildRawCollectibleTransaction E s conf token utxo extra trace =
     (if no_Amount utxo \<noteq> 1 then Panic (no_OutputID utxo)
      else rbind (genesis conf) (\<lambda>g.
        rbind (clientGhostKeys E s (gn_Members g) trace) (\<lambda>keys.
        case keys of
          [] \<Rightarrow> Panic ''index out of range''
        | k # _ \<Rightarrow> rbind (newCommonOutput E (dumpOutput E k (word_of_int (gn_Threshold g)) (no_Amount utxo))) (\<lambda>out.
            Ok \<lparr>rt_Asset = nt_MixinID token, rt_Inputs = [(no_TransactionHash utxo, no_OutputIndex utxo)],
                rt_Outputs = [out], rt_Extra = buildExtraNFO E extra\<rparr>))))"

definition doCollectible ::
  "'z cmd_env_scheme \<Rightarrow> cmd_keystore \<Rightarrow> mvm_configuration \<Rightarrow> (string \<Rightarrow> string) \<Rightarrow> string \<Rightarrow> unit cmd" where
  "doCollectible E s conf c pin =
     abind (lift (clientReadCollectiblesToken E s (c ''token''))) (\<lambda>token. case token of
       None \<Rightarrow> lift (Err ''invalid token id'')
     | Some token \<Rightarrow>
         abind (lift (readUnspentCollectibleOutputs E s [ks_ClientID s] 1 None 500)) (\<lambda>outputs.
         case List.find (\<lambda>o'. no_TokenID o' = nt_TokenID token) outputs of
           None \<Rightarrow> lift (Err ''no token found'')
         | Some out \<Rightarrow>
             abind (lift (uuidNewV4 E)) (\<lambda>trace.
             abind (lift (Operation_Encode E (event_operation c))) (\<lambda>b.
             abind (lift (buildRawCollectibleTransaction E s conf token out (b64Encode b) trace)) (\<lambda>raw.
             let payload = hexEncode (payloadMarshal E raw) in
             abind (call (KCreateCollectibleRequest ''SIGN'' payload) (clientCreateCollectibleRequest E s ''SIGN'' payload)) (\<lambda>req.
             abind (call (KSignCollectibleRequest req pin) (clientSignCollectibleRequest E s req pin)) (\<lambda>tx.
             abind (call (KSendRawTransaction tx) (clientSendRawTransaction E s tx)) (\<lambda>h.
             call (KPrint (tx @ '' '' @ h)) (Ok ())))))))))"

definition invokeProcessCmd :: "'z cmd_env_scheme \<Rightarrow> (string \<Rightarrow> string) \<Rightarrow> unit cmd" where
  "invokeProcessCmd E c = abind (open_client E c) (\<lambda>(conf, key, s).
     if uuidString E (uuidOrNil E (c ''token'')) = c ''token'' then doCollectible E s conf c (ak_PIN key)
     else doPayment E s conf c)"

section \<open>Decoding a message (message.go)\<close>

definition decodeMsgCmd :: "'z lib_scheme \<Rightarrow> string \<Rightarrow> unit cmd" where
  "decodeMsgCmd E arg =
     abind (lift (b64Decode arg)) (\<lambda>b.
     if length b < 8 then lift (Panic ''slice bounds out of range'')
     else abind (lift (DecodeEvent E (take (length b - 8) b))) (\<lambda>evt.
     call (KPrintEvent evt) (Ok ())))"

section \<open>The monitor (monitor.go)\<close>

definition clock_face :: string where
  "clock_face = [CHR 0xE2, CHR 0x8F, CHR 0xB2, CHR 0xEF, CHR 0xB8, CHR 0x8F]"

definition firework :: string where
  "firework = [CHR 0xF0, CHR 0x9F, CHR 0x8E, CHR 0x86]"

definition cyclist :: string where
  "cyclist = [CHR 0xF0, CHR 0x9F, CHR 0x9A, CHR 0xB4]"

definition bundleMachineState :: "'z cmd_env_scheme \<Rightarrow> store \<Rightarrow> int \<Rightarrow> int \<Rightarrow> string res" where
  "bundleMachineState E s startedAt tm =
     (let state = clock_face @ '' Run time :'' @ durationText E (tm - startedAt) @ [CHR 0x0A] in
      rbind (ListProcesses s) (\<lambda>procs.
      let state = state @ firework @ '' Total processes count: '' @ nat_digits (length procs) @ [CHR 0x0A] in
      rbind (ListPendingGroupEvents s 100) (\<lambda>events.
      Ok (state @ cyclist @ '' Pending group events count: '' @ nat_digits (length events)))))"

text \<open>One round; the error of the broadcast is only logged, and after an error of the store there is no pause.\<close>

definition RunMonitor :: "'z cmd_env_scheme \<Rightarrow> store \<Rightarrow> int \<Rightarrow> int \<Rightarrow> unit cmd" where
  "RunMonitor E s startedAt tm = (case bundleMachineState E s startedAt tm of
       Panic e \<Rightarrow> lift (Panic e)
     | Err e \<Rightarrow> lift (Ok ())
     | Ok msg \<Rightarrow> abind (call (KBroadcast msg) (Ok ())) (\<lambda>_. call (KSleep (30 * 60 * 10 ^ 9)) (Ok ())))"

section \<open>Booting (boot.go)\<close>

definition tsToBytes :: "int \<Rightarrow> bytes" where
  "tsToBytes ts = putUint64 (word_of_int ts)"

definition collectibleTransactionStatePrefix :: "'z cmd_env_scheme \<Rightarrow> int \<Rightarrow> string res" where
  "collectibleTransactionStatePrefix E state =
     (let prefix = ''COLLECTIBLES:TRANSACTION:STATE:'' in
      if state = transactionStateInitial E then Ok (prefix @ ''initiall'')
      else if state = transactionStateSigning E then Ok (prefix @ ''signingg'')
      else if state = transactionStateSigned E then Ok (prefix @ ''signeddd'')
      else if state = transactionStateSnapshot E then Ok (prefix @ ''snapshot'')
      else Panic ''state'')"

definition buildCollectibleTransactionTimedKey :: "'z cmd_env_scheme \<Rightarrow> collectible_tx \<Rightarrow> bytes res" where
  "buildCollectibleTransactionTimedKey E tx = rbind (collectibleTransactionStatePrefix E (ctx_State tx)) (\<lambda>prefix.
     Ok ((prefix @ tsToBytes (ctx_UpdatedAt tx)) @ ctx_TraceId tx))"

definition prefixCollectibleTransactionPayload :: string where
  "prefixCollectibleTransactionPayload = ''COLLECTIBLES:TRANSACTION:PAYLOAD:''"

definition prefixCollectibleTransactionHash :: string where
  "prefixCollectibleTransactionHash = ''COLLECTIBLES:TRANSACTION:HASH:''"

definition removeInvalidCollectibleTransaction :: "'z cmd_env_scheme \<Rightarrow> store \<Rightarrow> string \<Rightarrow> store res" where
  "removeInvalidCollectibleTransaction E s trace = db_update s (\<lambda>s.
     let pk = prefixCollectibleTransactionPayload @ trace in
     rbind (read_opt s (\<lambda>v. rbind (as_bytes v) (msgpackCollectibleTx E)) pk) (\<lambda>tx. case tx of
       None \<Rightarrow> Ok s
     | Some tx \<Rightarrow>
         rbind (if ctx_Raw tx = [] then Ok s
                else if ctx_Hash tx = replicate 32 (CHR 0x00) then Panic (ctx_TraceId tx)
                else txn_delete s (prefixCollectibleTransactionHash @ ctx_Hash tx)) (\<lambda>s.
         rbind (buildCollectibleTransactionTimedKey E tx) (\<lambda>sk.
         rbind (txn_delete s sk) (\<lambda>s. txn_delete s pk)))))"

text \<open>The listed transactions are only printed to the log.\<close>

definition handleInvalidCollectibleTransactions :: "'z cmd_env_scheme \<Rightarrow> store \<Rightarrow> store res" where
  "handleInvalidCollectibleTransactions E s =
     rbind (rfold (\<lambda>_ state. rbind (must (listCollectibleTransactions E s state 100)) (\<lambda>_. Ok ())) ()
       [transactionStateInitial E, transactionStateSigning E, transactionStateSigned E, transactionStateSnapshot E]) (\<lambda>_.
     rbind (must (removeInvalidCollectibleTransaction E s ''8dc64911-4fc7-3d6d-9b9a-dc54b0330003'')) (\<lambda>s.
     must (removeInvalidCollectibleTransaction E s ''7ba7ac8a-9018-3792-ab00-7bde27b14c9b'')))"

definition boot_quorum :: "'z cmd_env_scheme \<Rightarrow> 'q qlib_scheme \<Rightarrow> rpc_node \<Rightarrow> quorum_configuration option \<Rightarrow> qengine machine \<Rightarrow>
  qengine machine res" where
  "boot_quorum E Q N conf im = (case conf of
       None \<Rightarrow> Ok im
     | Some q \<Rightarrow> rbind (must (openStore E (qc_Store q))) (\<lambda>qdb.
         rbind (quorum_Boot Q N qdb (qc_ChainId q) (qc_Base q) (qc_PrivateKey q)) (\<lambda>en.
         Ok (AddEngine im ProcessPlatformQuorum en))))"

text \<open>The machine when its loops start; what else is started is in the list of calls.\<close>

definition bootCmd :: "'z cmd_env_scheme \<Rightarrow> keylib \<Rightarrow> 'q qlib_scheme \<Rightarrow> rpc_node \<Rightarrow> (string \<Rightarrow> string) \<Rightarrow> int \<Rightarrow> bool \<Rightarrow>
  qengine machine cmd" where
  "bootCmd E K Q N c port profile =
     abind (lift (rbind (expand_path E (c ''config'')) (ReadConfiguration E))) (\<lambda>conf.
     abind (lift (rbind (expand_path E (c ''dir'')) (openStore E))) (\<lambda>db.
     abind (lift (handleInvalidCollectibleTransactions E db)) (\<lambda>db.
     abind (if port < 1000 then lift (Ok ()) else call (KServe port) (Ok ())) (\<lambda>_.
     abind (if \<not> profile then lift (Ok ()) else call KProfile (Ok ())) (\<lambda>_.
     abind (lift (buildGroup E db (cf_MTG conf))) (\<lambda>db.
     abind (lift (of_option nil_panic (cf_Messenger conf))) (\<lambda>mc.
     abind (lift (clientNew E (keystore.extend \<lparr>ks_ClientID = mc_UserId mc, ks_SessionID = mc_SessionId mc,
       ks_PrivateKey = mc_Key mc\<rparr> (cmd_keystore.fields [])))) (\<lambda>_.
     abind (lift (newMessenger E mc)) (\<lambda>_.
     abind (lift (of_option nil_panic (cf_Machine conf))) (\<lambda>mconf.
     abind (lift (Boot K mconf db)) (\<lambda>im.
     abind (lift (boot_quorum E Q N (cf_Quorum conf) im)) (\<lambda>im.
     lift (Loop_start im)))))))))))))"

end
