(* ===== verification/Mvm_Rpc.thy ===== *)
theory Mvm_Rpc
  imports Command
begin

text \<open>
  mvm/rpc: the HTTP server of a machine, with two methods: how far the group has read its outputs, and the public key of
  the group. A handler that panics is answered by \<open>handlePanic\<close>. \<open>rpc_env\<close> holds the property of the group's store, the
  JSON decoder and the commitment of a polynomial; a point is its bytes, as in the machine.
\<close>

record rpc_call =
  rc_Id :: string
  rc_Method :: string

datatype rpc_data = DInfo "int option" | DKeys string

text \<open>The rendered object: its data or error, the identifier when there is one, and the headers.\<close>

datatype rpc_body = RData rpc_data | RError string | REmpty

record rpc_response =
  rr_Id :: string
  rr_Body :: rpc_body
  rr_Headers :: "(string \<times> string) list"

record web_request =
  wr_Method :: string
  wr_Path :: string
  wr_Origin :: string
  wr_Body :: bytes

record rpc_env =
  readProperty :: "store \<Rightarrow> bytes \<Rightarrow> bytes res"
  jsonCall :: "bytes \<Rightarrow> rpc_call res"
  polyCommit :: "bytes list \<Rightarrow> string res"

section \<open>The methods (info.go)\<close>

definition outputsDrainingKey :: string where
  "outputsDrainingKey = ''outputs-draining-checkpoint''"

text \<open>\<open>None\<close> is the zero time.\<close>

definition readDrainingCheckpoint :: "rpc_env \<Rightarrow> store \<Rightarrow> string \<Rightarrow> int option res" where
  "readDrainingCheckpoint R s key = rbind (readProperty R s key) (\<lambda>val.
     if val = [] then Ok None else rbind (getUint64 val) (\<lambda>ts. Ok (Some (sint ts))))"

definition getInfo :: "rpc_env \<Rightarrow> store \<Rightarrow> int option res" where
  "getInfo R s = readDrainingCheckpoint R s outputsDrainingKey"

definition rpc_unmarshalCommitments :: "keylib \<Rightarrow> bytes \<Rightarrow> bytes list res" where
  "rpc_unmarshalCommitments K b = rmap (\<lambda>i. pubKeyFromBytes K (take 128 (drop (i * 128) b))) [0..<length b div 128]"

definition getMTGKeys :: "rpc_env \<Rightarrow> keylib \<Rightarrow> mvm_configuration option \<Rightarrow> string res" where
  "getMTGKeys R K conf = (case Option.bind conf cf_Machine of
       None \<Rightarrow> Err ''invalid config machine''
     | Some m \<Rightarrow>
         if conf_Poly m = [] then Err ''invalid config machine''
         else rbind (hexDecode (conf_Poly m)) (\<lambda>pb. rbind (rpc_unmarshalCommitments K pb) (polyCommit R)))"

section \<open>The server (http.go)\<close>

definition RenderData :: "string \<Rightarrow> rpc_data \<Rightarrow> rpc_response" where
  "RenderData i d = \<lparr>rr_Id = i, rr_Body = RData d, rr_Headers = []\<rparr>"

definition RenderError :: "string \<Rightarrow> string \<Rightarrow> rpc_response" where
  "RenderError i e = \<lparr>rr_Id = i, rr_Body = RError e, rr_Headers = []\<rparr>"

definition handlePanic :: "rpc_response res \<Rightarrow> rpc_response" where
  "handlePanic r = (case r of Ok x \<Rightarrow> x | _ \<Rightarrow> RenderError [] ''bad request'')"

definition render_result :: "string \<Rightarrow> ('a \<Rightarrow> rpc_data) \<Rightarrow> 'a res \<Rightarrow> rpc_response res" where
  "render_result i d r = (case r of Ok x \<Rightarrow> Ok (RenderData i (d x)) | Err e \<Rightarrow> Ok (RenderError i e) | Panic e \<Rightarrow> Panic e)"

definition ServeHTTP :: "rpc_env \<Rightarrow> keylib \<Rightarrow> store \<Rightarrow> mvm_configuration option \<Rightarrow> web_request \<Rightarrow> rpc_response" where
  "ServeHTTP R K s conf r = handlePanic
     (if wr_Path r \<noteq> ''/'' \<or> wr_Method r \<noteq> ''POST''
      then Ok (RenderError [] (''bad request '' @ wr_Method r @ '' '' @ wr_Path r))
      else case jsonCall R (wr_Body r) of
        Panic e \<Rightarrow> Panic e
      | Err e \<Rightarrow> Ok (RenderError [] (''bad request '' @ e))
      | Ok k \<Rightarrow>
          if rc_Method k = ''getinfo'' then render_result (rc_Id k) DInfo (getInfo R s)
          else if rc_Method k = ''getmtgkeys'' then render_result (rc_Id k) DKeys (getMTGKeys R K conf)
          else Ok (RenderError (rc_Id k) (''invalid method '' @ rc_Method k)))"

definition rpc_handleCORS :: "(web_request \<Rightarrow> rpc_response) \<Rightarrow> web_request \<Rightarrow> rpc_response" where
  "rpc_handleCORS handler r =
     (if wr_Origin r = [] then handler r
      else let rep = (if wr_Method r = ''OPTIONS'' then \<lparr>rr_Id = [], rr_Body = REmpty, rr_Headers = []\<rparr> else handler r) in
        rep\<lparr>rr_Headers := [(''Access-Control-Allow-Origin'', wr_Origin r),
          (''Access-Control-Allow-Headers'', ''Content-Type,Authorization,Mixin-Conversation-ID''),
          (''Access-Control-Allow-Methods'', ''OPTIONS,GET,POST,DELETE''), (''Access-Control-Max-Age'', ''600'')] @ rr_Headers rep\<rparr>)"

end
