(* ===== verification/Command_Props.thy ===== *)
theory Command_Props
  imports Mvm_Rpc Quorum_Props
begin

text \<open>
  The properties of the commands, and of a machine that \<open>boot\<close> starts: what \<open>publish\<close> and \<open>invoke\<close> send is understood by
  the machine, the database is still good when the loops start, and the server tells the key that the machine uses.
\<close>

section \<open>A concrete program\<close>

text \<open>An environment in which every request is accepted, a machine without processes, and the flags of a command.\<close>

text \<open>A polynomial with two commitments.\<close>

definition demo_points :: "bytes list" where
  "demo_points = [replicate 128 (CHR ''p''), replicate 128 (CHR ''q'')]"

definition demo_configuration :: configuration where
  "demo_configuration = \<lparr>conf_Poly = hexEncode (concat demo_points), conf_Share = ''00000000'', conf_ProcessFeeAsset = demo_asset, conf_ProcessFeeAmount = ''1''\<rparr>"

definition demo_conf :: mvm_configuration where
  "demo_conf = \<lparr>cf_MTG = Some \<lparr>gn_Members = [''m1''], gn_Threshold = 1\<rparr>, cf_Machine = Some demo_configuration,
     cf_Quorum = Some \<lparr>qc_Store = ''q'', qc_RPC = ''http'', qc_ChainId = 83927, qc_Base = 256, qc_PrivateKey = []\<rparr>,
     cf_Messenger = Some \<lparr>mc_UserId = ''user'', mc_SessionId = ''session'', mc_Key = ''key''\<rparr>\<rparr>"

definition demo_app_key :: app_key where
  "demo_app_key = \<lparr>ak_PIN = ''123456'', ak_ClientId = demo_pid, ak_SessionId = ''session'', ak_PINToken = ''token'', ak_PrivateKey = ''key''\<rparr>"

definition demo_keylib :: keylib where
  "demo_keylib = \<lparr>decimalFromString = \<lambda>s. Ok 1, pubKeyFromBytes = Ok, scalarSetBytes = \<lambda>b. b, polyCheck = \<lambda>ps s. True\<rparr>"

definition demo_cmd :: cmd_env where
  "demo_cmd = lib.extend wire_lib (cmd_env.fields (Some ''/home/a'') Ok (\<lambda>b. Ok demo_conf) (\<lambda>b. Ok demo_app_key) (Ok ''trace'')
     (\<lambda>s. Ok 1) (\<lambda>k. Ok ()) (\<lambda>k p. Ok ()) (\<lambda>k i p. Ok ''tx'') (\<lambda>k i. Ok ''code'') (\<lambda>k t. Ok None) (\<lambda>k ps. Ok [])
     (\<lambda>k ms h. Ok []) (\<lambda>k a r. Ok ''request'') (\<lambda>k r p. Ok ''raw'') (\<lambda>k r. Ok ''hash'') concat (\<lambda>t. []) (\<lambda>t. [])
     (\<lambda>k n a. \<lparr>so_Amount = a, so_Script = [], so_Mask = [], so_Keys = []\<rparr>) (\<lambda>b. b) rt_Extra (\<lambda>s. s)
     (\<lambda>d. Ok demo_store) 10 11 12 13 (\<lambda>s i n. Ok []) (\<lambda>b. Err ''msgpack'') (\<lambda>s g. Ok s) (\<lambda>m. Ok ()))"

lemmas demo_cmd_simps = demo_cmd_def lib.defs cmd_env.defs

definition demo_flags :: "string \<Rightarrow> string" where
  "demo_flags n = (if n = ''platform'' then ''quorum'' else if n = ''address'' then ''new'' else if n = ''process'' then demo_pid
     else if n = ''extra'' then ''0102'' else [])"

definition demo_ks :: cmd_keystore where
  "demo_ks = keystore.extend \<lparr>ks_ClientID = demo_pid, ks_SessionID = ''session'', ks_PrivateKey = ''key''\<rparr> (cmd_keystore.fields ''token'')"

lemma demo_cmd_lib: "lib.truncate demo_cmd = lib.truncate demo_world"
  by (simp add: demo_cmd_simps demo_world_simps)

lemma demo_pid_canonical: "canonical_uuid demo_world demo_pid" "uuidFromString demo_cmd demo_pid = Ok (replicate 16 (CHR ''p''))"
  using canonical_uuid_text [of "replicate 16 (CHR ''p'')"] uuid_parse_text [of "replicate 16 (CHR ''p'')"]
  by (simp_all add: canonical_uuid_def demo_pid_def demo_world_simps demo_cmd_simps wire_lib_def del: replicate.simps)

lemma demo_client: "open_client demo_cmd demo_flags ks = (Ok (demo_conf, demo_app_key, demo_ks), ks @ [KVerifyPin demo_ks ''123456''])"
proof -
  have "expand_path demo_cmd [] = Ok []" by (simp add: expand_path_def has_prefix_def)
  moreover have "demo_flags ''machine'' = []" "demo_flags ''key'' = []" by (simp_all add: demo_flags_def)
  ultimately show ?thesis
    by (simp add: open_client_def abind_def lift_def call_def ReadConfiguration_def Let_def demo_cmd_simps demo_app_key_def demo_ks_def
        keystore.defs cmd_keystore.defs del: rbind_Ok_iff)
qed

lemma demo_encodes: "length (o_Extra p) \<le> 256 \<Longrightarrow> o_Process p = demo_pid \<Longrightarrow> length (o_Platform p) \<le> 256 \<Longrightarrow> length (o_Address p) \<le> 256 \<Longrightarrow>
    0 \<le> o_Purpose p \<Longrightarrow> o_Purpose p \<le> 65535 \<Longrightarrow> \<exists>b. Operation_Encode demo_cmd p = Ok b"
proof -
  have sel: "encInt demo_cmd = wire_encInt" by (simp add: demo_cmd_simps wire_lib_def)
  show "length (o_Extra p) \<le> 256 \<Longrightarrow> o_Process p = demo_pid \<Longrightarrow> length (o_Platform p) \<le> 256 \<Longrightarrow> length (o_Address p) \<le> 256 \<Longrightarrow>
    0 \<le> o_Purpose p \<Longrightarrow> o_Purpose p \<le> 65535 \<Longrightarrow> \<exists>b. Operation_Encode demo_cmd p = Ok b"
    by (simp add: Operation_Encode_def writeInt_def writeBytes_def writeUUID_def sel wire_encInt_def demo_pid_canonical
        EventExtraMaxSize_def del: rbind_Ok_iff replicate.simps be_bytes.simps)
qed

lemma demo_poly: "unmarshalCommitments demo_keylib (concat demo_points) = Ok demo_points"
proof -
  have "[0..<2] = [0, 1 :: nat]" by (simp add: upt_rec)
  moreover have "length (concat demo_points) div 128 = 2" "take 128 (concat demo_points) = demo_points ! 0"
    "take 128 (drop 128 (concat demo_points)) = demo_points ! 1"
    by (simp_all add: demo_points_def del: replicate.simps)
  ultimately show ?thesis
    by (simp add: unmarshalCommitments_def) (simp add: demo_keylib_def demo_points_def del: replicate.simps)
qed

lemma demo_boots: "\<exists>m. Boot demo_keylib demo_configuration s = Ok m \<and> m_feeAssetId m = demo_asset \<and> m_feeAmount m = 1 \<and> m_store m = s \<and> m_processes m = [] \<and> m_engines m = []"
proof -
  have "hexDecode ''00000000'' = Ok [CHR 0x00, CHR 0x00, CHR 0x00, CHR 0x00]" by code_simp
  then show ?thesis using demo_poly
    by (simp add: Boot_def demo_configuration_def unmarshalPrivShare_def Let_def demo_points_def del: rbind_Ok_iff replicate.simps)
      (simp add: demo_keylib_def)
qed

definition demo_fresh :: "unit machine" where
  "demo_fresh = demo_machine\<lparr>m_store := db_empty, m_processes := []\<rparr>"

lemma demo_fresh_ok: "machine_ok demo_world demo_fresh" "no_fault (m_store demo_fresh)"
  by (simp_all add: machine_ok_def demo_fresh_def events_ok_def signed_authentic_def signed_event_def stored_process_def no_fault_def
      db_empty_def db_lookup_def store_ok_empty [unfolded db_empty_def])

section \<open>Publishing and invoking\<close>

text \<open>The commands and the machine encode with the same library.\<close>

lemma Operation_Encode_truncate: "Operation_Encode (lib.truncate L) p = Operation_Encode L p"
proof -
  have int: "writeInt (lib.truncate L) = writeInt L" by (simp add: fun_eq_iff writeInt_def lib.defs)
  have "writeUUID (lib.truncate L) = writeUUID L" "writeBytes (lib.truncate L) = writeBytes L"
    by (simp_all add: fun_eq_iff writeUUID_def writeBytes_def int) (simp add: lib.defs)
  then show ?thesis by (simp only: Operation_Encode_def int)
qed

lemma same_encoding: "lib.truncate E = lib.truncate W \<Longrightarrow> Operation_Encode E p = Operation_Encode W p"
  by (metis Operation_Encode_truncate)

lemma parse_encoded:
  assumes "lib.truncate E = lib.truncate W" "codec W" "canonical_uuid W (o_Process p)" "Operation_Encode E p = Ok b"
  shows "parseOperation W (b64Encode b) = Ok p"
  using codec.operation_rt [OF assms(2,3), of b "[]"] assms(4) same_encoding [OF assms(1), of p]
  by (simp add: parseOperation_def)

lemma call_Ok [simp]: "call k r ks = (x, ks') \<longleftrightarrow> x = r \<and> ks' = ks @ [k]"
  by (auto simp: call_def)

text \<open>What an output gives to the machine when the process can be added.\<close>

lemma AddProcess_added:
  assumes "machine_ok W m" "no_fault (m_store m)" "out_AssetID out = m_feeAssetId m" "m_feeAmount m \<le> out_Amount out"
    "map_of (m_engines m) platform = Some eng" "VerifyAddress E eng address extra = Ok ()"
    "SetupNotifier E eng address = Ok eng'" "\<forall>p \<in> snd ` set (m_processes m). p_Identifier p \<noteq> out_Sender out \<and> p_Address p \<noteq> address"
    "valid_pid (out_Sender out)"
  obtains m' p where "AddProcess E m (out_Sender out) platform address out extra = Ok (True, m')"
    "p = \<lparr>p_Identifier = out_Sender out, p_Platform = platform, p_Address = address, p_Credit = 0, p_Nonce = 0,
       p_Asset = str_contains extra ''META''\<rparr>"
    "map_of (m_processes m') (out_Sender out) = Some p" "stored_process (m_store m') (out_Sender out) = Some p"
proof -
  let ?p = "\<lparr>p_Identifier = out_Sender out, p_Platform = platform, p_Address = address, p_Credit = 0, p_Nonce = 0,
       p_Asset = str_contains extra ''META''\<rparr>"
  have fresh: "\<not> list_ex (\<lambda>(_, old). p_Identifier old = out_Sender out \<or> p_Address old = address) (m_processes m)"
    using assms(8) by (force simp: list_ex_iff)
  have pok: "process_ok (m_store m)" using assms(1) by (simp add: machine_ok_def store_ok_def)
  have "map_of (m_processes m) (out_Sender out) = None"
  proof (rule ccontr)
    assume "map_of (m_processes m) (out_Sender out) \<noteq> None"
    then obtain q where q: "map_of (m_processes m) (out_Sender out) = Some q" by blast
    with machine_ok_pid [OF assms(1) q] map_of_SomeD [OF q] assms(8) show False by force
  qed
  then have none: "stored_process (m_store m) (out_Sender out) = None" using assms(1) by (metis machine_ok_def)
  have "db_lookup (m_store m) (processKey (out_Sender out)) = None"
  proof (cases "db_lookup (m_store m) (processKey (out_Sender out))")
    case (Some v)
    with pok obtain q where "v = JProcess q" unfolding process_ok_def by blast
    with none Some show ?thesis by (simp add: stored_process_def)
  qed
  then have w: "WriteProcess (m_store m) ?p = Ok (m_store m\<lparr>kvs := kv_set (processKey (out_Sender out)) (JProcess ?p) (kvs (m_store m))\<rparr>)"
    using assms(2) by (simp add: WriteProcess_def readProcess_def writeProcess_def read_opt_def txn_get_def io_check_def no_fault_def)
  obtain m' where m': "AddProcess E m (out_Sender out) platform address out extra = Ok (True, m')"
    "m_store m' = m_store m\<lparr>kvs := kv_set (processKey (out_Sender out)) (JProcess ?p) (kvs (m_store m))\<rparr>"
    "map_of (m_processes m') (out_Sender out) = Some ?p"
    using assms(3-7) fresh by (simp add: AddProcess_def Let_def w Spawn_def del: rbind_Ok_iff)
  show thesis by (rule that [OF m'(1) HOL.refl m'(3)]) (simp add: m'(2) stored_process_def)
qed

text \<open>C18: what \<open>publish\<close> sends registers the process. The transaction of a successful command goes to the members of
  the group; when its output arrives from the app's account at a machine that was booted with the same fee, whose
  engine accepts the address, and of which no process has that identifier or that address yet, the machine has the
  process, in memory and in its database.\<close>

theorem published_process_added:
  assumes "lib.truncate E = lib.truncate W" and "codec W"
    and "open_client E c [] = (Ok (conf, key, s), ks0)" and "cf_Machine conf = Some mconf"
    and "publishAppCmd E c [] = (Ok (), ks)" and "KTransaction s inp pin \<in> set ks"
    and "Boot K mconf db = Ok (m0 :: 'e machine)" and "decimalFromString K = decimalNewFromString E"
    and "m_feeAssetId m = m_feeAssetId m0" and "m_feeAmount m = m_feeAmount m0"
    and "out_Memo out = ti_Memo inp" and "out_AssetID out = ti_AssetID inp" and "out_Amount out = ti_Amount inp"
    and "out_Sender out = ks_ClientID s" and "canonical_uuid W (ks_ClientID s)"
    and "machine_ok W m" and "no_fault (m_store m)" and "map_of (m_engines m) (c ''platform'') = Some eng"
    and "VerifyAddress N eng (c ''address'') (c ''extra'') = Ok ()" and "SetupNotifier N eng (c ''address'') = Ok eng'"
    and "\<forall>p \<in> snd ` set (m_processes m). p_Identifier p \<noteq> ks_ClientID s \<and> p_Address p \<noteq> c ''address''"
  shows "\<exists>m' p. ProcessOutput W N (m :: 'e machine) out = Ok m' \<and> map_of (m_processes m') (ks_ClientID s) = Some p
     \<and> stored_process (m_store m') (ks_ClientID s) = Some p \<and> p_Platform p = c ''platform'' \<and> p_Address p = c ''address''
     \<and> p_Nonce p = 0 \<and> ti_Receivers inp = gn_Members (the (cf_MTG conf))"
proof -
  let ?op = "\<lparr>o_Purpose = OperationPurposeAddProcess, o_Process = ak_ClientId key, o_Platform = c ''platform'',
               o_Address = c ''address'', o_Extra = c ''extra''\<rparr>"
  have s: "ks_ClientID s = ak_ClientId key" "ks0 = [KVerifyPin s (ak_PIN key)]"
    using assms(3) by (auto simp: open_client_def Let_def keystore.defs cmd_keystore.defs)
  obtain b where b: "Operation_Encode E ?op = Ok b" "ti_Memo inp = b64Encode b"
    and inp: "ti_AssetID inp = conf_ProcessFeeAsset mconf" "ti_Receivers inp = gn_Members (the (cf_MTG conf))"
      "ti_Amount inp = (case decimalNewFromString E (conf_ProcessFeeAmount mconf) of Ok d \<Rightarrow> d | _ \<Rightarrow> 0)"
    using assms(3-6) by (auto simp: publishAppCmd_def Let_def genesis_def s(2))
  have parsed: "parseOperation W (out_Memo out) = Ok ?op"
    using parse_encoded [OF assms(1,2) _ b(1)] assms(11,15) s b(2) by simp
  have fee: "m_feeAssetId m0 = conf_ProcessFeeAsset mconf"
    "m_feeAmount m0 = (case decimalNewFromString E (conf_ProcessFeeAmount mconf) of Ok d \<Rightarrow> d | _ \<Rightarrow> 0)"
    using assms(7,8) by (auto simp: Boot_def Let_def split: if_splits)
  have pid: "valid_pid (out_Sender out)" using parseOperation_pid [OF assms(2) parsed] assms(14) s by simp
  obtain m' p where m': "AddProcess N m (out_Sender out) (c ''platform'') (c ''address'') out (c ''extra'') = Ok (True, m')"
    and p: "p = \<lparr>p_Identifier = out_Sender out, p_Platform = c ''platform'', p_Address = c ''address'', p_Credit = 0, p_Nonce = 0,
       p_Asset = str_contains (c ''extra'') ''META''\<rparr>"
      "map_of (m_processes m') (out_Sender out) = Some p" "stored_process (m_store m') (out_Sender out) = Some p"
    by (rule AddProcess_added [OF assms(16,17) _ _ assms(18-20) _ pid])
      (use assms(9,10,12-14,21) inp fee in auto)
  have "ProcessOutput W N m out = Ok m'"
    using m' assms(14) s(1) by (simp add: ProcessOutput_def parsed)
  then show ?thesis using p assms(14) inp(2) by auto
qed

theorem published_process_added_witness:
  "\<exists>ks inp m' p. publishAppCmd demo_cmd demo_flags [] = (Ok (), ks) \<and> KTransaction demo_ks inp ''123456'' \<in> set ks
     \<and> ProcessOutput demo_world demo_engine demo_fresh \<lparr>out_UTXOID = ''u9'', out_Sender = demo_pid, out_AssetID = demo_asset,
          out_Amount = 1, out_Memo = ti_Memo inp, out_CreatedAt = 9\<rparr> = Ok m'
     \<and> map_of (m_processes m') demo_pid = Some p \<and> p_Address p = ''new''"
proof -
  let ?op = "\<lparr>o_Purpose = OperationPurposeAddProcess, o_Process = demo_pid, o_Platform = ''quorum'', o_Address = ''new'', o_Extra = ''0102''\<rparr>"
  obtain b where b: "Operation_Encode demo_cmd ?op = Ok b"
    using demo_encodes [of ?op] by (auto simp: OperationPurposeAddProcess_def)
  have fl: "demo_flags ''platform'' = ''quorum''" "demo_flags ''address'' = ''new''" "demo_flags ''extra'' = ''0102''"
    by (simp_all add: demo_flags_def)
  have api: "decimalNewFromString demo_cmd x = Ok 1" "clientTransaction demo_cmd k i q = Ok ''tx''" for x k i q
    by (simp_all add: demo_cmd_simps)
  have key: "ak_ClientId demo_app_key = demo_pid" "ak_PIN demo_app_key = ''123456''" by (simp_all add: demo_app_key_def)
  have conf: "cf_Machine demo_conf = Some demo_configuration" "genesis demo_conf = Ok \<lparr>gn_Members = [''m1''], gn_Threshold = 1\<rparr>"
    by (simp_all add: demo_conf_def genesis_def)
  obtain ks inp where run: "publishAppCmd demo_cmd demo_flags [] = (Ok (), ks)" "KTransaction demo_ks inp ''123456'' \<in> set ks"
    and inp: "ti_AssetID inp = demo_asset" "ti_Amount inp = 1"
    by (simp add: publishAppCmd_def demo_client abind_def lift_def call_def Let_def conf fl api key b
        of_option_def demo_configuration_def del: rbind_Ok_iff)
  obtain m0 :: "unit machine" where m0: "Boot demo_keylib demo_configuration db_empty = Ok m0" "m_feeAssetId m0 = demo_asset" "m_feeAmount m0 = 1"
    using demo_boots by blast
  have "decimalFromString demo_keylib = decimalNewFromString demo_cmd" by (simp add: demo_keylib_def demo_cmd_simps)
  note added = published_process_added [OF demo_cmd_lib demo_world_codec demo_client conf(1) run m0(1) this]
  let ?out = "\<lparr>out_UTXOID = ''u9'', out_Sender = demo_pid, out_AssetID = demo_asset, out_Amount = 1, out_Memo = ti_Memo inp, out_CreatedAt = 9\<rparr>"
  have id: "ks_ClientID demo_ks = demo_pid" by (simp add: demo_ks_def keystore.defs)
  have "\<exists>m' p. ProcessOutput demo_world demo_engine demo_fresh ?out = Ok m' \<and> map_of (m_processes m') (ks_ClientID demo_ks) = Some p
     \<and> stored_process (m_store m') (ks_ClientID demo_ks) = Some p \<and> p_Platform p = demo_flags ''platform'' \<and> p_Address p = demo_flags ''address''
     \<and> p_Nonce p = 0 \<and> ti_Receivers inp = gn_Members (the (cf_MTG demo_conf))"
    by (rule added [where eng = "()" and eng' = "()"])
      (simp_all add: inp m0 id fl demo_pid_canonical demo_fresh_ok, simp_all add: demo_fresh_def demo_machine_def demo_engine_def)
  with run show ?thesis unfolding id fl by blast
qed

text \<open>What \<open>invoke\<close> asks the user to pay is an event for the process with the bytes of the flag \<open>extra\<close>, and so is a
  collectible that it sends.\<close>

theorem invoked_event_delivered:
  assumes "lib.truncate E = lib.truncate W" and "codec W" and "canonical_uuid W (c ''process'')"
    and "doPayment E s conf c [] = (Ok (), ks)" and "KVerifyPayment s inp \<in> set ks" and "out_Memo out = ti_Memo inp"
  shows "ProcessOutput W N m out = WriteGroupEvent W m (c ''process'') out (hex_prefix (c ''extra''))
     \<and> ti_Receivers inp = gn_Members (the (cf_MTG conf)) \<and> 1 / 100000000 \<le> ti_Amount inp"
proof -
  obtain b where b: "Operation_Encode E (event_operation c) = Ok b" "ti_Memo inp = b64Encode b"
    and inp: "ti_Receivers inp = gn_Members (the (cf_MTG conf))" "1 / 100000000 \<le> ti_Amount inp"
    using assms(4,5) by (auto simp: doPayment_def Let_def genesis_def not_less split: if_splits)
  have "parseOperation W (out_Memo out) = Ok (event_operation c)"
    using parse_encoded [OF assms(1,2) _ b(1)] assms(3,6) b(2) by (simp add: event_operation_def)
  then show ?thesis
    using inp by (simp add: ProcessOutput_def event_operation_def OperationPurposeAddProcess_def OperationPurposeGroupEvent_def)
qed

section \<open>The key of the group\<close>

lemma rmap_must: "rmap f xs = Ok ys \<longleftrightarrow> rmap (\<lambda>x. must (f x)) xs = Ok ys"
  by (induction xs arbitrary: ys) auto

text \<open>C20: the server tells the key that the machine signs with. It parses the polynomial of the configuration with its own
  copy of the parser, which returns the errors on which the machine's panics; for a configuration a machine was booted
  with, both give the same points, at least one, and \<open>getmtgkeys\<close> answers with their commitment.\<close>

theorem server_tells_machine_key:
  assumes "Boot K mconf db = Ok (m :: 'e machine)" and "cf_Machine conf = Some mconf"
  shows "\<exists>pb ps. ps \<noteq> [] \<and> hexDecode (conf_Poly mconf) = Ok pb \<and> unmarshalCommitments K pb = Ok ps
     \<and> rpc_unmarshalCommitments K pb = Ok ps \<and> getMTGKeys R K (Some conf) = polyCommit R ps"
proof -
  obtain pb ps where ps: "hexDecode (conf_Poly mconf) = Ok pb" "unmarshalCommitments K pb = Ok ps" "ps \<noteq> []"
    using assms(1) by (auto simp: Boot_def Let_def split: if_splits)
  have "conf_Poly mconf \<noteq> []" using ps by (auto simp: unmarshalCommitments_def)
  moreover from ps(2) have "rpc_unmarshalCommitments K pb = Ok ps"
    unfolding unmarshalCommitments_def rpc_unmarshalCommitments_def by (rule rmap_must [THEN iffD2])
  ultimately show ?thesis using assms(2) ps by (simp add: getMTGKeys_def del: rbind_Ok_iff)
qed

text \<open>The commitment of a polynomial is its first point.\<close>

theorem server_tells_machine_key_witness:
  "getMTGKeys \<lparr>readProperty = \<lambda>s k. Ok [], jsonCall = \<lambda>b. Err ''json'', polyCommit = \<lambda>ps. Ok (hexEncode (hd ps))\<rparr>
     demo_keylib (Some demo_conf) = Ok (hexEncode (replicate 128 (CHR ''p'')))"
proof -
  let ?R = "\<lparr>readProperty = \<lambda>s k. Ok [], jsonCall = \<lambda>b. Err ''json'', polyCommit = \<lambda>ps. Ok (hexEncode (hd ps))\<rparr>"
  obtain m :: "unit machine" where m: "Boot demo_keylib demo_configuration db_empty = Ok m" using demo_boots by blast
  have "cf_Machine demo_conf = Some demo_configuration" by (simp add: demo_conf_def)
  from server_tells_machine_key [OF m this, of ?R] obtain pb ps where
    ps: "hexDecode (conf_Poly demo_configuration) = Ok pb" "unmarshalCommitments demo_keylib pb = Ok ps"
      "getMTGKeys ?R demo_keylib (Some demo_conf) = polyCommit ?R ps" by blast
  have "pb = concat demo_points" using ps(1) by (simp add: demo_configuration_def)
  then have "ps = demo_points" using ps(2) demo_poly by simp
  with ps(3) show ?thesis by (simp add: demo_points_def del: replicate.simps)
qed

section \<open>Booting\<close>

text \<open>What a change of the group's part of the database leaves to the machine: its own keys, and no value of its kinds under
  other keys.\<close>

definition mvm_kept :: "store \<Rightarrow> store \<Rightarrow> bool" where
  "mvm_kept s t \<longleftrightarrow> (\<forall>k. has_prefix ''MVM:'' k \<longrightarrow> db_lookup t k = db_lookup s k)
     \<and> (\<forall>k v. \<not> has_prefix ''MVM:'' k \<longrightarrow> db_lookup t k = Some v \<longrightarrow> (\<exists>b. v = Raw b))"

lemma posted_sum:
  assumes "db_ok s"
  shows "posted s pid ast = (\<Sum>k \<in> fst ` set (kvs s). posting pid ast (the (db_lookup s k)))"
proof -
  have d: "distinct (map fst (kvs s))"
    using assms strict_sorted_iff [of "map fst (kvs s)"] by (simp add: db_ok_def strict_sorted_iff)
  then have inj: "inj_on fst (set (kvs s))" "distinct (kvs s)" by (simp_all add: distinct_map)
  have "posted s pid ast = (\<Sum>x \<in> set (kvs s). posting pid ast (snd x))"
    using inj(2) by (simp add: posted_def sum_list_distinct_conv_sum_set)
  also have "\<dots> = (\<Sum>x \<in> set (kvs s). posting pid ast (the (db_lookup s (fst x))))"
    using d by (intro sum.cong) (auto simp: db_lookup_def)
  finally show ?thesis using inj(1) by (simp add: sum.reindex)
qed

lemma mvm_keys [simp]:
  "has_prefix ''MVM:'' (buildSignedEventTimedKey p n)" "has_prefix ''MVM:'' (buildPendingEventSignaturesKey p n)"
  "has_prefix ''MVM:'' (processKey p)" "has_prefix ''MVM:'' (buildAccountBalanceKey p a)" "has_prefix ''MVM:'' (buildAccountSnapshotKey sn)"
  "has_prefix ''MVM:'' (prefixSignedEventQueue @ x)" "has_prefix ''MVM:'' (identifierKey i)" "has_prefix ''MVM:'' (buildPendingEventTimedKey e)"
  by (simp_all add: identifierKey_def buildPendingEventTimedKey_def buildSignedEventTimedKey_def buildPendingEventSignaturesKey_def processKey_def buildAccountBalanceKey_def
      buildAccountSnapshotKey_def prefix_defs has_prefix_def)

lemma posting_kept:
  assumes "mvm_kept s t" "db_ok s" "db_ok t" "ledger_ok s"
  shows "posted t pid ast = posted s pid ast"
proof -
  let ?f = "\<lambda>s k. posting pid ast (the (db_lookup s k))" and ?D = "\<lambda>s. fst ` set (kvs s)"
  let ?M = "\<lambda>s. {k \<in> ?D s. has_prefix ''MVM:'' k}"
  have dom: "k \<in> ?D s \<longleftrightarrow> db_lookup s k \<noteq> None" for s :: store and k
    by (simp add: db_lookup_def map_of_eq_None_iff)
  have "?f s k = 0" if "k \<in> ?D s" "\<not> has_prefix ''MVM:'' k" for k
  proof -
    from that(1) dom obtain v where v: "db_lookup s k = Some v" by blast
    have "\<forall>sn. v \<noteq> JSnapshot sn"
      using assms(4) that(2) v mvm_keys(5) unfolding ledger_ok_def by metis
    with v show ?thesis by (cases v) (simp_all add: posting_def)
  qed
  then have s: "posted s pid ast = sum (?f s) (?M s)"
    unfolding posted_sum [OF assms(2)] by (intro sum.mono_neutral_right) auto
  have "?f t k = 0" if "k \<in> ?D t" "\<not> has_prefix ''MVM:'' k" for k
  proof -
    from that(1) dom obtain v where v: "db_lookup t k = Some v" by blast
    with assms(1) that(2) obtain b where "v = Raw b" unfolding mvm_kept_def by blast
    with v show ?thesis by (simp add: posting_def)
  qed
  then have t: "posted t pid ast = sum (?f t) (?M t)"
    unfolding posted_sum [OF assms(3)] by (intro sum.mono_neutral_right) auto
  have "?M t = ?M s" "\<And>k. k \<in> ?M s \<Longrightarrow> ?f t k = ?f s k"
    using assms(1) dom by (auto simp: mvm_kept_def)
  then show ?thesis by (simp add: s t)
qed

lemma store_ok_kept:
  assumes "mvm_kept s t" "db_ok t" "store_ok s" "events_ok s" "signed_authentic W s"
  shows "store_ok t \<and> events_ok t \<and> signed_authentic W t" "stored_process t p = stored_process s p"
proof -
  have same: "db_lookup t k = db_lookup s k" if "has_prefix ''MVM:'' k" for k
    using assms(1) that by (simp add: mvm_kept_def)
  have mvm: "has_prefix ''MVM:'' k" if "db_lookup t k = Some v" "\<forall>b. v \<noteq> Raw b" for k v
    using assms(1) that by (auto simp: mvm_kept_def)
  show p: "stored_process t p = stored_process s p" for p by (simp add: stored_process_def same)
  have q: "stored_signature t p n = stored_signature s p n" "signed_event t p n = signed_event s p n" "balance t p a = balance s p a"
    for p n a by (simp_all add: stored_signature_def signed_event_def balance_def same)
  have "has_prefix ''MVM:'' k" if "has_prefix (prefixSignedEventQueue @ a) k" for k a
    using that mvm_keys(6) by (auto simp: has_prefix_iff)
  then have "only_queue_keys (\<lambda>pid. prefixSignedEventQueue @ pid) buildSignedEventTimedKey valid_pid t"
    using assms(3) same unfolding store_ok_def queue_ok_def only_queue_keys_def by metis
  then have queue: "queue_ok t"
    using assms(3) unfolding store_ok_def queue_ok_def q by (simp add: same)
  have lk: "posted t p a = posted s p a" for p a
    using posting_kept [OF assms(1) _ assms(2)] assms(3) by (simp add: store_ok_def)
  have "k = buildAccountSnapshotKey sn" if "db_lookup t k = Some (JSnapshot sn)" for k sn
  proof -
    have "has_prefix ''MVM:'' k" by (rule mvm [OF that]) simp
    with same that assms(3) show ?thesis by (simp add: store_ok_def ledger_ok_def)
  qed
  then have "ledger_ok t"
    using assms(3) unfolding store_ok_def ledger_ok_def lk q by blast
  moreover have "process_ok t" using assms(3) by (simp add: store_ok_def process_ok_def same)
  moreover have "valid_pid (e_Process e)" if "db_lookup t k = Some (JEvent e)" for k e
  proof -
    have "has_prefix ''MVM:'' k" by (rule mvm [OF that]) simp
    with same that assms(4) show ?thesis by (simp add: events_ok_def)
  qed
  then have "events_ok t" by (simp add: events_ok_def)
  moreover have "signed_authentic W t" using assms(5) by (simp add: signed_authentic_def q)
  ultimately show "store_ok t \<and> events_ok t \<and> signed_authentic W t" using queue assms(2) by (simp add: store_ok_def)
qed


text \<open>\<open>boot\<close> removes two transactions of the group from the database, and nothing else.\<close>

lemma remove_effect:
  assumes "removeInvalidCollectibleTransaction E s trace = Ok t"
  shows "\<exists>ks. t = s\<lparr>kvs := foldr kv_del ks (kvs s)\<rparr> \<and> (\<forall>k \<in> set ks. has_prefix ''COLLECTIBLES:TRANSACTION:'' k)
     \<and> db_lookup t (prefixCollectibleTransactionPayload @ trace) = None"
proof -
  let ?pk = "prefixCollectibleTransactionPayload @ trace"
  have pre: "has_prefix ''COLLECTIBLES:TRANSACTION:'' ?pk" "has_prefix ''COLLECTIBLES:TRANSACTION:'' (prefixCollectibleTransactionHash @ h)" for h
    by (simp_all add: prefixCollectibleTransactionPayload_def prefixCollectibleTransactionHash_def has_prefix_def)
  have sk: "has_prefix ''COLLECTIBLES:TRANSACTION:'' k" if "buildCollectibleTransactionTimedKey E tx = Ok k" for tx k
    using that by (auto simp: buildCollectibleTransactionTimedKey_def collectibleTransactionStatePrefix_def Let_def has_prefix_def split: if_splits)
  from assms obtain r where r: "read_opt s (\<lambda>v. rbind (as_bytes v) (msgpackCollectibleTx E)) ?pk = Ok r"
    by (auto simp: removeInvalidCollectibleTransaction_def Let_def)
  show ?thesis
  proof (cases r)
    case None
    with r have "db_lookup s ?pk = None"
      by (auto simp: read_opt_def txn_get_def split: option.splits)
    with assms r None show ?thesis by (intro exI [of _ "[]"]) (simp add: removeInvalidCollectibleTransaction_def Let_def)
  next
    case (Some tx)
    with assms r obtain s1 k s2 where
      s1: "(if ctx_Raw tx = [] then Ok s else if ctx_Hash tx = replicate 32 (CHR 0x00) then Panic (ctx_TraceId tx)
         else txn_delete s (prefixCollectibleTransactionHash @ ctx_Hash tx)) = Ok s1"
      and k: "buildCollectibleTransactionTimedKey E tx = Ok k" and s2: "txn_delete s1 k = Ok s2" "txn_delete s2 ?pk = Ok t"
      by (simp add: removeInvalidCollectibleTransaction_def Let_def) blast
    have t: "t = s1\<lparr>kvs := kv_del ?pk (kv_del k (kvs s1))\<rparr>" using s2 by simp
    from s1 consider "s1 = s" | "s1 = s\<lparr>kvs := kv_del (prefixCollectibleTransactionHash @ ctx_Hash tx) (kvs s)\<rparr>"
      by (auto split: if_splits)
    then show ?thesis
    proof cases
      case 1
      then show ?thesis using pre sk [OF k] by (intro exI [of _ "[?pk, k]"]) (simp add: t)
    next
      case 2
      then show ?thesis using pre sk [OF k] by (intro exI [of _ "[?pk, k, prefixCollectibleTransactionHash @ ctx_Hash tx]"]) (simp add: t)
    qed
  qed
qed


lemma db_ok_foldr_del: "db_ok s \<Longrightarrow> db_ok (s\<lparr>kvs := foldr kv_del ks (kvs s)\<rparr>)"
proof (induction ks)
  case (Cons k ks)
  then have "db_ok (s\<lparr>kvs := kv_del k (kvs (s\<lparr>kvs := foldr kv_del ks (kvs s)\<rparr>))\<rparr>)" by (simp add: db_ok_def sorted_kv_del)
  then show ?case by simp
qed simp

lemma lookup_foldr_del: "db_lookup (s\<lparr>kvs := foldr kv_del ks (kvs s)\<rparr>) k = (if k \<in> set ks then None else db_lookup s k)"
proof (induction ks)
  case (Cons k' ks)
  have "db_lookup (s\<lparr>kvs := kv_del k' (kvs (s\<lparr>kvs := foldr kv_del ks (kvs s)\<rparr>))\<rparr>) k
      = (if k = k' then None else db_lookup (s\<lparr>kvs := foldr kv_del ks (kvs s)\<rparr>) k)"
    by simp
  with Cons show ?case by simp
qed simp

lemma removal_kept:
  assumes "handleInvalidCollectibleTransactions E s = Ok t" "db_ok s"
  shows "db_ok t" "\<not> has_prefix ''COLLECTIBLES:TRANSACTION:'' k \<Longrightarrow> db_lookup t k = db_lookup s k"
    "db_lookup t k \<noteq> None \<Longrightarrow> db_lookup t k = db_lookup s k"
    "db_lookup t (prefixCollectibleTransactionPayload @ ''8dc64911-4fc7-3d6d-9b9a-dc54b0330003'') = None"
    "db_lookup t (prefixCollectibleTransactionPayload @ ''7ba7ac8a-9018-3792-ab00-7bde27b14c9b'') = None"
proof -
  obtain s1 where s1: "removeInvalidCollectibleTransaction E s ''8dc64911-4fc7-3d6d-9b9a-dc54b0330003'' = Ok s1"
    "removeInvalidCollectibleTransaction E s1 ''7ba7ac8a-9018-3792-ab00-7bde27b14c9b'' = Ok t"
    using assms(1) by (auto simp: handleInvalidCollectibleTransactions_def)
  obtain ks ks1 where t: "s1 = s\<lparr>kvs := foldr kv_del ks (kvs s)\<rparr>" "t = s1\<lparr>kvs := foldr kv_del ks1 (kvs s1)\<rparr>"
    and pre: "\<forall>k \<in> set ks \<union> set ks1. has_prefix ''COLLECTIBLES:TRANSACTION:'' k"
    and gone: "db_lookup s1 (prefixCollectibleTransactionPayload @ ''8dc64911-4fc7-3d6d-9b9a-dc54b0330003'') = None"
      "db_lookup t (prefixCollectibleTransactionPayload @ ''7ba7ac8a-9018-3792-ab00-7bde27b14c9b'') = None"
    using remove_effect [OF s1(1)] remove_effect [OF s1(2)] by blast
  have "db_ok s1" unfolding t(1) by (rule db_ok_foldr_del [OF assms(2)])
  then show "db_ok t" unfolding t(2) by (rule db_ok_foldr_del)
  have l: "db_lookup t k = (if k \<in> set ks1 then None else db_lookup s1 k)" "db_lookup s1 k = (if k \<in> set ks then None else db_lookup s k)"
    for k unfolding t by (rule lookup_foldr_del)+
  show "\<not> has_prefix ''COLLECTIBLES:TRANSACTION:'' k \<Longrightarrow> db_lookup t k = db_lookup s k" using pre by (auto simp: l)
  show "db_lookup t k \<noteq> None \<Longrightarrow> db_lookup t k = db_lookup s k" by (auto simp: l split: if_splits)
  show "db_lookup t (prefixCollectibleTransactionPayload @ ''8dc64911-4fc7-3d6d-9b9a-dc54b0330003'') = None"
    using gone(1) by (simp add: l(1))
  show "db_lookup t (prefixCollectibleTransactionPayload @ ''7ba7ac8a-9018-3792-ab00-7bde27b14c9b'') = None" by (rule gone(2))
qed

lemma mvm_kept_removal:
  assumes "handleInvalidCollectibleTransactions E s = Ok t" "db_ok s" "mvm_kept s s"
  shows "mvm_kept s t"
proof -
  have "\<not> has_prefix ''COLLECTIBLES:TRANSACTION:'' k" if "has_prefix ''MVM:'' k" for k
    using that by (auto simp: has_prefix_iff)
  then show ?thesis
    using removal_kept(2,3) [OF assms(1,2)] assms(3) unfolding mvm_kept_def by (metis option.distinct(1))
qed

lemma mvm_kept_trans: "mvm_kept s t \<Longrightarrow> mvm_kept t u \<Longrightarrow> mvm_kept s u"
  by (simp add: mvm_kept_def)

lemma Loop_start_frame: "Loop_start m = Ok m' \<Longrightarrow> m_store m' = m_store m \<and> m_engines m' = m_engines m"
proof -
  have "m_store (foldl (\<lambda>m p. Spawn (add_process m p) p) m ps) = m_store m
      \<and> m_engines (foldl (\<lambda>m p. Spawn (add_process m p) p) m ps) = m_engines m" for ps
    by (induction ps arbitrary: m) (simp_all add: Spawn_def add_process_def)
  then show "Loop_start m = Ok m' \<Longrightarrow> m_store m' = m_store m \<and> m_engines m' = m_engines m"
    by (auto simp: Loop_start_def)
qed

lemma Boot_machine: "Boot K conf s = Ok m \<Longrightarrow> m_store m = s \<and> m_engines m = [] \<and> m_processes m = []"
  by (auto simp: Boot_def Let_def split: if_splits)

text \<open>C19: a machine that \<open>boot\<close> starts is ready. When the database in the directory is good and the library of the group
  keeps to its own keys, the removal of the invalid transactions and the building of the group leave the machine's part
  as it was: the machine has the processes of the database, its invariants hold, and it has the quorum engine exactly
  when the configuration has that section.\<close>

theorem booted_machine_ready:
  assumes "bootCmd E K Q N c port profile [] = (Ok m, ks)"
    and "rbind (expand_path E (c ''config'')) (ReadConfiguration E) = Ok conf"
    and "rbind (expand_path E (c ''dir'')) (openStore E) = Ok s"
    and "store_ok s" and "events_ok s" and "signed_authentic W s" and "\<And>pid. stored_process s pid \<noteq> None \<Longrightarrow> valid_pid pid"
    and "mvm_kept s s" and "\<And>g t u. buildGroup E t g = Ok u \<Longrightarrow> db_ok t \<Longrightarrow> mvm_kept t t \<Longrightarrow> db_ok u \<and> mvm_kept t u"
  shows "machine_ok W m \<and> (\<forall>pid. getProcess m pid = stored_process s pid)
     \<and> (map_of (m_engines m) ProcessPlatformQuorum \<noteq> None \<longleftrightarrow> cf_Quorum conf \<noteq> None)"
proof -
  from assms(1) obtain t u im im' mconf where t: "handleInvalidCollectibleTransactions E s = Ok t"
    and u: "buildGroup E t (cf_MTG conf) = Ok u" and im: "Boot K mconf u = Ok im"
    and q: "boot_quorum E Q N (cf_Quorum conf) im = Ok im'" and m: "Loop_start im' = Ok m"
    unfolding bootCmd_def abind_Ok lift_Ok assms(2,3) by (elim exE conjE) simp
  have im': "im' = im \<and> cf_Quorum conf = None \<or> (\<exists>en. im' = AddEngine im ProcessPlatformQuorum en \<and> cf_Quorum conf \<noteq> None)"
    using q by (cases "cf_Quorum conf") (auto simp: boot_quorum_def)
  have "db_ok s" using assms(4) by (simp add: store_ok_def)
  note st = removal_kept(1) [OF t this] mvm_kept_removal [OF t this assms(8)]
  have "mvm_kept t t" using st(2) by (simp add: mvm_kept_def)
  from assms(9) [OF u st(1) this] have su: "db_ok u" "mvm_kept s u" using mvm_kept_trans [OF st(2)] by auto
  note ok = store_ok_kept [OF su(2,1) assms(4-6)]
  have im'_store: "m_store im' = u" "m_processes im' = []"
    using im' Boot_machine [OF im] by (auto simp: AddEngine_def)
  have "machine_ok W m"
    by (rule Loop_start_ok [OF m]) (use ok assms(7) im'_store in auto)
  moreover have "getProcess m pid = stored_process s pid" for pid
    using \<open>machine_ok W m\<close> Loop_start_frame [OF m] im'_store(1) ok(2) by (simp add: machine_ok_def getProcess_def)
  moreover have "map_of (m_engines m) ProcessPlatformQuorum \<noteq> None \<longleftrightarrow> cf_Quorum conf \<noteq> None"
    using im' Boot_machine [OF im] Loop_start_frame [OF m] by (auto simp: AddEngine_def)
  ultimately show ?thesis by blast
qed

theorem booted_machine_ready_witness:
  "\<exists>m ks. bootCmd demo_cmd demo_keylib demo_q demo_node demo_flags 9000 False [] = (Ok m, ks)
     \<and> getProcess m demo_pid = Some (demo_process\<lparr>p_Nonce := 1\<rparr>) \<and> map_of (m_engines m) ''quorum'' \<noteq> None"
proof -
  have mvm: "has_prefix ''MVM:'' k" if "db_lookup demo_store k = Some v" for k v
    using that by (auto simp: demo_store_eq split: if_splits)
  have "\<not> has_prefix ''MVM:'' (prefixCollectibleTransactionPayload @ i)" for i
    by (simp add: prefixCollectibleTransactionPayload_def has_prefix_def)
  with mvm have none: "db_lookup demo_store (prefixCollectibleTransactionPayload @ i) = None" for i by (meson not_None_eq)
  have rm: "removeInvalidCollectibleTransaction demo_cmd demo_store i = Ok demo_store" for i
    by (simp add: removeInvalidCollectibleTransaction_def Let_def read_opt_def txn_get_def io_check_def db_update_def demo_facts none del: rbind_Ok_iff)
  have handled: "handleInvalidCollectibleTransactions demo_cmd demo_store = Ok demo_store"
    by (simp add: handleInvalidCollectibleTransactions_def rm) (simp add: demo_cmd_simps)
  have fl: "demo_flags ''config'' = []" "demo_flags ''dir'' = []" by (simp_all add: demo_flags_def)
  have conf: "rbind (expand_path demo_cmd (demo_flags ''config'')) (ReadConfiguration demo_cmd) = Ok demo_conf"
    by (simp add: fl ReadConfiguration_def expand_path_def has_prefix_def del: rbind_Ok_iff) (simp add: demo_cmd_simps)
  have dir: "rbind (expand_path demo_cmd (demo_flags ''dir'')) (openStore demo_cmd) = Ok demo_store"
    by (simp add: fl expand_path_def has_prefix_def del: rbind_Ok_iff) (simp add: demo_cmd_simps)
  obtain im :: "qengine machine" where im: "Boot demo_keylib demo_configuration demo_store = Ok im" "m_store im = demo_store"
    using demo_boots by blast
  have "go_hex 0 ''200'' = Some 512" by code_simp
  then have "GetBlockHeight demo_node = Ok 512"
    by (simp add: GetBlockHeight_def demo_node_def ethereumNumberToUint64_def big_SetString_def has_prefix_def)
  then have rpc: "NewRPC demo_node 256 = Ok ()" by (simp add: NewRPC_def quorumMinimumHeight_def)
  obtain im' where im': "boot_quorum demo_cmd demo_q demo_node (cf_Quorum demo_conf) im = Ok im'" "m_store im' = demo_store"
    using im(2) by (simp add: boot_quorum_def demo_conf_def quorum_Boot_def rpc AddEngine_def del: rbind_Ok_iff) (simp add: demo_cmd_simps)
  obtain ps where "ListProcesses demo_store = Ok ps" using ListProcesses_total demo_store_good demo_no_fault by blast
  then obtain m where m: "Loop_start im' = Ok m" by (auto simp: Loop_start_def im'(2))
  have api: "buildGroup demo_cmd s g = Ok s" "clientNew demo_cmd k = Ok ()" "newMessenger demo_cmd mc = Ok ()" for s g k mc
    by (simp_all add: demo_cmd_simps)
  have parts: "cf_Machine demo_conf = Some demo_configuration" "\<exists>mc. cf_Messenger demo_conf = Some mc" by (simp_all add: demo_conf_def)
  then obtain mc where mc: "cf_Messenger demo_conf = Some mc" by blast
  obtain ks where run: "bootCmd demo_cmd demo_keylib demo_q demo_node demo_flags 9000 False [] = (Ok m, ks)"
    using conf dir handled im(1) im'(1) m
    by (simp add: bootCmd_def abind_def lift_def call_def api parts(1) mc of_option_def del: rbind_Ok_iff)
  have "mvm_kept demo_store demo_store" using mvm by (auto simp: mvm_kept_def)
  then have "machine_ok demo_world m \<and> (\<forall>pid. getProcess m pid = stored_process demo_store pid)
     \<and> (map_of (m_engines m) ProcessPlatformQuorum \<noteq> None \<longleftrightarrow> cf_Quorum demo_conf \<noteq> None)"
    by (intro booted_machine_ready [OF run conf dir]) (use demo_store_good in \<open>auto simp: api demo_stored mvm_kept_def split: if_splits\<close>)
  then show ?thesis using run by (simp add: demo_stored ProcessPlatformQuorum_def demo_conf_def)
qed

end
