(* ===== verification/Sample_Bot.thy ===== *)
theory Sample_Bot
  imports Effects
begin

text \<open>
  sample/models and sample/durable: the sample bot of the repository, one signer of a 2-of-3 group. It asks its users for
  payments to the group, watches them, and sends them back. The bot that is configured as master keeps the payments in the
  table of schema.sql, which three of its goroutines share: the message service adds payments, one loop marks the paid
  ones, another sends the refunds.

  A call that leaves the program takes one tick of the clock, and its reply is a function of the tick. Before each
  statement of SQL the other goroutines have their turn: \<open>sb_others\<close> is what they did to the table. The log keeps the
  requests, and for each statement that writes, the table before and after it. A statement may fail, after it was applied
  or before.
\<close>

section \<open>Data\<close>

text \<open>\<open>models.Payment\<close>, a row of the table; a null string is \<open>None\<close>. \<open>bot.Payment\<close> is what the API says of a payment.\<close>

record payment =
  pm_PaymentID :: string
  pm_AssetID :: string
  pm_Amount :: string
  pm_Threshold :: int
  pm_Receivers :: "string list"
  pm_Memo :: string
  pm_State :: string
  pm_CodeID :: string
  pm_TransactionHash :: "string option"
  pm_RawTransaction :: "string option"
  pm_CreatedAt :: int

record bot_payment =
  bp_TraceId :: string
  bp_AssetId :: string
  bp_Amount :: string
  bp_Threshold :: int
  bp_Receivers :: "string list"
  bp_Memo :: string
  bp_Status :: string
  bp_CodeId :: string
  bp_CreatedAt :: int

record payment_request =
  pq_AssetId :: string
  pq_Amount :: string
  pq_TraceId :: string
  pq_Receivers :: "string list"
  pq_Threshold :: int
  pq_Memo :: string

record multisig_utxo =
  ux_Members :: "string list"
  ux_Threshold :: int
  ux_Amount :: string
  ux_Memo :: string
  ux_State :: string
  ux_SignedTx :: string
  ux_TransactionHash :: string
  ux_OutputIndex :: int

record multisig_request =
  mr_RequestId :: string
  mr_State :: string
  mr_RawTransaction :: string
  mr_TransactionHash :: string

text \<open>\<open>models.Transaction\<close> with its inputs and outputs, and \<open>signerInput\<close>, which \<open>buildTransaction\<close> reads from its JSON.\<close>

record tx_input =
  xi_Hash :: string
  xi_Index :: int

record tx_output =
  xo_Mask :: string
  xo_Keys :: "string list"
  xo_Amount :: string
  xo_Script :: string

record tx_json =
  xt_Inputs :: "tx_input list"
  xt_Outputs :: "tx_output list"
  xt_Asset :: string
  xt_Extra :: string
  xt_Hash :: string

record signer_output =
  sg_Type :: "8 word"
  sg_Mask :: bytes
  sg_Keys :: "bytes list"
  sg_Amount :: int
  sg_Script :: bytes

record signer_input =
  si_Inputs :: "(bytes \<times> int) list"
  si_Outputs :: "signer_output list"
  si_Asset :: bytes
  si_Extra :: string

text \<open>A transaction of the network; it has a map of signatures, from signers to signatures, for each of its inputs.\<close>

record versioned_tx =
  vt_Asset :: bytes
  vt_Inputs :: "(bytes \<times> int) list"
  vt_Outputs :: "signer_output list"
  vt_Extra :: bytes
  vt_SignaturesMap :: "(16 word \<times> bytes) list list"

datatype sb_call =
    SSql "payment list" "payment list"
  | SReadPaymentByCode string
  | SReadMultisigs nat string string
  | SReadGhostKeys "string list list"
  | SCreateMultisig string string
  | SEncryptPIN
  | SSignMultisig string string
  | SCreatePaymentRequest payment_request
  | SNode string string "bytes res"
  | SPause nat

section \<open>Outside the bot\<close>

text \<open>
  The configuration, the Mixin API and its library, the node of the network, and the database: the order in which a
  statement finds rows, its faults (applied or not, and the error), and the turns of the other goroutines.
\<close>

record sbot_env = lib +
  mx_AppID :: string
  mx_Receivers :: "string list"
  mx_Master :: bool
  uuidV4 :: "nat \<Rightarrow> string"
  randIntn :: "nat \<Rightarrow> nat"
  numberFromString :: "string \<Rightarrow> rat"
  numberDiv :: "rat \<Rightarrow> rat \<Rightarrow> rat"
  numberPersist :: "rat \<Rightarrow> string"
  newHashText :: "bytes \<Rightarrow> string"
  botReadPaymentByCode :: "nat \<Rightarrow> string \<Rightarrow> bot_payment res"
  botReadMultisigs :: "nat \<Rightarrow> nat \<Rightarrow> string \<Rightarrow> string \<Rightarrow> multisig_utxo list res"
  botReadGhostKeys :: "nat \<Rightarrow> string list list \<Rightarrow> (string \<times> string list) list res"
  botCreateMultisig :: "nat \<Rightarrow> string \<Rightarrow> string \<Rightarrow> multisig_request res"
  botEncryptPIN :: "nat \<Rightarrow> string res"
  botSignMultisig :: "nat \<Rightarrow> string \<Rightarrow> string \<Rightarrow> multisig_request res"
  botCreatePaymentRequest :: "nat \<Rightarrow> payment_request \<Rightarrow> bot_payment res"
  jsonTransaction :: "tx_json \<Rightarrow> bytes res"
  jsonReadTransaction :: "bytes \<Rightarrow> tx_json res"
  jsonSignerInput :: "bytes \<Rightarrow> signer_input res"
  jsonCall :: "string \<Rightarrow> string list \<Rightarrow> bytes res"
  jsonNodeReply :: "bytes \<Rightarrow> (bytes res \<times> string option) res"
  httpPost :: "nat \<Rightarrow> bytes \<Rightarrow> bytes res"
  keyHasValue :: "bytes \<Rightarrow> bool"
  versionedMarshal :: "versioned_tx \<Rightarrow> bytes"
  unmarshalVersioned :: "bytes \<Rightarrow> versioned_tx res"
  dbOrder :: "nat \<Rightarrow> payment list \<Rightarrow> payment list"
  dbFault :: "nat \<Rightarrow> (bool \<times> goerr) option"
  sb_others :: "nat \<Rightarrow> payment list \<Rightarrow> payment list"

record sbot =
  sb_rows :: "payment list"
  sb_tx :: "payment list"
  sb_clock :: nat
  sb_log :: "sb_call list"

type_synonym 'a bot = "(sbot, 'a) eff"

text \<open>A request with its entry in the log, and a value of the clock or of chance.\<close>

definition outside :: "('a res \<Rightarrow> sb_call) \<Rightarrow> (nat \<Rightarrow> 'a res) \<Rightarrow> 'a bot" where
  "outside c f s = (f (sb_clock s), s\<lparr>sb_clock := Suc (sb_clock s), sb_log := sb_log s @ [c (f (sb_clock s))]\<rparr>)"

definition draw :: "(nat \<Rightarrow> 'a) \<Rightarrow> 'a bot" where
  "draw f s = (Ok (f (sb_clock s)), s\<lparr>sb_clock := Suc (sb_clock s)\<rparr>)"

definition pause :: "nat \<Rightarrow> unit bot" where
  "pause n = outside (\<lambda>_. SPause n) (\<lambda>_. Ok ())"

text \<open>\<open>h\<close> handles an error of \<open>m\<close>, and ends there: the idiom of \<open>continue\<close> after an error.\<close>

definition or_else :: "('s, 'a) eff \<Rightarrow> ('s, 'b) eff \<Rightarrow> ('a \<Rightarrow> ('s, 'b) eff) \<Rightarrow> ('s, 'b) eff" where
  "or_else m h f b = (case m b of (Ok x, b) \<Rightarrow> f x b | (Err e, b) \<Rightarrow> h b | (Panic e, b) \<Rightarrow> (Panic e, b))"

text \<open>A loop without an end, up to its \<open>n\<close>-th round.\<close>

fun rounds :: "nat \<Rightarrow> ('s, unit) eff \<Rightarrow> ('s, unit) eff" where
  "rounds 0 m = lift (Ok ())"
| "rounds (Suc n) m = abind m (\<lambda>_. rounds n m)"

section \<open>The table (schema.sql, durable/database.go)\<close>

definition hex_or_dash :: "char \<Rightarrow> bool" where
  "hex_or_dash c \<longleftrightarrow> c = CHR ''-'' \<or> hexval c \<noteq> None"

definition row_ok :: "payment \<Rightarrow> bool" where
  "row_ok p \<longleftrightarrow> length (pm_PaymentID p) = 36 \<and> list_all hex_or_dash (pm_PaymentID p) \<and> length (pm_AssetID p) \<le> 36 \<and>
     length (pm_Amount p) \<le> 128 \<and> length (pm_Memo p) \<le> 256 \<and> length (pm_State p) \<le> 128 \<and> length (pm_CodeID p) \<le> 36 \<and>
     (case pm_TransactionHash p of None \<Rightarrow> True | Some h \<Rightarrow> length h \<le> 512)"

text \<open>The primary key, the unique column (a null is unlike any other), the check and the lengths.\<close>

definition table_ok :: "payment list \<Rightarrow> bool" where
  "table_ok rows \<longleftrightarrow> distinct (map pm_PaymentID rows) \<and> distinct (List.map_filter pm_TransactionHash rows) \<and> list_all row_ok rows"

definition db_turn :: "'z sbot_env_scheme \<Rightarrow> sbot \<Rightarrow> sbot" where
  "db_turn E s = s\<lparr>sb_rows := sb_others E (sb_clock s) (sb_rows s), sb_clock := Suc (sb_clock s)\<rparr>"

text \<open>\<open>SELECT ... WHERE\<close>; a transaction sees the rows it inserted.\<close>

definition db_select :: "'z sbot_env_scheme \<Rightarrow> (payment \<Rightarrow> bool) \<Rightarrow> payment list bot" where
  "db_select E P s = (let t = db_turn E s in case dbFault E (sb_clock s) of
     Some (_, e) \<Rightarrow> (Err e, t)
   | None \<Rightarrow> (Ok (dbOrder E (sb_clock s) (filter P (sb_rows t @ sb_tx t))), t))"

text \<open>A statement that changes the table from \<open>rows\<close> to \<open>f rows\<close>, unless that breaks a constraint.\<close>

definition db_apply :: "(payment list \<Rightarrow> payment list) \<Rightarrow> sbot \<Rightarrow> sbot" where
  "db_apply f s = s\<lparr>sb_rows := f (sb_rows s), sb_log := sb_log s @ [SSql (sb_rows s) (f (sb_rows s))]\<rparr>"

definition db_write :: "'z sbot_env_scheme \<Rightarrow> (payment list \<Rightarrow> payment list) \<Rightarrow> unit bot" where
  "db_write E f s = (let t = db_turn E s; good = table_ok (f (sb_rows t)) in case dbFault E (sb_clock s) of
     Some (applied, e) \<Rightarrow> (Err e, if applied \<and> good then db_apply f t else t)
   | None \<Rightarrow> if good then (Ok (), db_apply f t) else (Err ''violates constraint'', t))"

text \<open>\<open>INSERT\<close> in a transaction, \<open>BeginTxx\<close>, \<open>Rollback\<close> and \<open>Commit\<close>.\<close>

definition tx_insert :: "'z sbot_env_scheme \<Rightarrow> payment \<Rightarrow> unit bot" where
  "tx_insert E p s = (let t = db_turn E s in case dbFault E (sb_clock s) of
     Some (_, e) \<Rightarrow> (Err e, t)
   | None \<Rightarrow> if table_ok (sb_rows t @ sb_tx t @ [p]) then (Ok (), t\<lparr>sb_tx := sb_tx t @ [p]\<rparr>)
            else (Err ''violates constraint'', t))"

definition tx_begin :: "'z sbot_env_scheme \<Rightarrow> unit bot" where
  "tx_begin E s = (let t = (db_turn E s)\<lparr>sb_tx := []\<rparr> in case dbFault E (sb_clock s) of
     Some (_, e) \<Rightarrow> (Err e, t) | None \<Rightarrow> (Ok (), t))"

definition tx_rollback :: "'z sbot_env_scheme \<Rightarrow> unit bot" where
  "tx_rollback E s = (let t = (db_turn E s)\<lparr>sb_tx := []\<rparr> in case dbFault E (sb_clock s) of
     Some (_, e) \<Rightarrow> (Err e, t) | None \<Rightarrow> (Ok (), t))"

definition tx_commit :: "'z sbot_env_scheme \<Rightarrow> unit bot" where
  "tx_commit E s = (let (r, t) = db_write E (\<lambda>rows. rows @ sb_tx s) s in (r, t\<lparr>sb_tx := []\<rparr>))"

definition RunInTransaction :: "'z sbot_env_scheme \<Rightarrow> unit bot \<Rightarrow> unit bot" where
  "RunInTransaction E fn = abind (tx_begin E) (\<lambda>_ s. case fn s of
     (Ok _, t) \<Rightarrow> tx_commit E t
   | (Err e, t) \<Rightarrow> abind (tx_rollback E) (\<lambda>_. lift (Err e)) t
   | (Panic e, t) \<Rightarrow> (Panic e, t\<lparr>sb_tx := []\<rparr>))"

section \<open>Payments (models/payment.go)\<close>

definition PaymentStatePending :: string where
  "PaymentStatePending = ''pending''"

definition PaymentStatePaid :: string where
  "PaymentStatePaid = ''paid''"

definition PaymentStateRefund :: string where
  "PaymentStateRefund = ''refund''"

definition CNBAssetID :: string where
  "CNBAssetID = ''965e5c6e-434c-3fa9-b780-c50f43cd955c''"

definition CNBMixinAssetID :: string where
  "CNBMixinAssetID = ''b9f49cf777dc4d03bc54cd1367eebca319f8603ea1ce18910d09e2c540c630d8''"

definition null_string :: "string option \<Rightarrow> string" where
  "null_string x = (case x of None \<Rightarrow> [] | Some s \<Rightarrow> s)"

text \<open>\<open>id, _ := bot.UuidFromString(s); id.String() != s\<close>.\<close>

definition canonical :: "'z sbot_env_scheme \<Rightarrow> string \<Rightarrow> bool" where
  "canonical E s \<longleftrightarrow> uuidString E (uuidOrNil E s) = s"

definition first_row :: "payment list \<Rightarrow> payment option" where
  "first_row ps = (case ps of [] \<Rightarrow> None | p # _ \<Rightarrow> Some p)"

text \<open>\<open>session.TransactionError\<close>: status and code of the database, without the cause.\<close>

definition TransactionError :: "'a bot \<Rightarrow> 'a bot" where
  "TransactionError m = on_error m (lift (Err ''Internal Server Error''))"

definition findPaymentByID :: "'z sbot_env_scheme \<Rightarrow> string \<Rightarrow> payment option bot" where
  "findPaymentByID E i = (if \<not> canonical E i then lift (Ok None)
     else abind (db_select E (\<lambda>r. pm_PaymentID r = i)) (\<lambda>ps. lift (Ok (first_row ps))))"

definition FindPaymentByMemo :: "'z sbot_env_scheme \<Rightarrow> string \<Rightarrow> payment option bot" where
  "FindPaymentByMemo E memo = (if \<not> canonical E memo then lift (Ok None)
     else abind (db_select E (\<lambda>r. pm_Memo r = memo \<and> pm_State r = ''pending'')) (\<lambda>ps. lift (Ok (first_row ps))))"

definition FindPaymentsByState :: "'z sbot_env_scheme \<Rightarrow> string \<Rightarrow> nat \<Rightarrow> payment list bot" where
  "FindPaymentsByState E st limit = TransactionError (abind (db_select E (\<lambda>r. pm_State r = st)) (\<lambda>ps. lift (Ok (take limit ps))))"

definition payment_of :: "bot_payment \<Rightarrow> payment" where
  "payment_of b = \<lparr>pm_PaymentID = bp_TraceId b, pm_AssetID = bp_AssetId b, pm_Amount = bp_Amount b, pm_Threshold = bp_Threshold b,
     pm_Receivers = bp_Receivers b, pm_Memo = bp_Memo b, pm_State = bp_Status b, pm_CodeID = bp_CodeId b,
     pm_TransactionHash = None, pm_RawTransaction = None, pm_CreatedAt = bp_CreatedAt b\<rparr>"

definition CreatedPayment :: "'z sbot_env_scheme \<Rightarrow> bot_payment \<Rightarrow> payment bot" where
  "CreatedPayment E b = (let p = payment_of b in
     abind (TransactionError (RunInTransaction E (abind (findPaymentByID E (pm_PaymentID p)) (\<lambda>old.
       if old \<noteq> None then lift (Ok ()) else tx_insert E p)))) (\<lambda>_. lift (Ok p)))"

text \<open>\<open>UPDATE payments SET ... WHERE payment_id=$1\<close>.\<close>

definition update_row :: "string \<Rightarrow> (payment \<Rightarrow> payment) \<Rightarrow> payment list \<Rightarrow> payment list" where
  "update_row i f rows = map (\<lambda>r. if pm_PaymentID r = i then f r else r) rows"

definition check_pending :: "'z sbot_env_scheme \<Rightarrow> payment \<Rightarrow> unit bot" where
  "check_pending E p =
     or_else (outside (\<lambda>_. SReadPaymentByCode (pm_CodeID p)) (\<lambda>i. botReadPaymentByCode E i (pm_CodeID p))) (pause 1) (\<lambda>b.
     if bp_Status b = PaymentStatePaid then
       on_error (db_write E (update_row (pm_PaymentID p) (\<lambda>r. r\<lparr>pm_State := ''paid''\<rparr>))) (pause 1)
     else lift (Ok ()))"

definition pending_round :: "'z sbot_env_scheme \<Rightarrow> unit bot" where
  "pending_round E = or_else (FindPaymentsByState E PaymentStatePending 100) (pause 1) (\<lambda>ps.
     abind (afold (check_pending E) ps) (\<lambda>_. if length ps < 1 then pause 10 else lift (Ok ())))"

definition LoopingPendingPayments :: "'z sbot_env_scheme \<Rightarrow> nat \<Rightarrow> unit bot" where
  "LoopingPendingPayments E n = rounds n (pending_round E)"

section \<open>The node of the network (models/mixin.go)\<close>

definition callRPC :: "'z sbot_env_scheme \<Rightarrow> string \<Rightarrow> string \<Rightarrow> bytes bot" where
  "callRPC E method x = abind (lift (jsonCall E method [x])) (\<lambda>body.
     outside (SNode method x) (\<lambda>i. rbind (httpPost E i body) (\<lambda>reply. rbind (jsonNodeReply E reply) (\<lambda>(data, err).
       case err of Some e \<Rightarrow> Err (''ERROR '' @ e) | None \<Rightarrow> data))))"

definition SendRawTransaction :: "'z sbot_env_scheme \<Rightarrow> string \<Rightarrow> string bot" where
  "SendRawTransaction E raw = abind (callRPC E ''sendrawtransaction'' raw) (\<lambda>body.
     lift (rbind (jsonReadTransaction E body) (\<lambda>tx. Ok (xt_Hash tx))))"

definition GetTransaction :: "'z sbot_env_scheme \<Rightarrow> string \<Rightarrow> tx_json option bot" where
  "GetTransaction E h = abind (callRPC E ''gettransaction'' h) (\<lambda>body.
     lift (rbind (jsonReadTransaction E body) (\<lambda>tx. Ok (if xt_Hash tx = [] then None else Some tx))))"

text \<open>\<open>tx, err := network.GetTransaction(h)\<close> where only \<open>tx\<close> is looked at.\<close>

definition look_up :: "'z sbot_env_scheme \<Rightarrow> string \<Rightarrow> tx_json option bot" where
  "look_up E h = on_error (GetTransaction E h) (lift (Ok None))"

section \<open>Multisig outputs (models/multisigs.go)\<close>

definition MultisigStateSigned :: string where
  "MultisigStateSigned = ''signed''"

definition MultisigStateInitial :: string where
  "MultisigStateInitial = ''initial''"

text \<open>\<open>strings.Join\<close> with a comma.\<close>

fun join_comma :: "string list \<Rightarrow> string" where
  "join_comma [] = []"
| "join_comma [s] = s"
| "join_comma (s # ss) = s @ '','' @ join_comma ss"

definition sb_hashMembers :: "'z sbot_env_scheme \<Rightarrow> string list \<Rightarrow> string" where
  "sb_hashMembers E ids = newHashText E (concat (sort ids))"

text \<open>The members of the group: the slice of the configuration has no spare capacity, so \<open>append\<close> copies it.\<close>

definition group_members :: "'z sbot_env_scheme \<Rightarrow> string list" where
  "group_members E = mx_Receivers E @ [mx_AppID E]"

definition read_outputs :: "'z sbot_env_scheme \<Rightarrow> multisig_utxo list bot" where
  "read_outputs E = (let members = sb_hashMembers E (group_members E) in
     outside (\<lambda>_. SReadMultisigs 500 members ''2'') (\<lambda>i. botReadMultisigs E i 500 members ''2''))"

definition ReadMultisig :: "'z sbot_env_scheme \<Rightarrow> string \<Rightarrow> string \<Rightarrow> multisig_utxo option bot" where
  "ReadMultisig E amount memo = abind (read_outputs E) (\<lambda>outputs.
     lift (Ok (find (\<lambda>u. join_comma (sort (group_members E)) = join_comma (ux_Members u) \<and>
       numberFromString E amount = numberFromString E (ux_Amount u) \<and> ux_Memo u = memo)
       (map (\<lambda>u. u\<lparr>ux_Members := sort (ux_Members u)\<rparr>) outputs))))"

definition buildTransaction :: "'z sbot_env_scheme \<Rightarrow> bytes \<Rightarrow> string res" where
  "buildTransaction E data = rbind (jsonSignerInput E data) (\<lambda>raw. rbind (hexDecode (si_Extra raw)) (\<lambda>extra.
     Ok (hexEncode (versionedMarshal E \<lparr>vt_Asset = si_Asset raw, vt_Inputs = si_Inputs raw,
       vt_Outputs = filter (\<lambda>x. keyHasValue E (sg_Mask x)) (si_Outputs raw), vt_Extra = extra, vt_SignaturesMap = []\<rparr>))))"

text \<open>The request for a signature, signed by this bot when it has just been made.\<close>

definition sign_request :: "'z sbot_env_scheme \<Rightarrow> string \<Rightarrow> multisig_request bot" where
  "sign_request E raw =
     abind (outside (\<lambda>_. SCreateMultisig ''sign'' raw) (\<lambda>i. botCreateMultisig E i ''sign'' raw)) (\<lambda>req.
     if mr_State req = MultisigStateInitial then
       abind (outside (\<lambda>_. SEncryptPIN) (botEncryptPIN E)) (\<lambda>pin.
       outside (\<lambda>_. SSignMultisig (mr_RequestId req) pin) (\<lambda>i. botSignMultisig E i (mr_RequestId req) pin))
     else lift (Ok req))"

datatype next_step = Continue | Return

text \<open>\<open>handleMultisig\<close> for one output; \<open>Return\<close> is its \<open>return nil\<close>, which ends the loop over the outputs.\<close>

definition handle_output :: "'z sbot_env_scheme \<Rightarrow> multisig_utxo \<Rightarrow> next_step bot" where
  "handle_output E u =
     (if ux_State u = MultisigStateSigned then
        abind (sign_request E (ux_SignedTx u)) (\<lambda>req.
        if mx_Master E then
          abind (FindPaymentByMemo E (ux_Memo u)) (\<lambda>p.
          if p \<noteq> None then lift (Ok Continue)
          else abind (lift (rbind (hexDecode (ux_SignedTx u)) (unmarshalVersioned E))) (\<lambda>ver.
            if 0 < length (vt_SignaturesMap ver) \<and> int (length (vt_SignaturesMap ver ! 0)) < ux_Threshold u then lift (Ok Return)
            else abind (SendRawTransaction E (ux_SignedTx u)) (\<lambda>_. lift (Ok Continue))))
        else lift (Ok Continue))
      else lift (Ok Continue))"

fun handle_outputs :: "'z sbot_env_scheme \<Rightarrow> multisig_utxo list \<Rightarrow> unit bot" where
  "handle_outputs E [] = lift (Ok ())"
| "handle_outputs E (u # us) = abind (handle_output E u) (\<lambda>n. case n of
     Return \<Rightarrow> lift (Ok ()) | Continue \<Rightarrow> handle_outputs E us)"

definition handleMultisig :: "'z sbot_env_scheme \<Rightarrow> unit bot" where
  "handleMultisig E = abind (read_outputs E) (handle_outputs E)"

definition LoopingSignMultisig :: "'z sbot_env_scheme \<Rightarrow> nat \<Rightarrow> unit bot" where
  "LoopingSignMultisig E n = rounds n (or_else (handleMultisig E) (pause 1) (\<lambda>_. pause 10))"

section \<open>Refunds (models/payment.go)\<close>

definition set_raw :: "'z sbot_env_scheme \<Rightarrow> payment \<Rightarrow> string \<Rightarrow> payment bot" where
  "set_raw E p raw = abind (db_write E (update_row (pm_PaymentID p) (\<lambda>r. r\<lparr>pm_RawTransaction := Some raw\<rparr>)))
     (\<lambda>_. lift (Ok (p\<lparr>pm_RawTransaction := Some raw\<rparr>)))"

definition new_raw :: "'z sbot_env_scheme \<Rightarrow> payment \<Rightarrow> multisig_utxo \<Rightarrow> string bot" where
  "new_raw E p u = abind (outside (\<lambda>_. SReadGhostKeys [[pm_Memo p]]) (\<lambda>i. botReadGhostKeys E i [[pm_Memo p]])) (\<lambda>keys.
     case keys of
       [(msk, ks)] \<Rightarrow> lift (rbind (jsonTransaction E \<lparr>
           xt_Inputs = [\<lparr>xi_Hash = ux_TransactionHash u, xi_Index = ux_OutputIndex u\<rparr>],
           xt_Outputs = [\<lparr>xo_Mask = msk, xo_Keys = ks, xo_Amount = pm_Amount p, xo_Script = ''fffe01''\<rparr>],
           xt_Asset = CNBMixinAssetID, xt_Extra = [], xt_Hash = []\<rparr>) (buildTransaction E))
     | _ \<Rightarrow> lift (Err ''ReadGhostKeys''))"

text \<open>The raw transaction of a payment: first what the API has for the output, then a new one.\<close>

definition take_signed :: "'z sbot_env_scheme \<Rightarrow> payment \<Rightarrow> multisig_utxo \<Rightarrow> payment bot" where
  "take_signed E p u = (if null_string (pm_RawTransaction p) \<noteq> ux_SignedTx u then set_raw E p (ux_SignedTx u) else lift (Ok p))"

definition build_raw :: "'z sbot_env_scheme \<Rightarrow> payment \<Rightarrow> multisig_utxo \<Rightarrow> payment bot" where
  "build_raw E p u = (if null_string (pm_RawTransaction p) \<noteq> [] then lift (Ok p)
     else let raw = (if ux_State u = ''signed'' then ux_SignedTx u else []) in
       abind (if raw = [] then new_raw E p u else lift (Ok raw)) (set_raw E p))"

definition mark_refund :: "'z sbot_env_scheme \<Rightarrow> payment \<Rightarrow> unit bot" where
  "mark_refund E p = db_write E (update_row (pm_PaymentID p) (\<lambda>r. r\<lparr>pm_State := ''refund''\<rparr>))"

text \<open>A transaction that is already on the network ends the refund.\<close>

definition already_sent :: "'z sbot_env_scheme \<Rightarrow> payment \<Rightarrow> bool bot" where
  "already_sent E p = (case pm_TransactionHash p of
       None \<Rightarrow> lift (Ok False)
     | Some h \<Rightarrow> abind (look_up E h) (\<lambda>tx. if tx \<noteq> None then abind (mark_refund E p) (\<lambda>_. lift (Ok True)) else lift (Ok False)))"

definition set_signed :: "'z sbot_env_scheme \<Rightarrow> payment \<Rightarrow> multisig_request \<Rightarrow> payment bot" where
  "set_signed E p req =
     (if null_string (pm_RawTransaction p) \<noteq> mr_RawTransaction req \<or> mr_TransactionHash req \<noteq> null_string (pm_RawTransaction p) then
        abind (db_write E (update_row (pm_PaymentID p) (\<lambda>r. r\<lparr>pm_TransactionHash := Some (mr_TransactionHash req),
          pm_RawTransaction := Some (mr_RawTransaction req)\<rparr>)))
        (\<lambda>_. lift (Ok (p\<lparr>pm_TransactionHash := Some (mr_TransactionHash req), pm_RawTransaction := Some (mr_RawTransaction req)\<rparr>)))
      else lift (Ok p))"

definition send_refund :: "'z sbot_env_scheme \<Rightarrow> payment \<Rightarrow> unit bot" where
  "send_refund E p =
     abind (lift (rbind (hexDecode (null_string (pm_RawTransaction p))) (unmarshalVersioned E))) (\<lambda>ver.
     if int (length (vt_SignaturesMap ver)) < pm_Threshold p then lift (Ok ())
     else abind (look_up E (null_string (pm_TransactionHash p))) (\<lambda>tx.
       abind (if tx = None then abind (SendRawTransaction E (null_string (pm_RawTransaction p))) (\<lambda>_. lift (Ok ())) else lift (Ok ()))
       (\<lambda>_. mark_refund E p)))"

definition refund :: "'z sbot_env_scheme \<Rightarrow> payment \<Rightarrow> unit bot" where
  "refund E p = abind (ReadMultisig E (pm_Amount p) (pm_Memo p)) (\<lambda>inp. case inp of
       None \<Rightarrow> lift (Ok ())
     | Some u \<Rightarrow>
         abind (take_signed E p u) (\<lambda>p.
         abind (build_raw E p u) (\<lambda>p.
         abind (already_sent E p) (\<lambda>sent. if sent then lift (Ok ()) else
         abind (sign_request E (null_string (pm_RawTransaction p))) (\<lambda>req.
         abind (set_signed E p req) (send_refund E))))))"

definition paid_round :: "'z sbot_env_scheme \<Rightarrow> unit bot" where
  "paid_round E = or_else (FindPaymentsByState E PaymentStatePaid 100) (pause 1) (\<lambda>ps.
     abind (afold (\<lambda>p. on_error (refund E p) (pause 1)) ps) (\<lambda>_. if length ps < 1 then pause 10 else lift (Ok ())))"

definition LoopingPaidPayments :: "'z sbot_env_scheme \<Rightarrow> nat \<Rightarrow> unit bot" where
  "LoopingPaidPayments E n = rounds n (paid_round E)"

section \<open>Messages (models/payment.go)\<close>

text \<open>A new payment to the group, of a random amount and under a new trace.\<close>

definition ask_payment :: "'z sbot_env_scheme \<Rightarrow> string \<Rightarrow> nat \<Rightarrow> string \<Rightarrow> string bot" where
  "ask_payment E userID n trace =
     (let amount = numberPersist E (numberDiv E (numberFromString E (nat_digits n)) (numberFromString E ''10000''));
          pr = \<lparr>pq_AssetId = CNBAssetID, pq_Amount = amount, pq_TraceId = trace, pq_Receivers = group_members E,
            pq_Threshold = 2, pq_Memo = userID\<rparr> in
      abind (outside (\<lambda>_. SCreatePaymentRequest pr) (\<lambda>i. botCreatePaymentRequest E i pr)) (\<lambda>b.
      abind (CreatedPayment E b) (\<lambda>p. lift (Ok (pm_CodeID p)))))"

text \<open>The code of the payment that the user is asked for: the one that is pending, or a new one.\<close>

definition HandleMessage :: "'z sbot_env_scheme \<Rightarrow> string \<Rightarrow> string bot" where
  "HandleMessage E userID = abind (FindPaymentByMemo E userID) (\<lambda>old. case old of
       Some p \<Rightarrow> lift (Ok (pm_CodeID p))
     | None \<Rightarrow> abind (draw (randIntn E)) (\<lambda>n. abind (draw (uuidV4 E)) (ask_payment E userID n)))"

section \<open>The goroutines of the master (main.go)\<close>

text \<open>What each of the goroutines that \<open>main\<close> starts does with the table; the message service, for the users that write to it.\<close>

datatype worker = Messages | Pending | Paid

definition goroutine :: "'z sbot_env_scheme \<Rightarrow> worker \<Rightarrow> nat \<Rightarrow> string list \<Rightarrow> unit bot" where
  "goroutine E w n users = (case w of
     Messages \<Rightarrow> afold (\<lambda>u. on_error (abind (HandleMessage E u) (\<lambda>_. lift (Ok ()))) (pause 0)) users
   | Pending \<Rightarrow> LoopingPendingPayments E n
   | Paid \<Rightarrow> LoopingPaidPayments E n)"

end
