(* ===== verification/Sample_Service.thy ===== *)
theory Sample_Service
  imports Sample_Bot
begin

text \<open>
  sample/services: the message service of the sample bot. Three goroutines share a connection: \<open>readPump\<close> reads its frames
  and gives an answer to the call that waits for it and a message to the buffer of the loop, \<open>writePump\<close> writes what is
  queued, and the loop answers the messages. The loop is the one that is followed here; the pumps run while it waits, for as
  many frames as the connection brings in that time. Timers and pings are left out: a deadline that passes is a frame with
  an error, and a wait that is too long one in which the answer is not among the frames.
\<close>

section \<open>Data\<close>

type_synonym params = "(string \<times> string) list"

text \<open>\<open>bm_Data\<close> is the JSON text of the data, \<open>bm_Error\<close> the code of the error.\<close>

record blaze_message =
  bm_ID :: string
  bm_Action :: string
  bm_Params :: "params option"
  bm_Data :: bytes
  bm_Error :: "int option"

record message_view =
  mv_ConversationID :: string
  mv_UserID :: string
  mv_MessageID :: string
  mv_Category :: string
  mv_Data :: string
  mv_Status :: string
  mv_Source :: string
  mv_CreatedAt :: int
  mv_UpdatedAt :: int

datatype frame = ReadError goerr | BinaryFrame bytes | OtherFrame int

record service_env = sbot_env +
  signToken :: "nat \<Rightarrow> string res"
  dialBlaze :: "nat \<Rightarrow> string \<Rightarrow> unit res"
  blazeFrames :: "nat \<Rightarrow> nat \<Rightarrow> frame"
  connWrite :: "nat \<Rightarrow> nat \<Rightarrow> bytes \<Rightarrow> unit res"
  gzipWrite :: "bytes \<Rightarrow> bytes"
  gzipRead :: "bytes \<Rightarrow> bytes res"
  jsonBlaze :: "blaze_message \<Rightarrow> bytes res"
  jsonReadBlaze :: "bytes \<Rightarrow> blaze_message res"
  jsonMessageView :: "bytes \<Rightarrow> message_view res"
  jsonButtons :: "(string \<times> string) list list \<Rightarrow> bytes res"
  framesInWait :: "nat \<Rightarrow> nat"
  preferDone :: "nat \<Rightarrow> bool"

section \<open>State\<close>

text \<open>
  The bot and the \<open>MessageContext\<close> of the connection. \<open>sv_Transactions\<close> gives the call that waits for an identifier, and
  \<open>sv_Resp\<close> what its channel holds. \<open>sv_queued\<close> is a record of every message that was queued, \<open>sv_written\<close> of what was
  written to the connection, and \<open>sv_pos\<close> counts the frames that were read.
\<close>

record service =
  sv_bot :: sbot
  sv_conn :: nat
  sv_Transactions :: "string \<rightharpoonup> string"
  sv_Resp :: "string \<rightharpoonup> blaze_message"
  sv_ReadDone :: bool
  sv_WriteDone :: bool
  sv_ReadBuffer :: "message_view list"
  sv_WriteBuffer :: "bytes list"
  sv_pos :: nat
  sv_writing :: bool
  sv_closed :: bool
  sv_written :: "bytes list"
  sv_queued :: "blaze_message list"

definition buffer_size :: nat where
  "buffer_size = 102400"

definition on_bot :: "'a bot \<Rightarrow> (service, 'a) eff" where
  "on_bot m s = (case m (sv_bot s) of (r, b) \<Rightarrow> (r, s\<lparr>sv_bot := b\<rparr>))"

section \<open>The table of calls (tmap)\<close>

definition newTmap :: "string \<rightharpoonup> string" where
  "newTmap = Map.empty"

definition retrive :: "string \<Rightarrow> (string \<rightharpoonup> string) \<Rightarrow> string option \<times> (string \<rightharpoonup> string)" where
  "retrive k m = (m k, m(k := None))"

definition tmap_set :: "string \<Rightarrow> string \<Rightarrow> (string \<rightharpoonup> string) \<Rightarrow> (string \<rightharpoonup> string)" where
  "tmap_set k t m = m(k \<mapsto> t)"

section \<open>The pumps\<close>

text \<open>The answer goes to the channel of its call, which has room for it; a full buffer of messages times out.\<close>

definition parseMessage :: "'z service_env_scheme \<Rightarrow> bytes \<Rightarrow> (service, unit) eff" where
  "parseMessage E b s = (case rbind (gzipRead E b) (jsonReadBlaze E) of
     Err e \<Rightarrow> (Err e, s) | Panic e \<Rightarrow> (Panic e, s)
   | Ok m \<Rightarrow> (case retrive (bm_ID m) (sv_Transactions s) of
         (Some t, ts) \<Rightarrow> (Ok (), s\<lparr>sv_Transactions := ts, sv_Resp := (sv_Resp s)(t \<mapsto> m)\<rparr>)
       | (None, ts) \<Rightarrow>
           if bm_Action m \<noteq> ''CREATE_MESSAGE'' then (Ok (), s\<lparr>sv_Transactions := ts\<rparr>)
           else (case jsonMessageView E (bm_Data m) of
               Err e \<Rightarrow> (Err e, s\<lparr>sv_Transactions := ts\<rparr>) | Panic e \<Rightarrow> (Panic e, s\<lparr>sv_Transactions := ts\<rparr>)
             | Ok v \<Rightarrow> if length (sv_ReadBuffer s) < buffer_size
                 then (Ok (), s\<lparr>sv_Transactions := ts, sv_ReadBuffer := sv_ReadBuffer s @ [v]\<rparr>)
                 else (Err ''timeout to handle'', s\<lparr>sv_Transactions := ts\<rparr>))))"

definition read_ends :: "service \<Rightarrow> service" where
  "read_ends s = s\<lparr>sv_closed := True, sv_WriteDone := True, sv_ReadDone := True\<rparr>"

text \<open>One frame of \<open>readPump\<close>.\<close>

definition readPump :: "'z service_env_scheme \<Rightarrow> service \<Rightarrow> service" where
  "readPump E s =
     (if sv_ReadDone s then s
      else if sv_closed s then read_ends s
      else let t = s\<lparr>sv_pos := Suc (sv_pos s)\<rparr> in case blazeFrames E (sv_conn s) (sv_pos s) of
          ReadError e \<Rightarrow> read_ends t
        | OtherFrame n \<Rightarrow> read_ends t
        | BinaryFrame b \<Rightarrow> (case parseMessage E b t of (Ok _, t) \<Rightarrow> t | (_, t) \<Rightarrow> read_ends t))"

definition writeGzipToConn :: "'z service_env_scheme \<Rightarrow> bytes \<Rightarrow> (service, unit) eff" where
  "writeGzipToConn E data s =
     (if sv_closed s then (Err ''use of closed network connection'', s)
      else case connWrite E (sv_conn s) (length (sv_written s)) (gzipWrite E data) of
          Ok _ \<Rightarrow> (Ok (), s\<lparr>sv_written := sv_written s @ [gzipWrite E data]\<rparr>)
        | Err e \<Rightarrow> (Err e, s) | Panic e \<Rightarrow> (Panic e, s))"

fun write_all :: "'z service_env_scheme \<Rightarrow> bytes list \<Rightarrow> service \<Rightarrow> service" where
  "write_all E [] s = s\<lparr>sv_WriteBuffer := []\<rparr>"
| "write_all E (d # ds) s = (case writeGzipToConn E d s of
     (Ok _, t) \<Rightarrow> write_all E ds t | (_, t) \<Rightarrow> t\<lparr>sv_WriteBuffer := ds, sv_writing := False, sv_closed := True\<rparr>)"

text \<open>\<open>writePump\<close> until it has nothing to do.\<close>

definition writePump :: "'z service_env_scheme \<Rightarrow> service \<Rightarrow> service" where
  "writePump E s =
     (if \<not> sv_writing s then s
      else if sv_WriteDone s then s\<lparr>sv_WriteDone := False, sv_writing := False, sv_closed := True\<rparr>
      else write_all E (sv_WriteBuffer s) s)"

definition pumps :: "'z service_env_scheme \<Rightarrow> nat \<Rightarrow> service \<Rightarrow> service" where
  "pumps E n s = (readPump E ^^ n) (writePump E s)"

section \<open>A call\<close>

datatype 'a attempt = Again | Done 'a

text \<open>One attempt of \<open>writeMessageAndWait\<close>, under an identifier of its own; \<open>Again\<close> is its call of itself.\<close>

definition await :: "'z service_env_scheme \<Rightarrow> string \<Rightarrow> service \<Rightarrow> unit res attempt \<times> service" where
  "await E k s = (let t = pumps E (framesInWait E (sb_clock (sv_bot s))) s in
     case sv_Resp t k of
       None \<Rightarrow> (Done (Err ''timeout to wait''), t)
     | Some m \<Rightarrow> (case bm_Error m of Some code \<Rightarrow> if code \<noteq> 403 then (Again, t) else (Done (Ok ()), t) | None \<Rightarrow> (Done (Ok ()), t)))"

definition write_once :: "'z service_env_scheme \<Rightarrow> string \<Rightarrow> params option \<Rightarrow> service \<Rightarrow> unit res attempt \<times> service" where
  "write_once E action ps s =
     (let k = uuidV4 E (sb_clock (sv_bot s));
          m = \<lparr>bm_ID = k, bm_Action = action, bm_Params = ps, bm_Data = [], bm_Error = None\<rparr>;
          s = s\<lparr>sv_bot := (sv_bot s)\<lparr>sb_clock := Suc (sb_clock (sv_bot s))\<rparr>,
                sv_Transactions := tmap_set k k (sv_Transactions s), sv_Resp := (sv_Resp s)(k := None)\<rparr> in
      case jsonBlaze E m of
        Err e \<Rightarrow> (Done (Err e), s) | Panic e \<Rightarrow> (Done (Panic e), s)
      | Ok data \<Rightarrow>
          let s = writePump E s in
          if buffer_size \<le> length (sv_WriteBuffer s) then (Done (Err ''timeout to write''), s)
          else await E k (s\<lparr>sv_WriteBuffer := sv_WriteBuffer s @ [data], sv_queued := sv_queued s @ [m]\<rparr>))"

partial_function (option) writeMessageAndWait ::
  "'z service_env_scheme \<Rightarrow> string \<Rightarrow> params option \<Rightarrow> service \<Rightarrow> (unit res \<times> service) option" where
  "writeMessageAndWait E action ps s = (case write_once E action ps s of
     (Done r, t) \<Rightarrow> Some (r, t)
   | (Again, t) \<Rightarrow> writeMessageAndWait E action ps t)"

section \<open>The loop\<close>

text \<open>A call that may not return, and then the rest.\<close>

definition then_do :: "(unit res \<times> service) option \<Rightarrow> (service \<Rightarrow> (unit res \<times> service) option) \<Rightarrow> (unit res \<times> service) option" where
  "then_do m f = Option.bind m (\<lambda>(r, s). case r of Ok u \<Rightarrow> f s | Err e \<Rightarrow> Some (Err e, s) | Panic e \<Rightarrow> Some (Panic e, s))"

definition reply_params :: "'z service_env_scheme \<Rightarrow> message_view \<Rightarrow> string \<Rightarrow> string \<Rightarrow> params" where
  "reply_params E v k codeID = [(''conversation_id'', mv_ConversationID v), (''message_id'', k), (''category'', ''PLAIN_TEXT''),
     (''data'', b64Encode (''CNB will be refund: mixin://codes/'' @ codeID))]"

definition answer :: "'z service_env_scheme \<Rightarrow> message_view \<Rightarrow> service \<Rightarrow> (unit res \<times> service) option" where
  "answer E v s =
     (case on_bot (abind (HandleMessage E (mv_UserID v)) (\<lambda>c. abind (draw (uuidV4 E)) (\<lambda>k. lift (Ok (c, k))))) s of
        (Err e, s) \<Rightarrow> Some (Err e, s) | (Panic e, s) \<Rightarrow> Some (Panic e, s)
      | (Ok (c, k), s) \<Rightarrow> writeMessageAndWait E ''CREATE_MESSAGE'' (Some (reply_params E v k c)) s)"

definition ack_params :: "message_view \<Rightarrow> params" where
  "ack_params v = [(''message_id'', mv_MessageID v), (''status'', ''READ'')]"

definition handle_view :: "'z service_env_scheme \<Rightarrow> message_view \<Rightarrow> service \<Rightarrow> (unit res \<times> service) option" where
  "handle_view E v s =
     then_do (if str_contains (mv_Category v) ''PLAIN_'' then answer E v s else Some (Ok (), s))
       (writeMessageAndWait E ''ACKNOWLEDGE_MESSAGE_RECEIPT'' (Some (ack_params v)))"

partial_function (option) select_loop :: "'z service_env_scheme \<Rightarrow> service \<Rightarrow> (unit res \<times> service) option" where
  "select_loop E s =
     (if sv_ReadDone s \<and> (sv_ReadBuffer s = [] \<or> preferDone E (sb_clock (sv_bot s))) then Some (Ok (), s)
      else case sv_ReadBuffer s of
          [] \<Rightarrow> select_loop E (pumps E 1 s)
        | v # vs \<Rightarrow> Option.bind (handle_view E v (s\<lparr>sv_ReadBuffer := vs\<rparr>)) (\<lambda>(r, t). case r of
            Ok u \<Rightarrow> select_loop E t | Err e \<Rightarrow> Some (Err e, t) | Panic e \<Rightarrow> Some (Panic e, t)))"

definition ConnectMixinBlaze :: "'z service_env_scheme \<Rightarrow> nat \<Rightarrow> unit res" where
  "ConnectMixinBlaze E i = rbind (signToken E i) (\<lambda>tok. dialBlaze E i (''Bearer '' @ tok))"

definition new_context :: "sbot \<Rightarrow> nat \<Rightarrow> service" where
  "new_context b i = \<lparr>sv_bot = b, sv_conn = i, sv_Transactions = newTmap, sv_Resp = Map.empty, sv_ReadDone = False,
     sv_WriteDone = False, sv_ReadBuffer = [], sv_WriteBuffer = [], sv_pos = 0, sv_writing = True, sv_closed = False,
     sv_written = [], sv_queued = []\<rparr>"

definition service_loop :: "'z service_env_scheme \<Rightarrow> nat \<Rightarrow> sbot \<Rightarrow> (unit res \<times> service) option" where
  "service_loop E i b = (case ConnectMixinBlaze E i of
     Ok _ \<Rightarrow> then_do (writeMessageAndWait E ''LIST_PENDING_MESSAGES'' None (new_context b i)) (select_loop E)
   | Err e \<Rightarrow> Some (Err e, new_context b i)
   | Panic e \<Rightarrow> Some (Panic e, new_context b i))"

text \<open>\<open>Run\<close> connects again whenever the loop ends, here \<open>n\<close> times from connection \<open>i\<close>.\<close>

fun service_Run :: "'z service_env_scheme \<Rightarrow> nat \<Rightarrow> nat \<Rightarrow> sbot \<Rightarrow> (unit res \<times> sbot) option" where
  "service_Run E 0 i b = Some (Ok (), b)"
| "service_Run E (Suc n) i b = Option.bind (service_loop E i b) (\<lambda>(r, s). case r of
     Panic e \<Rightarrow> Some (Panic e, sv_bot s) | _ \<Rightarrow> service_Run E n (Suc i) (sv_bot s))"

definition sendAppButton :: "'z service_env_scheme \<Rightarrow> message_view \<Rightarrow> string \<Rightarrow> service \<Rightarrow> (unit res \<times> service) option" where
  "sendAppButton E v appID s = (case on_bot (abind (draw (uuidV4 E)) (\<lambda>trace.
       abind (lift (jsonButtons E [[(''label'', ''Transfer 1 CNB, will be refunded''),
         (''action'', ''https://mixin.one/pay?recipient='' @ appID @ ''&asset='' @ CNBAssetID @ ''&amount=1&trace='' @ trace @ ''&memo=''),
         (''color'', ''#FF5733'')]])) (\<lambda>btns.
       abind (draw (uuidV4 E)) (\<lambda>k. lift (Ok (btns, k)))))) s of
     (Err e, s) \<Rightarrow> Some (Err e, s) | (Panic e, s) \<Rightarrow> Some (Panic e, s)
   | (Ok (btns, k), s) \<Rightarrow> writeMessageAndWait E ''CREATE_MESSAGE'' (Some [(''conversation_id'', mv_ConversationID v),
       (''message_id'', k), (''category'', ''APP_BUTTON_GROUP''), (''data'', b64Encode btns)]) s)"

end
