(* ===== verification/Sample_Laws.thy ===== *)
theory Sample_Laws
  imports Sample_Bot "HOL-Library.Multiset"
begin

text \<open>
  The sample bot: what its functions write to the log, in the style of rely and guarantee. \<open>keeps G I m Q K\<close> says that
  \<open>m\<close>, from a state with \<open>I\<close>, adds to the log only entries that \<open>G\<close> allows after the entries before them, and ends with
  \<open>Q\<close> when it returns a value and with \<open>K\<close> when it returns an error. The locale \<open>row_owner\<close> states what a goroutine relies
  on that changes only the payments of one state; it is interpreted on the two loops over payments.
\<close>

section \<open>Logs\<close>

inductive grows :: "('e list \<Rightarrow> 'e \<Rightarrow> bool) \<Rightarrow> 'e list \<Rightarrow> 'e list \<Rightarrow> bool" for G where
  none: "grows G l l"
| more: "grows G l m \<Longrightarrow> G m e \<Longrightarrow> grows G l (m @ [e])"

lemma grows_trans: "grows G a b \<Longrightarrow> grows G b c \<Longrightarrow> grows G a c"
  by (rotate_tac, induction rule: grows.induct) (auto intro: grows.intros)

lemma grows_refl [simp]: "grows G l l"
  by (rule grows.none)

lemma grows_one [intro]: "G l e \<Longrightarrow> grows G l (l @ [e])"
  by (auto intro: grows.intros)

lemma grows_prefix: "grows G l m \<Longrightarrow> \<exists>xs. m = l @ xs"
  by (induction rule: grows.induct) auto

lemma grows_mem: "grows G l m \<Longrightarrow> set l \<subseteq> set m"
  by (auto dest: grows_prefix)

lemma grows_at: "grows G l m \<Longrightarrow> m = l @ xs @ e # ys \<Longrightarrow> G (l @ xs) e"
proof (induction arbitrary: ys rule: grows.induct)
  case (more l m f)
  show ?case
  proof (cases ys rule: rev_cases)
    case Nil
    then show ?thesis using more by simp
  next
    case (snoc zs z)
    then show ?thesis using more by simp
  qed
qed simp

section \<open>Assertions over a function\<close>

definition ends :: "('a \<Rightarrow> sbot \<Rightarrow> bool) \<Rightarrow> (sbot \<Rightarrow> bool) \<Rightarrow> 'a res \<Rightarrow> sbot \<Rightarrow> bool" where
  "ends Q K r t = (case r of Ok x \<Rightarrow> Q x t | Err e \<Rightarrow> K t | Panic e \<Rightarrow> True)"

lemma ends_simps [simp]: "ends Q K (Ok x) t = Q x t" "ends Q K (Err e) t = K t" "ends Q K (Panic e) t"
  by (simp_all add: ends_def)

definition keeps :: "(sb_call list \<Rightarrow> sb_call \<Rightarrow> bool) \<Rightarrow> (sbot \<Rightarrow> bool) \<Rightarrow> 'a bot \<Rightarrow> ('a \<Rightarrow> sbot \<Rightarrow> bool) \<Rightarrow> (sbot \<Rightarrow> bool) \<Rightarrow> bool" where
  "keeps G I m Q K \<longleftrightarrow> (\<forall>s r t. I s \<longrightarrow> m s = (r, t) \<longrightarrow> grows G (sb_log s) (sb_log t) \<and> ends Q K r t)"

lemma keepsI: "(\<And>s r t. I s \<Longrightarrow> m s = (r, t) \<Longrightarrow> grows G (sb_log s) (sb_log t) \<and> ends Q K r t) \<Longrightarrow> keeps G I m Q K"
  by (simp add: keeps_def)

lemma keepsD: "keeps G I m Q K \<Longrightarrow> I s \<Longrightarrow> m s = (r, t) \<Longrightarrow> grows G (sb_log s) (sb_log t) \<and> ends Q K r t"
  by (simp add: keeps_def)

lemma keeps_weaken:
  assumes "keeps G I m Q K" "\<And>s. I' s \<Longrightarrow> I s" "\<And>x s. Q x s \<Longrightarrow> Q' x s" "\<And>s. K s \<Longrightarrow> K' s"
  shows "keeps G I' m Q' K'"
proof (rule keepsI)
  fix s r t assume "I' s" and run: "m s = (r, t)"
  from keepsD [OF assms(1) assms(2) [OF this(1)] run] show "grows G (sb_log s) (sb_log t) \<and> ends Q' K' r t"
    using assms(3,4) by (cases r) auto
qed

lemma keeps_lift: "(\<And>x s. r = Ok x \<Longrightarrow> I s \<Longrightarrow> Q x s) \<Longrightarrow> (\<And>e s. r = Err e \<Longrightarrow> I s \<Longrightarrow> K s) \<Longrightarrow> keeps G I (lift r) Q K"
  by (cases r) (auto simp: keeps_def lift_def intro: grows.none)

text \<open>One function after another, whatever joins them.\<close>

lemma keeps_seq:
  assumes "keeps G I m Q' K'"
    and "\<And>s x t. m s = (Ok x, t) \<Longrightarrow> j s = f x t" and "\<And>x. keeps G (Q' x) (f x) Q K"
    and "\<And>s e t. m s = (Err e, t) \<Longrightarrow> j s = h e t" and "\<And>e. keeps G K' (h e) Q K"
    and "\<And>s e t. m s = (Panic e, t) \<Longrightarrow> \<exists>t'. j s = (Panic e, t') \<and> sb_log t' = sb_log t"
  shows "keeps G I j Q K"
proof (rule keepsI)
  fix s r t assume I: "I s" and run: "j s = (r, t)"
  obtain q u where m: "m s = (q, u)" by force
  note d = keepsD [OF assms(1) I m]
  show "grows G (sb_log s) (sb_log t) \<and> ends Q K r t"
  proof (cases q)
    case (Ok x)
    with assms(2) m run have f: "f x u = (r, t)" by simp
    from d Ok keepsD [OF assms(3) _ f] show ?thesis by (auto intro: grows_trans)
  next
    case (Err e)
    with assms(4) m run have f: "h e u = (r, t)" by simp
    from d Err keepsD [OF assms(5) _ f] show ?thesis by (auto intro: grows_trans)
  next
    case (Panic e)
    with assms(6) m obtain t' where "j s = (Panic e, t')" "sb_log t' = sb_log u" by blast
    with run d show ?thesis by auto
  qed
qed

lemma keeps_Err: "keeps G K (\<lambda>t. (Err e, t)) Q K"
  by (auto simp: keeps_def intro: grows.none)

lemma keeps_Ok: "keeps G (Q x) (\<lambda>t. (Ok x, t)) Q K"
  by (auto simp: keeps_def intro: grows.none)

lemma keeps_abind: "keeps G I m Q' K \<Longrightarrow> (\<And>x. keeps G (Q' x) (f x) Q K) \<Longrightarrow> keeps G I (abind m f) Q K"
  by (rule keeps_seq [where m = m and Q' = Q' and K' = K and f = f and h = "\<lambda>e t. (Err e, t)"])
    (auto simp: abind_def intro: keeps_Err)

lemma keeps_on_error: "keeps G I m Q K' \<Longrightarrow> keeps G K' h Q K \<Longrightarrow> keeps G I (on_error m h) Q K"
  by (rule keeps_seq [where m = m and Q' = Q and K' = K' and f = "\<lambda>x t. (Ok x, t)" and h = "\<lambda>_. h"])
    (auto simp: on_error_def intro: keeps_Ok)

lemma keeps_or_else:
  "keeps G I m Q' K' \<Longrightarrow> keeps G K' h Q K \<Longrightarrow> (\<And>x. keeps G (Q' x) (f x) Q K) \<Longrightarrow> keeps G I (or_else m h f) Q K"
  by (rule keeps_seq [where m = m and Q' = Q' and K' = K' and f = f and h = "\<lambda>_. h"]) (auto simp: or_else_def)

text \<open>A loop whose \<open>i\<close>-th assertion is about the elements that are left.\<close>

lemma keeps_afold:
  assumes "\<And>x ys. keeps G (J (x # ys)) (f x) (\<lambda>_. J ys) K"
  shows "keeps G (J xs) (afold f xs) (\<lambda>_. J []) K"
proof (induction xs)
  case (Cons x xs)
  show ?case unfolding afold.simps by (rule keeps_abind [OF assms(1) Cons.IH])
qed (auto intro: keeps_lift)

lemma keeps_rounds: "keeps G I m (\<lambda>_. I) K \<Longrightarrow> keeps G I (rounds n m) (\<lambda>_. I) K"
  by (induction n) (auto intro: keeps_lift keeps_abind)

lemma keeps_outside:
  assumes "\<And>s x. I s \<Longrightarrow> f (sb_clock s) = x \<Longrightarrow> G (sb_log s) (c x)"
    and "\<And>s x t. I s \<Longrightarrow> f (sb_clock s) = Ok x \<Longrightarrow> sb_log t = sb_log s @ [c (Ok x)] \<Longrightarrow> sb_rows t = sb_rows s \<Longrightarrow> sb_tx t = sb_tx s \<Longrightarrow> Q x t"
    and "\<And>s e t. I s \<Longrightarrow> sb_log t = sb_log s @ [c (Err e)] \<Longrightarrow> sb_rows t = sb_rows s \<Longrightarrow> sb_tx t = sb_tx s \<Longrightarrow> K t"
  shows "keeps G I (outside c f) Q K"
  using assms by (auto simp: keeps_def outside_def ends_def split: res.splits)

lemma keeps_draw:
  assumes "\<And>s x t. I s \<Longrightarrow> sb_log t = sb_log s \<Longrightarrow> sb_rows t = sb_rows s \<Longrightarrow> sb_tx t = sb_tx s \<Longrightarrow> Q x t"
  shows "keeps G I (draw f) Q K"
  using assms by (auto simp: keeps_def draw_def intro: grows.none)

section \<open>Functions that only make requests\<close>

text \<open>\<open>asks P m\<close>: \<open>m\<close> leaves the table alone, and the requests it makes satisfy \<open>P\<close>.\<close>

definition asked :: "(sb_call \<Rightarrow> bool) \<Rightarrow> sbot \<Rightarrow> sbot \<Rightarrow> bool" where
  "asked P s t \<longleftrightarrow> sb_rows t = sb_rows s \<and> sb_tx t = sb_tx s \<and> (\<exists>xs. sb_log t = sb_log s @ xs \<and> list_all P xs)"

definition asks :: "(sb_call \<Rightarrow> bool) \<Rightarrow> 'a bot \<Rightarrow> bool" where
  "asks P m \<longleftrightarrow> (\<forall>s r t. m s = (r, t) \<longrightarrow> asked P s t)"

lemma asked_refl: "asked P s s"
  by (simp add: asked_def)

lemma asked_trans: "asked P s u \<Longrightarrow> asked P u t \<Longrightarrow> asked P s t"
  by (auto simp: asked_def)

lemma asksD: "asks P m \<Longrightarrow> m s = (r, t) \<Longrightarrow> asked P s t"
  by (simp add: asks_def)

named_theorems asks_intros

lemma asks_lift [asks_intros]: "asks P (lift r)"
  by (auto simp: asks_def asked_def lift_def)

lemma asks_draw [asks_intros]: "asks P (draw f)"
  by (auto simp: asks_def asked_def draw_def)

lemma asks_outside [asks_intros]: "(\<And>x. P (c x)) \<Longrightarrow> asks P (outside c f)"
  by (auto simp: asks_def asked_def outside_def)

lemma asks_abind [asks_intros]:
  assumes "asks P m" "\<And>x. asks P (f x)" shows "asks P (abind m f)"
  unfolding asks_def
proof (intro allI impI)
  fix s r t assume run: "abind m f s = (r, t)"
  obtain q u where m: "m s = (q, u)" by force
  show "asked P s t"
  proof (cases q)
    case (Ok x)
    with run m have "f x u = (r, t)" by (simp add: abind_def)
    then show ?thesis by (rule asked_trans [OF asksD [OF assms(1) m] asksD [OF assms(2)]])
  qed (use run asksD [OF assms(1) m] m in \<open>auto simp: abind_def\<close>)
qed

lemma asks_on_error [asks_intros]:
  assumes "asks P m" "asks P h" shows "asks P (on_error m h)"
  unfolding asks_def
proof (intro allI impI)
  fix s r t assume run: "on_error m h s = (r, t)"
  obtain q u where m: "m s = (q, u)" by force
  show "asked P s t"
  proof (cases q)
    case (Err e)
    with run m have "h u = (r, t)" by (simp add: on_error_def)
    then show ?thesis by (rule asked_trans [OF asksD [OF assms(1) m] asksD [OF assms(2)]])
  qed (use run asksD [OF assms(1) m] m in \<open>auto simp: on_error_def\<close>)
qed

lemma asks_if [asks_intros]: "asks P m \<Longrightarrow> asks P m' \<Longrightarrow> asks P (if b then m else m')"
  by simp

lemma asks_mono: "asks P m \<Longrightarrow> (\<And>e. P e \<Longrightarrow> P' e) \<Longrightarrow> asks P' m"
  unfolding asks_def asked_def by (auto simp: list_all_iff) blast

definition is_send :: "sb_call \<Rightarrow> bool" where
  "is_send e \<longleftrightarrow> (\<exists>raw r. e = SNode ''sendrawtransaction'' raw r)"

definition is_sql :: "sb_call \<Rightarrow> bool" where
  "is_sql e \<longleftrightarrow> (\<exists>a b. e = SSql a b)"

definition harmless :: "sb_call \<Rightarrow> bool" where
  "harmless e \<longleftrightarrow> \<not> is_sql e \<and> \<not> is_send e"

lemmas call_kinds = harmless_def is_sql_def is_send_def

lemma asks_pause [asks_intros]: "asks harmless (pause n)"
  unfolding pause_def by (rule asks_outside) (simp add: call_kinds)

lemma asks_GetTransaction [asks_intros]: "asks harmless (GetTransaction E h)"
  unfolding GetTransaction_def callRPC_def by (intro asks_intros) (simp add: call_kinds)

lemma asks_look_up [asks_intros]: "asks harmless (look_up E h)"
  unfolding look_up_def by (intro asks_intros)

lemma asks_SendRawTransaction: "asks (\<lambda>e. \<not> is_sql e) (SendRawTransaction E raw)"
  unfolding SendRawTransaction_def callRPC_def by (intro asks_intros) (simp add: call_kinds)

lemma asks_read_outputs [asks_intros]: "asks harmless (read_outputs E)"
  unfolding read_outputs_def Let_def by (intro asks_intros) (simp add: call_kinds)

lemma asks_ReadMultisig [asks_intros]: "asks harmless (ReadMultisig E x y)"
  unfolding ReadMultisig_def by (intro asks_intros)

lemma asks_sign_request [asks_intros]: "asks harmless (sign_request E raw)"
  unfolding sign_request_def by (intro asks_intros) (simp_all add: call_kinds)

lemma asks_new_raw [asks_intros]: "asks harmless (new_raw E p u)"
proof -
  have "asks harmless (case keys of [(msk, ks)] \<Rightarrow> lift (f msk ks) | _ \<Rightarrow> lift (Err e))" for keys and f :: "string \<Rightarrow> string list \<Rightarrow> string res" and e
    by (auto intro: asks_lift split: list.split prod.split)
  then show ?thesis unfolding new_raw_def by (intro asks_intros) (simp_all add: call_kinds)
qed

text \<open>The assertions that requests keep.\<close>

lemma keeps_asks:
  assumes "asks P m" and "\<And>l e. P e \<Longrightarrow> G l e"
    and "\<And>s t xs. I s \<Longrightarrow> sb_rows t = sb_rows s \<Longrightarrow> sb_tx t = sb_tx s \<Longrightarrow> sb_log t = sb_log s @ xs \<Longrightarrow> I t"
  shows "keeps G I m (\<lambda>_. I) I"
proof (rule keepsI)
  fix s r t assume I: "I s" and run: "m s = (r, t)"
  with assms(1) obtain xs where xs: "sb_rows t = sb_rows s" "sb_tx t = sb_tx s" "sb_log t = sb_log s @ xs" "list_all P xs"
    unfolding asks_def asked_def by blast
  from xs(4) have "grows G l (l @ xs)" for l
  proof (induction xs rule: rev_induct)
    case (snoc e xs)
    then show ?case using grows.more [of G l "l @ xs" e] assms(2) by simp
  qed (simp add: grows.none)
  moreover have "I t" by (rule assms(3) [OF I xs(1-3)])
  ultimately show "grows G (sb_log s) (sb_log t) \<and> ends (\<lambda>_. I) I r t"
    using xs(3) by (cases r) auto
qed

section \<open>Statements\<close>

text \<open>The statements: the others have their turn, then the statement runs or fails.\<close>

lemma keeps_db_write:
  assumes "\<And>s. I s \<Longrightarrow> J (db_turn E s)"
    and "\<And>t. J t \<Longrightarrow> table_ok (f (sb_rows t)) \<Longrightarrow> G (sb_log t) (SSql (sb_rows t) (f (sb_rows t)))"
    and "\<And>t. J t \<Longrightarrow> table_ok (f (sb_rows t)) \<Longrightarrow> Q () (db_apply f t)"
    and "\<And>t. J t \<Longrightarrow> table_ok (f (sb_rows t)) \<Longrightarrow> K (db_apply f t)"
    and "\<And>t. J t \<Longrightarrow> K t"
  shows "keeps G I (db_write E f) Q K"
proof (rule keepsI)
  fix s r t assume I: "I s" and run: "db_write E f s = (r, t)"
  let ?u = "db_turn E s"
  have J: "J ?u" by (rule assms(1) [OF I])
  have l: "sb_log ?u = sb_log s" by (simp add: db_turn_def)
  have "r = Ok () \<and> t = db_apply f ?u \<and> table_ok (f (sb_rows ?u)) \<or> (\<exists>e. r = Err e) \<and> t = db_apply f ?u \<and> table_ok (f (sb_rows ?u))
    \<or> (\<exists>e. r = Err e) \<and> t = ?u"
    using run by (auto simp: db_write_def Let_def split: option.splits if_splits)
  moreover have "grows G (sb_log s) (sb_log (db_apply f ?u))" if "table_ok (f (sb_rows ?u))"
    using assms(2) [OF J that] l by (auto simp: db_apply_def)
  ultimately show "grows G (sb_log s) (sb_log t) \<and> ends Q K r t"
    using assms(3,4,5) [OF J] l by (auto intro: grows.none)
qed

lemma keeps_db_select:
  assumes "\<And>s. I s \<Longrightarrow> J (db_turn E s)" and "\<And>i t. J t \<Longrightarrow> Q (dbOrder E i (filter P (sb_rows t @ sb_tx t))) t" and "\<And>t. J t \<Longrightarrow> K t"
  shows "keeps G I (db_select E P) Q K"
proof (rule keepsI)
  fix s r t assume I: "I s" and run: "db_select E P s = (r, t)"
  have l: "sb_log (db_turn E s) = sb_log s" by (simp add: db_turn_def)
  from run have "t = db_turn E s \<and> ((\<exists>e. r = Err e) \<or> r = Ok (dbOrder E (sb_clock s) (filter P (sb_rows t @ sb_tx t))))"
    by (auto simp: db_select_def Let_def split: option.splits)
  then show "grows G (sb_log s) (sb_log t) \<and> ends Q K r t"
    using assms(2,3) [OF assms(1) [OF I]] l by (auto intro: grows.none)
qed

section \<open>What the goroutines do to the table\<close>

definition marks_paid :: "payment \<Rightarrow> payment \<Rightarrow> bool" where
  "marks_paid r r' \<longleftrightarrow> r' = r \<or> pm_State r = PaymentStatePending \<and> r' = r\<lparr>pm_State := PaymentStatePaid\<rparr>"

definition refunds :: "payment \<Rightarrow> payment \<Rightarrow> bool" where
  "refunds r r' \<longleftrightarrow> r' = r \<or> pm_State r = PaymentStatePaid \<and> pm_State r' \<in> {PaymentStatePaid, PaymentStateRefund} \<and>
     (\<exists>h raw st. r' = r\<lparr>pm_TransactionHash := h, pm_RawTransaction := raw, pm_State := st\<rparr>)"

fun worker_step :: "worker \<Rightarrow> payment list \<Rightarrow> payment list \<Rightarrow> bool" where
  "worker_step Messages a b = (\<exists>xs. b = a @ xs)"
| "worker_step Pending a b = list_all2 marks_paid a b"
| "worker_step Paid a b = list_all2 refunds a b"

definition other_step :: "worker \<Rightarrow> payment list \<Rightarrow> payment list \<Rightarrow> bool" where
  "other_step w a b \<longleftrightarrow> table_ok b \<and> (\<exists>v. v \<noteq> w \<and> worker_step v a b)"

text \<open>In its turn each of the other goroutines takes any number of its steps, and a statement finds its rows in any order.\<close>

definition others_ok :: "'z sbot_env_scheme \<Rightarrow> worker \<Rightarrow> bool" where
  "others_ok E w \<longleftrightarrow> (\<forall>i rows. table_ok rows \<longrightarrow> (other_step w)\<^sup>*\<^sup>* rows (sb_others E i rows)) \<and>
     (\<forall>i rows. mset (dbOrder E i rows) = mset rows)"

lemma others_table_ok: "(other_step w)\<^sup>*\<^sup>* a b \<Longrightarrow> table_ok a \<Longrightarrow> table_ok b"
  by (induction rule: rtranclp_induct) (auto simp: other_step_def)

lemma order_set: "others_ok E w \<Longrightarrow> set (dbOrder E i rows) = set rows"
  by (simp add: others_ok_def) (metis set_mset_mset)

lemma order_distinct: "others_ok E w \<Longrightarrow> distinct (map pm_PaymentID rows) \<Longrightarrow> distinct (map pm_PaymentID (dbOrder E i rows))"
  unfolding others_ok_def by (metis mset_eq_imp_distinct_iff mset_map)

text \<open>A payment keeps its identifier and never moves back.\<close>

definition rank :: "string \<Rightarrow> nat" where
  "rank st = (if st = PaymentStateRefund then 2 else if st = PaymentStatePaid then 1 else 0)"

definition forward :: "payment list \<Rightarrow> payment list \<Rightarrow> bool" where
  "forward a b \<longleftrightarrow> (\<forall>r \<in> set a. \<exists>r' \<in> set b. pm_PaymentID r' = pm_PaymentID r \<and> pm_Memo r' = pm_Memo r \<and>
     pm_Amount r' = pm_Amount r \<and> rank (pm_State r) \<le> rank (pm_State r'))"

lemmas state_names = PaymentStatePending_def PaymentStatePaid_def PaymentStateRefund_def

lemma list_all2_in: "list_all2 R a b \<Longrightarrow> r \<in> set a \<Longrightarrow> \<exists>r' \<in> set b. R r r'"
  by (induction rule: list_all2_induct) auto

lemma rank_simps [simp]: "rank PaymentStatePending = 0" "rank PaymentStatePaid = 1" "rank PaymentStateRefund = 2"
  by (simp_all add: rank_def state_names)

lemma worker_forward: "worker_step w a b \<Longrightarrow> forward a b"
proof -
  assume step: "worker_step w a b"
  have "\<exists>r' \<in> set b. r' = r \<or> marks_paid r r' \<or> refunds r r'" if "r \<in> set a" for r
  proof (cases w)
    case Messages
    with step that show ?thesis by auto
  next
    case Pending
    with step list_all2_in [of marks_paid a b r] that show ?thesis by auto
  next
    case Paid
    with step list_all2_in [of refunds a b r] that show ?thesis by auto
  qed
  moreover have "pm_PaymentID r' = pm_PaymentID r \<and> pm_Memo r' = pm_Memo r \<and> pm_Amount r' = pm_Amount r
      \<and> rank (pm_State r) \<le> rank (pm_State r')" if "r' = r \<or> marks_paid r r' \<or> refunds r r'" for r r'
    using that by (auto simp: marks_paid_def refunds_def)
  ultimately show ?thesis unfolding forward_def by blast
qed

section \<open>A goroutine that owns the payments of one state\<close>

text \<open>The entries that \<open>w\<close> may add: its own steps, and requests.\<close>

definition own :: "worker \<Rightarrow> sb_call list \<Rightarrow> sb_call \<Rightarrow> bool" where
  "own w xs e \<longleftrightarrow> (\<forall>a b. e = SSql a b \<longrightarrow> worker_step w a b)"

definition base :: "sbot \<Rightarrow> bool" where
  "base s \<longleftrightarrow> table_ok (sb_rows s) \<and> sb_tx s = []"

lemma base_turn: "others_ok E w \<Longrightarrow> base s \<Longrightarrow> base (db_turn E s) \<and> (other_step w)\<^sup>*\<^sup>* (sb_rows s) (sb_rows (db_turn E s))"
  by (auto simp: base_def db_turn_def others_ok_def intro: others_table_ok)

lemma base_apply: "base s \<Longrightarrow> table_ok (f (sb_rows s)) \<Longrightarrow> base (db_apply f s)"
  by (simp add: base_def db_apply_def)

lemma base_cong: "sb_rows t = sb_rows s \<Longrightarrow> sb_tx t = sb_tx s \<Longrightarrow> base s \<Longrightarrow> base t"
  by (simp add: base_def)

lemma ids_inj: "table_ok rows \<Longrightarrow> r \<in> set rows \<Longrightarrow> r' \<in> set rows \<Longrightarrow> pm_PaymentID r = pm_PaymentID r' \<Longrightarrow> r = r'"
  by (auto simp: table_ok_def distinct_map inj_on_def)

locale row_owner =
  fixes w :: worker and st :: string and change :: "payment \<Rightarrow> payment \<Rightarrow> bool"
  assumes step: "worker_step w a b \<longleftrightarrow> list_all2 (\<lambda>r r'. r' = r \<or> pm_State r = st \<and> change r r') a b"
    and others: "v \<noteq> w \<Longrightarrow> worker_step v a b \<Longrightarrow> r \<in> set a \<Longrightarrow> pm_State r = st \<Longrightarrow> r \<in> set b"
begin

text \<open>The payments with these identifiers are in the table and have the state that \<open>w\<close> owns.\<close>

definition owns :: "string list \<Rightarrow> sbot \<Rightarrow> bool" where
  "owns ids s \<longleftrightarrow> base s \<and> distinct ids \<and> (\<forall>i \<in> set ids. \<exists>r \<in> set (sb_rows s). pm_PaymentID r = i \<and> pm_State r = st)"

lemma owns_base: "owns ids s \<Longrightarrow> base s"
  by (simp add: owns_def)

lemma owns_Nil: "owns [] s \<longleftrightarrow> base s"
  by (simp add: owns_def)

lemma owns_tl: "owns (i # ids) s \<Longrightarrow> owns ids s"
  by (auto simp: owns_def)

lemma owns_cong: "owns ids s \<Longrightarrow> sb_rows t = sb_rows s \<Longrightarrow> sb_tx t = sb_tx s \<Longrightarrow> owns ids t"
  by (simp add: owns_def base_def)

lemma others_keep: "(other_step w)\<^sup>*\<^sup>* a b \<Longrightarrow> r \<in> set a \<Longrightarrow> pm_State r = st \<Longrightarrow> r \<in> set b"
  by (induction rule: rtranclp_induct) (auto simp: other_step_def dest: others)

lemma owns_turn: "others_ok E w \<Longrightarrow> owns ids s \<Longrightarrow> owns ids (db_turn E s)"
  unfolding owns_def using base_turn others_keep by blast

lemma own_update:
  assumes "owns (i # ids) t" and "table_ok (update_row i f (sb_rows t))"
    and "\<And>r. pm_State r = st \<Longrightarrow> change r (f r) \<and> pm_PaymentID (f r) = pm_PaymentID r"
  shows "own w xs (SSql (sb_rows t) (update_row i f (sb_rows t)))" "owns ids (db_apply (update_row i f) t)"
    "(\<And>r. pm_State r = st \<Longrightarrow> pm_State (f r) = st) \<Longrightarrow> owns (i # ids) (db_apply (update_row i f) t)"
proof -
  from assms(1) obtain q where q: "q \<in> set (sb_rows t)" "pm_PaymentID q = i" "pm_State q = st" by (auto simp: owns_def)
  have tab: "table_ok (sb_rows t)" using assms(1) by (simp add: owns_def base_def)
  have one: "pm_State r = st" if "r \<in> set (sb_rows t)" "pm_PaymentID r = i" for r
    using ids_inj [OF tab that(1) q(1)] that(2) q by simp
  show "own w xs (SSql (sb_rows t) (update_row i f (sb_rows t)))"
    using one assms(3) by (auto simp: own_def step update_row_def list_all2_map2 intro!: list_all2_all_nthI)
  have keep: "\<exists>r' \<in> set (update_row i f (sb_rows t)). pm_PaymentID r' = j \<and> pm_State r' = st"
    if "j \<noteq> i" "\<exists>r \<in> set (sb_rows t). pm_PaymentID r = j \<and> pm_State r = st" for j
    using that by (force simp: update_row_def)
  have b: "base (db_apply (update_row i f) t)" 
    by (rule base_apply) (use assms(1,2) in \<open>simp_all add: owns_def\<close>)
  have tl: "\<exists>r' \<in> set (update_row i f (sb_rows t)). pm_PaymentID r' = j \<and> pm_State r' = st" if "j \<in> set ids" for j
    by (rule keep) (use assms(1) that in \<open>auto simp: owns_def\<close>)
  show "owns ids (db_apply (update_row i f) t)"
    using assms(1) b tl unfolding owns_def by (simp add: db_apply_def)
  have "f q \<in> set (update_row i f (sb_rows t))" using q by (force simp: update_row_def)
  then show "owns (i # ids) (db_apply (update_row i f) t)" if "\<And>r. pm_State r = st \<Longrightarrow> pm_State (f r) = st"
    using assms(1) b tl that [OF q(3)] assms(3) [OF q(3)] q(2) unfolding owns_def by (auto simp: db_apply_def)
qed

text \<open>A statement on an owned payment that keeps its state, and one that gives it away.\<close>

lemma keeps_set:
  assumes "others_ok E w" and "\<And>r. pm_State r = st \<Longrightarrow> change r (f r) \<and> pm_PaymentID (f r) = pm_PaymentID r \<and> pm_State (f r) = st"
  shows "keeps (own w) (owns (i # ids)) (db_write E (update_row i f)) (\<lambda>_. owns (i # ids)) (owns (i # ids))"
  by (rule keeps_db_write [where J = "owns (i # ids)"]) (use assms in \<open>blast intro: owns_turn own_update\<close>)+

lemma keeps_give:
  assumes "others_ok E w" and "\<And>r. pm_State r = st \<Longrightarrow> change r (f r) \<and> pm_PaymentID (f r) = pm_PaymentID r"
  shows "keeps (own w) (owns (i # ids)) (db_write E (update_row i f)) (\<lambda>_. owns ids) (owns ids)"
  by (rule keeps_db_write [where J = "owns (i # ids)"]) (use assms in \<open>blast intro: owns_turn own_update owns_tl\<close>)+

text \<open>The other calls.\<close>

lemma keeps_ask: "(\<And>x a b. c x \<noteq> SSql a b) \<Longrightarrow> keeps (own w) (owns ids) (outside c f) (\<lambda>_. owns ids) (owns ids)"
  by (rule keeps_outside) (auto simp: own_def intro: owns_cong)

lemma keeps_requests: "asks harmless m \<Longrightarrow> keeps (own w) (owns ids) m (\<lambda>_. owns ids) (owns ids)"
  by (rule keeps_asks [where P = harmless]) (auto simp: own_def call_kinds intro: owns_cong)

lemma keeps_pause: "keeps (own w) (owns ids) (pause n) (\<lambda>_. owns ids) (owns ids)"
  by (intro keeps_requests asks_intros)

lemma keeps_find:
  assumes "others_ok E w"
  shows "keeps (own w) base (FindPaymentsByState E st n) (\<lambda>ps. owns (map pm_PaymentID ps)) base"
proof -
  let ?P = "\<lambda>r. pm_State r = st"
  have own: "owns (map pm_PaymentID (take n (dbOrder E i (filter ?P (sb_rows t @ sb_tx t))))) t" if "base t" for i t
  proof -
    have "distinct (map pm_PaymentID (filter ?P (sb_rows t)))" using that by (simp add: base_def table_ok_def distinct_map_filter)
    from order_distinct [OF assms this] have d: "distinct (map pm_PaymentID (take n (dbOrder E i (filter ?P (sb_rows t)))))"
      unfolding take_map [symmetric] by (rule distinct_take)
    have sub: "\<forall>r \<in> set (take n (dbOrder E i (filter ?P (sb_rows t)))). r \<in> set (sb_rows t) \<and> ?P r"
      using set_take_subset [of n "dbOrder E i (filter ?P (sb_rows t))"] by (auto simp: order_set [OF assms])
    have "\<forall>j \<in> set (map pm_PaymentID (take n (dbOrder E i (filter ?P (sb_rows t))))).
        \<exists>r \<in> set (sb_rows t). pm_PaymentID r = j \<and> pm_State r = st"
      using sub unfolding set_map by blast
    moreover have "sb_tx t = []" using that by (simp add: base_def)
    ultimately show ?thesis using that d unfolding owns_def by simp
  qed
  show ?thesis unfolding FindPaymentsByState_def TransactionError_def
  proof (rule keeps_on_error)
    show "keeps (own w) base (abind (db_select E ?P) (\<lambda>ps. lift (Ok (take n ps)))) (\<lambda>ps. owns (map pm_PaymentID ps)) base"
    proof (rule keeps_abind)
      show "keeps (own w) base (db_select E ?P) (\<lambda>ps. owns (map pm_PaymentID (take n ps))) base"
        by (rule keeps_db_select [where J = base]) (rule base_turn [OF assms, THEN conjunct1] own, assumption)+
    qed (rule keeps_lift; simp)
  qed (rule keeps_lift; simp)
qed

text \<open>One round over the payments of the state.\<close>

lemma keeps_round:
  assumes "others_ok E w" and "\<And>p ids. keeps (own w) (owns (pm_PaymentID p # ids)) (body p) (\<lambda>_. owns ids) base"
  shows "keeps (own w) base (or_else (FindPaymentsByState E st n) (pause 1) (\<lambda>ps.
     abind (afold body ps) (\<lambda>_. if length ps < 1 then pause 10 else lift (Ok ())))) (\<lambda>_. base) base"
proof (rule keeps_or_else [OF keeps_find [OF assms(1)]])
  have p: "keeps (own w) base (pause k) (\<lambda>_. base) base" for k
    using keeps_pause [of "[]" k] by (simp add: owns_Nil [abs_def])
  then show "keeps (own w) base (pause 1) (\<lambda>_. base) base" .
  show "keeps (own w) (owns (map pm_PaymentID ps)) (abind (afold body ps) (\<lambda>_. if length ps < 1 then pause 10 else lift (Ok ())))
      (\<lambda>_. base) base" for ps
  proof (rule keeps_abind)
    show "keeps (own w) (owns (map pm_PaymentID ps)) (afold body ps) (\<lambda>_. owns []) base"
      using keeps_afold [where J = "\<lambda>ps :: payment list. owns (map pm_PaymentID ps)" and xs = ps and f = body] assms(2) by simp
  qed (use p in \<open>auto simp: owns_Nil [abs_def] intro: keeps_lift\<close>)
qed

end

definition to_paid :: "payment \<Rightarrow> payment \<Rightarrow> bool" where
  "to_paid r r' \<longleftrightarrow> r' = r\<lparr>pm_State := PaymentStatePaid\<rparr>"

definition to_refund :: "payment \<Rightarrow> payment \<Rightarrow> bool" where
  "to_refund r r' \<longleftrightarrow> pm_State r' \<in> {PaymentStatePaid, PaymentStateRefund} \<and>
     (\<exists>h raw st. r' = r\<lparr>pm_TransactionHash := h, pm_RawTransaction := raw, pm_State := st\<rparr>)"

lemma list_all2_fixed: "list_all2 R a b \<Longrightarrow> r \<in> set a \<Longrightarrow> (\<And>r'. R r r' \<Longrightarrow> r' = r) \<Longrightarrow> r \<in> set b"
  by (drule (1) list_all2_in) blast

lemma states_differ: "PaymentStatePaid \<noteq> PaymentStatePending" "PaymentStatePending \<noteq> PaymentStatePaid"
  "PaymentStateRefund \<noteq> PaymentStatePaid" "PaymentStatePaid \<noteq> PaymentStateRefund"
  by (simp_all add: state_names)

interpretation pending: row_owner Pending PaymentStatePending to_paid
proof
  fix v a b r assume v: "v \<noteq> Pending" "worker_step v a b" "r \<in> set a" "pm_State r = PaymentStatePending"
  then show "r \<in> set b"
    by (cases v) (auto simp: refunds_def states_differ elim!: list_all2_fixed)
qed (simp add: marks_paid_def to_paid_def [abs_def] cong: list.rel_cong)

interpretation paid: row_owner Paid PaymentStatePaid to_refund
proof
  fix v a b r assume v: "v \<noteq> Paid" "worker_step v a b" "r \<in> set a" "pm_State r = PaymentStatePaid"
  then show "r \<in> set b"
    by (cases v) (auto simp: marks_paid_def states_differ elim!: list_all2_fixed)
qed (simp add: refunds_def to_refund_def [abs_def] cong: list.rel_cong)

section \<open>The loops over payments\<close>

lemma to_paid_set: "to_paid r (r\<lparr>pm_State := ''paid''\<rparr>)"
  by (simp add: to_paid_def PaymentStatePaid_def)

lemma keeps_check_pending:
  assumes "others_ok E Pending"
  shows "keeps (own Pending) (pending.owns (pm_PaymentID p # ids)) (check_pending E p) (\<lambda>_. pending.owns ids) base"
  unfolding check_pending_def
proof (rule keeps_or_else)
  let ?tl = "pending.owns ids"
  have tl: "keeps (own Pending) ?tl (pause 1) (\<lambda>_. ?tl) base"
    by (rule keeps_weaken [OF pending.keeps_pause]) (auto dest: pending.owns_base)
  show "keeps (own Pending) (pending.owns (pm_PaymentID p # ids))
      (outside (\<lambda>_. SReadPaymentByCode (pm_CodeID p)) (\<lambda>i. botReadPaymentByCode E i (pm_CodeID p)))
      (\<lambda>_. pending.owns (pm_PaymentID p # ids)) ?tl"
    by (rule keeps_weaken [OF pending.keeps_ask [where ids = "pm_PaymentID p # ids"]]) (auto intro: pending.owns_tl)
  show "keeps (own Pending) ?tl (pause 1) (\<lambda>_. ?tl) base" by (rule tl)
  have give: "keeps (own Pending) (pending.owns (pm_PaymentID p # ids))
      (db_write E (update_row (pm_PaymentID p) (\<lambda>r. r\<lparr>pm_State := ''paid''\<rparr>))) (\<lambda>_. ?tl) ?tl"
    by (rule pending.keeps_give [OF assms]) (simp add: to_paid_set)
  show "keeps (own Pending) (pending.owns (pm_PaymentID p # ids)) (if bp_Status b = PaymentStatePaid
      then on_error (db_write E (update_row (pm_PaymentID p) (\<lambda>r. r\<lparr>pm_State := ''paid''\<rparr>))) (pause 1) else lift (Ok ()))
      (\<lambda>_. ?tl) base" for b
    using keeps_on_error [OF give tl] by (auto intro: keeps_lift pending.owns_tl)
qed

lemma keeps_LoopingPending: "others_ok E Pending \<Longrightarrow> keeps (own Pending) base (LoopingPendingPayments E n) (\<lambda>_. base) base"
  unfolding LoopingPendingPayments_def pending_round_def
  by (intro keeps_rounds pending.keeps_round keeps_check_pending)

text \<open>The steps of a refund keep the payment of the goroutine, up to the one that marks it.\<close>

definition held :: "string \<Rightarrow> string list \<Rightarrow> payment \<Rightarrow> sbot \<Rightarrow> bool" where
  "held i ids p s \<longleftrightarrow> pm_PaymentID p = i \<and> paid.owns (i # ids) s"

lemma keeps_paid_write:
  assumes "others_ok E Paid" and "\<And>r. \<exists>h raw. f r = r\<lparr>pm_TransactionHash := h, pm_RawTransaction := raw\<rparr>"
  shows "keeps (own Paid) (paid.owns (i # ids)) (db_write E (update_row i f)) (\<lambda>_. paid.owns (i # ids)) (paid.owns (i # ids))"
proof (rule paid.keeps_set [OF assms(1)])
  fix r :: payment assume st: "pm_State r = PaymentStatePaid"
  obtain h raw where f: "f r = r\<lparr>pm_TransactionHash := h, pm_RawTransaction := raw\<rparr>" using assms(2) by blast
  then have "f r = r\<lparr>pm_TransactionHash := h, pm_RawTransaction := raw, pm_State := PaymentStatePaid\<rparr>" using st by simp
  then show "to_refund r (f r) \<and> pm_PaymentID (f r) = pm_PaymentID r \<and> pm_State (f r) = PaymentStatePaid"
    unfolding to_refund_def by auto
qed

lemma raw_only: "\<exists>h x. r\<lparr>pm_RawTransaction := raw\<rparr> = r\<lparr>pm_TransactionHash := h, pm_RawTransaction := x\<rparr>"
  by (rule exI [of _ "pm_TransactionHash r"], rule exI [of _ raw]) simp

lemma keeps_set_raw:
  assumes "others_ok E Paid" "pm_PaymentID p = i"
  shows "keeps (own Paid) (paid.owns (i # ids)) (set_raw E p raw) (held i ids) (paid.owns (i # ids))"
  unfolding set_raw_def assms(2)
  by (rule keeps_abind [OF keeps_paid_write [OF assms(1) raw_only]]) (auto intro!: keeps_lift simp: held_def assms(2))

lemma keeps_take_signed:
  assumes "others_ok E Paid" "pm_PaymentID p = i"
  shows "keeps (own Paid) (paid.owns (i # ids)) (take_signed E p u) (held i ids) (paid.owns (i # ids))"
  unfolding take_signed_def using keeps_set_raw [OF assms] by (auto intro!: keeps_lift simp: held_def assms(2))

lemma keeps_build_raw:
  assumes "others_ok E Paid"
  shows "keeps (own Paid) (held i ids p) (build_raw E p u) (held i ids) (paid.owns (i # ids))"
proof (cases "pm_PaymentID p = i")
  case True
  have "keeps (own Paid) (paid.owns (i # ids)) (abind (if raw = [] then new_raw E p u else lift (Ok raw)) (set_raw E p)) (held i ids)
      (paid.owns (i # ids))" for raw
    by (rule keeps_abind [where Q' = "\<lambda>_. paid.owns (i # ids)"])
      (auto intro: paid.keeps_requests [OF asks_new_raw] keeps_set_raw [OF assms True] keeps_lift)
  then show ?thesis unfolding build_raw_def Let_def held_def
    using True by (auto intro!: keeps_lift simp: held_def)
qed (simp add: keeps_def held_def)

lemma keeps_mark_refund:
  assumes "others_ok E Paid"
  shows "keeps (own Paid) (held i ids p) (mark_refund E p) (\<lambda>_. paid.owns ids) (paid.owns ids)"
proof (cases "pm_PaymentID p = i")
  case True
  have "\<exists>h raw st. r\<lparr>pm_State := ''refund''\<rparr> = r\<lparr>pm_TransactionHash := h, pm_RawTransaction := raw, pm_State := st\<rparr>" for r :: payment
    by (rule exI [of _ "pm_TransactionHash r"], rule exI [of _ "pm_RawTransaction r"], rule exI [of _ "''refund''"]) simp
  then show ?thesis using True unfolding mark_refund_def held_def
    by (simp add: paid.keeps_give [OF assms] to_refund_def PaymentStateRefund_def)
qed (simp add: keeps_def held_def)

lemma keeps_held_requests: "asks (\<lambda>e. \<not> is_sql e) m \<Longrightarrow> keeps (own Paid) (held i ids p) m (\<lambda>_. held i ids p) (held i ids p)"
  by (rule keeps_asks [where P = "\<lambda>e. \<not> is_sql e"]) (auto simp: own_def is_sql_def held_def intro: paid.owns_cong)

lemma asks_harmless: "asks harmless m \<Longrightarrow> asks (\<lambda>e. \<not> is_sql e) m"
  by (rule asks_mono [where P = harmless]) (simp_all add: harmless_def)

lemma held_tl: "held i ids p s \<Longrightarrow> paid.owns ids s"
  by (auto simp: held_def intro: paid.owns_tl)

lemma keeps_already_sent:
  assumes "others_ok E Paid"
  shows "keeps (own Paid) (held i ids p) (already_sent E p) (\<lambda>b. if b then paid.owns ids else held i ids p) (paid.owns ids)"
proof -
  have look: "keeps (own Paid) (held i ids p) (look_up E h) (\<lambda>_. held i ids p) (paid.owns ids)" for h
    by (rule keeps_weaken [OF keeps_held_requests [OF asks_harmless [OF asks_look_up]]]) (auto intro: held_tl)
  have mark: "keeps (own Paid) (held i ids p) (abind (mark_refund E p) (\<lambda>_. lift (Ok True)))
      (\<lambda>b. if b then paid.owns ids else held i ids p) (paid.owns ids)"
    by (rule keeps_abind [OF keeps_mark_refund [OF assms]]) (auto intro: keeps_lift)
  have no: "keeps (own Paid) (held i ids p) (lift (Ok False)) (\<lambda>b. if b then paid.owns ids else held i ids p) (paid.owns ids)"
    by (auto intro: keeps_lift)
  show ?thesis
  proof (cases "pm_TransactionHash p")
    case (Some h)
    then show ?thesis unfolding already_sent_def by simp (rule keeps_abind [OF look], use mark no in \<open>simp split: if_split\<close>)
  qed (use no in \<open>simp add: already_sent_def\<close>)
qed

lemma keeps_set_signed:
  assumes "others_ok E Paid"
  shows "keeps (own Paid) (held i ids p) (set_signed E p req) (held i ids) (paid.owns (i # ids))"
proof (cases "pm_PaymentID p = i")
  case True
  have "keeps (own Paid) (paid.owns (i # ids)) (db_write E (update_row i (\<lambda>r. r\<lparr>pm_TransactionHash := h, pm_RawTransaction := x\<rparr>)))
      (\<lambda>_. paid.owns (i # ids)) (paid.owns (i # ids))" for h x
    by (rule keeps_paid_write [OF assms]) blast
  then show ?thesis unfolding set_signed_def held_def
    using True by (auto intro!: keeps_lift keeps_abind simp: held_def)
qed (simp add: keeps_def held_def)

lemma keeps_send_refund:
  assumes "others_ok E Paid"
  shows "keeps (own Paid) (held i ids p) (send_refund E p) (\<lambda>_. paid.owns ids) (paid.owns ids)"
proof -
  let ?K = "paid.owns ids"
  have req: "keeps (own Paid) (held i ids p) m (\<lambda>_. held i ids p) ?K" if "asks (\<lambda>e. \<not> is_sql e) m" for m :: "'x bot"
    by (rule keeps_weaken [OF keeps_held_requests [OF that]]) (auto intro: held_tl)
  have send: "asks (\<lambda>e. \<not> is_sql e) (if b then abind (SendRawTransaction E raw) (\<lambda>_. lift (Ok ())) else lift (Ok ()))" for b raw
    by (intro asks_if asks_abind asks_SendRawTransaction asks_lift)
  show ?thesis unfolding send_refund_def
  proof (rule keeps_abind)
    fix ver
    show "keeps (own Paid) (held i ids p) (if int (length (vt_SignaturesMap ver)) < pm_Threshold p then lift (Ok ())
        else abind (look_up E (null_string (pm_TransactionHash p))) (\<lambda>tx.
          abind (if tx = None then abind (SendRawTransaction E (null_string (pm_RawTransaction p))) (\<lambda>_. lift (Ok ())) else lift (Ok ()))
          (\<lambda>_. mark_refund E p))) (\<lambda>_. ?K) ?K"
    proof (cases "int (length (vt_SignaturesMap ver)) < pm_Threshold p")
      case False
      show ?thesis unfolding if_not_P [OF False]
        by (rule keeps_abind [OF req [OF asks_harmless [OF asks_look_up]] keeps_abind [OF req [OF send] keeps_mark_refund [OF assms]]])
    qed (auto intro!: keeps_lift held_tl)
  qed (rule req [OF asks_lift])
qed

lemma keeps_refund:
  assumes "others_ok E Paid"
  shows "keeps (own Paid) (paid.owns (pm_PaymentID p # ids)) (refund E p) (\<lambda>_. paid.owns ids) (paid.owns ids)"
  unfolding refund_def
proof (rule keeps_abind)
  let ?i = "pm_PaymentID p" and ?K = "paid.owns ids"
  show "keeps (own Paid) (paid.owns (?i # ids)) (ReadMultisig E (pm_Amount p) (pm_Memo p)) (\<lambda>_. paid.owns (?i # ids)) ?K"
    by (rule keeps_weaken [OF paid.keeps_requests [OF asks_ReadMultisig, where ids = "?i # ids"]]) (auto intro: paid.owns_tl)
  have sign: "keeps (own Paid) (held ?i ids q) (sign_request E raw) (\<lambda>_. held ?i ids q) ?K" for q raw
    by (rule keeps_weaken [OF keeps_held_requests [OF asks_harmless [OF asks_sign_request]]]) (auto intro: held_tl)
  have signed: "keeps (own Paid) (held ?i ids q) (set_signed E q req) (held ?i ids) ?K" for q req
    by (rule keeps_weaken [OF keeps_set_signed [OF assms]]) (auto intro: paid.owns_tl)
  have finish: "keeps (own Paid) (if b then ?K else held ?i ids q) (if b then lift (Ok ()) else
      abind (sign_request E (null_string (pm_RawTransaction q))) (\<lambda>req. abind (set_signed E q req) (send_refund E))) (\<lambda>_. ?K) ?K" for q b
    using keeps_abind [OF sign keeps_abind [OF signed keeps_send_refund [OF assms]]] by (auto intro: keeps_lift)
  have stages: "keeps (own Paid) (paid.owns (?i # ids)) (abind (take_signed E p u) (\<lambda>p. abind (build_raw E p u) (\<lambda>p.
      abind (already_sent E p) (\<lambda>sent. if sent then lift (Ok ()) else
      abind (sign_request E (null_string (pm_RawTransaction p))) (\<lambda>req. abind (set_signed E p req) (send_refund E))))))
      (\<lambda>_. ?K) ?K" for u
  proof (rule keeps_abind)
    show "keeps (own Paid) (paid.owns (?i # ids)) (take_signed E p u) (held ?i ids) ?K"
      by (rule keeps_weaken [OF keeps_take_signed [OF assms refl]]) (auto intro: paid.owns_tl)
    show "keeps (own Paid) (held ?i ids q) (abind (build_raw E q u) (\<lambda>p. abind (already_sent E p) (\<lambda>sent. if sent then lift (Ok ()) else
      abind (sign_request E (null_string (pm_RawTransaction p))) (\<lambda>req. abind (set_signed E p req) (send_refund E)))))
      (\<lambda>_. ?K) ?K" for q
    proof (rule keeps_abind)
      show "keeps (own Paid) (held ?i ids q) (build_raw E q u) (held ?i ids) ?K"
        by (rule keeps_weaken [OF keeps_build_raw [OF assms]]) (auto intro: paid.owns_tl)
    qed (rule keeps_abind [OF keeps_already_sent [OF assms] finish])
  qed
  show "keeps (own Paid) (paid.owns (?i # ids)) (case inp of None \<Rightarrow> lift (Ok ()) | Some u \<Rightarrow>
      abind (take_signed E p u) (\<lambda>p. abind (build_raw E p u) (\<lambda>p.
      abind (already_sent E p) (\<lambda>sent. if sent then lift (Ok ()) else
      abind (sign_request E (null_string (pm_RawTransaction p))) (\<lambda>req. abind (set_signed E p req) (send_refund E))))))
      (\<lambda>_. ?K) ?K" for inp
    by (cases inp) (auto intro: stages keeps_lift paid.owns_tl)
qed

lemma keeps_LoopingPaid: "others_ok E Paid \<Longrightarrow> keeps (own Paid) base (LoopingPaidPayments E n) (\<lambda>_. base) base"
  unfolding LoopingPaidPayments_def paid_round_def
proof (intro keeps_rounds paid.keeps_round keeps_on_error [OF keeps_refund])
  show "keeps (own Paid) (paid.owns ids) (pause 1) (\<lambda>_. paid.owns ids) base" for ids
    by (rule keeps_weaken [OF paid.keeps_pause]) (auto dest: paid.owns_base)
qed

end
