(* ===== verification/Sample_Message_Laws.thy ===== *)
theory Sample_Message_Laws
  imports Sample_Laws
begin

text \<open>
  The sample bot: what the message service does to the table of payments when it asks a user for one, while the loops over
  payments have their turns, and the transaction in which it inserts the payment.
\<close>

section \<open>The message service\<close>

text \<open>The payments that a user is asked for; there is at most one, for a user with an identifier in the printed form.\<close>

definition pending_of :: "string \<Rightarrow> payment list \<Rightarrow> payment list" where
  "pending_of u rows = filter (\<lambda>r. pm_Memo r = u \<and> pm_State r = PaymentStatePending) rows"

definition single :: "'z sbot_env_scheme \<Rightarrow> payment list \<Rightarrow> bool" where
  "single E rows \<longleftrightarrow> (\<forall>u. canonical E u \<longrightarrow> length (pending_of u rows) \<le> 1)"

definition echoes :: "'z sbot_env_scheme \<Rightarrow> bool" where
  "echoes E \<longleftrightarrow> (\<forall>i q b. botCreatePaymentRequest E i q = Ok b \<longrightarrow>
     bp_TraceId b = pq_TraceId q \<and> bp_Memo b = pq_Memo q \<and> bp_Status b = PaymentStatePending)"

text \<open>What the other goroutines do makes no payment pending, and no new identifiers.\<close>

definition settles :: "payment list \<Rightarrow> payment list \<Rightarrow> bool" where
  "settles a b \<longleftrightarrow> map pm_PaymentID b = map pm_PaymentID a \<and> (\<forall>u. length (pending_of u b) \<le> length (pending_of u a))"

lemma settles_pointwise:
  assumes "list_all2 R a b" "\<And>r r'. R r r' \<Longrightarrow> r' = r \<or> pm_PaymentID r' = pm_PaymentID r \<and> pm_State r' \<noteq> PaymentStatePending"
  shows "settles a b"
  using assms(1) unfolding settles_def
proof (induction rule: list_all2_induct)
  case (Cons x xs y ys)
  have l: "length (pending_of u ys) \<le> length (pending_of u xs)" for u using Cons.IH by blast
  from assms(2) [OF Cons.hyps(1)] Cons.IH l show ?case
    by (auto simp: pending_of_def intro: le_SucI)
qed (simp add: pending_of_def)

lemma settles_step: "v \<noteq> Messages \<Longrightarrow> worker_step v a b \<Longrightarrow> settles a b"
proof (cases v)
  case Pending
  assume "worker_step v a b"
  then show ?thesis using Pending
    by (auto intro!: settles_pointwise [of marks_paid] simp: marks_paid_def states_differ)
next
  case Paid
  assume "worker_step v a b"
  then show ?thesis using Paid
    by (auto intro!: settles_pointwise [of refunds] simp: refunds_def state_names)
qed simp

lemma settles_others: "(other_step Messages)\<^sup>*\<^sup>* a b \<Longrightarrow> settles a b"
proof (induction rule: rtranclp_induct)
  case (step b c)
  then have "settles b c" using settles_step by (auto simp: other_step_def)
  with step.IH show ?case unfolding settles_def by (metis le_trans)
qed (simp add: settles_def)

lemma single_settles: "settles a b \<Longrightarrow> single E a \<Longrightarrow> single E b"
  unfolding single_def settles_def by (meson le_trans)

definition asking :: "'z sbot_env_scheme \<Rightarrow> sbot \<Rightarrow> bool" where
  "asking E s \<longleftrightarrow> base s \<and> single E (sb_rows s)"

definition fresh :: "'z sbot_env_scheme \<Rightarrow> payment list \<Rightarrow> bool" where
  "fresh E rows \<longleftrightarrow> pm_PaymentID ` set rows \<inter> range (uuidV4 E) = {}"

definition none_yet :: "'z sbot_env_scheme \<Rightarrow> string \<Rightarrow> sbot \<Rightarrow> bool" where
  "none_yet E u s \<longleftrightarrow> table_ok (sb_rows s) \<and> single E (sb_rows s) \<and> (canonical E u \<longrightarrow> pending_of u (sb_rows s) = []) \<and> fresh E (sb_rows s)"

lemma fresh_settles: "settles a b \<Longrightarrow> fresh E a \<Longrightarrow> fresh E b"
  unfolding settles_def fresh_def by (metis set_map)

lemma none_yet_settles: "settles (sb_rows s) (sb_rows t) \<Longrightarrow> none_yet E u s \<Longrightarrow> table_ok (sb_rows t) \<Longrightarrow> none_yet E u t"
  using single_settles [of "sb_rows s" "sb_rows t" E] fresh_settles [of "sb_rows s" "sb_rows t" E]
  unfolding none_yet_def by (auto simp: settles_def) (metis le_zero_eq length_0_conv)

lemma turn_settles: "others_ok E Messages \<Longrightarrow> table_ok (sb_rows s) \<Longrightarrow>
   settles (sb_rows s) (sb_rows (db_turn E s)) \<and> table_ok (sb_rows (db_turn E s)) \<and> sb_tx (db_turn E s) = sb_tx s"
  by (auto simp: db_turn_def others_ok_def intro: settles_others others_table_ok)

lemma none_yet_turn: "others_ok E Messages \<Longrightarrow> none_yet E u s \<Longrightarrow> none_yet E u (db_turn E s)"
  by (rule none_yet_settles [of s]) (auto simp: none_yet_def dest: turn_settles)

lemma asking_turn: "others_ok E Messages \<Longrightarrow> asking E s \<Longrightarrow> asking E (db_turn E s)"
  using turn_settles [of E s] by (auto simp: asking_def base_def intro: single_settles)

lemma none_yet_asking: "none_yet E u s \<Longrightarrow> sb_tx s = [] \<Longrightarrow> asking E s"
  by (simp add: none_yet_def asking_def base_def)

lemma order_short: "mset ys = mset xs \<Longrightarrow> length xs \<le> 1 \<Longrightarrow> ys = xs"
  by (cases xs) auto

lemma keeps_FindPaymentByMemo:
  assumes "others_ok E Messages"
  shows "keeps (own Messages) (\<lambda>s. asking E s \<and> fresh E (sb_rows s)) (FindPaymentByMemo E u)
    (\<lambda>old s. case old of None \<Rightarrow> none_yet E u s \<and> sb_tx s = []
       | Some p \<Rightarrow> asking E s \<and> pending_of u (sb_rows s) = [p]) (asking E)"
  (is "keeps ?G ?I _ ?Q ?K")
proof (cases "canonical E u")
  case True
  have found: "case first_row (dbOrder E i (filter (\<lambda>r. pm_Memo r = u \<and> pm_State r = ''pending'') (sb_rows t @ sb_tx t))) of
      None \<Rightarrow> none_yet E u t \<and> sb_tx t = [] | Some p \<Rightarrow> asking E t \<and> pending_of u (sb_rows t) = [p]" if "?I t" for i t
  proof -
    have e: "filter (\<lambda>r. pm_Memo r = u \<and> pm_State r = ''pending'') (sb_rows t @ sb_tx t) = pending_of u (sb_rows t)"
      using that by (simp add: pending_of_def PaymentStatePending_def asking_def base_def)
    have l: "length (pending_of u (sb_rows t)) \<le> 1" using that True by (simp add: asking_def single_def)
    have "mset (dbOrder E i (pending_of u (sb_rows t))) = mset (pending_of u (sb_rows t))" using assms by (simp add: others_ok_def)
    from order_short [OF this l] l show ?thesis unfolding e using that
      by (cases "pending_of u (sb_rows t)") (auto simp: first_row_def none_yet_def asking_def base_def)
  qed
  have turn: "?I (db_turn E s)" if "?I s" for s
  proof -
    have "table_ok (sb_rows s)" using that by (simp add: asking_def base_def)
    from turn_settles [OF assms this] that asking_turn [OF assms] show ?thesis by (blast intro: fresh_settles)
  qed
  have "keeps ?G ?I (FindPaymentByMemo E u) ?Q ?K"
    unfolding FindPaymentByMemo_def using True
  proof simp
    show "keeps ?G ?I (abind (db_select E (\<lambda>r. pm_Memo r = u \<and> pm_State r = ''pending'')) (\<lambda>ps. lift (Ok (first_row ps)))) ?Q ?K"
    proof (rule keeps_abind)
      show "keeps ?G ?I (db_select E (\<lambda>r. pm_Memo r = u \<and> pm_State r = ''pending''))
          (\<lambda>ps s. ?Q (first_row ps) s) ?K"
        by (rule keeps_db_select [where J = ?I]) (rule turn found, assumption | simp)+
    qed (rule keeps_lift; simp)
  qed
  then show ?thesis .
next
  case False
  then show ?thesis unfolding FindPaymentByMemo_def
    by simp (rule keeps_lift; simp add: none_yet_def asking_def base_def)
qed

section \<open>The transaction\<close>

text \<open>The payment \<open>p\<close> is inserted and not yet there for the others, and then it is the one the user is asked for.\<close>

definition inserted :: "'z sbot_env_scheme \<Rightarrow> payment \<Rightarrow> sbot \<Rightarrow> bool" where
  "inserted E p s \<longleftrightarrow> none_yet E (pm_Memo p) s \<and> sb_tx s = [p]"

definition asked_for :: "'z sbot_env_scheme \<Rightarrow> payment \<Rightarrow> sbot \<Rightarrow> bool" where
  "asked_for E p s \<longleftrightarrow> asking E s \<and> (canonical E (pm_Memo p) \<longrightarrow> pending_of (pm_Memo p) (sb_rows s) = [p])"

definition waiting :: "'z sbot_env_scheme \<Rightarrow> string \<Rightarrow> sbot \<Rightarrow> bool" where
  "waiting E u s \<longleftrightarrow> none_yet E u s \<and> sb_tx s = []"

lemma waiting_turn: "others_ok E Messages \<Longrightarrow> waiting E u s \<Longrightarrow> waiting E u (db_turn E s)"
  using none_yet_turn [of E u s] turn_settles [of E s] by (auto simp: waiting_def none_yet_def)

lemma waiting_asking: "waiting E u s \<Longrightarrow> asking E s"
  by (auto simp: waiting_def intro: none_yet_asking)

lemma waiting_cong: "waiting E u s \<Longrightarrow> sb_rows t = sb_rows s \<Longrightarrow> sb_tx t = sb_tx s \<Longrightarrow> waiting E u t"
  by (simp add: waiting_def none_yet_def)

lemma pending_of_append: "pending_of u (xs @ ys) = pending_of u xs @ pending_of u ys"
  by (simp add: pending_of_def)

lemma insert_single:
  assumes "inserted E p s" "pm_State p = PaymentStatePending" "table_ok (sb_rows s @ [p])"
  shows "asked_for E p ((db_apply (\<lambda>rows. rows @ [p]) s)\<lparr>sb_tx := []\<rparr>)"
proof -
  have "length (pending_of u (sb_rows s @ [p])) \<le> 1" if "canonical E u" for u
    using assms(1,2) that by (cases "u = pm_Memo p") (auto simp: inserted_def none_yet_def single_def pending_of_append pending_of_def)
  then show ?thesis using assms
    by (auto simp: asked_for_def asking_def base_def db_apply_def single_def inserted_def none_yet_def pending_of_append pending_of_def)
qed

lemma keeps_tx_insert:
  assumes "others_ok E Messages"
  shows "keeps (own Messages) (waiting E (pm_Memo p)) (tx_insert E p) (\<lambda>_. inserted E p) (waiting E (pm_Memo p))"
proof (rule keepsI)
  fix s r t assume w: "waiting E (pm_Memo p) s" and run: "tx_insert E p s = (r, t)"
  note u = waiting_turn [OF assms w]
  have l: "sb_log (db_turn E s) = sb_log s" by (simp add: db_turn_def)
  have "r = Ok () \<and> t = (db_turn E s)\<lparr>sb_tx := [p]\<rparr> \<or> (\<exists>e. r = Err e) \<and> t = db_turn E s"
    using run u by (auto simp: tx_insert_def Let_def waiting_def split: option.splits if_splits)
  then show "grows (own Messages) (sb_log s) (sb_log t) \<and> ends (\<lambda>_. inserted E p) (waiting E (pm_Memo p)) r t"
    using u l by (auto simp: inserted_def waiting_def none_yet_def intro: grows.none)
qed

lemma keeps_tx_commit:
  assumes "others_ok E Messages" "pm_State p = PaymentStatePending"
  shows "keeps (own Messages) (inserted E p) (tx_commit E) (\<lambda>_. asked_for E p) (asking E)"
proof (rule keepsI)
  fix s r t assume i: "inserted E p s" and run: "tx_commit E s = (r, t)"
  let ?u = "db_turn E s" and ?f = "\<lambda>rows. rows @ [p]"
  have u: "inserted E p ?u" using i none_yet_turn [OF assms(1)] turn_settles [OF assms(1), of s] by (auto simp: inserted_def none_yet_def)
  have l: "sb_log ?u = sb_log s" by (simp add: db_turn_def)
  have no: "asking E (?u\<lparr>sb_tx := []\<rparr>)" using u by (auto simp: inserted_def none_yet_def asking_def base_def)
  have "(r = Ok () \<or> (\<exists>e. r = Err e)) \<and> table_ok (sb_rows ?u @ [p]) \<and> t = (db_apply ?f ?u)\<lparr>sb_tx := []\<rparr>
    \<or> (\<exists>e. r = Err e) \<and> t = ?u\<lparr>sb_tx := []\<rparr>"
    using run i by (auto simp: tx_commit_def db_write_def Let_def inserted_def split: option.splits if_splits prod.splits)
  moreover have "grows (own Messages) (sb_log s) (sb_log ((db_apply ?f ?u)\<lparr>sb_tx := []\<rparr>))"
    using l by (auto simp: db_apply_def own_def)
  ultimately show "grows (own Messages) (sb_log s) (sb_log t) \<and> ends (\<lambda>_. asked_for E p) (asking E) r t"
    using insert_single [OF u assms(2)] no l by (auto simp: asked_for_def intro: grows.none)
qed

lemma keeps_ends:
  assumes "others_ok E Messages" and "f = tx_begin E \<or> f = tx_rollback E"
  shows "keeps (own Messages) (waiting E u) f (\<lambda>_. waiting E u) (waiting E u)"
proof (rule keepsI)
  fix s r t assume w: "waiting E u s" and run: "f s = (r, t)"
  note t = waiting_turn [OF assms(1) w]
  have "sb_log (db_turn E s) = sb_log s" by (simp add: db_turn_def)
  then show "grows (own Messages) (sb_log s) (sb_log t) \<and> ends (\<lambda>_. waiting E u) (waiting E u) r t"
    using run t assms(2) by (auto simp: tx_begin_def tx_rollback_def Let_def waiting_def none_yet_def intro: grows.none split: option.splits)
qed

lemma keeps_insert_new:
  assumes "others_ok E Messages" "pm_PaymentID p \<in> range (uuidV4 E)"
  shows "keeps (own Messages) (waiting E (pm_Memo p)) (abind (findPaymentByID E (pm_PaymentID p)) (\<lambda>old.
     if old \<noteq> None then lift (Ok ()) else tx_insert E p)) (\<lambda>_. inserted E p) (waiting E (pm_Memo p))"
proof (rule keeps_abind)
  let ?I = "waiting E (pm_Memo p)" and ?P = "\<lambda>r. pm_PaymentID r = pm_PaymentID p"
  have none: "first_row (dbOrder E i (filter ?P (sb_rows t @ sb_tx t))) = None \<and> ?I t" if "?I t" for i t
  proof -
    have "filter ?P (sb_rows t @ sb_tx t) = []"
      using that assms(2) by (auto simp: waiting_def none_yet_def fresh_def filter_empty_conv)
    moreover have "dbOrder E i [] = []" using order_set [OF assms(1), of i "[]"] by simp
    ultimately show ?thesis using that by (simp add: first_row_def)
  qed
  have sel: "keeps (own Messages) ?I (db_select E ?P) (\<lambda>ps s. first_row ps = None \<and> ?I s) ?I"
    by (rule keeps_db_select [where J = ?I]) (rule waiting_turn [OF assms(1)] none, assumption)+
  show "keeps (own Messages) ?I (findPaymentByID E (pm_PaymentID p)) (\<lambda>old s. old = None \<and> ?I s) ?I"
  proof (cases "canonical E (pm_PaymentID p)")
    case True
    have "keeps (own Messages) ?I (abind (db_select E ?P) (\<lambda>ps. lift (Ok (first_row ps)))) (\<lambda>old s. old = None \<and> ?I s) ?I"
      by (rule keeps_abind [OF sel]) (rule keeps_lift; simp)
    then show ?thesis using True by (simp add: findPaymentByID_def)
  qed (auto intro: keeps_lift simp: findPaymentByID_def)
  show "keeps (own Messages) (\<lambda>s. old = None \<and> ?I s) (if old \<noteq> None then lift (Ok ()) else tx_insert E p) (\<lambda>_. inserted E p) ?I" for old
    using keeps_tx_insert [OF assms(1)] by (cases old) (auto simp: keeps_def)
qed

lemma keeps_RunInTransaction:
  assumes "keeps G I (tx_begin E) (\<lambda>_. J) K" and "keeps G J fn (\<lambda>_. T) J"
    and "keeps G T (tx_commit E) Q K" and "keeps G J (tx_rollback E) (\<lambda>_. K) K"
  shows "keeps G I (RunInTransaction E fn) Q K"
  unfolding RunInTransaction_def
proof (rule keeps_abind [OF assms(1)])
  have roll: "keeps G J (abind (tx_rollback E) (\<lambda>_. lift (Err e))) Q K" for e
    by (rule keeps_abind [OF assms(4)]) (rule keeps_lift; simp)
  show "keeps G J (\<lambda>s. case fn s of (Ok _, t) \<Rightarrow> tx_commit E t
      | (Err e, t) \<Rightarrow> abind (tx_rollback E) (\<lambda>_. lift (Err e)) t | (Panic e, t) \<Rightarrow> (Panic e, t\<lparr>sb_tx := []\<rparr>)) Q K"
    by (rule keeps_seq [OF assms(2), where f = "\<lambda>_. tx_commit E" and h = "\<lambda>e. abind (tx_rollback E) (\<lambda>_. lift (Err e))"])
      (use assms(3) roll in simp_all)
qed

lemma keeps_CreatedPayment:
  assumes "others_ok E Messages" "bp_TraceId b \<in> range (uuidV4 E)" "bp_Status b = PaymentStatePending"
  shows "keeps (own Messages) (waiting E (bp_Memo b)) (CreatedPayment E b)
    (\<lambda>p s. p = payment_of b \<and> asked_for E p s) (asking E)"
proof -
  let ?p = "payment_of b"
  let ?fn = "abind (findPaymentByID E (pm_PaymentID ?p)) (\<lambda>old. if old \<noteq> None then lift (Ok ()) else tx_insert E ?p)"
  have m: "pm_Memo ?p = bp_Memo b" and st: "pm_State ?p = PaymentStatePending" and i: "pm_PaymentID ?p \<in> range (uuidV4 E)"
    using assms(2,3) by (simp_all add: payment_of_def)
  let ?I = "waiting E (pm_Memo ?p)"
  note ends = keeps_ends [OF assms(1), where u = "pm_Memo ?p"]
  have "keeps (own Messages) ?I (RunInTransaction E ?fn) (\<lambda>_. asked_for E ?p) (asking E)"
  proof (rule keeps_RunInTransaction)
    show "keeps (own Messages) ?I (tx_begin E) (\<lambda>_. ?I) (asking E)"
      by (rule keeps_weaken [OF ends]) (auto intro: waiting_asking)
    show "keeps (own Messages) ?I ?fn (\<lambda>_. inserted E ?p) ?I" by (rule keeps_insert_new [OF assms(1) i])
    show "keeps (own Messages) (inserted E ?p) (tx_commit E) (\<lambda>_. asked_for E ?p) (asking E)" by (rule keeps_tx_commit [OF assms(1) st])
    show "keeps (own Messages) ?I (tx_rollback E) (\<lambda>_. asking E) (asking E)"
      by (rule keeps_weaken [OF ends]) (auto intro: waiting_asking)
  qed
  then have "keeps (own Messages) ?I (TransactionError (RunInTransaction E ?fn)) (\<lambda>_. asked_for E ?p) (asking E)"
    unfolding TransactionError_def by (rule keeps_on_error) (rule keeps_lift; simp)
  then show ?thesis unfolding CreatedPayment_def Let_def m [symmetric]
    by (rule keeps_abind) (rule keeps_lift; simp)
qed

text \<open>A message of a user, whose code is that of the payment the user is asked for.\<close>

lemma keeps_HandleMessage:
  assumes "others_ok E Messages" "echoes E"
  shows "keeps (own Messages) (\<lambda>s. asking E s \<and> fresh E (sb_rows s)) (HandleMessage E u)
    (\<lambda>c s. asking E s \<and> (canonical E u \<longrightarrow> (\<exists>p. pending_of u (sb_rows s) = [p] \<and> pm_CodeID p = c))) (asking E)"
  (is "keeps ?G _ _ ?Q ?K")
proof -
  let ?F = "range (uuidV4 E)"
  have trace: "keeps ?G (waiting E u) (draw (uuidV4 E)) (\<lambda>x s. x \<in> ?F \<and> waiting E u s) ?K"
    by (rule keepsI) (auto simp: draw_def waiting_def none_yet_def)
  have num: "keeps ?G (waiting E u) (draw (randIntn E)) (\<lambda>_. waiting E u) ?K"
    by (rule keepsI) (auto simp: draw_def waiting_def none_yet_def)
  have req: "keeps ?G (waiting E u) (outside (\<lambda>_. SCreatePaymentRequest q) (\<lambda>i. botCreatePaymentRequest E i q))
      (\<lambda>b s. bp_TraceId b = pq_TraceId q \<and> bp_Memo b = pq_Memo q \<and> bp_Status b = PaymentStatePending \<and> waiting E u s) ?K" for q
    by (rule keeps_outside) (use assms(2) in \<open>auto simp: own_def echoes_def intro: waiting_cong waiting_asking\<close>)
  have created: "keeps ?G (\<lambda>s. bp_TraceId b = pq_TraceId q \<and> bp_Memo b = pq_Memo q \<and> bp_Status b = PaymentStatePending \<and> waiting E u s)
      (abind (CreatedPayment E b) (\<lambda>p. lift (Ok (pm_CodeID p)))) ?Q ?K" if "pq_TraceId q \<in> ?F" "pq_Memo q = u" for b q
  proof (cases "bp_TraceId b \<in> ?F \<and> bp_Memo b = u \<and> bp_Status b = PaymentStatePending")
    case True
    have "keeps ?G (waiting E u) (abind (CreatedPayment E b) (\<lambda>p. lift (Ok (pm_CodeID p)))) ?Q ?K"
      by (rule keeps_abind) (use keeps_CreatedPayment [OF assms(1), of b] True in \<open>auto intro!: keeps_lift simp: asked_for_def payment_of_def\<close>)
    then show ?thesis by (rule keeps_weaken) auto
  qed (use that in \<open>auto simp: keeps_def\<close>)
  have rest: "keeps ?G (\<lambda>s. x \<in> ?F \<and> waiting E u s) (ask_payment E u n x) ?Q ?K" for n x
  proof (cases "x \<in> ?F")
    case True
    then show ?thesis unfolding ask_payment_def Let_def by simp (rule keeps_abind [OF req created]; simp)
  qed (simp add: keeps_def)
  show ?thesis unfolding HandleMessage_def
  proof (rule keeps_abind [OF keeps_FindPaymentByMemo [OF assms(1)]])
    show "keeps ?G (\<lambda>s. case old of None \<Rightarrow> none_yet E u s \<and> sb_tx s = [] | Some p \<Rightarrow> asking E s \<and> pending_of u (sb_rows s) = [p])
        (case old of Some p \<Rightarrow> lift (Ok (pm_CodeID p)) | None \<Rightarrow>
          abind (draw (randIntn E)) (\<lambda>n. abind (draw (uuidV4 E)) (ask_payment E u n))) ?Q ?K" for old
    proof (cases old)
      case None
      have "keeps ?G (waiting E u) (abind (draw (randIntn E)) (\<lambda>n. abind (draw (uuidV4 E)) (ask_payment E u n))) ?Q ?K"
        by (rule keeps_abind [OF num keeps_abind [OF trace rest]])
      then show ?thesis using None by (simp add: waiting_def [abs_def])
    next
      case (Some p)
      then show ?thesis by simp (rule keeps_lift; simp)
    qed
  qed
qed

end
