(* ===== verification/Sample_Demo.thy ===== *)
theory Sample_Demo
  imports Sample_Service Wire_Lib
begin

text \<open>
  A concrete bot for the witnesses: two other members, one payment of a user, an API that signs what it is asked to sign,
  a node that knows every transaction, a database without faults, and a server on a web socket that answers every call
  with a given error.
\<close>

definition demo_user :: string where
  "demo_user = uuid_text (replicate 16 (CHR ''u''))"

definition demo_trace :: "nat \<Rightarrow> string" where
  "demo_trace i = uuid_text (replicate 15 (CHR 0x00) @ [char_of (Suc i)])"

definition demo_payment :: payment where
  "demo_payment = \<lparr>pm_PaymentID = demo_user, pm_AssetID = CNBAssetID, pm_Amount = ''1'', pm_Threshold = 2,
     pm_Receivers = [''b'', ''c'', ''a''], pm_Memo = demo_user, pm_State = PaymentStatePaid, pm_CodeID = ''code'',
     pm_TransactionHash = None, pm_RawTransaction = Some ''00'', pm_CreatedAt = 0\<rparr>"

definition demo_utxo :: multisig_utxo where
  "demo_utxo = \<lparr>ux_Members = [''a'', ''b'', ''c''], ux_Threshold = 2, ux_Amount = ''1'', ux_Memo = demo_user,
     ux_State = ''signed'', ux_SignedTx = ''00'', ux_TransactionHash = ''h'', ux_OutputIndex = 0\<rparr>"

definition demo_reply :: bot_payment where
  "demo_reply = \<lparr>bp_TraceId = [], bp_AssetId = CNBAssetID, bp_Amount = ''1'', bp_Threshold = 2, bp_Receivers = [''b'', ''c'', ''a''],
     bp_Memo = demo_user, bp_Status = PaymentStatePaid, bp_CodeId = ''code'', bp_CreatedAt = 0\<rparr>"

definition demo_signed :: multisig_request where
  "demo_signed = \<lparr>mr_RequestId = ''r'', mr_State = ''signed'', mr_RawTransaction = ''00'', mr_TransactionHash = ''h''\<rparr>"

definition demo_versioned :: versioned_tx where
  "demo_versioned = \<lparr>vt_Asset = ''cnb'', vt_Inputs = [(''h'', 0)], vt_Outputs = [], vt_Extra = [], vt_SignaturesMap = [[(0, ''sig'')]]\<rparr>"

definition demo_signer :: signer_input where
  "demo_signer = \<lparr>si_Inputs = [(''h'', 0)], si_Outputs = [], si_Asset = ''cnb'', si_Extra = []\<rparr>"

definition demo_sbot :: sbot_env where
  "demo_sbot = lib.extend wire_lib (sbot_env.fields ''a'' [''b'', ''c''] True demo_trace (\<lambda>i. 7)
     (\<lambda>s. 1) (\<lambda>x y. x / y) (\<lambda>x. ''1'') (\<lambda>b. ''members'')
     (\<lambda>i c. Ok demo_reply) (\<lambda>i n m t. Ok [demo_utxo]) (\<lambda>i r. Ok [(''mask'', [''key''])])
     (\<lambda>i a x. Ok (demo_signed\<lparr>mr_State := ''initial''\<rparr>)) (\<lambda>i. Ok ''pin'') (\<lambda>i r p. Ok demo_signed)
     (\<lambda>i q. Ok (demo_reply\<lparr>bp_TraceId := pq_TraceId q, bp_Memo := pq_Memo q, bp_Status := PaymentStatePending\<rparr>))
     (\<lambda>t. Ok []) (\<lambda>b. Ok \<lparr>xt_Inputs = [], xt_Outputs = [], xt_Asset = [], xt_Extra = [], xt_Hash = ''h''\<rparr>)
     (\<lambda>b. Ok demo_signer) (\<lambda>m x. Ok []) (\<lambda>b. Ok (Ok [], None)) (\<lambda>i b. Ok []) (\<lambda>k. True) (\<lambda>v. []) (\<lambda>b. Ok demo_versioned)
     (\<lambda>i rows. rows) (\<lambda>i. None) (\<lambda>i rows. rows))"

lemmas demo_sbot_simps = demo_sbot_def lib.defs sbot_env.defs

lemma demo_fields [simp]:
  "mx_Master demo_sbot" "group_members demo_sbot = [''b'', ''c'', ''a'']" "uuidV4 demo_sbot = demo_trace"
  "numberFromString demo_sbot x = 1" "botReadPaymentByCode demo_sbot i x = Ok demo_reply"
  "botReadMultisigs demo_sbot i n x y = Ok [demo_utxo]"
  "botCreateMultisig demo_sbot i x y = Ok (demo_signed\<lparr>mr_State := ''initial''\<rparr>)"
  "botEncryptPIN demo_sbot i = Ok ''pin''" "botSignMultisig demo_sbot i x y = Ok demo_signed"
  "botCreatePaymentRequest demo_sbot i q = Ok (demo_reply\<lparr>bp_TraceId := pq_TraceId q, bp_Memo := pq_Memo q, bp_Status := PaymentStatePending\<rparr>)"
  "jsonReadTransaction demo_sbot b = Ok \<lparr>xt_Inputs = [], xt_Outputs = [], xt_Asset = [], xt_Extra = [], xt_Hash = ''h''\<rparr>"
  "jsonCall demo_sbot m xs = Ok []" "jsonNodeReply demo_sbot b = Ok (Ok [], None)" "httpPost demo_sbot i b = Ok []"
  "unmarshalVersioned demo_sbot b = Ok demo_versioned" "dbOrder demo_sbot i rows = rows" "dbFault demo_sbot i = None"
  "sb_others demo_sbot i rows = rows"
  by (simp_all add: demo_sbot_simps group_members_def)

definition demo_state :: "payment list \<Rightarrow> sbot" where
  "demo_state rows = \<lparr>sb_rows = rows, sb_tx = [], sb_clock = 0, sb_log = []\<rparr>"

text \<open>A server that answers the message with the identifier of the tick of the clock, and the same error.\<close>

definition demo_tick :: "nat \<Rightarrow> string" where
  "demo_tick i = replicate i (CHR ''u'')"

definition demo_service :: "int option \<Rightarrow> service_env" where
  "demo_service err = sbot_env.extend (demo_sbot\<lparr>uuidV4 := demo_tick\<rparr>) (service_env.fields (\<lambda>i. Ok ''token'') (\<lambda>i t. Ok ())
     (\<lambda>c n. BinaryFrame (demo_tick n)) (\<lambda>c n b. Ok ()) (\<lambda>b. b) Ok (\<lambda>m. Ok (bm_ID m))
     (\<lambda>b. Ok \<lparr>bm_ID = b, bm_Action = [], bm_Params = None, bm_Data = [], bm_Error = err\<rparr>)
     (\<lambda>b. Err ''json'') (\<lambda>b. Ok []) (\<lambda>i. 1) (\<lambda>i. False))"

lemma demo_canonical: "length u = 16 \<Longrightarrow> canonical demo_sbot (uuid_text u)"
  by (simp add: canonical_def uuidOrNil_def demo_sbot_simps wire_lib_def uuid_parse_text)

lemma demo_text_length: "length u = 16 \<Longrightarrow> length (uuid_text u) = 36"
  using length_hexEncode [of u] by (simp add: uuid_text_def Let_def)

end
