(* ===== verification/Sample_Props.thy ===== *)
theory Sample_Props
  imports Sample_Message_Laws Sample_Demo
begin

text \<open>
  The properties of the sample bot: how its goroutines share the table of payments, when a payment counts as sent back, and
  where the code does less than it means to.
\<close>

section \<open>The log of the message service\<close>

lemma Messages_only_insert: "keeps (own Messages) (\<lambda>_. True) (HandleMessage E u) (\<lambda>_ _. True) (\<lambda>_. True)"
proof -
  let ?any = "\<lambda>m. keeps (own Messages) (\<lambda>_. True) m (\<lambda>_ _. True) (\<lambda>_. True)"
  have lift: "?any (lift r)" for r :: "'x res" by (rule keeps_lift) simp_all
  have seq: "?any (abind m f)" if "?any m" "\<And>x. ?any (f x)" for m :: "'x bot" and f :: "'x \<Rightarrow> 'y bot"
    by (rule keeps_abind) (use that in auto)
  have sel: "?any (db_select E P)" for P by (rule keeps_db_select [where J = "\<lambda>_. True"]) simp_all
  have ask: "?any m" if "asks harmless m" for m :: "'x bot"
    by (rule keeps_asks [OF that]) (auto simp: own_def call_kinds)
  have memo: "?any (FindPaymentByMemo E u)" and byid: "?any (findPaymentByID E i)" for i
    by (auto simp: FindPaymentByMemo_def findPaymentByID_def intro: lift seq sel)
  have quiet: "?any f" if "f = tx_begin E \<or> f = tx_rollback E \<or> f = tx_insert E p" for f p
    by (rule keepsI) (use that in \<open>auto simp: tx_begin_def tx_rollback_def tx_insert_def Let_def db_turn_def ends_def
      split: option.splits res.splits if_splits\<close>)
  have commit: "?any (tx_commit E)"
    by (rule keepsI) (auto simp: tx_commit_def db_write_def Let_def db_turn_def db_apply_def own_def ends_def
      intro!: grows_one split: option.splits res.splits if_splits prod.splits)
  have ins: "?any (abind (findPaymentByID E i) (\<lambda>old. if old \<noteq> None then lift (Ok ()) else tx_insert E p))" for i p
    by (rule seq [OF byid]) (use lift quiet in auto)
  have tx: "?any (RunInTransaction E fn)" if "?any fn" for fn
    by (rule keeps_RunInTransaction [where J = "\<lambda>_. True" and T = "\<lambda>_. True"]) (use that quiet commit in auto)
  have created: "?any (CreatedPayment E b)" for b
    unfolding CreatedPayment_def Let_def TransactionError_def
    by (rule seq [OF keeps_on_error [OF tx [OF ins] lift] lift])
  have req: "?any (outside (\<lambda>_. SCreatePaymentRequest q) f)" for q and f :: "nat \<Rightarrow> 'x res"
    by (rule ask [OF asks_outside]) (simp add: call_kinds)
  have "?any (ask_payment E u n x)" for n x
    unfolding ask_payment_def Let_def by (intro seq req created lift)
  then have new: "?any (abind (draw (randIntn E)) (\<lambda>n. abind (draw (uuidV4 E)) (ask_payment E u n)))"
    by (rule seq [OF ask [OF asks_draw] seq [OF ask [OF asks_draw]]])
  show ?thesis unfolding HandleMessage_def
    by (rule seq [OF memo]) (use new lift in \<open>auto split: option.split\<close>)
qed

lemma keeps_goroutine:
  assumes "others_ok E w"
  shows "keeps (own w) base (goroutine E w n us) (\<lambda>_ _. True) (\<lambda>_. True)"
proof (cases w)
  case Messages
  have p: "keeps (own Messages) (\<lambda>_. True) (pause 0) (\<lambda>_ _. True) (\<lambda>_. True)"
    by (rule keeps_asks [OF asks_pause]) (auto simp: own_def call_kinds)
  have "keeps (own Messages) (\<lambda>_. True) (on_error (abind (HandleMessage E u) (\<lambda>_. lift (Ok ()))) (pause 0)) (\<lambda>_ _. True) (\<lambda>_. True)" for u
    by (rule keeps_on_error [OF keeps_abind [OF Messages_only_insert] p]) (rule keeps_lift; simp)
  then have all: "keeps (own Messages) ((\<lambda>_ _. True) us) (afold (\<lambda>u. on_error (abind (HandleMessage E u) (\<lambda>_. lift (Ok ()))) (pause 0)) us)
      (\<lambda>_. (\<lambda>_ _. True) []) (\<lambda>_. True)"
    by (rule keeps_afold)
  show ?thesis using keeps_weaken [OF all, of base "\<lambda>_ _. True" "\<lambda>_. True"] Messages by (simp add: goroutine_def)
next
  case Pending
  show ?thesis using keeps_weaken [OF keeps_LoopingPending [OF assms [unfolded Pending], of n], of base "\<lambda>_ _. True" "\<lambda>_. True"] Pending
    by (simp add: goroutine_def)
next
  case Paid
  show ?thesis using keeps_weaken [OF keeps_LoopingPaid [OF assms [unfolded Paid], of n], of base "\<lambda>_ _. True" "\<lambda>_. True"] Paid
    by (simp add: goroutine_def)
qed

text \<open>C21: payments only move forward. Let a goroutine of the master work on the table while the other two, between any of its
  statements, take any number of their own steps. Then every statement of it that changes the table does what the goroutine
  may do: the message service adds rows, the first loop makes pending payments paid, the second gives paid payments a
  transaction or marks them as refunded. So no payment ever moves back or is lost, whatever the order of the statements, and
  whether they fail before or after they were applied.\<close>

theorem payments_move_forward:
  assumes "others_ok E w" and "table_ok (sb_rows s)" and "sb_tx s = []"
    and "goroutine E w n users s = (r, t)" and "sb_log t = sb_log s @ xs @ SSql a b # ys"
  shows "worker_step w a b \<and> forward a b"
proof -
  have "base s" using assms(2,3) by (simp add: base_def)
  from keepsD [OF keeps_goroutine [OF assms(1)] this assms(4)] have "grows (own w) (sb_log s) (sb_log t)" by simp
  from grows_at [OF this assms(5)] have "worker_step w a b" by (simp add: own_def)
  then show ?thesis using worker_forward by blast
qed

lemma demo_others: "others_ok demo_sbot w"
  by (simp add: others_ok_def)

lemma demo_row: "row_ok (demo_payment\<lparr>pm_State := st\<rparr>) \<longleftrightarrow> length st \<le> 128" "row_ok demo_payment"
proof -
  have "list_all hex_or_dash demo_user" "length demo_user = 36"
    by (simp_all add: demo_user_def demo_text_length) code_simp
  then show "row_ok (demo_payment\<lparr>pm_State := st\<rparr>) \<longleftrightarrow> length st \<le> 128" "row_ok demo_payment"
    by (simp_all add: row_ok_def demo_payment_def CNBAssetID_def PaymentStatePaid_def)
qed

lemmas run_simps = abind_def lift_def on_error_def or_else_def outside_def pause_def draw_def db_write_def db_select_def
  db_turn_def db_apply_def Let_def

theorem payments_move_forward_witness:
  "let p = demo_payment\<lparr>pm_State := PaymentStatePending\<rparr>; s = demo_state [p] in
   \<exists>t. goroutine demo_sbot Pending 1 [] s = (Ok (), t) \<and> SSql [p] [demo_payment] \<in> set (sb_log t) \<and>
     worker_step Pending [p] [demo_payment] \<and> forward [p] [demo_payment]"
proof -
  let ?p = "demo_payment\<lparr>pm_State := PaymentStatePending\<rparr>"
  let ?t = "\<lparr>sb_rows = [demo_payment], sb_tx = [], sb_clock = 3, sb_log = [SReadPaymentByCode ''code'', SSql [?p] [demo_payment]]\<rparr>"
  have p: "?p\<lparr>pm_State := ''paid''\<rparr> = demo_payment" by (simp add: demo_payment_def PaymentStatePaid_def)
  have tab: "table_ok [?p]" "table_ok [demo_payment]"
    using demo_row by (simp_all add: table_ok_def List.map_filter_simps PaymentStatePending_def) (simp_all add: demo_payment_def)
  have run: "goroutine demo_sbot Pending 1 [] (demo_state [?p]) = (Ok (), ?t)"
    using tab p
    by (simp add: goroutine_def LoopingPendingPayments_def pending_round_def FindPaymentsByState_def TransactionError_def
      check_pending_def run_simps demo_state_def update_row_def demo_reply_def)
      (simp add: demo_payment_def)
  have "sb_tx (demo_state [?p]) = []" "table_ok (sb_rows (demo_state [?p]))" using tab by (simp_all add: demo_state_def)
  from payments_move_forward [OF demo_others this(2,1) run, of "[SReadPaymentByCode ''code'']" "[?p]" "[demo_payment]" "[]"]
  show ?thesis using run by (simp add: demo_state_def Let_def)
qed

text \<open>C22: a user is asked for one payment at a time. The message service handles a message while the loops have their turns at
  the table, and the API gives a payment under the trace it was asked for. Then the table still has at most one pending
  payment for every user with an identifier in the printed form, also when an error is returned, and the code the user gets
  is that of the pending payment in the table.\<close>

theorem one_pending_payment:
  assumes "others_ok E Messages" and "echoes E" and "table_ok (sb_rows s)" and "sb_tx s = []" and "single E (sb_rows s)"
    and "pm_PaymentID ` set (sb_rows s) \<inter> range (uuidV4 E) = {}" and "HandleMessage E u s = (r, t)"
  shows "(\<not> is_Panic r \<longrightarrow> table_ok (sb_rows t) \<and> single E (sb_rows t)) \<and>
    (\<forall>c. r = Ok c \<and> canonical E u \<longrightarrow> (\<exists>p. pending_of u (sb_rows t) = [p] \<and> pm_CodeID p = c))"
proof -
  have "asking E s \<and> fresh E (sb_rows s)" using assms(3-6) by (simp add: asking_def base_def fresh_def)
  from keepsD [OF keeps_HandleMessage [OF assms(1,2)] this assms(7)] show ?thesis
    by (cases r) (auto simp: asking_def base_def)
qed

theorem one_pending_payment_witness:
  "\<exists>t p. HandleMessage demo_sbot demo_user (demo_state []) = (Ok ''code'', t) \<and> pending_of demo_user (sb_rows t) = [p] \<and> pm_CodeID p = ''code''"
proof -
  have e: "echoes demo_sbot" by (simp add: echoes_def)
  have can: "canonical demo_sbot demo_user" "canonical demo_sbot (demo_trace i)" for i
    by (simp_all add: demo_user_def demo_trace_def demo_canonical)
  let ?p = "payment_of (demo_reply\<lparr>bp_TraceId := demo_trace (Suc (Suc 0)), bp_Memo := demo_user, bp_Status := PaymentStatePending\<rparr>)"
  have tab: "table_ok [?p]"
  proof -
    have "list_all hex_or_dash (demo_trace (Suc (Suc 0)))" by code_simp
    moreover have "length (demo_trace (Suc (Suc 0))) = 36" "length demo_user = 36" by (simp_all add: demo_trace_def demo_user_def demo_text_length)
    ultimately show ?thesis
      by (simp add: table_ok_def List.map_filter_simps row_ok_def payment_of_def demo_reply_def CNBAssetID_def PaymentStatePending_def)
  qed
  have "fst (HandleMessage demo_sbot demo_user (demo_state [])) = Ok ''code''"
    using can tab
    by (simp add: HandleMessage_def FindPaymentByMemo_def run_simps demo_state_def first_row_def ask_payment_def
      CreatedPayment_def TransactionError_def RunInTransaction_def tx_begin_def tx_insert_def tx_commit_def findPaymentByID_def)
      (simp add: payment_of_def demo_reply_def)
  then obtain t where run: "HandleMessage demo_sbot demo_user (demo_state []) = (Ok ''code'', t)" by (metis prod.collapse)
  have "table_ok (sb_rows (demo_state []))" "single demo_sbot (sb_rows (demo_state []))"
    by (simp_all add: demo_state_def table_ok_def List.map_filter_simps single_def pending_of_def)
  from one_pending_payment [OF demo_others e this(1) _ this(2) _ run] can(1) run show ?thesis
    by (simp add: demo_state_def)
qed

section \<open>When a payment counts as refunded\<close>

text \<open>The transaction of a payment's refund: it spends an output of the group with the amount and memo of the payment (what
  the API has signed for the output so far or, while there is nothing, a new transaction to a key of the payer), and it has
  the text and hash of the API's reply to the request for the signature.\<close>

definition output_of :: "'z sbot_env_scheme \<Rightarrow> payment \<Rightarrow> multisig_utxo \<Rightarrow> bool" where
  "output_of E p u \<longleftrightarrow> (\<exists>i outs. botReadMultisigs E i 500 (sb_hashMembers E (group_members E)) ''2'' = Ok outs
     \<and> u \<in> set (map (\<lambda>u. u\<lparr>ux_Members := sort (ux_Members u)\<rparr>) outs) \<and> ux_Memo u = pm_Memo p
     \<and> numberFromString E (pm_Amount p) = numberFromString E (ux_Amount u))"

definition spends :: "'z sbot_env_scheme \<Rightarrow> payment \<Rightarrow> multisig_utxo \<Rightarrow> string \<Rightarrow> bool" where
  "spends E p u raw \<longleftrightarrow> (if ux_SignedTx u \<noteq> [] then raw = ux_SignedTx u
     else \<exists>i msk ks. botReadGhostKeys E i [[pm_Memo p]] = Ok [(msk, ks)] \<and>
       rbind (jsonTransaction E \<lparr>
           xt_Inputs = [\<lparr>xi_Hash = ux_TransactionHash u, xi_Index = ux_OutputIndex u\<rparr>],
           xt_Outputs = [\<lparr>xo_Mask = msk, xo_Keys = ks, xo_Amount = pm_Amount p, xo_Script = ''fffe01''\<rparr>],
           xt_Asset = CNBMixinAssetID, xt_Extra = [], xt_Hash = []\<rparr>) (buildTransaction E) = Ok raw)"

definition signed_as :: "'z sbot_env_scheme \<Rightarrow> string \<Rightarrow> multisig_request \<Rightarrow> bool" where
  "signed_as E raw req \<longleftrightarrow> (\<exists>i. botCreateMultisig E i ''sign'' raw = Ok req)
     \<or> (\<exists>i j made pin. botCreateMultisig E i ''sign'' raw = Ok made \<and> botSignMultisig E j (mr_RequestId made) pin = Ok req)"

definition refund_tx :: "'z sbot_env_scheme \<Rightarrow> payment \<Rightarrow> multisig_request \<Rightarrow> bool" where
  "refund_tx E p req \<longleftrightarrow> (\<exists>u raw. output_of E p u \<and> spends E p u raw \<and> signed_as E raw req)"

text \<open>A reply of the node that it has the transaction of the payment, by the hash that the payment carried or by the hash
  of its refund, or that it has taken the text of the refund.\<close>

definition on_network :: "'z sbot_env_scheme \<Rightarrow> payment \<Rightarrow> sb_call \<Rightarrow> bool" where
  "on_network E p e \<longleftrightarrow> (\<exists>m x body tx. e = SNode m x (Ok body) \<and> jsonReadTransaction E body = Ok tx \<and>
     (m = ''gettransaction'' \<and> xt_Hash tx \<noteq> [] \<and>
        (pm_TransactionHash p = Some x \<or> (\<exists>req. refund_tx E p req \<and> x = mr_TransactionHash req))
      \<or> m = ''sendrawtransaction'' \<and> (\<exists>req. refund_tx E p req \<and> x = mr_RawTransaction req)))"

text \<open>A statement that gives the row of payment \<open>i\<close> the state of a refund.\<close>

definition marks :: "payment list \<Rightarrow> payment list \<Rightarrow> string \<Rightarrow> bool" where
  "marks a b i \<longleftrightarrow> (\<exists>q \<in> set a. \<exists>q' \<in> set b. pm_PaymentID q = i \<and> pm_PaymentID q' = i \<and>
     pm_State q \<noteq> PaymentStateRefund \<and> pm_State q' = PaymentStateRefund)"

definition started :: "sb_call list \<Rightarrow> sbot \<Rightarrow> bool" where
  "started l s \<longleftrightarrow> (\<exists>xs. sb_log s = l @ xs)"

definition seen :: "'z sbot_env_scheme \<Rightarrow> payment \<Rightarrow> sb_call list \<Rightarrow> sbot \<Rightarrow> bool" where
  "seen E p l s \<longleftrightarrow> (\<exists>xs. sb_log s = l @ xs \<and> (\<exists>x \<in> set xs. on_network E p x))"

definition marked_after :: "'z sbot_env_scheme \<Rightarrow> payment \<Rightarrow> sb_call list \<Rightarrow> sb_call list \<Rightarrow> sb_call \<Rightarrow> bool" where
  "marked_after E p l m e \<longleftrightarrow> (\<forall>a b i. e = SSql a b \<and> marks a b i \<longrightarrow> i = pm_PaymentID p
     \<and> (\<exists>xs. m = l @ xs \<and> (\<exists>x \<in> set xs. on_network E p x)))"

lemma marks_update:
  assumes "table_ok (update_row i f rows)" "\<And>r. pm_PaymentID (f r) = pm_PaymentID r" "marks rows (update_row i f rows) k"
  shows "k = i \<and> (\<exists>r. pm_State (f r) \<noteq> pm_State r)"
proof -
  from assms(3) obtain q r where q: "q \<in> set rows" "r \<in> set rows" "pm_PaymentID q = k"
    "pm_PaymentID (if pm_PaymentID r = i then f r else r) = k"
    "pm_State q \<noteq> PaymentStateRefund" "pm_State (if pm_PaymentID r = i then f r else r) = PaymentStateRefund"
    by (auto simp: marks_def update_row_def)
  have "map pm_PaymentID (update_row i f rows) = map pm_PaymentID rows" using assms(2) by (auto simp: update_row_def)
  then have "inj_on pm_PaymentID (set rows)" using assms(1) by (simp add: table_ok_def distinct_map)
  then have "r = q" using q(1-4) assms(2) by (auto simp: inj_on_def split: if_splits)
  then have "k = i \<and> pm_State (f q) \<noteq> pm_State q" using q(3-6) assms(2) by (auto split: if_splits)
  then show ?thesis by blast
qed

lemma started_turn: "started l s \<Longrightarrow> started l (db_turn E s)" "seen E p l s \<Longrightarrow> seen E p l (db_turn E s)"
  by (auto simp: started_def seen_def db_turn_def)

lemma started_apply: "started l s \<Longrightarrow> started l (db_apply f s)"
  by (auto simp: started_def db_apply_def)

text \<open>\<open>marking E p l m Q\<close>: what \<open>m\<close> writes is in order, and its value satisfies \<open>Q\<close>.\<close>

abbreviation marking :: "'z sbot_env_scheme \<Rightarrow> payment \<Rightarrow> sb_call list \<Rightarrow> 'a bot \<Rightarrow> ('a \<Rightarrow> bool) \<Rightarrow> bool" where
  "marking E p l m Q \<equiv> keeps (marked_after E p l) (started l) m (\<lambda>x s. started l s \<and> Q x) (\<lambda>_. True)"

lemma marking_lift: "(\<And>x. r = Ok x \<Longrightarrow> Q x) \<Longrightarrow> marking E p l (lift r) Q"
  by (rule keeps_lift) simp_all

lemma marking_abind:
  assumes "marking E p l m P" "\<And>x. P x \<Longrightarrow> keeps (marked_after E p l) (started l) (f x) Q (\<lambda>_. True)"
  shows "keeps (marked_after E p l) (started l) (abind m f) Q (\<lambda>_. True)"
proof (rule keeps_abind [OF assms(1)])
  show "keeps (marked_after E p l) (\<lambda>s. started l s \<and> P x) (f x) Q (\<lambda>_. True)" for x
    using assms(2) by (cases "P x") (simp_all add: keeps_def)
qed

lemma marking_asks:
  assumes "asks (\<lambda>e. \<not> is_sql e) m" "\<And>s x t. m s = (Ok x, t) \<Longrightarrow> Q x"
  shows "marking E p l m Q"
proof -
  have "keeps (marked_after E p l) (started l) m (\<lambda>_. started l) (started l)"
    by (rule keeps_asks [where P = "\<lambda>e. \<not> is_sql e", OF assms(1)]) (auto simp: marked_after_def is_sql_def started_def)
  then show ?thesis using assms(2) by (fastforce simp: keeps_def ends_def split: res.splits)
qed

lemma marking_write:
  assumes "\<And>r. pm_PaymentID (f r) = pm_PaymentID r \<and> pm_State (f r) = pm_State r"
  shows "marking E p l (db_write E (update_row i f)) (\<lambda>_. True)"
proof -
  have "\<not> marks rows (update_row i f rows) k" if "table_ok (update_row i f rows)" for rows k
    using marks_update [OF that, of k] assms by auto
  then show ?thesis
    by (intro keeps_db_write [where J = "started l"]) (auto simp: marked_after_def intro: started_turn started_apply)
qed

section \<open>The stages of a refund\<close>

text \<open>Before the last stage only the text of the transaction in the row changes.\<close>

definition with_raw :: "payment \<Rightarrow> string \<Rightarrow> payment \<Rightarrow> bool" where
  "with_raw p raw q \<longleftrightarrow> (\<exists>r. q = p\<lparr>pm_RawTransaction := r\<rparr> \<and> null_string r = raw)"

lemma with_rawD: "with_raw p raw q \<Longrightarrow> pm_PaymentID q = pm_PaymentID p \<and> pm_TransactionHash q = pm_TransactionHash p
   \<and> pm_Memo q = pm_Memo p \<and> pm_Amount q = pm_Amount p \<and> null_string (pm_RawTransaction q) = raw"
  by (auto simp: with_raw_def)

lemma with_raw_refl: "with_raw p (null_string (pm_RawTransaction p)) p"
  unfolding with_raw_def by (rule exI [of _ "pm_RawTransaction p"]) simp

lemma marking_ReadMultisig:
  "marking E p l (ReadMultisig E (pm_Amount p) (pm_Memo p)) (\<lambda>inp. \<forall>u. inp = Some u \<longrightarrow> output_of E p u)"
proof (rule marking_asks [OF asks_harmless [OF asks_ReadMultisig]], intro allI impI)
  fix s inp t u assume run: "ReadMultisig E (pm_Amount p) (pm_Memo p) s = (Ok inp, t)" and u: "inp = Some u"
  from run obtain outs where o: "botReadMultisigs E (sb_clock s) 500 (sb_hashMembers E (group_members E)) ''2'' = Ok outs"
    and f: "find (\<lambda>u. join_comma (sort (group_members E)) = join_comma (ux_Members u) \<and>
       numberFromString E (pm_Amount p) = numberFromString E (ux_Amount u) \<and> ux_Memo u = pm_Memo p)
       (map (\<lambda>u. u\<lparr>ux_Members := sort (ux_Members u)\<rparr>) outs) = Some u"
    by (auto simp: ReadMultisig_def read_outputs_def outside_def Let_def u)
  from f have "u \<in> set (map (\<lambda>u. u\<lparr>ux_Members := sort (ux_Members u)\<rparr>) outs)" "ux_Memo u = pm_Memo p"
    "numberFromString E (pm_Amount p) = numberFromString E (ux_Amount u)"
    unfolding find_Some_iff by (metis (no_types, lifting) nth_mem)+
  with o show "output_of E p u" unfolding output_of_def by blast
qed

lemma marking_set_raw: "with_raw p x q \<Longrightarrow> marking E p l (set_raw E q raw) (with_raw p raw)"
  unfolding set_raw_def
  by (rule marking_abind [OF marking_write], simp, rule marking_lift) (auto simp: with_raw_def null_string_def)

lemma marking_take_signed: "marking E p l (take_signed E p u) (with_raw p (ux_SignedTx u))"
  unfolding take_signed_def
  by (auto intro!: marking_set_raw [OF with_raw_refl] marking_lift) (metis with_raw_refl)

lemma new_raw_spends:
  assumes "new_raw E q u s = (Ok raw, t)" "with_raw p [] q" "ux_SignedTx u = []"
  shows "spends E p u raw"
proof -
  from assms(1) obtain keys s1 where k: "botReadGhostKeys E (sb_clock s) [[pm_Memo q]] = Ok keys"
    "(case keys of [(msk, ks)] \<Rightarrow> lift (rbind (jsonTransaction E \<lparr>
           xt_Inputs = [\<lparr>xi_Hash = ux_TransactionHash u, xi_Index = ux_OutputIndex u\<rparr>],
           xt_Outputs = [\<lparr>xo_Mask = msk, xo_Keys = ks, xo_Amount = pm_Amount q, xo_Script = ''fffe01''\<rparr>],
           xt_Asset = CNBMixinAssetID, xt_Extra = [], xt_Hash = []\<rparr>) (buildTransaction E))
     | _ \<Rightarrow> lift (Err ''ReadGhostKeys'')) s1 = (Ok raw, t)"
    by (auto simp: new_raw_def outside_def)
  then obtain msk ks where "keys = [(msk, ks)]" by (auto split: list.splits)
  with k assms(3) with_rawD [OF assms(2)] show ?thesis unfolding spends_def by auto
qed

lemma marking_build_raw:
  assumes "with_raw p (ux_SignedTx u) q"
  shows "marking E p l (build_raw E q u) (\<lambda>x. \<exists>raw. with_raw p raw x \<and> spends E p u raw)"
proof (cases "ux_SignedTx u = []")
  case False
  then show ?thesis using assms with_rawD [OF assms] unfolding build_raw_def
    by (auto intro!: marking_lift exI [of _ "ux_SignedTx u"] simp: spends_def)
next
  case True
  have "marking E p l (new_raw E q u) (spends E p u)"
    by (rule marking_asks [OF asks_harmless [OF asks_new_raw]]) (rule new_raw_spends, assumption, use assms True in simp_all)
  moreover have "marking E p l (set_raw E q raw) (\<lambda>x. \<exists>raw. with_raw p raw x \<and> spends E p u raw)" if "spends E p u raw" for raw
    by (rule keeps_weaken [OF marking_set_raw [OF assms]]) (use that in auto)
  ultimately have "marking E p l (abind (new_raw E q u) (set_raw E q)) (\<lambda>x. \<exists>raw. with_raw p raw x \<and> spends E p u raw)"
    by (rule marking_abind)
  then show ?thesis using with_rawD [OF assms] True unfolding build_raw_def by simp
qed

lemma marking_sign_request: "marking E p l (sign_request E raw) (signed_as E raw)"
  by (rule marking_asks [OF asks_harmless [OF asks_sign_request]])
    (auto simp: sign_request_def signed_as_def outside_def split: if_splits)

text \<open>The API never gives the text of a transaction as its hash.\<close>

definition hashes_differ :: "'z sbot_env_scheme \<Rightarrow> bool" where
  "hashes_differ E \<longleftrightarrow> (\<forall>raw req. signed_as E raw req \<longrightarrow> mr_TransactionHash req \<noteq> mr_RawTransaction req)"

definition carries :: "payment \<Rightarrow> multisig_request \<Rightarrow> payment \<Rightarrow> bool" where
  "carries p req q \<longleftrightarrow> pm_PaymentID q = pm_PaymentID p \<and> pm_TransactionHash q = Some (mr_TransactionHash req)
     \<and> pm_RawTransaction q = Some (mr_RawTransaction req)"

lemma marking_set_signed:
  assumes "hashes_differ E" "signed_as E raw req" "with_raw p raw' q"
  shows "marking E p l (set_signed E q req) (carries p req)"
proof -
  have "null_string (pm_RawTransaction q) \<noteq> mr_RawTransaction req \<or> mr_TransactionHash req \<noteq> null_string (pm_RawTransaction q)"
    using assms(1,2) unfolding hashes_differ_def by metis
  then show ?thesis using with_rawD [OF assms(3)] unfolding set_signed_def
    by (auto intro!: marking_abind [OF marking_write] marking_lift simp: carries_def)
qed

text \<open>The stages that end in the mark: after a reply of the node.\<close>

lemma marking_look_up:
  assumes "pm_TransactionHash p = Some h \<or> (\<exists>req. refund_tx E p req \<and> h = mr_TransactionHash req)"
  shows "keeps (marked_after E p l) (started l) (look_up E h) (\<lambda>tx s. started l s \<and> (tx \<noteq> None \<longrightarrow> seen E p l s)) (\<lambda>_. True)"
proof (rule keepsI)
  fix s r t assume s: "started l s" and run: "look_up E h s = (r, t)"
  from s obtain xs where xs: "sb_log s = l @ xs" by (auto simp: started_def)
  have g: "grows (marked_after E p l) (sb_log s) (sb_log t) \<and> started l t"
    using keepsD [OF marking_asks [OF asks_harmless [OF asks_look_up], of E h "\<lambda>_. True" E p l] s run] s grows_prefix
    by (fastforce simp: started_def)
  moreover have "seen E p l t" if "r = Ok (Some tx)" for tx
    using run that xs assms by (auto simp: look_up_def GetTransaction_def callRPC_def outside_def seen_def on_network_def split: if_splits)
  ultimately show "grows (marked_after E p l) (sb_log s) (sb_log t)
      \<and> ends (\<lambda>tx s. started l s \<and> (tx \<noteq> None \<longrightarrow> seen E p l s)) (\<lambda>_. True) r t"
    by (cases r) auto
qed

lemma marking_send:
  assumes "refund_tx E p req"
  shows "keeps (marked_after E p l) (started l) (SendRawTransaction E (mr_RawTransaction req)) (\<lambda>_. seen E p l) (\<lambda>_. True)"
proof (rule keepsI)
  fix s r t assume s: "started l s" and run: "SendRawTransaction E (mr_RawTransaction req) s = (r, t)"
  from s obtain xs where xs: "sb_log s = l @ xs" by (auto simp: started_def)
  have "seen E p l t" if "r = Ok h" for h
    using run that xs assms by (auto simp: SendRawTransaction_def callRPC_def outside_def seen_def on_network_def)
  then show "grows (marked_after E p l) (sb_log s) (sb_log t) \<and> ends (\<lambda>_. seen E p l) (\<lambda>_. True) r t"
    using keepsD [OF marking_asks [OF asks_SendRawTransaction, of E "mr_RawTransaction req" "\<lambda>_. True" E p l] s run] by (cases r) auto
qed

lemma keeps_mark:
  assumes "pm_PaymentID q = pm_PaymentID p"
  shows "keeps (marked_after E p l) (seen E p l) (mark_refund E q) (\<lambda>_ _. True) (\<lambda>_. True)"
proof -
  let ?f = "\<lambda>r. r\<lparr>pm_State := ''refund''\<rparr>"
  have "k = pm_PaymentID p" if "table_ok (update_row (pm_PaymentID q) ?f rows)" "marks rows (update_row (pm_PaymentID q) ?f rows) k" for rows k
    using marks_update [OF that(1) _ that(2)] assms by simp
  then show ?thesis unfolding mark_refund_def
    by (intro keeps_db_write [where J = "seen E p l"]) (auto simp: marked_after_def seen_def db_turn_def)
qed

lemma marking_send_refund:
  assumes "refund_tx E p req" "carries p req q"
  shows "keeps (marked_after E p l) (started l) (send_refund E q) (\<lambda>_ _. True) (\<lambda>_. True)"
proof -
  have q: "pm_PaymentID q = pm_PaymentID p" "null_string (pm_TransactionHash q) = mr_TransactionHash req"
    "null_string (pm_RawTransaction q) = mr_RawTransaction req" using assms(2) by (simp_all add: carries_def null_string_def)
  let ?found = "\<lambda>tx s. started l s \<and> (tx \<noteq> None \<longrightarrow> seen E p l s)"
  have finish: "keeps (marked_after E p l) (?found tx)
      (abind (if tx = None then abind (SendRawTransaction E (mr_RawTransaction req)) (\<lambda>_. lift (Ok ())) else lift (Ok ())) (\<lambda>_. mark_refund E q))
      (\<lambda>_ _. True) (\<lambda>_. True)" for tx :: "tx_json option"
  proof (rule keeps_abind [where Q' = "\<lambda>_. seen E p l"])
    show "keeps (marked_after E p l) (?found tx)
        (if tx = None then abind (SendRawTransaction E (mr_RawTransaction req)) (\<lambda>_. lift (Ok ())) else lift (Ok ())) (\<lambda>_. seen E p l) (\<lambda>_. True)"
      using keeps_abind [OF marking_send [OF assms(1), of l], of "\<lambda>_. lift (Ok ())" "\<lambda>_. seen E p l"]
      by (cases tx) (auto intro: keeps_lift)
  qed (rule keeps_mark [OF q(1)])
  have look: "keeps (marked_after E p l) (started l) (look_up E (mr_TransactionHash req)) ?found (\<lambda>_. True)"
    using assms(1) by (intro marking_look_up) blast
  show ?thesis unfolding send_refund_def q(2,3)
  proof (rule keeps_abind [OF marking_lift [where Q = "\<lambda>_. True"]])
    fix ver
    show "keeps (marked_after E p l) (\<lambda>s. started l s \<and> True) (if int (length (vt_SignaturesMap ver)) < pm_Threshold q then lift (Ok ())
        else abind (look_up E (mr_TransactionHash req)) (\<lambda>tx.
          abind (if tx = None then abind (SendRawTransaction E (mr_RawTransaction req)) (\<lambda>_. lift (Ok ())) else lift (Ok ()))
          (\<lambda>_. mark_refund E q))) (\<lambda>_ _. True) (\<lambda>_. True)"
      using keeps_abind [OF look finish] by (auto intro: keeps_lift)
  qed simp
qed

lemma marking_already_sent:
  assumes "with_raw p raw q"
  shows "keeps (marked_after E p l) (started l) (already_sent E q) (\<lambda>b s. b \<or> started l s) (\<lambda>_. True)"
proof (cases "pm_TransactionHash p")
  case (Some h)
  have "keeps (marked_after E p l) (\<lambda>s. started l s \<and> (tx \<noteq> None \<longrightarrow> seen E p l s))
      (if tx \<noteq> None then abind (mark_refund E q) (\<lambda>_. lift (Ok True)) else lift (Ok False)) (\<lambda>b s. b \<or> started l s) (\<lambda>_. True)"
    for tx :: "tx_json option"
  proof (cases tx)
    case (Some x)
    have "keeps (marked_after E p l) (seen E p l) (abind (mark_refund E q) (\<lambda>_. lift (Ok True))) (\<lambda>b s. b \<or> started l s) (\<lambda>_. True)"
      by (rule keeps_abind [OF keeps_mark]) (use with_rawD [OF assms] in \<open>auto intro: keeps_lift\<close>)
    from keeps_weaken [OF this, of "\<lambda>s. started l s \<and> seen E p l s" "\<lambda>b s. b \<or> started l s" "\<lambda>_. True"] Some show ?thesis by simp
  qed (auto intro: keeps_lift)
  from keeps_abind [OF marking_look_up this] Some with_rawD [OF assms] show ?thesis by (simp add: already_sent_def)
qed (use with_rawD [OF assms] in \<open>auto simp: already_sent_def intro: keeps_lift\<close>)

lemma marking_signed:
  assumes "hashes_differ E" "output_of E p u" "spends E p u raw" "with_raw p raw q"
  shows "keeps (marked_after E p l) (\<lambda>s. b \<or> started l s) (if b then lift (Ok ()) else
      abind (sign_request E raw) (\<lambda>req. abind (set_signed E q req) (send_refund E))) (\<lambda>_ _. True) (\<lambda>_. True)"
proof (cases b)
  case False
  have "keeps (marked_after E p l) (started l) (abind (set_signed E q req) (send_refund E)) (\<lambda>_ _. True) (\<lambda>_. True)"
    if "signed_as E raw req" for req
  proof (rule marking_abind [OF marking_set_signed [OF assms(1) that assms(4)]])
    have "refund_tx E p req" unfolding refund_tx_def using assms(2,3) that by blast
    then show "carries p req x \<Longrightarrow> keeps (marked_after E p l) (started l) (send_refund E x) (\<lambda>_ _. True) (\<lambda>_. True)" for x
      by (rule marking_send_refund)
  qed
  with False show ?thesis by (simp add: marking_abind [OF marking_sign_request])
qed (auto intro: keeps_lift)

lemma marking_refund:
  assumes "hashes_differ E"
  shows "keeps (marked_after E p l) (started l) (refund E p) (\<lambda>_ _. True) (\<lambda>_. True)"
  unfolding refund_def
proof (rule marking_abind [OF marking_ReadMultisig])
  fix inp assume inp: "\<forall>u. inp = Some u \<longrightarrow> output_of E p u"
  show "keeps (marked_after E p l) (started l) (case inp of None \<Rightarrow> lift (Ok ()) | Some u \<Rightarrow>
        abind (take_signed E p u) (\<lambda>p. abind (build_raw E p u) (\<lambda>p. abind (already_sent E p) (\<lambda>sent. if sent then lift (Ok ()) else
        abind (sign_request E (null_string (pm_RawTransaction p))) (\<lambda>req. abind (set_signed E p req) (send_refund E))))))
        (\<lambda>_ _. True) (\<lambda>_. True)"
  proof (cases inp)
    case (Some u)
    have rest: "keeps (marked_after E p l) (started l) (abind (already_sent E q) (\<lambda>sent. if sent then lift (Ok ()) else
        abind (sign_request E (null_string (pm_RawTransaction q))) (\<lambda>req. abind (set_signed E q req) (send_refund E))))
        (\<lambda>_ _. True) (\<lambda>_. True)" if q: "\<exists>raw. with_raw p raw q \<and> spends E p u raw" for q
    proof -
      from q obtain raw where r: "with_raw p raw q" "spends E p u raw" by blast
      have raw: "null_string (pm_RawTransaction q) = raw" using with_rawD [OF r(1)] by simp
      have u: "output_of E p u" using inp Some by simp
      show ?thesis unfolding raw by (rule keeps_abind [OF marking_already_sent [OF r(1)] marking_signed [OF assms u r(2,1)]])
    qed
    show ?thesis unfolding Some option.case
      by (rule marking_abind [OF marking_take_signed], rule marking_abind [OF marking_build_raw], assumption, rule rest)
  qed (auto intro: keeps_lift)
qed

text \<open>C23: a payment counts as refunded when the network has its transaction. Whatever the other goroutines do, a statement of
  \<open>refund\<close> that gives a row the state of a refund changes the row of its payment, and comes after a reply of the node, in
  the same call, about the transaction of that payment: that it knows the hash the payment carried, or the hash of its
  refund, or that it has accepted the text of its refund. The refund is the transaction that the API signed for an output of
  the group with the payment's amount and memo: the one that it has for the output or, while it has none, a new one of this
  output to a key of the payer. The API is assumed never to give the text of a transaction as its hash.\<close>

theorem refund_marked_on_network:
  assumes "hashes_differ E" and "refund E p s = (r, t)" and "sb_log t = sb_log s @ xs @ SSql a b # ys"
    and "q \<in> set a" and "pm_State q \<noteq> PaymentStateRefund"
    and "q' \<in> set b" and "pm_PaymentID q' = pm_PaymentID q" and "pm_State q' = PaymentStateRefund"
  shows "pm_PaymentID q = pm_PaymentID p \<and> (\<exists>x \<in> set xs. on_network E p x)"
proof -
  have "started (sb_log s) s" by (simp add: started_def)
  from keepsD [OF marking_refund [OF assms(1)] this assms(2)] have "grows (marked_after E p (sb_log s)) (sb_log s) (sb_log t)" by simp
  from grows_at [OF this assms(3)] have "marked_after E p (sb_log s) (sb_log s @ xs) (SSql a b)" .
  moreover have "marks a b (pm_PaymentID q)" using assms(4-8) by (auto simp: marks_def)
  ultimately show ?thesis by (auto simp: marked_after_def)
qed

text \<open>A payment whose transaction the node has.\<close>

lemma demo_match: "join_comma (sort [''b'', ''c'', ''a'']) = join_comma (sort [''a'', ''b'', ''c''])"
  by (simp add: less_char_def insort_key.simps)

lemma demo_read: "ReadMultisig demo_sbot x demo_user s = (Ok (Some demo_utxo), s\<lparr>sb_clock := Suc (sb_clock s),
   sb_log := sb_log s @ [SReadMultisigs 500 (sb_hashMembers demo_sbot [''b'', ''c'', ''a'']) ''2'']\<rparr>)"
  using demo_match by (simp add: ReadMultisig_def read_outputs_def run_simps demo_utxo_def less_char_def)

theorem refund_marked_on_network_witness:
  "let p = demo_payment\<lparr>pm_TransactionHash := Some ''h''\<rparr>; q = p\<lparr>pm_State := PaymentStateRefund\<rparr> in
   \<exists>t xs. refund demo_sbot p (demo_state [p]) = (Ok (), t) \<and> sb_log t = xs @ [SSql [p] [q]] \<and> (\<exists>x \<in> set xs. on_network demo_sbot p x)"
proof -
  let ?p = "demo_payment\<lparr>pm_TransactionHash := Some ''h''\<rparr>"
  let ?q = "?p\<lparr>pm_State := PaymentStateRefund\<rparr>"
  have tab: "table_ok [?q]"
    using demo_row(1) [of PaymentStateRefund] by (simp add: table_ok_def List.map_filter_simps row_ok_def PaymentStateRefund_def)
  have memo: "pm_Memo ?p = demo_user" "null_string (pm_RawTransaction ?p) = ux_SignedTx demo_utxo" "ux_SignedTx demo_utxo = ''00''"
    by (simp_all add: demo_payment_def demo_utxo_def null_string_def)
  let ?xs = "[SReadMultisigs 500 (sb_hashMembers demo_sbot [''b'', ''c'', ''a'']) ''2'', SNode ''gettransaction'' ''h'' (Ok [])]"
  let ?t = "\<lparr>sb_rows = [?q], sb_tx = [], sb_clock = 3, sb_log = ?xs @ [SSql [?p] [?q]]\<rparr>"
  have run: "refund demo_sbot ?p (demo_state [?p]) = (Ok (), ?t)"
    using tab memo unfolding refund_def memo(1)
    by (simp add: demo_read abind_def [of "ReadMultisig demo_sbot x demo_user" for x] take_signed_def build_raw_def already_sent_def
      look_up_def GetTransaction_def callRPC_def mark_refund_def run_simps demo_state_def update_row_def PaymentStateRefund_def)
  have log: "sb_log ?t = sb_log (demo_state [?p]) @ ?xs @ SSql [?p] [?q] # []" by (simp add: demo_state_def)
  have h: "hashes_differ demo_sbot" by (auto simp: hashes_differ_def signed_as_def demo_signed_def)
  have "pm_PaymentID ?p = pm_PaymentID ?p \<and> (\<exists>x \<in> set ?xs. on_network demo_sbot ?p x)"
    by (rule refund_marked_on_network [OF h run log, of ?p ?q]) (simp_all add: demo_payment_def state_names)
  then show ?thesis unfolding Let_def using run by (intro exI [of _ ?t] exI [of _ ?xs]) simp
qed

section \<open>Refunds that are never sent\<close>

text \<open>The transactions that the API gives back spend one output, and a transaction has signatures for its inputs only.\<close>

definition one_input :: "'z sbot_env_scheme \<Rightarrow> string \<Rightarrow> bool" where
  "one_input E raw \<longleftrightarrow> (\<forall>d v. hexDecode raw = Ok d \<and> unmarshalVersioned E d = Ok v \<longrightarrow> length (vt_Inputs v) = 1)"

abbreviation unsent :: "('a \<Rightarrow> bool) \<Rightarrow> 'a bot \<Rightarrow> bool" where
  "unsent Q m \<equiv> keeps (\<lambda>_ e. \<not> is_send e) (\<lambda>_. True) m (\<lambda>x _. Q x) (\<lambda>_. True)"

lemma unsent_asks: "asks harmless m \<Longrightarrow> unsent (\<lambda>_. True) m"
  by (rule keeps_weaken [OF keeps_asks [where P = harmless and I = "\<lambda>_. True"]]) (auto simp: call_kinds)

lemma unsent_lift: "(\<And>x. r = Ok x \<Longrightarrow> Q x) \<Longrightarrow> unsent Q (lift r)"
  by (rule keeps_lift) simp_all

lemma unsent_abind: "unsent P m \<Longrightarrow> (\<And>x. P x \<Longrightarrow> unsent Q (f x)) \<Longrightarrow> unsent Q (abind m f)"
  by (rule keeps_abind [where Q' = "\<lambda>x _. P x"]) (auto simp: keeps_def)

lemma unsent_write: "unsent (\<lambda>_. True) (db_write E f)"
  by (rule keeps_db_write [where J = "\<lambda>_. True"]) (auto simp: is_send_def)

lemma unsent_set_raw: "unsent (\<lambda>q. pm_Threshold q = pm_Threshold p) (set_raw E p raw)"
  unfolding set_raw_def by (rule unsent_abind [OF unsent_write]) (auto intro: unsent_lift)

lemma unsent_take_signed: "unsent (\<lambda>q. pm_Threshold q = pm_Threshold p) (take_signed E p u)"
  unfolding take_signed_def by (auto intro: unsent_set_raw unsent_lift)

lemma unsent_build_raw: "unsent (\<lambda>q. pm_Threshold q = pm_Threshold p) (build_raw E p u)"
proof -
  have "unsent (\<lambda>q. pm_Threshold q = pm_Threshold p) (abind (if raw = [] then new_raw E p u else lift (Ok raw)) (set_raw E p))" for raw
    by (rule unsent_abind [where P = "\<lambda>_. True"]) (auto intro: unsent_asks [OF asks_new_raw] unsent_lift unsent_set_raw)
  then show ?thesis unfolding build_raw_def Let_def by (auto intro: unsent_lift)
qed

lemma unsent_already_sent: "unsent (\<lambda>_. True) (already_sent E p)"
proof (cases "pm_TransactionHash p")
  case (Some h)
  have "unsent (\<lambda>_. True) (if tx \<noteq> None then abind (mark_refund E p) (\<lambda>_. lift (Ok True)) else lift (Ok False))" for tx :: "tx_json option"
    unfolding mark_refund_def by (auto intro: unsent_abind [OF unsent_write] unsent_lift)
  from unsent_abind [OF unsent_asks [OF asks_look_up] this] Some show ?thesis by (simp add: already_sent_def)
qed (simp add: already_sent_def unsent_lift)

lemma unsent_sign_request:
  assumes "\<And>i a x q. botCreateMultisig E i a x = Ok q \<Longrightarrow> one_input E (mr_RawTransaction q)"
    and "\<And>i a x q. botSignMultisig E i a x = Ok q \<Longrightarrow> one_input E (mr_RawTransaction q)"
  shows "unsent (\<lambda>q. one_input E (mr_RawTransaction q)) (sign_request E raw)"
proof -
  have ask: "unsent Q (outside c f)" if "\<And>x. \<not> is_send (c x)" "\<And>i x. f i = Ok x \<Longrightarrow> Q x"
    for Q :: "'x \<Rightarrow> bool" and c f
    by (rule keeps_outside) (use that in auto)
  have pin: "unsent (\<lambda>_. True) (outside (\<lambda>_. SEncryptPIN) (botEncryptPIN E))"
    by (rule ask) (simp_all add: is_send_def)
  have sign: "unsent (\<lambda>q. one_input E (mr_RawTransaction q)) (outside (\<lambda>_. SSignMultisig k x) (\<lambda>i. botSignMultisig E i k x))" for k x
    by (rule ask) (auto simp: is_send_def intro: assms(2))
  have create: "unsent (\<lambda>q. one_input E (mr_RawTransaction q)) (outside (\<lambda>_. SCreateMultisig ''sign'' raw) (\<lambda>i. botCreateMultisig E i ''sign'' raw))"
    by (rule ask) (auto simp: is_send_def intro: assms(1))
  show ?thesis unfolding sign_request_def
    by (rule unsent_abind [OF create]) (use unsent_abind [OF pin sign] in \<open>auto intro: unsent_lift\<close>)
qed

lemma unsent_set_signed: "unsent (\<lambda>q. null_string (pm_RawTransaction q) = mr_RawTransaction req \<and> pm_Threshold q = pm_Threshold p) (set_signed E p req)"
  unfolding set_signed_def by (auto intro!: unsent_abind [OF unsent_write] unsent_lift simp: null_string_def)

lemma unsent_send_refund:
  assumes "one_input E (null_string (pm_RawTransaction p))" "1 < pm_Threshold p"
    and "\<And>d v. unmarshalVersioned E d = Ok v \<Longrightarrow> length (vt_SignaturesMap v) \<le> length (vt_Inputs v)"
  shows "unsent (\<lambda>_. True) (send_refund E p)"
proof -
  have few: "unsent (\<lambda>v. int (length (vt_SignaturesMap v)) < pm_Threshold p)
      (lift (rbind (hexDecode (null_string (pm_RawTransaction p))) (unmarshalVersioned E)))"
    by (rule unsent_lift) (use assms in \<open>fastforce simp: one_input_def\<close>)
  show ?thesis unfolding send_refund_def by (rule unsent_abind [OF few]) (simp add: unsent_lift)
qed

text \<open>C24: \<open>refund\<close> never sends a refund of a group with a threshold of two or more. It compares the threshold with the number
  of inputs that have signatures, which is one for the transaction that spends the output of the user, and not with the
  number of signatures. In no run does it call the node to send the transaction, however many members have signed it.\<close>

theorem refund_never_sends:
  assumes "\<And>i a x q. botCreateMultisig E i a x = Ok q \<Longrightarrow> one_input E (mr_RawTransaction q)"
    and "\<And>i a x q. botSignMultisig E i a x = Ok q \<Longrightarrow> one_input E (mr_RawTransaction q)"
    and "\<And>d v. unmarshalVersioned E d = Ok v \<Longrightarrow> length (vt_SignaturesMap v) \<le> length (vt_Inputs v)"
    and "1 < pm_Threshold p" and "refund E p s = (r, t)" and "sb_log t = sb_log s @ xs @ e # ys"
  shows "\<not> is_send e"
proof -
  let ?t = "\<lambda>q. pm_Threshold q = pm_Threshold p"
  have send: "unsent (\<lambda>_. True) (abind (sign_request E (null_string (pm_RawTransaction q))) (\<lambda>req. abind (set_signed E q req) (send_refund E)))" if "?t q" for q
    by (rule unsent_abind [OF unsent_sign_request [OF assms(1,2)] unsent_abind [OF unsent_set_signed]])
      (auto intro!: unsent_send_refund assms(3) simp: that assms(4))
  have finish: "unsent (\<lambda>_. True) (abind (already_sent E q) (\<lambda>sent. if sent then lift (Ok ()) else
      abind (sign_request E (null_string (pm_RawTransaction q))) (\<lambda>req. abind (set_signed E q req) (send_refund E))))" if "?t q" for q
    by (rule unsent_abind [OF unsent_already_sent]) (auto intro: unsent_lift send that)
  have stages: "unsent (\<lambda>_. True) (abind (take_signed E p u) (\<lambda>p. abind (build_raw E p u) (\<lambda>p. abind (already_sent E p) (\<lambda>sent.
      if sent then lift (Ok ()) else
      abind (sign_request E (null_string (pm_RawTransaction p))) (\<lambda>req. abind (set_signed E p req) (send_refund E))))))" for u
    by (rule unsent_abind [OF unsent_take_signed unsent_abind [OF unsent_build_raw finish]]) simp
  have "unsent (\<lambda>_. True) (refund E p)"
    unfolding refund_def by (rule unsent_abind [OF unsent_asks [OF asks_ReadMultisig]]) (auto intro: unsent_lift stages split: option.split)
  from keepsD [OF this _ assms(5)] have "grows (\<lambda>_ e. \<not> is_send e) (sb_log s) (sb_log t)" by simp
  from grows_at [OF this assms(6)] show ?thesis .
qed

theorem refund_never_sends_witness:
  "\<exists>t. refund demo_sbot demo_payment (demo_state [demo_payment]) = (Ok (), t) \<and> sb_log t \<noteq> [] \<and> (\<forall>e \<in> set (sb_log t). \<not> is_send e)"
proof -
  let ?s = "demo_state [demo_payment]"
  let ?q = "demo_payment\<lparr>pm_TransactionHash := Some ''h'', pm_RawTransaction := Some ''00''\<rparr>"
  have tab: "table_ok [?q]"
    using demo_row(2) by (simp add: table_ok_def List.map_filter_simps row_ok_def)
  have memo: "pm_Memo demo_payment = demo_user" "pm_RawTransaction demo_payment = Some ''00''" "pm_TransactionHash demo_payment = None"
    "pm_Threshold demo_payment = 2" "ux_SignedTx demo_utxo = ''00''" "mr_RawTransaction demo_signed = ''00''" "mr_TransactionHash demo_signed = ''h''"
    by (simp_all add: demo_payment_def demo_utxo_def demo_signed_def)
  have "fst (refund demo_sbot demo_payment ?s) = Ok () \<and> sb_log (snd (refund demo_sbot demo_payment ?s)) \<noteq> []"
    using tab unfolding refund_def memo(1)
    by (simp add: demo_read abind_def [of "ReadMultisig demo_sbot x demo_user" for x] take_signed_def build_raw_def already_sent_def
      set_signed_def send_refund_def sign_request_def run_simps demo_state_def update_row_def null_string_def memo MultisigStateInitial_def
      hexval_def demo_versioned_def)
  then obtain t where run: "refund demo_sbot demo_payment ?s = (Ok (), t)" "sb_log t \<noteq> []" by (metis prod.collapse)
  have one: "one_input demo_sbot x" for x by (simp add: one_input_def demo_versioned_def)
  have "\<not> is_send e" if e: "e \<in> set (sb_log t)" for e
  proof -
    from split_list [OF e] obtain xs ys where "sb_log t = sb_log ?s @ xs @ e # ys" by (auto simp: demo_state_def)
    from refund_never_sends [OF one one _ _ run(1) this] show ?thesis by (simp add: memo demo_versioned_def)
  qed
  with run show ?thesis by blast
qed

section \<open>An output that waits for signatures\<close>

text \<open>An output that waits for signatures holds up those behind it: when the signed transaction of an output has fewer
  signatures than the threshold and the user has no pending payment, \<open>handleMultisig\<close> returns, and what it does is the
  same as without the outputs behind it.\<close>

theorem waiting_output_blocks:
  assumes "ux_State u = MultisigStateSigned" and "mx_Master E" and "pending_of (ux_Memo u) (sb_rows s) = []" and "sb_tx s = []"
    and "\<And>i rows. pending_of (ux_Memo u) rows = [] \<Longrightarrow> pending_of (ux_Memo u) (sb_others E i rows) = []" and "\<And>i. dbOrder E i [] = []"
    and "hexDecode (ux_SignedTx u) = Ok d" and "unmarshalVersioned E d = Ok v" and "vt_SignaturesMap v = m # ms"
    and "int (length m) < ux_Threshold u"
  shows "handle_outputs E (u # us) s = handle_outputs E [u] s"
proof -
  have found: "old = None" if "FindPaymentByMemo E (ux_Memo u) x = (Ok old, y)" "sb_tx x = [] \<and> pending_of (ux_Memo u) (sb_rows x) = []" for old x y
    using that assms(5,6)
    by (auto simp: FindPaymentByMemo_def db_select_def Let_def db_turn_def pending_of_def PaymentStatePending_def first_row_def
      split: if_splits option.splits)
  have sign: "sb_tx y = [] \<and> pending_of (ux_Memo u) (sb_rows y) = []" if "sign_request E raw s = (r, y)" for raw r y
    using asksD [OF asks_sign_request that] assms(3,4) by (simp add: asked_def)
  have "fst (handle_output E u s) \<noteq> Ok Continue"
  proof
    assume "fst (handle_output E u s) = Ok Continue"
    then obtain t where "handle_output E u s = (Ok Continue, t)" by (metis prod.collapse)
    then show False using assms(1,2,7-10) by (auto simp: handle_output_def split: if_splits dest!: sign found)
  qed
  then show ?thesis
    by (auto simp: abind_def split: prod.splits res.splits next_step.splits)
qed

text \<open>Three more outputs behind it.\<close>

theorem waiting_output_blocks_witness:
  "\<exists>t. handle_outputs demo_sbot (demo_utxo # replicate 3 demo_utxo) (demo_state []) = (Ok (), t) \<and>
     length (sb_log t) = 3"
proof -
  have u: "ux_State demo_utxo = MultisigStateSigned" "ux_Memo demo_utxo = demo_user" "ux_SignedTx demo_utxo = ''00''" "ux_Threshold demo_utxo = 2"
    by (simp_all add: demo_utxo_def MultisigStateSigned_def)
  have dec: "hexDecode (ux_SignedTx demo_utxo) = Ok [CHR 0x00]" unfolding u by code_simp
  have eq: "handle_outputs demo_sbot (demo_utxo # us) (demo_state []) = handle_outputs demo_sbot [demo_utxo] (demo_state [])" for us
    by (rule waiting_output_blocks [where d = "[CHR 0x00]" and v = demo_versioned and m = "[(0, ''sig'')]" and ms = "[]"])
      (use dec in \<open>simp_all add: u demo_versioned_def demo_state_def pending_of_def\<close>)
  have can: "canonical demo_sbot demo_user" by (simp add: demo_user_def demo_canonical)
  have "fst (handle_outputs demo_sbot [demo_utxo] (demo_state [])) = Ok () \<and> length (sb_log (snd (handle_outputs demo_sbot [demo_utxo] (demo_state [])))) = 3"
    using dec can
    by (simp add: handle_output_def sign_request_def FindPaymentByMemo_def run_simps u demo_signed_def MultisigStateInitial_def
      demo_state_def first_row_def demo_versioned_def)
  then show ?thesis using eq [of "replicate 3 demo_utxo"] by (metis prod.collapse)
qed

end
