(* ===== verification/Sample_Service_Props.thy ===== *)
theory Sample_Service_Props
  imports Sample_Service Sample_Props
begin

text \<open>
  The properties of the message service of the sample bot: when a call to the server returns, and in which order a
  message is answered and acknowledged.
\<close>

section \<open>The pumps\<close>

text \<open>What the pumps leave alone: the messages that were queued, the connection and the bot.\<close>

definition same_call :: "service \<Rightarrow> service \<Rightarrow> bool" where
  "same_call s t \<longleftrightarrow> sv_queued t = sv_queued s \<and> sv_conn t = sv_conn s \<and> sv_bot t = sv_bot s"

lemma same_call_refl [simp]: "same_call s s"
  by (simp add: same_call_def)

lemma same_call_trans: "same_call s t \<Longrightarrow> same_call t u \<Longrightarrow> same_call s u"
  by (simp add: same_call_def)

definition undisturbed :: "service \<Rightarrow> service \<Rightarrow> bool" where
  "undisturbed s t \<longleftrightarrow> same_call s t \<and> sv_pos t = sv_pos s \<and> sv_ReadDone t = sv_ReadDone s"

lemmas undisturbed_simps = undisturbed_def same_call_def

lemma parse_same: "undisturbed s (snd (parseMessage E b s))"
  unfolding parseMessage_def retrive_def
  by (simp add: undisturbed_simps split: res.split option.split)

lemma writeGzip_same: "undisturbed s (snd (writeGzipToConn E d s)) \<and> sv_Resp (snd (writeGzipToConn E d s)) = sv_Resp s"
  unfolding writeGzipToConn_def by (simp add: undisturbed_simps split: res.split)

lemma write_all_same: "undisturbed s (write_all E ds s) \<and> sv_Resp (write_all E ds s) = sv_Resp s"
proof (induction ds arbitrary: s)
  case (Cons d ds)
  obtain r t where w: "writeGzipToConn E d s = (r, t)" by force
  from writeGzip_same [of s E d] Cons.IH [of t] show ?case
    by (cases r) (simp_all add: w undisturbed_simps)
qed (simp add: undisturbed_simps)

lemma writePump_same: "undisturbed s (writePump E s) \<and> sv_Resp (writePump E s) = sv_Resp s"
  using write_all_same [of s E "sv_WriteBuffer s"] by (simp add: writePump_def undisturbed_simps)

text \<open>A frame moves the position on, or the pump has ended and nothing arrives.\<close>

lemma read_ends_same: "same_call s (read_ends s) \<and> sv_pos (read_ends s) = sv_pos s \<and> sv_Resp (read_ends s) = sv_Resp s \<and> sv_ReadDone (read_ends s)"
  by (simp add: read_ends_def same_call_def)

lemma readPump_cases:
  obtains (ended) "sv_ReadDone s" "readPump E s = s"
    | (closed) "\<not> sv_ReadDone s" "readPump E s = read_ends s"
    | (frame) t where "\<not> sv_ReadDone s" "same_call s t" "sv_pos t = Suc (sv_pos s)" "readPump E s = t \<or> readPump E s = read_ends t"
        "\<And>e. blazeFrames E (sv_conn s) (sv_pos s) = ReadError e \<Longrightarrow> readPump E s = read_ends t"
proof -
  let ?t = "s\<lparr>sv_pos := Suc (sv_pos s)\<rparr>"
  show thesis
  proof (cases "sv_ReadDone s \<or> sv_closed s")
    case True
    then show thesis using ended closed by (cases "sv_ReadDone s") (simp_all add: readPump_def)
  next
    case open': False
    show thesis
    proof (cases "blazeFrames E (sv_conn s) (sv_pos s)")
      case (BinaryFrame b)
      obtain r u where p: "parseMessage E b ?t = (r, u)" by force
      have u: "same_call s u" "sv_pos u = Suc (sv_pos s)"
        using parse_same [of ?t E b] by (simp_all add: p undisturbed_simps)
      show thesis using frame [OF _ u] open' BinaryFrame p by (cases r) (simp_all add: readPump_def)
    qed (use frame [of ?t] open' in \<open>simp_all add: readPump_def same_call_def\<close>)
  qed
qed

lemma readPump_same: "same_call s (readPump E s)"
  by (cases rule: readPump_cases [of s E]) (use read_ends_same in \<open>auto intro: same_call_trans\<close>)

lemma readPump_done: "sv_ReadDone s \<Longrightarrow> readPump E s = s"
  by (simp add: readPump_def)

lemma readPump_moves: "\<not> sv_ReadDone s \<Longrightarrow> sv_pos (readPump E s) = Suc (sv_pos s)
   \<or> sv_ReadDone (readPump E s) \<and> sv_pos (readPump E s) = sv_pos s \<and> sv_Resp (readPump E s) = sv_Resp s"
  by (cases rule: readPump_cases [of s E]) (use read_ends_same in auto)

lemma readPump_end: "\<not> sv_ReadDone s \<Longrightarrow> blazeFrames E (sv_conn s) (sv_pos s) = ReadError e \<Longrightarrow> sv_ReadDone (readPump E s)"
  by (cases rule: readPump_cases [of s E]) (use read_ends_same in auto)

definition before_end :: "'z service_env_scheme \<Rightarrow> nat \<Rightarrow> service \<Rightarrow> bool" where
  "before_end E k s \<longleftrightarrow> (sv_ReadDone s \<or> sv_pos s \<le> k) \<and> (\<exists>e. blazeFrames E (sv_conn s) k = ReadError e)"

lemma readPump_before_end: "before_end E k s \<Longrightarrow> before_end E k (readPump E s)"
proof (cases "sv_ReadDone s")
  case False
  assume b: "before_end E k s"
  with False obtain e where k: "sv_pos s \<le> k" "blazeFrames E (sv_conn s) k = ReadError e" by (auto simp: before_end_def)
  have c: "sv_conn (readPump E s) = sv_conn s" using readPump_same [of s E] by (simp add: same_call_def)
  have "sv_ReadDone (readPump E s) \<or> sv_pos (readPump E s) \<le> k"
  proof (cases "sv_pos s = k")
    case True
    then show ?thesis using readPump_end [OF False] k by blast
  next
    case ne: False
    then show ?thesis using readPump_moves [OF False, of E] k(1) by auto
  qed
  with k c show ?thesis by (simp add: before_end_def)
qed (simp add: readPump_done)

lemma reads_same: "same_call s ((readPump E ^^ n) s)"
  by (induction n) (auto intro: same_call_trans readPump_same)

lemma reads_before_end: "before_end E k s \<Longrightarrow> before_end E k ((readPump E ^^ n) s)"
  by (induction n) (auto intro: readPump_before_end)

lemma reads_move: "sv_pos s \<le> sv_pos ((readPump E ^^ n) s) \<and>
   (sv_pos ((readPump E ^^ n) s) = sv_pos s \<longrightarrow> sv_Resp ((readPump E ^^ n) s) = sv_Resp s)"
proof (induction n)
  case (Suc n)
  let ?u = "(readPump E ^^ n) s"
  show ?case
    using Suc readPump_done [of ?u E] readPump_moves [of ?u E] by (cases "sv_ReadDone ?u") auto
qed simp

lemma reads_done: "sv_ReadDone s \<Longrightarrow> (readPump E ^^ n) s = s"
  by (induction n) (simp_all add: readPump_done)

section \<open>A call to the server\<close>

text \<open>An attempt either fails without a message, or queues one and waits.\<close>

lemma write_once_cases:
  assumes "write_once E a ps s = (x, t)"
  obtains (failed) r where "write_once E a ps s = (Done r, t)" "r \<noteq> Ok ()" "sv_queued t = sv_queued s"
    | (awaited) k u m where "write_once E a ps s = await E k u" "sv_conn u = sv_conn s" "sv_queued u = sv_queued s @ [m]"
        "bm_Action m = a" "bm_Params m = ps" "sv_pos u = sv_pos s" "sv_ReadDone u = sv_ReadDone s" "sv_Resp u k = None"
proof -
  let ?k = "uuidV4 E (sb_clock (sv_bot s))"
  let ?s = "s\<lparr>sv_bot := (sv_bot s)\<lparr>sb_clock := Suc (sb_clock (sv_bot s))\<rparr>,
              sv_Transactions := tmap_set ?k ?k (sv_Transactions s), sv_Resp := (sv_Resp s)(?k := None)\<rparr>"
  let ?m = "\<lparr>bm_ID = ?k, bm_Action = a, bm_Params = ps, bm_Data = [], bm_Error = None\<rparr>"
  let ?w = "writePump E ?s"
  note w = writePump_same [of ?s E]
  show thesis
  proof (cases "jsonBlaze E ?m")
    case (Ok data)
    let ?v = "?w\<lparr>sv_WriteBuffer := sv_WriteBuffer ?w @ [data], sv_queued := sv_queued ?w @ [?m]\<rparr>"
    show thesis
    proof (cases "buffer_size \<le> length (sv_WriteBuffer ?w)")
      case True
      with Ok assms have "write_once E a ps s = (Done (Err ''timeout to write''), ?w)" by (simp add: write_once_def Let_def)
      with failed [of "Err ''timeout to write''"] assms w show thesis by (simp add: undisturbed_simps)
    next
      case False
      with Ok have "write_once E a ps s = await E ?k ?v" by (simp add: write_once_def Let_def)
      from awaited [OF this, of ?m] w show thesis by (simp add: undisturbed_simps)
    qed
  next
    case (Err e)
    then have "write_once E a ps s = (Done (Err e), ?s)" by (simp add: write_once_def Let_def)
    with failed [of "Err e"] assms show thesis by auto
  next
    case (Panic e)
    then have "write_once E a ps s = (Done (Panic e), ?s)" by (simp add: write_once_def Let_def)
    with failed [of "Panic e"] assms show thesis by auto
  qed
qed

lemma await_cases:
  assumes "await E k u = (x, t)"
  shows "same_call u t" "x = Again \<Longrightarrow> sv_Resp t k \<noteq> None" "\<exists>n. t = (readPump E ^^ n) (writePump E u)"
proof -
  let ?n = "framesInWait E (sb_clock (sv_bot u))"
  have t: "t = (readPump E ^^ ?n) (writePump E u)"
    using assms by (simp add: await_def pumps_def Let_def split: option.splits if_splits)
  then show "\<exists>n. t = (readPump E ^^ n) (writePump E u)" ..
  show "same_call u t" unfolding t using writePump_same [of u E] reads_same
    by (auto simp: undisturbed_def intro: same_call_trans)
  show "sv_Resp t k \<noteq> None" if "x = Again"
    using assms that by (auto simp: await_def Let_def split: option.splits if_splits)
qed

lemma write_once_queued:
  assumes "write_once E a ps s = (x, t)"
  shows "\<exists>ms. sv_queued t = sv_queued s @ ms \<and> (\<forall>m \<in> set ms. bm_Action m = a \<and> bm_Params m = ps) \<and> (x = Done (Ok ()) \<longrightarrow> ms \<noteq> [])"
  using assms
proof (cases rule: write_once_cases)
  case failed
  with assms show ?thesis by auto
next
  case (awaited k u m)
  with assms have "same_call u t" by (metis await_cases(1))
  with awaited show ?thesis by (intro exI [of _ "[m]"]) (simp add: same_call_def)
qed

lemma write_again:
  assumes "write_once E a ps s = (Again, t)" "before_end E k s"
  shows "before_end E k t \<and> \<not> sv_ReadDone s \<and> sv_pos s < sv_pos t"
  using assms(1)
proof (cases rule: write_once_cases)
  case failed
  with assms(1) show ?thesis by simp
next
  case (awaited i u m)
  with assms(1) have aw: "await E i u = (Again, t)" by simp
  let ?v = "writePump E u"
  obtain n where n: "t = (readPump E ^^ n) ?v" using await_cases(3) [OF aw] by blast
  have v: "sv_pos ?v = sv_pos s" "sv_ReadDone ?v = sv_ReadDone s" "sv_conn ?v = sv_conn s" "sv_Resp ?v i = None"
    using writePump_same [of u E] awaited by (simp_all add: undisturbed_simps)
  have r: "sv_Resp t i \<noteq> None" using await_cases(2) [OF aw] by simp
  have b: "before_end E k ?v" using assms(2) v by (simp add: before_end_def)
  have "\<not> sv_ReadDone ?v" using r v(4) reads_done [where s = ?v and E = E and n = n] n by auto
  moreover have "sv_pos ?v \<noteq> sv_pos t" using reads_move [where s = ?v and E = E and n = n] r v(4) n by auto
  ultimately show ?thesis using reads_before_end [OF b, where n = n] reads_move [where s = ?v and E = E and n = n] n v by auto
qed

lemmas call_induct = writeMessageAndWait.raw_induct [rotated, consumes 1, case_names step]

text \<open>The state after \<open>n\<close> attempts.\<close>

fun attempts :: "'z service_env_scheme \<Rightarrow> string \<Rightarrow> params option \<Rightarrow> nat \<Rightarrow> service \<Rightarrow> service" where
  "attempts E a ps 0 s = s"
| "attempts E a ps (Suc n) s = attempts E a ps n (snd (write_once E a ps s))"

lemma call_unfold: "writeMessageAndWait E a ps s = (case write_once E a ps s of
   (Done r, t) \<Rightarrow> Some (r, t) | (Again, t) \<Rightarrow> writeMessageAndWait E a ps t)"
  by (subst writeMessageAndWait.simps) simp

lemma call_ends: "fst (write_once E a ps (attempts E a ps n s)) = Done r \<Longrightarrow> writeMessageAndWait E a ps s \<noteq> None"
proof (induction n arbitrary: s)
  case 0
  then show ?case by (auto simp: call_unfold [of E a ps s] split: prod.splits attempt.splits)
next
  case (Suc n)
  obtain x t where w: "write_once E a ps s = (x, t)" by force
  show ?case
  proof (cases x)
    case Again
    with w Suc.prems Suc.IH [of t] show ?thesis by (simp add: call_unfold [of E a ps s])
  qed (simp add: call_unfold [of E a ps s] w)
qed

lemma call_ended: "writeMessageAndWait E a ps s = Some y \<Longrightarrow> \<exists>n r. fst (write_once E a ps (attempts E a ps n s)) = Done r"
proof (induction rule: call_induct)
  case (step f E a ps s y)
  obtain x t where w: "write_once E a ps s = (x, t)" by force
  show ?case
  proof (cases x)
    case Again
    with step(2) w have "f E a ps t = Some y" by simp
    from step(1) [OF this] obtain n r where "fst (write_once E a ps (attempts E a ps n t)) = Done r" by blast
    with w show ?thesis by (intro exI [of _ "Suc n"] exI [of _ r]) simp
  next
    case (Done r)
    with w show ?thesis by (intro exI [of _ 0] exI [of _ r]) simp
  qed
qed

lemma call_before_end: "before_end E k s \<Longrightarrow> writeMessageAndWait E a ps s \<noteq> None"
proof (induction "Suc k - sv_pos s" arbitrary: s rule: less_induct)
  case less
  obtain x t where w: "write_once E a ps s = (x, t)" by force
  show ?case
  proof (cases x)
    case Again
    from write_again [OF w [unfolded Again] less.prems] have t: "before_end E k t" "\<not> sv_ReadDone s" "sv_pos s < sv_pos t" by auto
    with less.prems have "Suc k - sv_pos t < Suc k - sv_pos s" by (auto simp: before_end_def)
    from less.hyps [OF this t(1)] show ?thesis using w Again by (simp add: call_unfold [of E a ps s])
  qed (simp add: call_unfold [of E a ps s] w)
qed

text \<open>A call is repeated without a bound: it does not return exactly when every attempt is answered with an error other than
  403. It returns on every connection that ends.\<close>

theorem call_repeats:
  "(writeMessageAndWait E a ps s = None \<longleftrightarrow> (\<forall>n. fst (write_once E a ps (attempts E a ps n s)) = Again)) \<and>
   (\<forall>k e. sv_pos s \<le> k \<and> blazeFrames E (sv_conn s) k = ReadError e \<longrightarrow> writeMessageAndWait E a ps s \<noteq> None)"
proof (intro conjI allI impI)
  show "writeMessageAndWait E a ps s = None \<longleftrightarrow> (\<forall>n. fst (write_once E a ps (attempts E a ps n s)) = Again)"
    by (metis attempt.exhaust attempt.distinct(1) call_ended call_ends option.exhaust)
  show "writeMessageAndWait E a ps s \<noteq> None" if "sv_pos s \<le> k \<and> blazeFrames E (sv_conn s) k = ReadError e" for k e
    by (rule call_before_end [of E k]) (use that in \<open>auto simp: before_end_def\<close>)
qed

text \<open>The server answers every attempt with an error.\<close>

lemma demo_service_fields [simp]:
  "uuidV4 (demo_service err) = demo_tick" "jsonBlaze (demo_service err) m = Ok (bm_ID m)" "framesInWait (demo_service err) i = 1"
  "connWrite (demo_service err) c n b = Ok ()" "gzipWrite (demo_service err) b = b" "gzipRead (demo_service err) b = Ok b"
  "blazeFrames (demo_service err) c n = BinaryFrame (demo_tick n)"
  "jsonReadBlaze (demo_service err) b = Ok \<lparr>bm_ID = b, bm_Action = [], bm_Params = None, bm_Data = [], bm_Error = err\<rparr>"
  "dbFault (demo_service err) i = None" "dbOrder (demo_service err) i rows = rows" "sb_others (demo_service err) i rows = rows"
  "uuidString (demo_service err) = uuidString demo_sbot" "uuidFromString (demo_service err) = uuidFromString demo_sbot"
  by (simp_all add: demo_service_def demo_sbot_simps service_env.defs)

definition demo_running :: "service \<Rightarrow> bool" where
  "demo_running s \<longleftrightarrow> \<not> sv_ReadDone s \<and> \<not> sv_WriteDone s \<and> \<not> sv_closed s \<and> sv_writing s \<and> sv_WriteBuffer s = [] \<and> sv_pos s = sb_clock (sv_bot s)"

lemma demo_attempt:
  assumes "demo_running s"
  shows "\<exists>t. write_once (demo_service err) a ps s = (case err of Some c \<Rightarrow> if c \<noteq> 403 then Again else Done (Ok ()) | None \<Rightarrow> Done (Ok ()), t)
    \<and> sv_queued t = sv_queued s @ [\<lparr>bm_ID = demo_tick (sb_clock (sv_bot s)), bm_Action = a, bm_Params = ps, bm_Data = [], bm_Error = None\<rparr>]
    \<and> sv_bot t = (sv_bot s)\<lparr>sb_clock := Suc (sb_clock (sv_bot s))\<rparr> \<and> demo_running t"
  using assms
  by (simp add: demo_running_def write_once_def await_def pumps_def writePump_def writeGzipToConn_def readPump_def parseMessage_def
    retrive_def tmap_set_def buffer_size_def Let_def split: option.split)

lemma demo_refused:
  assumes "demo_running s"
  shows "fst (write_once (demo_service (Some 500)) a ps s) = Again \<and> demo_running (snd (write_once (demo_service (Some 500)) a ps s))"
proof -
  obtain t where "write_once (demo_service (Some 500)) a ps s = (Again, t) \<and> demo_running t"
    using demo_attempt [OF assms, of "Some 500" a ps] by (elim exE) simp
  then show ?thesis by simp
qed

theorem call_repeats_witness:
  "writeMessageAndWait (demo_service (Some 500)) ''LIST_PENDING_MESSAGES'' None (new_context (demo_state []) 0) = None \<and>
   writeMessageAndWait ((demo_service (Some 500))\<lparr>blazeFrames := \<lambda>c n. if n = 2 then ReadError ''EOF'' else BinaryFrame (demo_tick n)\<rparr>)
     ''LIST_PENDING_MESSAGES'' None (new_context (demo_state []) 0) \<noteq> None"
proof -
  let ?E = "demo_service (Some 500)" and ?a = "''LIST_PENDING_MESSAGES''" and ?s = "new_context (demo_state []) 0"
  have run: "demo_running ?s" by (simp add: demo_running_def new_context_def demo_state_def)
  have "fst (write_once ?E ?a None (attempts ?E ?a None n s)) = Again \<and> demo_running (attempts ?E ?a None n s)" if "demo_running s" for n s
    using that
  proof (induction n arbitrary: s)
    case 0
    then show ?case using demo_refused by simp
  next
    case (Suc n)
    from Suc.IH [OF conjunct2 [OF demo_refused [OF Suc.prems]]] show ?case by simp
  qed
  with run have all: "\<forall>n. fst (write_once ?E ?a None (attempts ?E ?a None n ?s)) = Again" by blast
  show ?thesis
  proof
    show "writeMessageAndWait ?E ?a None ?s = None"
      by (rule call_repeats [THEN conjunct1, THEN iffD2, OF all])
    show "writeMessageAndWait (?E\<lparr>blazeFrames := \<lambda>c n. if n = 2 then ReadError ''EOF'' else BinaryFrame (demo_tick n)\<rparr>) ?a None ?s \<noteq> None"
      by (rule call_repeats [THEN conjunct2, THEN spec [of _ 2], THEN spec [of _ "''EOF''"], THEN mp]) (simp add: new_context_def)
  qed
qed

section \<open>Answer and acknowledgement\<close>

lemma call_queued: "writeMessageAndWait E a ps s = Some (r, t) \<Longrightarrow>
   \<exists>ms. sv_queued t = sv_queued s @ ms \<and> (\<forall>m \<in> set ms. bm_Action m = a \<and> bm_Params m = ps) \<and> (r = Ok () \<longrightarrow> ms \<noteq> [])"
proof (induction "(r, t)" rule: call_induct)
  case (step f E a ps s)
  obtain x u where w: "write_once E a ps s = (x, u)" by force
  from write_once_queued [OF w] have u: "\<exists>ms. sv_queued u = sv_queued s @ ms \<and> (\<forall>m \<in> set ms. bm_Action m = a \<and> bm_Params m = ps)
      \<and> (x = Done (Ok ()) \<longrightarrow> ms \<noteq> [])" .
  show ?case
  proof (cases x)
    case Again
    with step(2) w have "f E a ps u = Some (r, t)" by simp
    from step(1) [OF this] u show ?thesis by fastforce
  next
    case (Done q)
    with step(2) w u show ?thesis by auto
  qed
qed

text \<open>C25: a message is acknowledged after it was answered. When the loop handles a plain message of a user and queues the
  receipt, it has got the code of a payment for the user, and has queued the answer with this code, at least once, before
  the receipt. Nothing else is queued, and every attempt carries the same conversation, the same text and the same receipt.\<close>

theorem acknowledged_after_answer:
  assumes "handle_view E v s = Some (r, t)" and "str_contains (mv_Category v) ''PLAIN_''"
    and "m \<in> set (drop (length (sv_queued s)) (sv_queued t))" and "bm_Action m = ''ACKNOWLEDGE_MESSAGE_RECEIPT''"
  shows "\<exists>c b k ys zs. HandleMessage E (mv_UserID v) (sv_bot s) = (Ok c, b) \<and> sv_queued t = sv_queued s @ ys @ zs \<and> ys \<noteq> [] \<and>
     (\<forall>y \<in> set ys. bm_Action y = ''CREATE_MESSAGE'' \<and> bm_Params y = Some (reply_params E v k c)) \<and>
     (\<forall>z \<in> set zs. bm_Action z = ''ACKNOWLEDGE_MESSAGE_RECEIPT'' \<and> bm_Params z = Some (ack_params v))"
proof -
  have hv: "then_do (answer E v s) (writeMessageAndWait E ''ACKNOWLEDGE_MESSAGE_RECEIPT'' (Some (ack_params v))) = Some (r, t)"
    using assms(1,2) by (simp add: handle_view_def)
  then obtain q u where ans: "answer E v s = Some (q, u)" by (cases "answer E v s") (auto simp: then_do_def)
  have ack: "q = Ok () \<Longrightarrow> writeMessageAndWait E ''ACKNOWLEDGE_MESSAGE_RECEIPT'' (Some (ack_params v)) u = Some (r, t)"
      "q \<noteq> Ok () \<Longrightarrow> t = u"
    using hv unfolding ans then_do_def by (cases q; simp)+
  obtain x b where h: "HandleMessage E (mv_UserID v) (sv_bot s) = (x, b)" by force
  show ?thesis
  proof (cases x)
    case (Ok c)
    let ?b = "b\<lparr>sb_clock := Suc (sb_clock b)\<rparr>" and ?k = "uuidV4 E (sb_clock b)"
    from ans h Ok have call: "writeMessageAndWait E ''CREATE_MESSAGE'' (Some (reply_params E v ?k c)) (s\<lparr>sv_bot := ?b\<rparr>) = Some (q, u)"
      by (simp add: answer_def on_bot_def abind_def draw_def lift_def)
    obtain ys where ys: "sv_queued u = sv_queued (s\<lparr>sv_bot := ?b\<rparr>) @ ys \<and>
      (\<forall>y \<in> set ys. bm_Action y = ''CREATE_MESSAGE'' \<and> bm_Params y = Some (reply_params E v ?k c)) \<and> (q = Ok () \<longrightarrow> ys \<noteq> [])"
      using call_queued [OF call] by (elim exE)
    have q: "q = Ok ()"
    proof (rule ccontr)
      assume "q \<noteq> Ok ()"
      with ack(2) ys assms(3,4) show False by auto
    qed
    obtain zs where "sv_queued t = sv_queued u @ zs \<and>
      (\<forall>z \<in> set zs. bm_Action z = ''ACKNOWLEDGE_MESSAGE_RECEIPT'' \<and> bm_Params z = Some (ack_params v)) \<and> (r = Ok () \<longrightarrow> zs \<noteq> [])"
      using call_queued [OF ack(1) [OF q]] by (elim exE)
    with h Ok ys q show ?thesis
      by (intro exI [of _ c] exI [of _ b] exI [of _ ?k] exI [of _ ys] exI [of _ zs]) simp
  next
    case (Err e)
    with ans h have "q \<noteq> Ok () \<and> sv_queued u = sv_queued s" by (auto simp: answer_def on_bot_def abind_def)
    with ack(2) assms(3) show ?thesis by simp
  next
    case (Panic e)
    with ans h have "q \<noteq> Ok () \<and> sv_queued u = sv_queued s" by (auto simp: answer_def on_bot_def abind_def)
    with ack(2) assms(3) show ?thesis by simp
  qed
qed

lemma demo_call:
  assumes "demo_running s"
  obtains t where "writeMessageAndWait (demo_service None) a ps s = Some (Ok (), t)"
    "sv_queued t = sv_queued s @ [\<lparr>bm_ID = demo_tick (sb_clock (sv_bot s)), bm_Action = a, bm_Params = ps, bm_Data = [], bm_Error = None\<rparr>]"
    "demo_running t"
  using demo_attempt [OF assms, of None a ps] by (auto simp: call_unfold [of _ a ps s])

text \<open>A user with a pending payment writes to the bot.\<close>

theorem acknowledged_after_answer_witness:
  "let v = \<lparr>mv_ConversationID = ''c'', mv_UserID = demo_user, mv_MessageID = ''m'', mv_Category = ''PLAIN_TEXT'', mv_Data = [],
       mv_Status = [], mv_Source = [], mv_CreatedAt = 0, mv_UpdatedAt = 0\<rparr>;
     p = demo_payment\<lparr>pm_State := PaymentStatePending\<rparr>;
     s = (new_context (demo_state [p]) 0)\<lparr>sv_pos := 2\<rparr> in
   \<exists>t y z. handle_view (demo_service None) v s = Some (Ok (), t) \<and> sv_queued t = [y, z] \<and>
     bm_Action y = ''CREATE_MESSAGE'' \<and> bm_Action z = ''ACKNOWLEDGE_MESSAGE_RECEIPT''"
proof -
  let ?v = "\<lparr>mv_ConversationID = ''c'', mv_UserID = demo_user, mv_MessageID = ''m'', mv_Category = ''PLAIN_TEXT'', mv_Data = [],
       mv_Status = [], mv_Source = [], mv_CreatedAt = 0, mv_UpdatedAt = 0\<rparr>"
  let ?E = "demo_service None" and ?p = "demo_payment\<lparr>pm_State := PaymentStatePending\<rparr>"
  let ?s = "(new_context (demo_state [?p]) 0)\<lparr>sv_pos := 2\<rparr>"
  have "canonical ?E demo_user = canonical demo_sbot demo_user" by (simp add: canonical_def uuidOrNil_def)
  then have can: "canonical ?E demo_user" by (simp add: demo_user_def demo_canonical)
  let ?b = "\<lparr>sb_rows = [?p], sb_tx = [], sb_clock = 1, sb_log = []\<rparr>"
  have h: "HandleMessage ?E demo_user (demo_state [?p]) = (Ok ''code'', ?b)"
    using can by (simp add: HandleMessage_def FindPaymentByMemo_def run_simps demo_state_def first_row_def demo_payment_def PaymentStatePending_def)
  let ?u = "?s\<lparr>sv_bot := ?b\<lparr>sb_clock := 2\<rparr>\<rparr>"
  have run: "demo_running ?u" by (simp add: demo_running_def new_context_def)
  let ?ps = "Some (reply_params ?E ?v (demo_tick 1) ''code'')"
  have ans: "answer ?E ?v ?s = writeMessageAndWait ?E ''CREATE_MESSAGE'' ?ps ?u"
    using h by (simp add: answer_def on_bot_def abind_def draw_def lift_def new_context_def numeral_2_eq_2)
  from demo_call [OF run, of "''CREATE_MESSAGE''" ?ps] obtain x where x: "writeMessageAndWait ?E ''CREATE_MESSAGE'' ?ps ?u = Some (Ok (), x)"
    "sv_queued x = sv_queued ?u @ [\<lparr>bm_ID = demo_tick (sb_clock (sv_bot ?u)), bm_Action = ''CREATE_MESSAGE'', bm_Params = ?ps, bm_Data = [], bm_Error = None\<rparr>]"
    "demo_running x" .
  let ?qs = "Some (ack_params ?v)"
  from demo_call [OF x(3), of "''ACKNOWLEDGE_MESSAGE_RECEIPT''" ?qs] obtain t where
    t: "writeMessageAndWait ?E ''ACKNOWLEDGE_MESSAGE_RECEIPT'' ?qs x = Some (Ok (), t)"
    "sv_queued t = sv_queued x @ [\<lparr>bm_ID = demo_tick (sb_clock (sv_bot x)), bm_Action = ''ACKNOWLEDGE_MESSAGE_RECEIPT'', bm_Params = ?qs, bm_Data = [], bm_Error = None\<rparr>]"
    "demo_running t" .
  have pl: "str_contains ''PLAIN_TEXT'' ''PLAIN_''" by simp
  have hv: "handle_view ?E ?v ?s = Some (Ok (), t)" using ans x(1) t(1) pl by (simp add: handle_view_def then_do_def)
  have q: "sv_queued ?s = []" "sv_queued t = [y, z]" if "y = last (sv_queued x)" "z = last (sv_queued t)" for y z
    using t(2) x(2) that by (simp_all add: new_context_def)
  let ?y = "last (sv_queued x)" and ?z = "last (sv_queued t)"
  have z: "bm_Action ?z = ''ACKNOWLEDGE_MESSAGE_RECEIPT''" "?z \<in> set (sv_queued t)" using t(2) by simp_all
  have "\<exists>c b k ys zs. HandleMessage ?E (mv_UserID ?v) (sv_bot ?s) = (Ok c, b) \<and> sv_queued t = sv_queued ?s @ ys @ zs \<and> ys \<noteq> [] \<and>
     (\<forall>y \<in> set ys. bm_Action y = ''CREATE_MESSAGE'' \<and> bm_Params y = Some (reply_params ?E ?v k c)) \<and>
     (\<forall>z \<in> set zs. bm_Action z = ''ACKNOWLEDGE_MESSAGE_RECEIPT'' \<and> bm_Params z = Some (ack_params ?v))"
    by (rule acknowledged_after_answer [OF hv, of ?z]) (use pl q(1) [of ?y ?z] z in simp_all)
  then have "bm_Action ?y = ''CREATE_MESSAGE''" using q [of ?y ?z] by (auto simp: append_eq_Cons_conv Cons_eq_append_conv)
  then show ?thesis unfolding Let_def using hv q(2) [of ?y ?z] z(1) by blast
qed

end
