(* ===== verification/Spec2Isabelle.thy ===== *)
theory Spec2Isabelle
  imports Machine_Props Quorum_Props Token_Laws Proxy_Laws Eos_Props Bridge_Props Command_Props Sample_Service_Props
begin

text \<open>
  A verification of the Mixin Virtual Machine: the trusted group (MTG) that carries assets of the Mixin network to
  processes on other chains and back, under mvm/, and the bot that shows its use, under sample/.

  \<^bold>\<open>The program.\<close> Every node of the group runs one machine (mvm/machine). Outputs of the group's multisig account arrive
  in order with a memo that decodes to an operation (mvm/encoding): add a process, credit it, or send it an event.
  The machine stores what it does in a badger database (mvm/store), books the asset in and out of the account of the
  process, and puts an event for the process in a queue. The signing loop signs the pending events with the node's
  share of a threshold BLS key and broadcasts the partial signatures in messages of the group; the receiving loop
  collects them, recovers the group's signature, and moves the event to the queue of signed events. The sending loop
  of a process hands those to the engine of the chain the process lives on: mvm/quorum, which submits each event to
  the contract as an Ethereum transaction, or mvm/eos, which pushes it as an action of an EOS contract with the signatures
  of the nodes. What the contracts answer comes back through the engine as
  events in the order of their nonces, and the receiving loop of the process turns each into a debit and a
  transaction of the group. On EOS the contracts are part of this repository (mvm/eos/contracts): mtg.xin keeps the
  signers and processes and numbers the requests, mixinproxy gives members accounts and wrapped tokens, its token
  contract keeps balances, and dappdemo is an example of a process.

  \<^bold>\<open>The theories.\<close>
  \<^item> \<open>TG_Prelude\<close>: results of fallible code (\<open>Ok\<close>, \<open>Err\<close> for a returned error or a failed check, \<open>Panic\<close>), big-endian
    integers, and the collections of simplification rules. \<open>Text_Codecs\<close>: hex, base64 and decimal text.
  \<^item> \<open>Badger\<close>: the database, as a map from keys to values with iteration in key order and transactions whose calls may
    fail one by one.
  \<^item> \<open>Encoding\<close>: encoding/event.go and operation.go. \<open>Wire_Lib\<close>: round trips, bounds and injectivity of the formats.
  \<^item> \<open>Store\<close>: the methods of \<open>BadgerStore\<close> in store/*.go with their keys. \<open>Store_Laws\<close>: each database operation refines an
    operation on abstract queues, balances and tables (the locales state what a client relies on), with the properties
    of the account of a process, the pending queue and the signed queue.
  \<^item> \<open>Machine\<close>: machine/*.go, \<open>Boot\<close>, the handlers of outputs, and the four loops, one iteration each with its early
    exits. \<open>Machine_Laws\<close> and \<open>Machine_Props\<close>: the invariants of reachable states and the properties across the store, the
    signer and the loops.
  \<^item> \<open>Quorum\<close>: quorum/engine.go, store.go, rpc.go and transaction.go, over an Ethereum node given by its replies.
    \<open>Quorum_Laws\<close> and \<open>Quorum_Props\<close>: the queue of each contract, the scan of logs, and the hand-over from the machine.
  \<^item> \<open>Eos_Chain\<close>: tables and library of the chain the contracts run on. \<open>Mtg_Xin\<close>, \<open>Dappdemo\<close>, \<open>Mixinproxy\<close>, \<open>Eos_Token\<close>: the
    actions of the four contracts. \<open>Contract_Laws\<close>: the signature check, the numbering of logs, the order of execution.
    \<open>Token_Laws\<close>: the supply is what its holders own, less what direct calls of \<open>retireex\<close> retired.
    \<open>Proxy_Laws\<close>: nonces, accounts and the handling of events.
  \<^item> \<open>Eos_Wire\<close>: mvm/eos/structs.go and utils.go, the messages between the EOS engine and the contracts. \<open>Eos_Engine\<close>:
    engine.go and store.go. \<open>Eos_Wire_Laws\<close>, \<open>Eos_Engine_Laws\<close> and \<open>Eos_Props\<close>: the engine and the contracts agree on
    the bytes, the queues keep the contract of an engine, requests are pulled without gaps, and where that fails.
  \<^item> \<open>Bridge_Store\<close>: quorum/bridge/storage.go with its structs. \<open>Bridge\<close>: the rest of the bridge, mvm.go, action.go, domain.go,
    withdrawal.go, proxy.go, user.go and http.go, as state transformers that keep their effects when they fail.
    \<open>Bridge_Laws\<close>: relations that every function keeps (the locale \<open>act_relation\<close>, interpreted on the types in the database
    and on what is pending), and the bytes of a call. \<open>Bridge_Demo\<close>: a concrete service. \<open>Bridge_Props\<close>: every transfer is
    answered, what the machine parses, the order of snapshots, and where withdrawals go wrong.
  \<^item> \<open>Effects\<close>: the state transformers that the bridge and the commands are written in. \<open>Command\<close>: boot.go, publish.go,
    invoke.go, message.go, monitor.go and config/reader.go. \<open>Mvm_Rpc\<close>: rpc/http.go and info.go. \<open>Command_Props\<close>: a
    published process is added, a booted machine is ready, and the server tells the machine's key.
  \<^item> \<open>Sample_Bot\<close>: sample/models, the database under it, and what main.go starts; three goroutines share a table of payments,
    and before each statement the others have their turn. \<open>Sample_Service\<close>: sample/services, the connection to the
    messenger with its pumps. \<open>Sample_Laws\<close> and \<open>Sample_Message_Laws\<close>: rely and guarantee for the goroutines (the locale
    \<open>row_owner\<close>, interpreted on the loops over pending and over paid payments) and for the transaction of a new payment.
    \<open>Sample_Demo\<close>: a concrete bot. \<open>Sample_Props\<close> and \<open>Sample_Service_Props\<close>: payments move forward, a user is asked for one
    payment, a refund is marked when the network has it, and a message is acknowledged after it was answered.

  \<^bold>\<open>State and effects.\<close> A node's state is a record; a method is a function from it to a result with the new state. A database
  transaction is atomic: an \<open>Err\<close> inside keeps the old database, and a \<open>Panic\<close> ends the node with the database it had.
  Loops that never end are modelled by one iteration; the properties quantify over every sequence of iterations of every
  loop, through inductive reachability predicates, so they hold for every interleaving at the granularity of an
  iteration. Every loop inside an iteration is a structural recursion or a \<open>function\<close> with a termination proof, but two of
  the EOS engine, \<open>syncNetwork\<close> and \<open>pull_loop\<close>, and two of the sample's service, \<open>writeMessageAndWait\<close> and \<open>select_loop\<close>, that
  may not end: those are partial functions, \<open>None\<close> when they go on for ever, and it is proved when the first three return.
  The loops of the sample over its table run for a given number of rounds, which the properties leave open. No fuel is
  used. Nonces and timestamps are 64-bit words, identifiers and amounts on EOS 128-bit words; \<open>common.Integer\<close> is an
  integer in units of the eighth decimal and a decimal a rational.

  \<^bold>\<open>Parameters.\<close> Code outside the repository is an argument: the BLS library with the laws of threshold signatures, hashes
  and UUIDs, the Ethereum node and signer, the group library (which delivers outputs and builds transactions), and the
  chain library of the EOS contracts. What a property relies on is a locale or a hypothesis of the property, and each
  such property has a witness with a concrete instance.

  \<^bold>\<open>What the properties show.\<close> No event is in the signed queue without a valid signature of the group on its encoding; the
  balance of a process in an asset is the sum of its credits less its debits and no withdrawal is paid that was not
  debited; nonces of a process are consecutive and each output is booked once, also across a crash; the encodings
  round-trip; the machine's memory agrees with its database; the quorum engine hands each signed event to the contract,
  in the order of nonces, and reads back every log of a stable chain. For the EOS contracts: a verified action carries a
  quorum of signatures, logs are numbered without gaps, dappdemo executes events in order and once, mixinproxy accepts a
  nonce exactly when it is new, and the supply of a token is what its holders own, less what direct calls
  of \<open>retireex\<close> retired. Some properties state where the code
  falls short of this: a failed payment is skipped after its debit, a scan that races with a new block loses it,
  a short log panics the node, an error of the node reads as balance zero, one signer can pass for a quorum, anyone can
  replace the signers, dappdemo's threshold is too low, new members are rejected, and expired events are paid twice; the
  EOS engine mixes the queues of accounts of which one name begins the other, waits without a pause for a node that is
  behind, and stops at an event with the machine's own form of signature; the bridge drops a withdrawal of which one half
  is late, may pay one twice, and stops at an asset of a chain that it does not know; the sample bot compares the wrong
  number with the threshold and never sends a refund itself, and stops at the first output that waits for signatures.

  \<^bold>\<open>Not modelled.\<close> \<open>genPrivateKey\<close> of mvm/eos, which nothing calls; the console output of transactions, which is only
  logged; the bindings in quorum/bridge/abi, which are generated, and the functions that only connect the parts
  (\<open>OpenBadger\<close>, \<open>OpenStorage\<close>, \<open>NewProxy\<close>, \<open>Run\<close>, \<open>StartHTTP\<close>, \<open>NewServer\<close> and the main functions, of which the one
  of mvm declares the flags); of the sample, the log, the request context, the errors for HTTP that nothing uses, and the
  configuration, and in its service the timers and pings.
\<close>

end
